(* ===== verification/Prelude.thy ===== *)
theory Prelude
  imports Main "HOL-Library.Word" "HOL-Library.List_Lexorder" "HOL-Library.Char_ord"
    "HOL-Library.Multiset" "HOL-Library.Monad_Syntax"
begin

text \<open>
  Shared vocabulary of the development: the machine integers of the server (\<open>unsigned short\<close>,
  \<open>unsigned int\<close>, \<open>uint64\<close>), the collections of rewrite rules the component theories extend, and a
  model of \<open>std::map\<close> as an association list that is kept sorted by key, so that both look-up and
  iteration order are those of the C++ container.
\<close>

type_synonym u8 = "8 word"
type_synonym u16 = "16 word"
type_synonym u32 = "32 word"
type_synonym u64 = "64 word"

named_theorems inv_intros
named_theorems smap_simps

subsection \<open>\<open>std::map\<close>: sorted association lists\<close>

text \<open>
  \<open>smap_assign\<close> is \<open>m[k] = v\<close>, \<open>smap_emplace\<close> is \<open>insert\<close> or \<open>emplace\<close> (an existing key keeps its
  value), \<open>smap_erase\<close> is \<open>erase(key)\<close>; look-up is the library's \<open>map_of\<close>. \<open>smap_first\<close> is
  \<open>std::find_if\<close> over the whole map and \<open>smap_next\<close> is the entry after a given key, wrapping round.
\<close>

type_synonym ('k, 'v) smap = "('k \<times> 'v) list"

fun smap_assign :: "'k::linorder \<Rightarrow> 'v \<Rightarrow> ('k, 'v) smap \<Rightarrow> ('k, 'v) smap" where
  "smap_assign k v [] = [(k, v)]"
| "smap_assign k v ((k', v') # m) =
     (if k < k' then (k, v) # (k', v') # m
      else if k = k' then (k, v) # m
      else (k', v') # smap_assign k v m)"

definition smap_emplace :: "'k::linorder \<Rightarrow> 'v \<Rightarrow> ('k, 'v) smap \<Rightarrow> ('k, 'v) smap" where
  "smap_emplace k v m = (if map_of m k = None then smap_assign k v m else m)"

definition smap_erase :: "'k \<Rightarrow> ('k, 'v) smap \<Rightarrow> ('k, 'v) smap" where
  "smap_erase k m = filter (\<lambda>p. fst p \<noteq> k) m"

definition smap_ok :: "('k::linorder, 'v) smap \<Rightarrow> bool" where
  "smap_ok m = sorted_wrt (<) (map fst m)"

definition smap_first :: "('k \<times> 'v \<Rightarrow> bool) \<Rightarrow> ('k, 'v) smap \<Rightarrow> ('k \<times> 'v) option" where
  "smap_first p m = List.find p m"

lemma map_of_assign [smap_simps, simp]: "map_of (smap_assign k v m) = (map_of m)(k \<mapsto> v)"
  by (induction m rule: smap_assign.induct) (auto simp: fun_eq_iff)

lemma map_of_erase [smap_simps, simp]: "map_of (smap_erase k m) = (map_of m)(k := None)"
  by (induction m) (auto simp: smap_erase_def fun_eq_iff)

lemma map_of_emplace [smap_simps]:
  "map_of (smap_emplace k v m) = (if map_of m k = None then (map_of m)(k \<mapsto> v) else map_of m)"
  by (simp add: smap_emplace_def)

lemma keys_assign [simp]: "fst ` set (smap_assign k v m) = insert k (fst ` set m)"
  by (induction m rule: smap_assign.induct) auto

lemma set_assign_subset: "set (smap_assign k v m) \<subseteq> insert (k, v) (set m)"
  by (induction m rule: smap_assign.induct) auto

lemma smap_ok_Nil [simp, inv_intros]: "smap_ok []"
  by (simp add: smap_ok_def)

lemma smap_ok_Cons [simp]: "smap_ok (p # m) = ((\<forall>q \<in> set m. fst p < fst q) \<and> smap_ok m)"
  by (simp add: smap_ok_def)

lemma smap_ok_assign [simp, inv_intros]: "smap_ok m \<Longrightarrow> smap_ok (smap_assign k v m)"
proof (induction m rule: smap_assign.induct)
  case (2 k v k' v' m)
  then show ?case using set_assign_subset [of k v m] by fastforce
qed simp

lemma smap_ok_filter [simp, inv_intros]: "smap_ok m \<Longrightarrow> smap_ok (filter p m)"
  by (induction m) auto

lemma smap_ok_erase [simp, inv_intros]: "smap_ok m \<Longrightarrow> smap_ok (smap_erase k m)"
  by (simp add: smap_erase_def)

lemma smap_ok_emplace [simp, inv_intros]: "smap_ok m \<Longrightarrow> smap_ok (smap_emplace k v m)"
  by (simp add: smap_emplace_def)

lemma smap_assign_last: "\<forall>q \<in> set m. fst q < k \<Longrightarrow> smap_assign k v m = m @ [(k, v)]"
  by (induction m rule: smap_assign.induct) auto

lemma smap_assign_present:
  "map_of m k = Some v \<Longrightarrow> smap_ok m \<Longrightarrow>
     map fst (smap_assign k v' m) = map fst m
     \<and> sum_list (map f (smap_assign k v' m)) + (f (k, v) :: nat) = sum_list (map f m) + f (k, v')"
  by (induction m rule: smap_assign.induct) (auto split: if_splits dest!: map_of_SomeD)

lemma smap_ok_distinct: "smap_ok m \<Longrightarrow> distinct (map fst m)"
  unfolding smap_ok_def by (simp add: strict_sorted_iff)

lemma smap_ok_mem: "smap_ok m \<Longrightarrow> ((k, v) \<in> set m) = (map_of m k = Some v)"
  by (simp add: smap_ok_distinct)

lemma smap_first_Some: "smap_first p m = Some x \<Longrightarrow> x \<in> set m \<and> p x"
  by (auto simp: smap_first_def find_Some_iff in_set_conv_nth)

lemma smap_first_None: "(smap_first p m = None) = (\<forall>x \<in> set m. \<not> p x)"
  by (auto simp: smap_first_def find_None_iff)

lemma length_erase_le: "length (smap_erase k m) \<le> length m"
  by (simp add: smap_erase_def)

lemma length_erase_less: "k \<in> fst ` set m \<Longrightarrow> length (smap_erase k m) < length m"
  unfolding smap_erase_def by (auto intro: length_filter_less)

subsection \<open>Memory\<close>

text \<open>
  \<open>memcpy\<close> from and to a block of memory; \<open>None\<close> is an access outside the block, which the C++ program
  must never make.
\<close>

definition mem_read :: "u8 list \<Rightarrow> nat \<Rightarrow> nat \<Rightarrow> u8 list option" where
  "mem_read m off n = (if off + n \<le> length m then Some (take n (drop off m)) else None)"

definition mem_write :: "u8 list \<Rightarrow> nat \<Rightarrow> u8 list \<Rightarrow> u8 list option" where
  "mem_write m off xs =
     (if off + length xs \<le> length m then Some (take off m @ xs @ drop (off + length xs) m) else None)"

lemma mem_read_Some [simp]: "off + n \<le> length m \<Longrightarrow> mem_read m off n = Some (take n (drop off m))"
  by (simp add: mem_read_def)

lemma mem_write_Some [simp]:
  "off + length xs \<le> length m \<Longrightarrow>
     mem_write m off xs = Some (take off m @ xs @ drop (off + length xs) m)"
  by (simp add: mem_write_def)

lemma mem_write_length: "mem_write m off xs = Some m' \<Longrightarrow> length m' = length m"
  by (auto simp: mem_write_def split: if_splits)

text \<open>Integers in memory, least significant byte first.\<close>

fun bytes_of_nat :: "nat \<Rightarrow> nat \<Rightarrow> u8 list" where
  "bytes_of_nat 0 x = []"
| "bytes_of_nat (Suc n) x = of_nat (x mod 256) # bytes_of_nat n (x div 256)"

fun nat_of_bytes :: "u8 list \<Rightarrow> nat" where
  "nat_of_bytes [] = 0"
| "nat_of_bytes (b # bs) = unat b + 256 * nat_of_bytes bs"

lemma length_bytes_of_nat [simp]: "length (bytes_of_nat n x) = n"
  by (induction n x rule: bytes_of_nat.induct) auto

lemma bytes_of_nat_2: "bytes_of_nat 2 x = [of_nat (x mod 256), of_nat (x div 256 mod 256)]"
  by (simp add: numeral_2_eq_2)

lemma nat_of_bytes_bound: "nat_of_bytes bs < 256 ^ length bs"
proof (induction bs)
  case (Cons b bs)
  have "unat b < 256" using unsigned_less [of b] by simp
  then show ?case using Cons by simp
qed simp

lemma nat_of_bytes_of_nat [simp]: "nat_of_bytes (bytes_of_nat n x) = x mod 256 ^ n"
proof (induction n arbitrary: x)
  case (Suc n)
  have "unat (of_nat (x mod 256) :: u8) = x mod 256" by (simp add: unat_of_nat)
  then show ?case using Suc mod_mult2_eq [of x 256 "256 ^ n"] by simp
qed simp

subsection \<open>Words\<close>

text \<open>The range of a word of known width, and truncating casts read as naturals.\<close>

lemma mod_wrap: "s \<le> x \<Longrightarrow> x < 2 * s \<Longrightarrow> x mod s = x - s" for s x :: nat
  by (simp add: le_mod_geq)

lemma unat_minus: "b \<le> a \<Longrightarrow> unat (a - b :: 'a::len word) = unat a - unat b"
  by (rule unat_sub)

lemma unat_plus32: "unat a + unat b < 4294967296 \<Longrightarrow> unat (a + b :: u32) = unat a + unat b"
  by (simp add: unat_add_lem [symmetric])

lemma unat_u32_lt: "unat (w :: u32) < 4294967296"
  using unsigned_less [of w] by simp

lemma unat_u16_lt: "unat (w :: u16) < 65536"
  using unsigned_less [of w] by simp

lemma unat_ucast_16 [simp]: "unat (ucast (w :: u32) :: u16) = unat w mod 65536"
  by (simp add: unsigned_ucast_eq take_bit_eq_mod)

lemma unat_ucast_32 [simp]: "unat (ucast (w :: u16) :: u32) = unat w"
proof -
  have "unat w < 2 ^ 32" using unat_u16_lt [of w] by simp
  then show ?thesis by (simp only: unsigned_ucast_eq len_bit0 len_num1 mult_1_right)
    (simp add: take_bit_nat_eq_self)
qed

end
