(* ===== verification/MsgIds.thy ===== *)
theory MsgIds
  imports Prelude
begin

text \<open>
  The message identifiers of \<open>proto_id.proto\<close>, under the names they have there. An identifier is an
  \<open>int\<close>, as in \<open>Packet::GetMsgId\<close>; \<open>msg_ids\<close> lists the numbers of the enumeration, which is what
  \<open>FindValueByNumber\<close> is asked.
\<close>

abbreviation (input) MsgId_None :: int where "MsgId_None \<equiv> 0"
abbreviation (input) MI_NetworkConnect :: int where "MI_NetworkConnect \<equiv> 1"
abbreviation (input) MI_NetworkConnected :: int where "MI_NetworkConnected \<equiv> 2"
abbreviation (input) MI_NetworkListen :: int where "MI_NetworkListen \<equiv> 3"
abbreviation (input) MI_NetworkListenKey :: int where "MI_NetworkListenKey \<equiv> 4"
abbreviation (input) MI_NetworkDisconnect :: int where "MI_NetworkDisconnect \<equiv> 10"
abbreviation (input) MI_NetworkDisconnectEx :: int where "MI_NetworkDisconnectEx \<equiv> 11"
abbreviation (input) MI_NetworkRequestDisconnect :: int where "MI_NetworkRequestDisconnect \<equiv> 20"
abbreviation (input) MI_RemoveComponent :: int where "MI_RemoveComponent \<equiv> 50"
abbreviation (input) MI_CreateComponent :: int where "MI_CreateComponent \<equiv> 51"
abbreviation (input) MI_CreateSystem :: int where "MI_CreateSystem \<equiv> 52"
abbreviation (input) MI_Ping :: int where "MI_Ping \<equiv> 101"
abbreviation (input) MI_AppRegister :: int where "MI_AppRegister \<equiv> 102"
abbreviation (input) MI_AppInfoSync :: int where "MI_AppInfoSync \<equiv> 103"
abbreviation (input) MI_AppInfoListSync :: int where "MI_AppInfoListSync \<equiv> 104"
abbreviation (input) C2L_AccountCheck :: int where "C2L_AccountCheck \<equiv> 1000"
abbreviation (input) C2L_AccountCheckRs :: int where "C2L_AccountCheckRs \<equiv> 1001"
abbreviation (input) MI_AccountQueryOnlineToRedis :: int where "MI_AccountQueryOnlineToRedis \<equiv> 1002"
abbreviation (input) MI_AccountQueryOnlineToRedisRs :: int where "MI_AccountQueryOnlineToRedisRs \<equiv> 1003"
abbreviation (input) L2DB_QueryPlayerList :: int where "L2DB_QueryPlayerList \<equiv> 1010"
abbreviation (input) L2DB_QueryPlayerListRs :: int where "L2DB_QueryPlayerListRs \<equiv> 1011"
abbreviation (input) L2C_PlayerList :: int where "L2C_PlayerList \<equiv> 1012"
abbreviation (input) C2L_CreatePlayer :: int where "C2L_CreatePlayer \<equiv> 1014"
abbreviation (input) C2L_CreatePlayerRs :: int where "C2L_CreatePlayerRs \<equiv> 1015"
abbreviation (input) L2DB_CreatePlayer :: int where "L2DB_CreatePlayer \<equiv> 1016"
abbreviation (input) L2DB_CreatePlayerRs :: int where "L2DB_CreatePlayerRs \<equiv> 1017"
abbreviation (input) C2L_SelectPlayer :: int where "C2L_SelectPlayer \<equiv> 1018"
abbreviation (input) C2L_SelectPlayerRs :: int where "C2L_SelectPlayerRs \<equiv> 1019"
abbreviation (input) MI_LoginTokenToRedis :: int where "MI_LoginTokenToRedis \<equiv> 1022"
abbreviation (input) MI_LoginTokenToRedisRs :: int where "MI_LoginTokenToRedisRs \<equiv> 1023"
abbreviation (input) L2C_GameToken :: int where "L2C_GameToken \<equiv> 1024"
abbreviation (input) C2G_LoginByToken :: int where "C2G_LoginByToken \<equiv> 1100"
abbreviation (input) C2G_LoginByTokenRs :: int where "C2G_LoginByTokenRs \<equiv> 1101"
abbreviation (input) MI_GameTokenToRedis :: int where "MI_GameTokenToRedis \<equiv> 1102"
abbreviation (input) MI_GameTokenToRedisRs :: int where "MI_GameTokenToRedisRs \<equiv> 1103"
abbreviation (input) G2DB_QueryPlayer :: int where "G2DB_QueryPlayer \<equiv> 1104"
abbreviation (input) G2DB_QueryPlayerRs :: int where "G2DB_QueryPlayerRs \<equiv> 1105"
abbreviation (input) G2C_SyncPlayer :: int where "G2C_SyncPlayer \<equiv> 1106"
abbreviation (input) G2M_RequestWorld :: int where "G2M_RequestWorld \<equiv> 1108"
abbreviation (input) G2S_CreateWorld :: int where "G2S_CreateWorld \<equiv> 1109"
abbreviation (input) MI_Teleport :: int where "MI_Teleport \<equiv> 1110"
abbreviation (input) MI_TeleportAfter :: int where "MI_TeleportAfter \<equiv> 1111"
abbreviation (input) G2S_SyncPlayer :: int where "G2S_SyncPlayer \<equiv> 1112"
abbreviation (input) G2S_RequestSyncPlayer :: int where "G2S_RequestSyncPlayer \<equiv> 1113"
abbreviation (input) G2DB_SavePlayer :: int where "G2DB_SavePlayer \<equiv> 1114"
abbreviation (input) G2S_RemovePlayer :: int where "G2S_RemovePlayer \<equiv> 1115"
abbreviation (input) C2G_EnterWorld :: int where "C2G_EnterWorld \<equiv> 1116"
abbreviation (input) G2M_QueryWorld :: int where "G2M_QueryWorld \<equiv> 1117"
abbreviation (input) G2M_QueryWorldRs :: int where "G2M_QueryWorldRs \<equiv> 1118"
abbreviation (input) MI_CreateTeam :: int where "MI_CreateTeam \<equiv> 1201"
abbreviation (input) MI_GlobalChat :: int where "MI_GlobalChat \<equiv> 1202"
abbreviation (input) MI_WorldChat :: int where "MI_WorldChat \<equiv> 1203"
abbreviation (input) MI_TeamChat :: int where "MI_TeamChat \<equiv> 1204"
abbreviation (input) MI_PrivateChat :: int where "MI_PrivateChat \<equiv> 1205"
abbreviation (input) S2C_EnterWorld :: int where "S2C_EnterWorld \<equiv> 1501"
abbreviation (input) S2G_SyncPlayer :: int where "S2G_SyncPlayer \<equiv> 1502"
abbreviation (input) S2C_AllRoleAppear :: int where "S2C_AllRoleAppear \<equiv> 1503"
abbreviation (input) S2C_RoleDisappear :: int where "S2C_RoleDisappear \<equiv> 1504"
abbreviation (input) C2S_Move :: int where "C2S_Move \<equiv> 1505"
abbreviation (input) S2C_Move :: int where "S2C_Move \<equiv> 1506"
abbreviation (input) C2S_PlayerMove :: int where "C2S_PlayerMove \<equiv> 1507"
abbreviation (input) S2C_PlayerMove :: int where "S2C_PlayerMove \<equiv> 1508"
abbreviation (input) C2S_NpcMove :: int where "C2S_NpcMove \<equiv> 1509"
abbreviation (input) S2C_NpcMove :: int where "S2C_NpcMove \<equiv> 1510"
abbreviation (input) S2C_PlayerItems :: int where "S2C_PlayerItems \<equiv> 1601"
abbreviation (input) C2S_PlayerItems :: int where "C2S_PlayerItems \<equiv> 1602"
abbreviation (input) MI_BroadcastCreateWorld :: int where "MI_BroadcastCreateWorld \<equiv> 2001"
abbreviation (input) MI_BroadcastCreateWorldProxy :: int where "MI_BroadcastCreateWorldProxy \<equiv> 2002"
abbreviation (input) MI_WorldSyncToGather :: int where "MI_WorldSyncToGather \<equiv> 3001"
abbreviation (input) MI_WorldProxySyncToGather :: int where "MI_WorldProxySyncToGather \<equiv> 3002"
abbreviation (input) MI_DungeonDisapper :: int where "MI_DungeonDisapper \<equiv> 3003"
abbreviation (input) MI_AccountSyncOnlineToRedis :: int where "MI_AccountSyncOnlineToRedis \<equiv> 4001"
abbreviation (input) MI_AccountDeleteOnlineToRedis :: int where "MI_AccountDeleteOnlineToRedis \<equiv> 4002"
abbreviation (input) MI_PlayerSyncOnlineToRedis :: int where "MI_PlayerSyncOnlineToRedis \<equiv> 4003"
abbreviation (input) MI_PlayerDeleteOnlineToRedis :: int where "MI_PlayerDeleteOnlineToRedis \<equiv> 4004"
abbreviation (input) MI_RobotSyncState :: int where "MI_RobotSyncState \<equiv> 5001"
abbreviation (input) MI_RobotCreate :: int where "MI_RobotCreate \<equiv> 5002"
abbreviation (input) MI_HttpBegin :: int where "MI_HttpBegin \<equiv> 10000"
abbreviation (input) MI_HttpInnerResponse :: int where "MI_HttpInnerResponse \<equiv> 10001"
abbreviation (input) MI_HttpRequestBad :: int where "MI_HttpRequestBad \<equiv> 10002"
abbreviation (input) MI_HttpRequestLogin :: int where "MI_HttpRequestLogin \<equiv> 10003"
abbreviation (input) MI_HttpEnd :: int where "MI_HttpEnd \<equiv> 10499"
abbreviation (input) MI_HttpOuterRequest :: int where "MI_HttpOuterRequest \<equiv> 10500"
abbreviation (input) MI_HttpOuterResponse :: int where "MI_HttpOuterResponse \<equiv> 10501"
abbreviation (input) MI_CmdThread :: int where "MI_CmdThread \<equiv> 20001"
abbreviation (input) MI_CmdApp :: int where "MI_CmdApp \<equiv> 20002"
abbreviation (input) MI_CmdWorldProxy :: int where "MI_CmdWorldProxy \<equiv> 20003"
abbreviation (input) MI_CmdWorld :: int where "MI_CmdWorld \<equiv> 20004"
abbreviation (input) MI_CmdCreate :: int where "MI_CmdCreate \<equiv> 20005"
abbreviation (input) MI_CmdEfficiency :: int where "MI_CmdEfficiency \<equiv> 20006"
abbreviation (input) MI_Efficiency :: int where "MI_Efficiency \<equiv> 20007"
abbreviation (input) C2S_SyncPlayerPos :: int where "C2S_SyncPlayerPos \<equiv> 30001"
abbreviation (input) S2C_SyncPlayerPos :: int where "S2C_SyncPlayerPos \<equiv> 30002"
abbreviation (input) C2S_SyncPlayerCmd :: int where "C2S_SyncPlayerCmd \<equiv> 30003"
abbreviation (input) S2C_SyncPlayerCmd :: int where "S2C_SyncPlayerCmd \<equiv> 30004"
abbreviation (input) S2C_SyncPlayerProps :: int where "S2C_SyncPlayerProps \<equiv> 30005"
abbreviation (input) S2C_SyncNpcProps :: int where "S2C_SyncNpcProps \<equiv> 30006"
abbreviation (input) C2S_SyncNpcPos :: int where "C2S_SyncNpcPos \<equiv> 30007"
abbreviation (input) S2C_SyncFsmState :: int where "S2C_SyncFsmState \<equiv> 30008"
abbreviation (input) C2S_SyncFsmState :: int where "C2S_SyncFsmState \<equiv> 30009"
abbreviation (input) S2C_SyncBtAction :: int where "S2C_SyncBtAction \<equiv> 30010"
abbreviation (input) C2S_SyncBtAction :: int where "C2S_SyncBtAction \<equiv> 30011"
abbreviation (input) C2S_ReqNpcInfo :: int where "C2S_ReqNpcInfo \<equiv> 30012"
abbreviation (input) S2C_ReqNpcInfo :: int where "S2C_ReqNpcInfo \<equiv> 30013"
abbreviation (input) C2S_ReqSyncPlayer :: int where "C2S_ReqSyncPlayer \<equiv> 30014"
abbreviation (input) S2C_ReqLinkPlayer :: int where "S2C_ReqLinkPlayer \<equiv> 30015"
abbreviation (input) C2S_PlayerAtkEvent :: int where "C2S_PlayerAtkEvent \<equiv> 30016"
abbreviation (input) S2C_PlayerAtkEvent :: int where "S2C_PlayerAtkEvent \<equiv> 30017"
abbreviation (input) C2S_NpcAtkEvent :: int where "C2S_NpcAtkEvent \<equiv> 30018"
abbreviation (input) S2C_NpcAtkEvent :: int where "S2C_NpcAtkEvent \<equiv> 30019"
abbreviation (input) S2C_DropItemList :: int where "S2C_DropItemList \<equiv> 30020"
abbreviation (input) C2S_UpdateKnapItem :: int where "C2S_UpdateKnapItem \<equiv> 40001"
abbreviation (input) C2S_UpdateKnapGold :: int where "C2S_UpdateKnapGold \<equiv> 40002"
abbreviation (input) C2S_GetPlayerKnap :: int where "C2S_GetPlayerKnap \<equiv> 40003"
abbreviation (input) S2C_GetPlayerKnap :: int where "S2C_GetPlayerKnap \<equiv> 40004"
abbreviation (input) C2C_ReqJoinTeam :: int where "C2C_ReqJoinTeam \<equiv> 50001"
abbreviation (input) C2C_JoinTeamRes :: int where "C2C_JoinTeamRes \<equiv> 50002"
abbreviation (input) C2C_ReqEnterDungeon :: int where "C2C_ReqEnterDungeon \<equiv> 50003"
abbreviation (input) C2C_EnterDungeonRes :: int where "C2C_EnterDungeonRes \<equiv> 50004"
abbreviation (input) C2C_ReqPvp :: int where "C2C_ReqPvp \<equiv> 50005"
abbreviation (input) C2C_PvpRes :: int where "C2C_PvpRes \<equiv> 50006"
abbreviation (input) C2C_ReqTrade :: int where "C2C_ReqTrade \<equiv> 50007"
abbreviation (input) C2C_TradeRes :: int where "C2C_TradeRes \<equiv> 50008"
abbreviation (input) C2C_UpdateTradeItem :: int where "C2C_UpdateTradeItem \<equiv> 50009"
abbreviation (input) S2C_TradeOpen :: int where "S2C_TradeOpen \<equiv> 50010"
abbreviation (input) S2C_TradeClose :: int where "S2C_TradeClose \<equiv> 50011"

definition msg_ids :: "int list" where
  "msg_ids =
     [MsgId_None, MI_NetworkConnect, MI_NetworkConnected, MI_NetworkListen,
      MI_NetworkListenKey, MI_NetworkDisconnect, MI_NetworkDisconnectEx,
      MI_NetworkRequestDisconnect, MI_RemoveComponent, MI_CreateComponent, MI_CreateSystem,
      MI_Ping, MI_AppRegister, MI_AppInfoSync, MI_AppInfoListSync, C2L_AccountCheck,
      C2L_AccountCheckRs, MI_AccountQueryOnlineToRedis, MI_AccountQueryOnlineToRedisRs,
      L2DB_QueryPlayerList, L2DB_QueryPlayerListRs, L2C_PlayerList, C2L_CreatePlayer,
      C2L_CreatePlayerRs, L2DB_CreatePlayer, L2DB_CreatePlayerRs, C2L_SelectPlayer,
      C2L_SelectPlayerRs, MI_LoginTokenToRedis, MI_LoginTokenToRedisRs, L2C_GameToken,
      C2G_LoginByToken, C2G_LoginByTokenRs, MI_GameTokenToRedis, MI_GameTokenToRedisRs,
      G2DB_QueryPlayer, G2DB_QueryPlayerRs, G2C_SyncPlayer, G2M_RequestWorld,
      G2S_CreateWorld, MI_Teleport, MI_TeleportAfter, G2S_SyncPlayer,
      G2S_RequestSyncPlayer, G2DB_SavePlayer, G2S_RemovePlayer, C2G_EnterWorld,
      G2M_QueryWorld, G2M_QueryWorldRs, MI_CreateTeam, MI_GlobalChat, MI_WorldChat,
      MI_TeamChat, MI_PrivateChat, S2C_EnterWorld, S2G_SyncPlayer, S2C_AllRoleAppear,
      S2C_RoleDisappear, C2S_Move, S2C_Move, C2S_PlayerMove, S2C_PlayerMove, C2S_NpcMove,
      S2C_NpcMove, S2C_PlayerItems, C2S_PlayerItems, MI_BroadcastCreateWorld,
      MI_BroadcastCreateWorldProxy, MI_WorldSyncToGather, MI_WorldProxySyncToGather,
      MI_DungeonDisapper, MI_AccountSyncOnlineToRedis, MI_AccountDeleteOnlineToRedis,
      MI_PlayerSyncOnlineToRedis, MI_PlayerDeleteOnlineToRedis, MI_RobotSyncState,
      MI_RobotCreate, MI_HttpBegin, MI_HttpInnerResponse, MI_HttpRequestBad,
      MI_HttpRequestLogin, MI_HttpEnd, MI_HttpOuterRequest, MI_HttpOuterResponse,
      MI_CmdThread, MI_CmdApp, MI_CmdWorldProxy, MI_CmdWorld, MI_CmdCreate,
      MI_CmdEfficiency, MI_Efficiency, C2S_SyncPlayerPos, S2C_SyncPlayerPos,
      C2S_SyncPlayerCmd, S2C_SyncPlayerCmd, S2C_SyncPlayerProps, S2C_SyncNpcProps,
      C2S_SyncNpcPos, S2C_SyncFsmState, C2S_SyncFsmState, S2C_SyncBtAction,
      C2S_SyncBtAction, C2S_ReqNpcInfo, S2C_ReqNpcInfo, C2S_ReqSyncPlayer,
      S2C_ReqLinkPlayer, C2S_PlayerAtkEvent, S2C_PlayerAtkEvent, C2S_NpcAtkEvent,
      S2C_NpcAtkEvent, S2C_DropItemList, C2S_UpdateKnapItem, C2S_UpdateKnapGold,
      C2S_GetPlayerKnap, S2C_GetPlayerKnap, C2C_ReqJoinTeam, C2C_JoinTeamRes,
      C2C_ReqEnterDungeon, C2C_EnterDungeonRes, C2C_ReqPvp, C2C_PvpRes, C2C_ReqTrade,
      C2C_TradeRes, C2C_UpdateTradeItem, S2C_TradeOpen, S2C_TradeClose]"

definition msg_id_known :: "int \<Rightarrow> bool" where
  "msg_id_known i = List.member msg_ids i"

lemma msg_id_known_range: "msg_id_known i \<Longrightarrow> 0 \<le> i \<and> i < 65536"
  by (auto simp: msg_id_known_def msg_ids_def)

end
