(* ===== verification/NetTypes.thy ===== *)
theory NetTypes
  imports MsgIds
begin

text \<open>
  The identifiers of the server: serial numbers (\<open>global.cpp\<close>), application types and keys
  (\<open>app_type.h\<close>).
  A C++ \<open>int\<close> that takes no part in bit operations is an \<open>int\<close>; the 64-bit serial numbers and keys
  are words.
\<close>

unbundle bit_operations_syntax

subsection \<open>Application types and keys\<close>

definition APP_DB_MGR :: int where "APP_DB_MGR = 1"
definition APP_GAME_MGR :: int where "APP_GAME_MGR = 2"
definition APP_SPACE_MGR :: int where "APP_SPACE_MGR = 4"
definition APP_LOGIN :: int where "APP_LOGIN = 8"
definition APP_GAME :: int where "APP_GAME = 16"
definition APP_SPACE :: int where "APP_SPACE = 32"
definition APP_ROBOT :: int where "APP_ROBOT = 64"
definition APP_APPMGR :: int where "APP_APPMGR = APP_GAME_MGR OR APP_SPACE_MGR"
definition APP_ALLINONE :: int where
  "APP_ALLINONE = APP_DB_MGR OR APP_GAME_MGR OR APP_SPACE_MGR OR APP_LOGIN OR APP_GAME OR APP_SPACE"

lemmas app_type_defs = APP_DB_MGR_def APP_GAME_MGR_def APP_SPACE_MGR_def APP_LOGIN_def APP_GAME_def
  APP_SPACE_def APP_ROBOT_def APP_APPMGR_def APP_ALLINONE_def

definition GetAppKey :: "int \<Rightarrow> int \<Rightarrow> u64" where
  "GetAppKey appType appId = push_bit 32 (word_of_int appType) + word_of_int appId"

definition GetTypeFromAppKey :: "u64 \<Rightarrow> int" where
  "GetTypeFromAppKey appKey = uint (drop_bit 32 appKey)"

definition GetIdFromAppKey :: "u64 \<Rightarrow> int" where
  "GetIdFromAppKey appKey = uint (appKey AND 0xFFFF)"

fun GetAppName :: "int \<Rightarrow> string" where
  "GetAppName t =
     (if t = APP_ALLINONE then ''allinone''
      else if t = APP_ROBOT then ''robot''
      else if t = APP_SPACE then ''space''
      else if t = APP_GAME then ''game''
      else if t = APP_LOGIN then ''login''
      else if t = APP_DB_MGR then ''dbmgr''
      else if t = APP_APPMGR then ''appmgr''
      else if t = 0 then ''none''
      else ''unknown'')"

subsection \<open>Serial numbers\<close>

record global =
  g_TimeTick :: u64
  g_snTicket :: u16
  g_appType :: int
  g_appId :: int

definition GenerateSN :: "global \<Rightarrow> u64 \<times> global" where
  "GenerateSN g =
     (push_bit 26 (drop_bit 10 (g_TimeTick g)) + word_of_int (push_bit 16 (g_appId g))
        + ucast (g_snTicket g),
      g\<lparr>g_snTicket := g_snTicket g + 1\<rparr>)"

definition GetAppIdFromSN :: "u64 \<Rightarrow> int" where
  "GetAppIdFromSN sn = sint (ucast (drop_bit 16 (drop_bit 38 (push_bit 38 sn))) :: 32 word)"

text \<open>\<open>n\<close> serial numbers in a row, with the clock at rest.\<close>

fun GenerateSNs :: "nat \<Rightarrow> global \<Rightarrow> u64 list \<times> global" where
  "GenerateSNs 0 g = ([], g)"
| "GenerateSNs (Suc n) g =
     (let (sn, g1) = GenerateSN g; (sns, g2) = GenerateSNs n g1 in (sn # sns, g2))"

lemma uint_low_bits: "uint (take_bit n (w :: 'a::len word)) = uint w mod 2 ^ n"
  by (simp only: unsigned_take_bit_eq) (simp add: take_bit_eq_mod)

lemma uint_high_bits: "uint (drop_bit n (w :: 'a::len word)) = uint w div 2 ^ n"
  by (simp only: unsigned_drop_bit_eq) (simp add: drop_bit_eq_div take_bit_int_eq_self)

lemma uint_push_bits: "uint (push_bit n (w :: 'a::len word)) = uint w * 2 ^ n mod 2 ^ LENGTH('a)"
  by (simp only: unsigned_push_bit_eq) (simp add: push_bit_eq_mult take_bit_eq_mod)

lemma GetAppKey_uint:
  assumes "0 \<le> t" "t < 4294967296" "0 \<le> i" "i < 4294967296"
  shows "uint (GetAppKey t i) = t * 4294967296 + i"
  using assms
  by (simp add: GetAppKey_def uint_word_ariths push_bit_eq_mult uint_word_of_int)

lemma GetTypeFromAppKey_key:
  assumes "0 \<le> t" "t < 4294967296" "0 \<le> i" "i < 4294967296"
  shows "GetTypeFromAppKey (GetAppKey t i) = t"
  unfolding GetTypeFromAppKey_def uint_high_bits GetAppKey_uint [OF assms]
  using assms by simp

lemma GetIdFromAppKey_uint: "GetIdFromAppKey k = uint k mod 65536"
proof -
  have m: "(0xFFFF :: u64) = mask 16" by (simp add: mask_eq_exp_minus_1)
  show ?thesis unfolding GetIdFromAppKey_def m take_bit_eq_mask [symmetric] uint_low_bits by simp
qed

lemma GetIdFromAppKey_key:
  assumes "0 \<le> t" "t < 4294967296" "0 \<le> i" "i < 65536"
  shows "GetIdFromAppKey (GetAppKey t i) = i"
proof -
  have "(i + 65536 * (t * 65536)) mod 65536 = i" unfolding mod_mult_self2 using assms by simp
  then show ?thesis using GetAppKey_uint [of t i] assms by (simp add: GetIdFromAppKey_uint algebra_simps)
qed

lemma GetAppIdFromSN_uint: "GetAppIdFromSN sn = uint sn div 65536 mod 1024"
proof -
  let ?w = "drop_bit 16 (drop_bit 38 (push_bit 38 sn))"
  have "uint ?w = uint sn * 2 ^ 38 mod 2 ^ 64 div 2 ^ 38 div 2 ^ 16"
    unfolding uint_high_bits uint_push_bits by simp
  also have "\<dots> = uint sn mod 2 ^ 26 div 2 ^ 16"
  proof -
    have "uint sn * 2 ^ 38 mod (2 ^ 26 * 2 ^ 38) div 2 ^ 38 = uint sn mod 2 ^ 26"
      unfolding mult_mod_left [symmetric] by simp
    then show ?thesis by simp
  qed
  also have "\<dots> = uint sn div 2 ^ 16 mod 2 ^ 10"
    using zmod_zmult2_eq [of "2 ^ 10" "uint sn" "2 ^ 16"] by simp
  finally have "uint ?w = uint sn div 2 ^ 16 mod 2 ^ 10" .
  moreover have "sint (ucast v :: 32 word) = uint v" if "uint v < 2 ^ 31" for v :: u64
  proof -
    have "- (2 ^ 31) \<le> uint v" by (rule order_trans [OF _ uint_ge_0]) simp
    with that show ?thesis
      by (simp add: sint_uint unsigned_ucast_eq signed_take_bit_int_eq_self take_bit_int_eq_self)
  qed
  ultimately show ?thesis by (simp add: GetAppIdFromSN_def)
qed

lemma SN_uint:
  assumes "0 \<le> g_appId g" "g_appId g < 1024"
  shows "uint (fst (GenerateSN g)) =
     uint (g_TimeTick g) div 1024 mod 274877906944 * 67108864 + g_appId g * 65536
       + uint (g_snTicket g)"
proof -
  have t: "uint (g_snTicket g) < 65536" using unsigned_less [of "g_snTicket g"] by simp
  have "uint (push_bit 26 (drop_bit 10 (g_TimeTick g))) 
      = uint (g_TimeTick g) div 2 ^ 10 * 2 ^ 26 mod 2 ^ 64"
    unfolding uint_high_bits uint_push_bits by simp
  then have a: "uint (push_bit 26 (drop_bit 10 (g_TimeTick g))) 
      = uint (g_TimeTick g) div 1024 mod 274877906944 * 67108864"
    by (simp add: mult_mod_left)
  have b: "uint (word_of_int (push_bit 16 (g_appId g)) :: u64) = g_appId g * 65536"
    using assms by (simp only: push_bit_eq_mult uint_word_of_int) simp
  have c: "uint (ucast (g_snTicket g) :: u64) = uint (g_snTicket g)"
    using t by (simp add: unsigned_ucast_eq take_bit_int_eq_self)
  let ?T = "uint (g_TimeTick g) div 1024 mod 274877906944"
  have "0 \<le> ?T" "?T \<le> 274877906943" by (simp_all add: zle_diff1_eq)
  then have "?T * 67108864 + g_appId g * 65536 + uint (g_snTicket g) < 18446744073709551616"
    using t assms by linarith
  moreover have "0 \<le> ?T * 67108864 + g_appId g * 65536 + uint (g_snTicket g)"
    using assms by simp
  ultimately show ?thesis
    unfolding GenerateSN_def fst_conv uint_word_ariths a b c mod_add_left_eq
    by (simp add: mod_pos_pos_trivial)
qed

lemma GenerateSN_app:
  assumes "0 \<le> g_appId g" "g_appId g < 1024"
  shows "GetAppIdFromSN (fst (GenerateSN g)) = g_appId g"
proof -
  have "uint (g_snTicket g) < 65536" using unsigned_less [of "g_snTicket g"] by simp
  moreover have "(T * 67108864 + a * 65536 + t) div 65536 = T * 1024 + a"
    if "0 \<le> t" "t < 65536" for T a t :: int
  proof -
    have "T * 67108864 + a * 65536 + t = t + 65536 * (T * 1024 + a)" by simp
    then show ?thesis using that by simp
  qed
  ultimately show ?thesis
    unfolding GetAppIdFromSN_uint SN_uint [OF assms] using assms by simp
qed

lemma GenerateSNs_nth:
  assumes "0 \<le> g_appId g" "g_appId g < 1024" "i < n"
  shows "uint (fst (GenerateSNs n g) ! i) =
     uint (g_TimeTick g) div 1024 mod 274877906944 * 67108864 + g_appId g * 65536
       + uint (g_snTicket g + of_nat i)"
  using assms
proof (induction n arbitrary: g i)
  case (Suc n)
  obtain sns g2 where e: "GenerateSNs n (snd (GenerateSN g)) = (sns, g2)" by force
  have l: "fst (GenerateSNs (Suc n) g) = fst (GenerateSN g) # sns"
    using e by (simp add: GenerateSN_def split: prod.splits)
  show ?case
  proof (cases i)
    case 0
    then show ?thesis using l SN_uint Suc.prems by simp
  next
    case (Suc j)
    have "uint (sns ! j) =  uint (g_TimeTick g) div 1024 mod 274877906944 * 67108864 + g_appId g * 65536
       + uint ((g_snTicket g + 1) + of_nat j)"
      using Suc.IH [of "snd (GenerateSN g)" j] Suc.prems Suc e by (simp add: GenerateSN_def)
    then show ?thesis using l Suc by (simp add: algebra_simps)
  qed
qed simp

lemma GenerateSNs_length: "length (fst (GenerateSNs n g)) = n"
  by (induction n arbitrary: g) (auto simp: Let_def split: prod.splits, metis fst_conv)

lemma GenerateSNs_distinct:
  assumes "0 \<le> g_appId g" "g_appId g < 1024" "n \<le> 65536"
  shows "distinct (fst (GenerateSNs n g))"
proof -
  have "fst (GenerateSNs n g) ! i \<noteq> fst (GenerateSNs n g) ! j" if "i < n" "j < n" "i \<noteq> j" for i j
  proof
    assume "fst (GenerateSNs n g) ! i = fst (GenerateSNs n g) ! j"
    then have "uint (g_snTicket g + of_nat i) = uint (g_snTicket g + of_nat j)"
      using GenerateSNs_nth [OF assms(1,2) that(1)] GenerateSNs_nth [OF assms(1,2) that(2)]
      by (metis add_left_cancel)
    then have "g_snTicket g + of_nat i = g_snTicket g + of_nat j"
      by (rule word_uint_eqI)
    then have "(of_nat i :: u16) = of_nat j" by simp
    then have "unat (of_nat i :: u16) = unat (of_nat j :: u16)" by simp
    then show False using that assms by (simp add: unat_of_nat)
  qed
  then show ?thesis by (simp add: distinct_conv_nth GenerateSNs_length)
qed

lemma GenerateSNs_repeat:
  assumes "0 \<le> g_appId g" "g_appId g < 1024"
  shows "fst (GenerateSNs 65537 g) ! 65536 = fst (GenerateSNs 65537 g) ! 0"
proof -
  have z: "(of_nat 65536 :: u16) = of_nat 0" by (rule word_uint_eqI) simp
  have "uint (fst (GenerateSNs 65537 g) ! 65536) = uint (fst (GenerateSNs 65537 g) ! 0)"
    by (subst GenerateSNs_nth [OF assms], simp, subst GenerateSNs_nth [OF assms], simp) (simp only: z)
  then show ?thesis by (rule word_uint_eqI)
qed

subsection \<open>Network types, socket keys and tags\<close>

datatype network_type = NtNone | TcpListen | TcpConnector | HttpListen | HttpConnector

fun IsTcp :: "network_type \<Rightarrow> bool" where
  "IsTcp t = (t = TcpConnector \<or> t = TcpListen)"

definition IsHttpMsg :: "int \<Rightarrow> bool" where
  "IsHttpMsg msgId =
     (if msgId = MI_HttpOuterRequest then True
      else if msgId = MI_HttpOuterResponse then True
      else if msgId = MI_HttpInnerResponse then True
      else False)"

abbreviation (input) INVALID_SOCKET :: int where "INVALID_SOCKET \<equiv> - 1"

record socket_key =
  Socket :: int
  NetType :: network_type

definition SocketKey_None :: socket_key where
  "SocketKey_None = \<lparr>Socket = INVALID_SOCKET, NetType = NtNone\<rparr>"

definition SocketKey_Clear :: "socket_key \<Rightarrow> socket_key" where
  "SocketKey_Clear k = k\<lparr>Socket := INVALID_SOCKET, NetType := NtNone\<rparr>"

definition SocketKey_CopyFrom :: "socket_key \<Rightarrow> socket_key \<Rightarrow> socket_key" where
  "SocketKey_CopyFrom p k = k\<lparr>Socket := Socket p, NetType := NetType p\<rparr>"

text \<open>The two comparison operators of \<open>SocketKey\<close>, as they are written.\<close>

definition SocketKey_ne :: "socket_key \<Rightarrow> socket_key \<Rightarrow> bool" where
  "SocketKey_ne a b =
     (if Socket a \<noteq> Socket b then False else if NetType a \<noteq> NetType b then False else True)"

definition SocketKey_eq :: "socket_key \<Rightarrow> socket_key \<Rightarrow> bool" where
  "SocketKey_eq a b = (Socket a = Socket b \<and> NetType a = NetType b)"

datatype tag_type = TagNone | TagAccount | TagApp | TagEntity | TagToWorld | TagPlayer | TagSocket

fun tag_number :: "tag_type \<Rightarrow> nat" where
  "tag_number TagNone = 0"
| "tag_number TagAccount = 1"
| "tag_number TagApp = 2"
| "tag_number TagEntity = 3"
| "tag_number TagToWorld = 4"
| "tag_number TagPlayer = 5"
| "tag_number TagSocket = 6"

lemma tag_number_inj: "tag_number a = tag_number b \<Longrightarrow> a = b"
  by (cases a; cases b; simp)

instantiation tag_type :: linorder
begin

definition less_eq_tag_type :: "tag_type \<Rightarrow> tag_type \<Rightarrow> bool" where
  "less_eq_tag_type a b = (tag_number a \<le> tag_number b)"

definition less_tag_type :: "tag_type \<Rightarrow> tag_type \<Rightarrow> bool" where
  "less_tag_type a b = (tag_number a < tag_number b)"

instance
  by standard (auto simp: less_eq_tag_type_def less_tag_type_def intro: tag_number_inj)

end

lemmas tag_order_defs = less_eq_tag_type_def less_tag_type_def

record tag_value =
  KeyStr :: string
  KeyInt64 :: u64

type_synonym tag_key = "(tag_type, tag_value) smap"

definition IsTagTypeStr :: "tag_type \<Rightarrow> bool" where
  "IsTagTypeStr t = (t = TagAccount)"

definition AddTagStr :: "tag_type \<Rightarrow> string \<Rightarrow> tag_key \<Rightarrow> tag_key" where
  "AddTagStr t s tags =
     (case map_of tags t of
        None \<Rightarrow> smap_assign t \<lparr>KeyStr = s, KeyInt64 = 0\<rparr> tags
      | Some v \<Rightarrow> smap_assign t (v\<lparr>KeyStr := s, KeyInt64 := 0\<rparr>) tags)"

definition AddTagInt :: "tag_type \<Rightarrow> u64 \<Rightarrow> tag_key \<Rightarrow> tag_key" where
  "AddTagInt t n tags =
     (case map_of tags t of
        None \<Rightarrow> smap_assign t \<lparr>KeyStr = [], KeyInt64 = n\<rparr> tags
      | Some v \<Rightarrow> smap_assign t (v\<lparr>KeyStr := [], KeyInt64 := n\<rparr>) tags)"

definition AddTagValue :: "tag_type \<Rightarrow> tag_value \<Rightarrow> tag_key \<Rightarrow> tag_key" where
  "AddTagValue t v tags =
     (if KeyInt64 v \<noteq> 0 then AddTagInt t (KeyInt64 v) tags else AddTagStr t (KeyStr v) tags)"

definition GetTagValue :: "tag_key \<Rightarrow> tag_type \<Rightarrow> tag_value option" where
  "GetTagValue tags t = map_of tags t"

fun TagKey_CopyFrom :: "tag_key \<Rightarrow> tag_key \<Rightarrow> tag_key" where
  "TagKey_CopyFrom [] tags = tags"
| "TagKey_CopyFrom ((t, v) # src) tags = TagKey_CopyFrom src (AddTagValue t v tags)"

definition CompareTag :: "tag_key \<Rightarrow> tag_key \<Rightarrow> tag_type \<Rightarrow> bool" where
  "CompareTag a b t =
     (case (GetTagValue a t, GetTagValue b t) of
        (Some va, Some vb) \<Rightarrow>
          (if IsTagTypeStr t then KeyStr va = KeyStr vb else KeyInt64 va = KeyInt64 vb)
      | _ \<Rightarrow> True)"

definition CompareTags :: "tag_key \<Rightarrow> tag_key \<Rightarrow> bool" where
  "CompareTags a b = (CompareTag a b TagAccount \<and> CompareTag a b TagApp)"

record net_identify =
  ni_socket :: socket_key
  ni_tags :: tag_key

text \<open>
  A tag value is well formed when it carries a string or a number and not both: \<open>AddTag\<close> keeps this,
  and a copy of such tags is the same tags.
\<close>

definition tag_value_ok :: "tag_value \<Rightarrow> bool" where
  "tag_value_ok v = (KeyInt64 v = 0 \<or> KeyStr v = [])"

definition tags_ok :: "tag_key \<Rightarrow> bool" where
  "tags_ok tags = (smap_ok tags \<and> (\<forall>p \<in> set tags. tag_value_ok (snd p)))"

lemma SocketKey_ne_inverted: "SocketKey_ne a b = SocketKey_eq a b"
  by (simp add: SocketKey_ne_def SocketKey_eq_def)

lemma tag_value_upd: "(v :: tag_value)\<lparr>KeyStr := s, KeyInt64 := n\<rparr> = \<lparr>KeyStr = s, KeyInt64 = n\<rparr>"
  by (cases v) simp

lemma AddTagStr_assign: "AddTagStr t s tags = smap_assign t \<lparr>KeyStr = s, KeyInt64 = 0\<rparr> tags"
  by (auto simp: AddTagStr_def tag_value_upd split: option.splits)

lemma AddTagInt_assign: "AddTagInt t n tags = smap_assign t \<lparr>KeyStr = [], KeyInt64 = n\<rparr> tags"
  by (auto simp: AddTagInt_def tag_value_upd split: option.splits)

lemma AddTagValue_assign:
  "tag_value_ok v \<Longrightarrow> AddTagValue t v tags = smap_assign t v tags"
  by (cases v) (auto simp: AddTagValue_def AddTagStr_assign AddTagInt_assign tag_value_ok_def)

lemma GetTagValue_AddTagInt [simp]:
  "GetTagValue (AddTagInt t n tags) u = (if u = t then Some \<lparr>KeyStr = [], KeyInt64 = n\<rparr> else GetTagValue tags u)"
  by (simp add: GetTagValue_def AddTagInt_assign)

lemma GetTagValue_AddTagStr [simp]:
  "GetTagValue (AddTagStr t s tags) u = (if u = t then Some \<lparr>KeyStr = s, KeyInt64 = 0\<rparr> else GetTagValue tags u)"
  by (simp add: GetTagValue_def AddTagStr_assign)

lemma tags_ok_AddTagInt [simp, inv_intros]: "tags_ok tags \<Longrightarrow> tags_ok (AddTagInt t n tags)"
  using set_assign_subset [of t "\<lparr>KeyStr = [], KeyInt64 = n\<rparr>" tags]
  by (fastforce simp: tags_ok_def AddTagInt_assign tag_value_ok_def)

lemma tags_ok_AddTagStr [simp, inv_intros]: "tags_ok tags \<Longrightarrow> tags_ok (AddTagStr t s tags)"
  using set_assign_subset [of t "\<lparr>KeyStr = s, KeyInt64 = 0\<rparr>" tags]
  by (fastforce simp: tags_ok_def AddTagStr_assign tag_value_ok_def)

lemma tags_ok_AddTagValue [simp, inv_intros]: "tags_ok tags \<Longrightarrow> tags_ok (AddTagValue t v tags)"
  by (simp add: AddTagValue_def)

lemma tags_ok_CopyFrom [simp, inv_intros]: "tags_ok tags \<Longrightarrow> tags_ok (TagKey_CopyFrom src tags)"
  by (induction src tags rule: TagKey_CopyFrom.induct) auto

lemma TagKey_CopyFrom_lookup:
  assumes "tags_ok src"
  shows "map_of (TagKey_CopyFrom src tags) = map_of tags ++ map_of src"
  using assms
proof (induction src arbitrary: tags)
  case (Cons p src)
  obtain t v where p: "p = (t, v)" by force
  have ok: "tags_ok src" "tag_value_ok v" and fresh: "t \<notin> fst ` set src"
    using Cons.prems by (auto simp: tags_ok_def p)
  then have "map_of src t = None" by (simp add: map_of_eq_None_iff)
  then show ?case using Cons.IH [OF ok(1)] ok(2)
    by (auto simp: p AddTagValue_assign map_add_def fun_eq_iff split: option.splits)
qed simp

lemma TagKey_CopyFrom_append:
  assumes "tags_ok (pre @ src)"
  shows "TagKey_CopyFrom src pre = pre @ src"
  using assms
proof (induction src arbitrary: pre)
  case (Cons p src)
  obtain t v where p: "p = (t, v)" by force
  have "tag_value_ok v" using Cons.prems by (auto simp: tags_ok_def p)
  moreover have "smap_assign t v pre = pre @ [(t, v)]"
    using Cons.prems by (intro smap_assign_last) (auto simp: tags_ok_def p smap_ok_def sorted_wrt_append)
  ultimately show ?case using Cons.IH [of "pre @ [p]"] Cons.prems
    by (simp add: p AddTagValue_assign)
qed simp

lemma TagKey_copy_same: "tags_ok src \<Longrightarrow> TagKey_CopyFrom src [] = src"
  using TagKey_CopyFrom_append [of "[]" src] by simp

subsection \<open>How many serial numbers there are\<close>

lemma GenerateSNs_app:
  assumes "0 \<le> g_appId g" "g_appId g < 1024" "sn \<in> set (fst (GenerateSNs n g))"
  shows "GetAppIdFromSN sn = g_appId g"
  using assms
proof (induction n arbitrary: g)
  case (Suc n)
  have g: "g_appId (snd (GenerateSN g)) = g_appId g" by (simp add: GenerateSN_def)
  have "sn = fst (GenerateSN g) \<or> sn \<in> set (fst (GenerateSNs n (snd (GenerateSN g))))"
    using Suc.prems(3) by (auto simp: Let_def split: prod.splits)
  then show ?case
    using GenerateSN_app [OF Suc.prems(1,2)] Suc.IH [of "snd (GenerateSN g)"] Suc.prems(1,2) g by auto
qed simp

text \<open>
  C23. While the clock stands still (its value is divided by 1024, so for about a second) an application makes 65536
  different serial numbers, each of which tells the number of the application; the next one is the first again.
\<close>

theorem serial_numbers_wrap:
  assumes "0 \<le> g_appId g" "g_appId g < 1024"
  shows "(n \<le> 65536 \<longrightarrow> distinct (fst (GenerateSNs n g)))
    \<and> (\<forall>sn \<in> set (fst (GenerateSNs n g)). GetAppIdFromSN sn = g_appId g)
    \<and> fst (GenerateSNs 65537 g) ! 65536 = fst (GenerateSN g)"
proof (intro conjI impI ballI)
  show "n \<le> 65536 \<Longrightarrow> distinct (fst (GenerateSNs n g))" by (rule GenerateSNs_distinct [OF assms])
  show "sn \<in> set (fst (GenerateSNs n g)) \<Longrightarrow> GetAppIdFromSN sn = g_appId g" for sn
    by (rule GenerateSNs_app [OF assms])
  have "fst (GenerateSNs (Suc m) g) ! 0 = fst (GenerateSN g)" for m by (simp split: prod.splits)
  from this [of 65536] show "fst (GenerateSNs 65537 g) ! 65536 = fst (GenerateSN g)"
    using GenerateSNs_repeat [OF assms] by simp
qed

theorem serial_numbers_wrap_witness:
  "distinct (fst (GenerateSNs 65536 \<lparr>g_TimeTick = 1700000000000, g_snTicket = 65535, g_appType = APP_SPACE, g_appId = 101\<rparr>))"
  using serial_numbers_wrap [of "\<lparr>g_TimeTick = 1700000000000, g_snTicket = 65535, g_appType = APP_SPACE, g_appId = 101\<rparr>" 65536]
  by simp

end
