(* ===== verification/RingBuffer.thy ===== *)
theory RingBuffer
  imports NetTypes
begin

text \<open>
  The byte buffers of a connection: \<open>Buffer\<close> (\<open>base_buffer.cpp\<close>) and the ring \<open>NetworkBuffer\<close>
  (\<open>network_buffer.cpp\<close>) with its receiving and sending halves. Indices and sizes are 32-bit words, as
  in the code. \<open>nb_ok\<close> is the invariant of the ring and \<open>contents\<close> the bytes it holds, oldest first;
  the ring is an implementation of a byte queue (the locale \<open>byte_fifo\<close>, interpreted at the end).
  A fresh block of memory is modelled as zeros: no statement depends on its contents.
\<close>

subsection \<open>The operations\<close>

record buffer =
  b_buffer :: "u8 list"
  b_begin :: u32
  b_end :: u32
  b_size :: u32

record net_buffer = buffer +
  b_data :: u32

definition ADDITIONAL_SIZE :: u32 where "ADDITIONAL_SIZE = 1024 * 128"

definition Buffer_GetEmptySize :: "'a buffer_scheme \<Rightarrow> u32" where
  "Buffer_GetEmptySize b = b_size b - b_end b"

definition Buffer_ReAllocBuffer :: "u32 \<Rightarrow> 'a buffer_scheme \<Rightarrow> 'a buffer_scheme option" where
  "Buffer_ReAllocBuffer dataLength b = do {
     let tempBuffer = replicate (unat (b_size b + ADDITIONAL_SIZE)) 0;
     (tempBuffer, newEndIndex) \<leftarrow>
       (if b_begin b < b_end b then do {
          xs \<leftarrow> mem_read (b_buffer b) (unat (b_begin b)) (unat (b_end b - b_begin b));
          t \<leftarrow> mem_write tempBuffer 0 xs;
          Some (t, b_end b - b_begin b)
        }
        else if b_begin b = b_end b \<and> dataLength \<le> 0 then Some (tempBuffer, 0)
        else do {
          xs \<leftarrow> mem_read (b_buffer b) (unat (b_begin b)) (unat (b_size b - b_begin b));
          t \<leftarrow> mem_write tempBuffer 0 xs;
          if b_end b > 0 then do {
            ys \<leftarrow> mem_read (b_buffer b) 0 (unat (b_end b));
            t' \<leftarrow> mem_write t (unat (b_size b - b_begin b)) ys;
            Some (t', b_size b - b_begin b + b_end b)
          }
          else Some (t, b_size b - b_begin b)
        });
     Some (b\<lparr>b_size := b_size b + ADDITIONAL_SIZE, b_buffer := tempBuffer,
             b_begin := 0, b_end := newEndIndex\<rparr>)
   }"

definition NetworkBuffer :: "u32 \<Rightarrow> net_buffer" where
  "NetworkBuffer sz =
     \<lparr>b_buffer = replicate (unat sz) 0, b_begin = 0, b_end = 0, b_size = sz, b_data = 0\<rparr>"

definition NetworkBuffer_BackToPool :: "net_buffer \<Rightarrow> net_buffer" where
  "NetworkBuffer_BackToPool b = b\<lparr>b_begin := 0, b_end := 0, b_data := 0\<rparr>"

definition HasData :: "net_buffer \<Rightarrow> bool" where
  "HasData b = (if b_data b \<le> 0 then False else if b_data b < 2 then False else True)"

definition GetEmptySize :: "net_buffer \<Rightarrow> u32" where
  "GetEmptySize b = b_size b - b_data b"

definition GetWriteSize :: "net_buffer \<Rightarrow> u32" where
  "GetWriteSize b =
     (if b_begin b \<le> b_end b then b_size b - b_end b else b_begin b - b_end b)"

definition GetReadSize :: "net_buffer \<Rightarrow> u32" where
  "GetReadSize b =
     (if b_data b \<le> 0 then 0
      else if b_begin b < b_end b then b_end b - b_begin b else b_size b - b_begin b)"

definition FillData :: "u32 \<Rightarrow> net_buffer \<Rightarrow> net_buffer" where
  "FillData sz b =
     (let b = b\<lparr>b_data := b_data b + sz\<rparr>;
          (sz, b) = (if b_size b - b_end b \<le> sz
                       then (sz - (b_size b - b_end b), b\<lparr>b_end := 0\<rparr>) else (sz, b))
      in b\<lparr>b_end := b_end b + sz\<rparr>)"

definition RemoveData :: "u32 \<Rightarrow> net_buffer \<Rightarrow> net_buffer" where
  "RemoveData sz b =
     (let b = b\<lparr>b_data := b_data b - sz\<rparr>;
          (sz, b) = (if b_begin b + sz \<ge> b_size b
                       then (sz - (b_size b - b_begin b), b\<lparr>b_begin := 0\<rparr>) else (sz, b))
      in b\<lparr>b_begin := b_begin b + sz\<rparr>)"

definition NetworkBuffer_ReAllocBuffer :: "net_buffer \<Rightarrow> net_buffer option" where
  "NetworkBuffer_ReAllocBuffer b = Buffer_ReAllocBuffer (b_data b) b"

definition MemcpyFromBuffer :: "u32 \<Rightarrow> net_buffer \<Rightarrow> u8 list option" where
  "MemcpyFromBuffer sz b =
     (let readSize = GetReadSize b in
      if readSize < sz then do {
        xs \<leftarrow> mem_read (b_buffer b) (unat (b_begin b)) (unat readSize);
        ys \<leftarrow> mem_read (b_buffer b) 0 (unat (sz - readSize));
        Some (xs @ ys)
      }
      else mem_read (b_buffer b) (unat (b_begin b)) (unat sz))"

definition MemcpyToBuffer :: "u8 list \<Rightarrow> net_buffer \<Rightarrow> net_buffer option" where
  "MemcpyToBuffer p b =
     (let sz = of_nat (length p); writeSize = GetWriteSize b in do {
        m \<leftarrow> (if writeSize < sz then do {
               m \<leftarrow> mem_write (b_buffer b) (unat (b_end b)) (take (unat writeSize) p);
               mem_write m 0 (drop (unat writeSize) p)
             }
             else mem_write (b_buffer b) (unat (b_end b)) p);
        Some (FillData sz (b\<lparr>b_buffer := m\<rparr>))
      })"

definition Recv_GetBuffer :: "net_buffer \<Rightarrow> nat \<times> u32" where
  "Recv_GetBuffer b = (unat (b_end b), GetWriteSize b)"

definition Send_GetBuffer :: "net_buffer \<Rightarrow> (nat \<times> u32) option" where
  "Send_GetBuffer b =
     (if b_data b \<le> 0 then None
      else if b_begin b < b_end b then Some (unat (b_begin b), b_end b - b_begin b)
      else Some (unat (b_begin b), b_size b - b_begin b))"

subsection \<open>The invariant and the contents\<close>

definition contents :: "net_buffer \<Rightarrow> u8 list" where
  "contents b = take (unat (b_data b))
     (drop (unat (b_begin b)) (b_buffer b) @ take (unat (b_begin b)) (b_buffer b))"

definition nb_ok :: "net_buffer \<Rightarrow> bool" where
  "nb_ok b = (length (b_buffer b) = unat (b_size b) \<and> b_begin b < b_size b \<and> b_end b < b_size b
     \<and> b_data b \<le> b_size b \<and> b_size b < 2147483648
     \<and> unat (b_end b) = (unat (b_begin b) + unat (b_data b)) mod unat (b_size b))"

definition free_room :: "net_buffer \<Rightarrow> nat" where
  "free_room b = unat (b_size b) - unat (b_data b)"

lemma nb_okD:
  assumes "nb_ok b"
  shows "length (b_buffer b) = unat (b_size b)" "unat (b_begin b) < unat (b_size b)"
    "unat (b_end b) < unat (b_size b)" "unat (b_data b) \<le> unat (b_size b)"
    "unat (b_size b) < 2147483648"
    "unat (b_end b) = (unat (b_begin b) + unat (b_data b)) mod unat (b_size b)"
  using assms by (auto simp: nb_ok_def word_less_nat_alt word_le_nat_alt)

lemma nb_end_cases:
  assumes "nb_ok b"
  obtains (straight) "unat (b_begin b) \<le> unat (b_end b)"
      "unat (b_data b) = unat (b_end b) - unat (b_begin b)"
    | (wrapped) "unat (b_end b) < unat (b_begin b)"
      "unat (b_data b) = unat (b_size b) - unat (b_begin b) + unat (b_end b)"
    | (full) "b_end b = b_begin b" "unat (b_data b) = unat (b_size b)"
proof -
  note d = nb_okD [OF assms]
  let ?s = "unat (b_size b)" and ?g = "unat (b_begin b)" and ?d = "unat (b_data b)"
  consider "?g + ?d < ?s" | "?s \<le> ?g + ?d" "?d < ?s" | "?d = ?s" using d(4) by linarith
  then show thesis
  proof cases
    case 1
    then have "unat (b_end b) = ?g + ?d" using d(6) by simp
    then show ?thesis by (intro straight) simp_all
  next
    case 2
    then have "unat (b_end b) = ?g + ?d - ?s" using d(2,6) mod_wrap [of ?s "?g + ?d"] by linarith
    then show ?thesis using d(2) 2 by (intro wrapped) linarith+
  next
    case 3
    then have "unat (b_end b) = ?g" using d(2,6) by simp
    then show ?thesis using 3 by (intro full) (simp_all add: word_unat_eq_iff)
  qed
qed

lemma FillData_fields:
  assumes "nb_ok b" "unat n \<le> free_room b"
  shows "unat (b_data (FillData n b)) = unat (b_data b) + unat n"
    "unat (b_end (FillData n b)) = (unat (b_end b) + unat n) mod unat (b_size b)"
    "b_begin (FillData n b) = b_begin b" "b_size (FillData n b) = b_size b" 
    "b_buffer (FillData n b) = b_buffer b"
proof -
  note d = nb_okD [OF assms(1)]
  show "unat (b_data (FillData n b)) = unat (b_data b) + unat n"
    using d assms(2) by (simp add: FillData_def Let_def free_room_def unat_plus32)
  have le: "b_end b \<le> b_size b" using d by (simp add: word_le_nat_alt)
  have sn: "unat n \<le> unat (b_size b)" using assms(2) d by (simp add: free_room_def)
  show "unat (b_end (FillData n b)) = (unat (b_end b) + unat n) mod unat (b_size b)"
  proof (cases "b_size b - b_end b \<le> n")
    case True
    then have "unat (b_size b) - unat (b_end b) \<le> unat n"
      by (simp add: word_le_nat_alt unat_minus [OF le])
    then have "(unat (b_end b) + unat n) mod unat (b_size b) = unat (b_end b) + unat n - unat (b_size b)"
      using d(1-5) sn by (intro mod_wrap) linarith+
    moreover have "unat (b_end (FillData n b)) = unat n - (unat (b_size b) - unat (b_end b))"
      using True by (simp add: FillData_def unat_minus [OF True] unat_minus [OF le])
    ultimately show ?thesis using d(3) sn by linarith
  next
    case False
    then have "unat n < unat (b_size b) - unat (b_end b)"
      by (simp add: not_le word_less_nat_alt unat_minus [OF le])
    then show ?thesis using False d
      by (simp add: FillData_def unat_plus32)
  qed
qed (simp_all add: FillData_def Let_def)

lemma RemoveData_fields:
  assumes "nb_ok b" "unat n \<le> unat (b_data b)"
  shows "unat (b_data (RemoveData n b)) = unat (b_data b) - unat n"
    "unat (b_begin (RemoveData n b)) = (unat (b_begin b) + unat n) mod unat (b_size b)"
    "b_end (RemoveData n b) = b_end b" "b_size (RemoveData n b) = b_size b" 
    "b_buffer (RemoveData n b) = b_buffer b"
proof -
  note d = nb_okD [OF assms(1)]
  show "unat (b_data (RemoveData n b)) = unat (b_data b) - unat n"
    using d assms(2) by (simp add: RemoveData_def Let_def unat_minus word_le_nat_alt)
  have le: "b_begin b \<le> b_size b" using d by (simp add: word_le_nat_alt)
  have p: "unat (b_begin b + n) = unat (b_begin b) + unat n"
    using d assms(2) by (intro unat_plus32) linarith
  show "unat (b_begin (RemoveData n b)) = (unat (b_begin b) + unat n) mod unat (b_size b)"
  proof (cases "b_size b \<le> b_begin b + n")
    case True
    then have "unat (b_size b) - unat (b_begin b) \<le> unat n"
      using p by (simp add: word_le_nat_alt)
    moreover from this have "b_size b - b_begin b \<le> n"
      by (simp add: word_le_nat_alt unat_minus [OF le])
    moreover from calculation True have
      "unat (b_begin (RemoveData n b)) = unat n - (unat (b_size b) - unat (b_begin b))"
      by (simp add: RemoveData_def unat_minus unat_minus [OF le])
    moreover have "(unat (b_begin b) + unat n) mod unat (b_size b) = unat (b_begin b) + unat n - unat (b_size b)"
      using d(1-5) assms(2) True p by (intro mod_wrap) (simp_all add: word_le_nat_alt)
    ultimately show ?thesis using d(2) by linarith
  next
    case False
    then have "unat (b_begin b) + unat n < unat (b_size b)"
      using p by (simp add: not_le word_less_nat_alt)
    then show ?thesis using p False by (simp add: RemoveData_def Let_def)
  qed
qed (simp_all add: RemoveData_def Let_def)


lemma nb_ok_RemoveData [inv_intros]:
  assumes "nb_ok b" "unat n \<le> unat (b_data b)"
  shows "nb_ok (RemoveData n b)"
proof -
  note d = nb_okD [OF assms(1)] and f = RemoveData_fields [OF assms]
  have "unat (b_end b) = ((unat (b_begin b) + unat n) mod unat (b_size b)
      + (unat (b_data b) - unat n)) mod unat (b_size b)"
    unfolding mod_add_left_eq using d(6) assms(2) by simp
  then show ?thesis
    using d(1-5) f assms(2) by (simp add: nb_ok_def word_less_nat_alt word_le_nat_alt)
qed

lemma nb_ok_FillData [inv_intros]:
  assumes "nb_ok b" "unat n \<le> free_room b"
  shows "nb_ok (FillData n b)"
proof -
  note d = nb_okD [OF assms(1)] and f = FillData_fields [OF assms]
  have "(unat (b_end b) + unat n) mod unat (b_size b)
      = (unat (b_begin b) + (unat (b_data b) + unat n)) mod unat (b_size b)"
    unfolding d(6) mod_add_left_eq by (simp add: add.assoc)
  then show ?thesis
    using d(1-5) f assms(2) by (simp add: nb_ok_def word_less_nat_alt word_le_nat_alt free_room_def)
qed

lemma nb_ok_storage: "nb_ok b \<Longrightarrow> length m = length (b_buffer b) \<Longrightarrow> nb_ok (b\<lparr>b_buffer := m\<rparr>)"
  by (simp add: nb_ok_def)

lemma length_contents: "nb_ok b \<Longrightarrow> length (contents b) = unat (b_data b)"
  using nb_okD [of b] by (simp add: contents_def)

lemma contents_rotate: "nb_ok b \<Longrightarrow> contents b = take (unat (b_data b)) (rotate (unat (b_begin b)) (b_buffer b))"
  using nb_okD [of b] by (simp add: contents_def rotate_drop_take)

lemma take_rotate_drop:
  assumes "n \<le> k" "k \<le> length xs"
  shows "take (k - n) (rotate n xs) = drop n (take k xs)"
proof (cases "n = length xs")
  case False
  then have "rotate n xs = drop n xs @ take n xs" using assms by (simp add: rotate_drop_take)
  then show ?thesis using assms by (simp add: drop_take)
qed (use assms in simp)

lemma contents_RemoveData:
  assumes "nb_ok b" "unat n \<le> unat (b_data b)"
  shows "contents (RemoveData n b) = drop (unat n) (contents b)"
proof -
  note d = nb_okD [OF assms(1)] and f = RemoveData_fields [OF assms]
  have "contents (RemoveData n b)
      = take (unat (b_data b) - unat n) (rotate (unat n) (rotate (unat (b_begin b)) (b_buffer b)))"
    unfolding contents_rotate [OF nb_ok_RemoveData [OF assms]] f
    using d(1) rotate_conv_mod [of "unat (b_begin b) + unat n" "b_buffer b"]
    by (simp add: rotate_rotate add.commute)
  also have "\<dots> = drop (unat n) (contents b)"
    unfolding contents_rotate [OF assms(1)] using d(1-4) assms(2) by (simp add: take_rotate_drop)
  finally show ?thesis .
qed

lemma GetReadSize_unat:
  assumes "nb_ok b"
  shows "unat (GetReadSize b) = min (unat (b_data b)) (unat (b_size b) - unat (b_begin b))"
proof -
  note d = nb_okD(1-5) [OF assms]
  have le: "b_begin b \<le> b_size b" using d by (simp add: word_le_nat_alt)
  show ?thesis
  using assms proof (cases rule: nb_end_cases)
    case straight
    show ?thesis
    proof (cases "b_data b = 0")
      case False
      then have "unat (b_data b) \<noteq> 0" by (simp only: unat_eq_zero not_False_eq_True)
      then have "b_begin b < b_end b" using straight by (simp add: word_less_nat_alt)
      then show ?thesis using False straight d
        by (simp add: GetReadSize_def unat_minus less_imp_le)
    qed (simp add: GetReadSize_def)
  next
    case wrapped
    then have "b_data b \<noteq> 0" using d by (auto simp: unat_eq_zero)
    then show ?thesis using wrapped d
      by (simp add: GetReadSize_def word_less_nat_alt unat_minus [OF le])
  next
    case full
    then have "b_data b \<noteq> 0" using d by (auto simp: unat_eq_zero)
    then show ?thesis using full d
      by (simp add: GetReadSize_def unat_minus [OF le])
  qed
qed

lemma MemcpyFromBuffer_contents:
  assumes "nb_ok b" "unat n \<le> unat (b_data b)"
  shows "MemcpyFromBuffer n b = Some (take (unat n) (contents b))"
proof -
  note d = nb_okD(1-5) [OF assms(1)] and r = GetReadSize_unat [OF assms(1)]
  show ?thesis
  proof (cases "GetReadSize b < n")
    case True
    then have "unat (GetReadSize b) = unat (b_size b) - unat (b_begin b)"
      using r assms(2) by (simp add: word_less_nat_alt)
    then show ?thesis using True d assms(2)
      by (simp add: MemcpyFromBuffer_def Let_def unat_minus word_less_nat_alt word_le_nat_alt contents_def)
  next
    case False
    then have "unat n \<le> unat (b_size b) - unat (b_begin b)"
      using r by (simp add: word_less_nat_alt)
    then show ?thesis using False d assms(2)
      by (simp add: MemcpyFromBuffer_def contents_def)
  qed
qed

lemma GetWriteSize_unat:
  assumes "nb_ok b"
  shows "unat (GetWriteSize b) =
     (if unat (b_begin b) \<le> unat (b_end b) then unat (b_size b) - unat (b_end b)
      else unat (b_begin b) - unat (b_end b))"
  using nb_okD(1-5) [OF assms]
  by (auto simp: GetWriteSize_def word_le_nat_alt unat_minus)


lemma ring_write_straight:
  assumes "length m = s" "g \<le> e" "e + length xs \<le> s"
  shows "take (e - g + length xs) (drop g (take e m @ xs @ drop (e + length xs) m)
           @ take g (take e m @ xs @ drop (e + length xs) m))
       = take (e - g) (drop g m @ take g m) @ xs"
  using assms by (simp add: take_drop)

lemma ring_write_split:
  assumes "length m = s" "g \<le> e" "e < s" "s - e < length xs" "length xs \<le> s - (e - g)"
  shows "take (e - g + length xs)
           (drop g (drop (s - e) xs @ drop (length xs - (s - e)) (take e m @ take (s - e) xs))
           @ take g (drop (s - e) xs @ drop (length xs - (s - e)) (take e m @ take (s - e) xs)))
       = take (e - g) (drop g m @ take g m) @ xs"
  using assms by (simp add: take_drop)

lemma ring_write_wrapped:
  assumes "length m = s" "e < g" "g < s" "e + length xs \<le> g"
  shows "take (s - g + e + length xs) (drop g (take e m @ xs @ drop (e + length xs) m)
           @ take g (take e m @ xs @ drop (e + length xs) m))
       = take (s - g + e) (drop g m @ take g m) @ xs"
  using assms by (simp add: take_drop)

lemma FillData_storage: "contents (FillData n (b\<lparr>b_buffer := m\<rparr>))
    = take (unat (b_data (FillData n b))) (drop (unat (b_begin b)) m @ take (unat (b_begin b)) m)"
  by (simp add: contents_def FillData_def Let_def)

lemma MemcpyToBuffer_contents:
  assumes ok: "nb_ok b" and room: "length xs \<le> free_room b"
  shows "\<exists>b'. MemcpyToBuffer xs b = Some b' \<and> nb_ok b' \<and> contents b' = contents b @ xs
    \<and> b_size b' = b_size b"
proof -
  note d = nb_okD(1-5) [OF ok]
  let ?n = "of_nat (length xs) :: u32"
  have n: "unat ?n = length xs" using room d by (simp add: free_room_def unat_of_nat)
  have le: "b_end b \<le> b_size b" using d by (simp add: word_le_nat_alt)
  note f = FillData_fields [OF ok, of ?n, unfolded n, OF room]
  have fill: "nb_ok (FillData ?n (b\<lparr>b_buffer := m\<rparr>))" "b_size (FillData ?n (b\<lparr>b_buffer := m\<rparr>)) = b_size b"
    if "length m = length (b_buffer b)" for m
    using nb_ok_FillData [OF nb_ok_storage [OF ok that], of ?n] room n
    by (simp_all add: free_room_def FillData_def Let_def)
  have w: "(GetWriteSize b < ?n) = (unat (GetWriteSize b) < length xs)"
    by (simp add: word_less_nat_alt n)
  show ?thesis
  using ok proof (cases rule: nb_end_cases)
    case straight
    then have ws: "unat (GetWriteSize b) = unat (b_size b) - unat (b_end b)"
      using GetWriteSize_unat [OF ok] by simp
    show ?thesis
    proof (cases "unat (b_size b) - unat (b_end b) < length xs")
      case True
      let ?m = "drop (unat (b_size b) - unat (b_end b)) xs
        @ drop (length xs - (unat (b_size b) - unat (b_end b))) 
            (take (unat (b_end b)) (b_buffer b) @ take (unat (b_size b) - unat (b_end b)) xs)"
      have "MemcpyToBuffer xs b = Some (FillData ?n (b\<lparr>b_buffer := ?m\<rparr>))"
        using True d straight room w ws by (simp add: MemcpyToBuffer_def free_room_def Let_def)
      moreover have "contents (FillData ?n (b\<lparr>b_buffer := ?m\<rparr>)) = contents b @ xs"
        unfolding FillData_storage f(1) unfolding contents_def straight(2)
        by (rule ring_write_split) (use True d straight room in \<open>auto simp: free_room_def\<close>)
      ultimately show ?thesis using fill [of ?m] d True straight room by (simp add: free_room_def)
    next
      case False
      let ?m = "take (unat (b_end b)) (b_buffer b) @ xs @ drop (unat (b_end b) + length xs) (b_buffer b)"
      have "MemcpyToBuffer xs b = Some (FillData ?n (b\<lparr>b_buffer := ?m\<rparr>))"
        using False d straight w ws by (simp add: MemcpyToBuffer_def)
      moreover have "contents (FillData ?n (b\<lparr>b_buffer := ?m\<rparr>)) = contents b @ xs"
        unfolding FillData_storage f(1) unfolding contents_def straight(2)
        by (rule ring_write_straight) (use False d straight in auto)
      ultimately show ?thesis using fill [of ?m] d False by simp
    qed
  next
    case wrapped
    let ?m = "take (unat (b_end b)) (b_buffer b) @ xs @ drop (unat (b_end b) + length xs) (b_buffer b)"
    have ws: "unat (GetWriteSize b) = unat (b_begin b) - unat (b_end b)"
      using GetWriteSize_unat [OF ok] wrapped by simp
    have room': "unat (b_end b) + length xs \<le> unat (b_begin b)"
      using room wrapped d by (simp add: free_room_def)
    then have nws: "\<not> GetWriteSize b < ?n" using w ws by simp
    have "MemcpyToBuffer xs b = Some (FillData ?n (b\<lparr>b_buffer := ?m\<rparr>))"
      using d(1,2) wrapped(1) room' nws by (simp add: MemcpyToBuffer_def Let_def)
    moreover have "contents (FillData ?n (b\<lparr>b_buffer := ?m\<rparr>)) = contents b @ xs"
      unfolding FillData_storage f(1) unfolding contents_def wrapped(2)
      by (rule ring_write_wrapped) (use d wrapped room' in auto)
    ultimately show ?thesis using fill [of ?m] d room' by simp
  next
    case full
    then have xs: "xs = []" using room by (simp add: free_room_def)
    have "MemcpyToBuffer xs b = Some (FillData 0 b)"
      using d xs by (simp add: MemcpyToBuffer_def)
    moreover have "contents (FillData 0 b) = contents b"
      using FillData_fields [OF ok, of 0] by (simp add: contents_def)
    ultimately show ?thesis using nb_ok_FillData [OF ok, of 0] xs FillData_fields(4) [OF ok, of 0]
      by simp
  qed
qed

lemma Buffer_ReAllocBuffer_contents:
  assumes ok: "nb_ok b" and room: "unat (b_size b) < 2147352576"
  shows "\<exists>b'. NetworkBuffer_ReAllocBuffer b = Some b' \<and> nb_ok b' \<and> contents b' = contents b
    \<and> unat (b_size b') = unat (b_size b) + 131072 \<and> b_data b' = b_data b \<and> b_begin b' = 0"
proof -
  note d = nb_okD(1-5) [OF ok]
  have sz: "unat (b_size b + ADDITIONAL_SIZE) = unat (b_size b) + 131072"
    using room by (simp add: ADDITIONAL_SIZE_def unat_plus32)
  let ?e = "unat (b_data b)" and ?s = "unat (b_size b) + 131072"
  have le: "b_begin b \<le> b_size b" using d by (simp add: word_le_nat_alt)
  have "\<exists>t e. NetworkBuffer_ReAllocBuffer b =
       Some (b\<lparr>b_size := b_size b + ADDITIONAL_SIZE, b_buffer := t, b_begin := 0, b_end := e\<rparr>)
     \<and> length t = ?s \<and> take ?e t = contents b \<and> unat e = ?e"
  using ok proof (cases rule: nb_end_cases)
    case straight
    show ?thesis
    proof (cases "b_begin b < b_end b")
      case True
      then show ?thesis using straight d sz
        by (simp add: NetworkBuffer_ReAllocBuffer_def Buffer_ReAllocBuffer_def unat_minus contents_def)
          ((rule exI)+, intro conjI, rule refl, simp_all add: unat_minus)
    next
      case False
      then have "b_begin b = b_end b" "unat (b_data b) = 0"
        using straight by (simp_all add: word_less_nat_alt word_unat_eq_iff)
      moreover from this have "b_data b = 0" by (simp add: unat_eq_zero)
      ultimately show ?thesis using sz
        by (simp add: NetworkBuffer_ReAllocBuffer_def Buffer_ReAllocBuffer_def contents_def)
          ((rule exI)+, intro conjI, rule refl, simp_all)
    qed
  next
    case wrapped
    then have n: "\<not> b_begin b < b_end b" "b_begin b \<noteq> b_end b"
      by (auto simp: word_less_nat_alt)
    have e: "unat (b_size b - b_begin b + b_end b) = ?e"
      using wrapped d by (simp add: unat_minus [OF le] unat_plus32)
    show ?thesis
    proof (cases "b_end b = 0")
      case True
      then show ?thesis using wrapped d sz n unat_minus [OF le]
        by (simp add: NetworkBuffer_ReAllocBuffer_def Buffer_ReAllocBuffer_def contents_def)
          ((rule exI)+, intro conjI, rule refl, simp_all)
    next
      case False
      then have "0 < b_end b" by (simp add: word_neq_0_conv)
      then show ?thesis using wrapped d sz n unat_minus [OF le] e
        by (simp add: NetworkBuffer_ReAllocBuffer_def Buffer_ReAllocBuffer_def contents_def)
          ((rule exI)+, intro conjI, rule refl, simp_all)
    qed
  next
    case full
    then have n: "\<not> b_begin b < b_end b" "\<not> b_data b \<le> 0" using d by (auto simp: unat_eq_zero)
    have e: "unat (b_size b - b_begin b + b_end b) = ?e"
      using full d by (simp add: unat_minus [OF le] unat_plus32)
    show ?thesis
    proof (cases "b_end b = 0")
      case True
      then show ?thesis using full d sz n unat_minus [OF le]
        by (simp add: NetworkBuffer_ReAllocBuffer_def Buffer_ReAllocBuffer_def contents_def)
          ((rule exI)+, intro conjI, rule refl, simp_all)
    next
      case False
      then have "0 < b_end b" by (simp add: word_neq_0_conv)
      then show ?thesis using full d sz n unat_minus [OF le] e
        by (simp add: NetworkBuffer_ReAllocBuffer_def Buffer_ReAllocBuffer_def contents_def)
          ((rule exI)+, intro conjI, rule refl, simp_all)
    qed
  qed
  then obtain t e where b': "NetworkBuffer_ReAllocBuffer b =
       Some (b\<lparr>b_size := b_size b + ADDITIONAL_SIZE, b_buffer := t, b_begin := 0, b_end := e\<rparr>)"
     and t: "length t = ?s" "take ?e t = contents b" "unat e = ?e" by blast
  show ?thesis unfolding b' using t d sz room
    by (simp add: nb_ok_def contents_def word_less_nat_alt word_le_nat_alt)
qed


subsection \<open>The byte queue the ring implements\<close>

text \<open>
  What the framing code relies on: bytes are appended at one end while there is room, looked at and
  discarded at the other. \<open>write_all\<close> is a sequence of appends.
\<close>

fun write_all :: "('x \<Rightarrow> 'b \<Rightarrow> 'b option) \<Rightarrow> 'x list \<Rightarrow> 'b \<Rightarrow> 'b option" where
  "write_all w [] b = Some b"
| "write_all w (x # xs) b = Option.bind (w x b) (write_all w xs)"

lemma write_all_step:
  "write_all w [] = Some" "write_all w (x # xs) = (\<lambda>b. Option.bind (w x b) (write_all w xs))"
  by (simp_all add: fun_eq_iff)

datatype fifo_op = Put "u8 list" | Get u32

fun queue_run :: "nat \<Rightarrow> fifo_op list \<Rightarrow> u8 list \<Rightarrow> (u8 list list \<times> u8 list) option" where
  "queue_run cap [] q = Some ([], q)"
| "queue_run cap (Put xs # ops) q =
     (if length q + length xs \<le> cap then queue_run cap ops (q @ xs) else None)"
| "queue_run cap (Get n # ops) q =
     (if unat n \<le> length q
      then map_option (\<lambda>(out, q'). (take (unat n) q # out, q')) (queue_run cap ops (drop (unat n) q))
      else None)"

fun fifo_run ::
  "(u8 list \<Rightarrow> 'b \<Rightarrow> 'b option) \<Rightarrow> (u32 \<Rightarrow> 'b \<Rightarrow> u8 list option) \<Rightarrow> (u32 \<Rightarrow> 'b \<Rightarrow> 'b) \<Rightarrow>
     fifo_op list \<Rightarrow> 'b \<Rightarrow> (u8 list list \<times> 'b) option" where
  "fifo_run app peek del [] b = Some ([], b)"
| "fifo_run app peek del (Put xs # ops) b = Option.bind (app xs b) (fifo_run app peek del ops)"
| "fifo_run app peek del (Get n # ops) b = do {
     x \<leftarrow> peek n b;
     (out, b') \<leftarrow> fifo_run app peek del ops (del n b);
     Some (x # out, b')
   }"

locale byte_fifo =
  fixes inv :: "'b \<Rightarrow> bool" and bytes :: "'b \<Rightarrow> u8 list" and cap :: "'b \<Rightarrow> nat"
    and app :: "u8 list \<Rightarrow> 'b \<Rightarrow> 'b option"
    and peek :: "u32 \<Rightarrow> 'b \<Rightarrow> u8 list option"
    and del :: "u32 \<Rightarrow> 'b \<Rightarrow> 'b"
  assumes app_ok: "inv b \<Longrightarrow> length (bytes b) + length xs \<le> cap b \<Longrightarrow>
      \<exists>b'. app xs b = Some b' \<and> inv b' \<and> bytes b' = bytes b @ xs \<and> cap b' = cap b"
    and peek_ok: "inv b \<Longrightarrow> unat n \<le> length (bytes b) \<Longrightarrow> peek n b = Some (take (unat n) (bytes b))"
    and del_ok: "inv b \<Longrightarrow> unat n \<le> length (bytes b) \<Longrightarrow>
      inv (del n b) \<and> bytes (del n b) = drop (unat n) (bytes b) \<and> cap (del n b) = cap b"
begin

lemma write_all_ok:
  assumes "inv b" "length (bytes b) + length (concat ps) \<le> cap b"
  shows "\<exists>b'. write_all app ps b = Some b' \<and> inv b' \<and> bytes b' = bytes b @ concat ps \<and> cap b' = cap b"
  using assms
proof (induction ps arbitrary: b)
  case (Cons p ps)
  from Cons.prems obtain b1 where b1: "app p b = Some b1" "inv b1" "bytes b1 = bytes b @ p" "cap b1 = cap b"
    using app_ok [of b p] by auto
  then have "length (bytes b1) + length (concat ps) \<le> cap b1" using Cons.prems by simp
  from Cons.IH [OF b1(2) this] show ?case using b1 by auto
qed simp

lemma read_field:
  assumes "inv b" "bytes b = xs @ rest" "unat n = length xs"
  shows "peek n b = Some xs" "inv (del n b)" "bytes (del n b) = rest" "cap (del n b) = cap b"
  using assms peek_ok [of b n] del_ok [of b n] by auto

lemma run_refines:
  assumes "inv b" "queue_run (cap b) ops (bytes b) = Some (out, q)"
  shows "\<exists>b'. fifo_run app peek del ops b = Some (out, b') \<and> inv b' \<and> bytes b' = q \<and> cap b' = cap b"
  using assms
proof (induction ops arbitrary: b out q)
  case (Cons op ops)
  show ?case
  proof (cases op)
    case (Put xs)
    from Cons.prems Put obtain b1 where b1: "app xs b = Some b1" "inv b1" "bytes b1 = bytes b @ xs" "cap b1 = cap b"
      using app_ok [of b xs] by (auto split: if_splits)
    then show ?thesis using Cons.IH [of b1 out q] Cons.prems Put by (auto split: if_splits)
  next
    case (Get n)
    from Cons.prems Get have n: "unat n \<le> length (bytes b)" by (auto split: if_splits)
    with Cons.prems Get obtain out' where "queue_run (cap b) ops (drop (unat n) (bytes b)) = Some (out', q)"
      and "out = take (unat n) (bytes b) # out'" by (auto split: if_splits)
    then show ?thesis
      using Cons.IH [of "del n b" out' q] del_ok [OF Cons.prems(1) n] peek_ok [OF Cons.prems(1) n] Get
      by auto
  qed
qed simp

end

lemma ring_app_ok:
  assumes "nb_ok b" "length (contents b) + length xs \<le> unat (b_size b)"
  shows "\<exists>b'. MemcpyToBuffer xs b = Some b' \<and> nb_ok b' \<and> contents b' = contents b @ xs
    \<and> unat (b_size b') = unat (b_size b)"
proof -
  have "length xs \<le> free_room b" using assms by (simp add: free_room_def length_contents)
  then show ?thesis using MemcpyToBuffer_contents [OF assms(1)] by fastforce
qed

interpretation ring: byte_fifo nb_ok contents "\<lambda>b. unat (b_size b)" MemcpyToBuffer MemcpyFromBuffer RemoveData
  by unfold_locales
    (auto simp: ring_app_ok length_contents MemcpyFromBuffer_contents contents_RemoveData
      nb_ok_RemoveData RemoveData_fields)

text \<open>A new buffer is empty and well formed.\<close>

lemma nb_ok_NetworkBuffer [inv_intros]:
  "0 < sz \<Longrightarrow> sz < 2147483648 \<Longrightarrow> nb_ok (NetworkBuffer sz) \<and> contents (NetworkBuffer sz) = []"
  by (simp add: nb_ok_def NetworkBuffer_def contents_def)

lemma nb_ok_BackToPool [inv_intros]:
  "nb_ok b \<Longrightarrow> nb_ok (NetworkBuffer_BackToPool b) \<and> contents (NetworkBuffer_BackToPool b) = []"
  using nb_okD(2) [of b]
  by (auto simp: nb_ok_def NetworkBuffer_BackToPool_def contents_def word_less_nat_alt)

text \<open>
  The window handed out for writing lies in the free part of the ring, unless the ring is full: then
  \<open>GetWriteSize\<close> is not zero although nothing may be written.
\<close>

lemma GetWriteSize_room:
  assumes "nb_ok b" "unat (b_data b) < unat (b_size b)"
  shows "unat (GetWriteSize b) \<le> free_room b" "0 < unat (GetWriteSize b)"
proof -
  note d = nb_okD(1-5) [OF assms(1)]
  show "unat (GetWriteSize b) \<le> free_room b"
    using assms(1) by (cases rule: nb_end_cases)
      (use assms d in \<open>auto simp: GetWriteSize_unat [OF assms(1)] free_room_def\<close>)
  show "0 < unat (GetWriteSize b)"
    using d by (simp add: GetWriteSize_unat [OF assms(1)])
qed

lemma GetWriteSize_full:
  assumes "nb_ok b" "b_data b = b_size b"
  shows "GetEmptySize b = 0" "0 < unat (GetWriteSize b)"
  using assms nb_okD(1-5) [OF assms(1)]
  by (simp_all add: GetEmptySize_def GetWriteSize_unat [OF assms(1)])

lemma GetEmptySize_unat: "nb_ok b \<Longrightarrow> unat (GetEmptySize b) = free_room b"
  by (simp add: GetEmptySize_def free_room_def unat_minus nb_ok_def)

text \<open>
  C21. The ring refines the byte queue: a history of writes and reads that a queue of the same capacity allows is
  allowed by the ring, yields the same bytes, and leaves the same bytes to be read.
\<close>

theorem ring_refines_queue:
  assumes "nb_ok b" "queue_run (unat (b_size b)) ops (contents b) = Some (out, q)"
  shows "\<exists>b'. fifo_run MemcpyToBuffer MemcpyFromBuffer RemoveData ops b = Some (out, b')
    \<and> nb_ok b' \<and> contents b' = q \<and> b_size b' = b_size b"
  using ring.run_refines [OF assms] by (auto simp: word_unat_eq_iff)

text \<open>A ring of four bytes: three bytes in, two out, three more in (across the end), four out.\<close>

theorem ring_refines_queue_witness:
  "\<exists>b'. fifo_run MemcpyToBuffer MemcpyFromBuffer RemoveData [Put [1, 2, 3], Get 2, Put [4, 5, 6], Get 4] (NetworkBuffer 4)
      = Some ([[1, 2], [3, 4, 5, 6]], b') \<and> contents b' = []"
proof -
  have b: "nb_ok (NetworkBuffer 4) \<and> contents (NetworkBuffer 4) = []" by (rule nb_ok_NetworkBuffer) simp_all
  have "queue_run (unat (b_size (NetworkBuffer 4))) [Put [1, 2, 3], Get 2, Put [4, 5, 6], Get 4] (contents (NetworkBuffer 4))
      = Some ([[1, 2], [3, 4, 5, 6]], [])"
    using b by (simp add: NetworkBuffer_def)
  from ring_refines_queue [OF conjunct1 [OF b] this] show ?thesis by blast
qed

end
