(* ===== verification/Packets.thy ===== *)
theory Packets
  imports RingBuffer
begin

text \<open>
  \<open>Packet\<close> (\<open>packet.cpp\<close>): a growable buffer filled from the front, the socket and the tags it came from,
  and the reference count by which threads share it. The loops that enlarge a buffer until something fits
  are partial functions: \<open>None\<close> stands for a loop that does not end or an access outside the buffer.
\<close>

record packet = buffer +
  p_msgId :: int
  p_socketKey :: socket_key
  p_tagKey :: tag_key
  p_ref :: int
  p_isRefOpen :: bool

definition DEFAULT_PACKET_BUFFER_SIZE :: u32 where "DEFAULT_PACKET_BUFFER_SIZE = 1024 * 10"

definition Packet :: packet where
  "Packet =
     \<lparr>b_buffer = replicate (unat DEFAULT_PACKET_BUFFER_SIZE) 0, b_begin = 0, b_end = 0,
      b_size = DEFAULT_PACKET_BUFFER_SIZE, p_msgId = MsgId_None, p_socketKey = SocketKey_None,
      p_tagKey = [], p_ref = 0, p_isRefOpen = False\<rparr>"

definition Packet_Awake :: "int \<Rightarrow> net_identify option \<Rightarrow> packet \<Rightarrow> packet" where
  "Packet_Awake msgId pIdentify p =
     (let p = (case pIdentify of
                 Some ident \<Rightarrow>
                   p\<lparr>p_socketKey := SocketKey_CopyFrom (ni_socket ident) (SocketKey_Clear (p_socketKey p)),
                     p_tagKey := TagKey_CopyFrom (ni_tags ident) []\<rparr>
               | None \<Rightarrow> p\<lparr>p_socketKey := SocketKey_Clear (p_socketKey p), p_tagKey := []\<rparr>)
      in p\<lparr>p_msgId := msgId, b_begin := 0, b_end := 0, p_ref := 0, p_isRefOpen := False\<rparr>)"

definition Packet_BackToPool :: "packet \<Rightarrow> packet" where
  "Packet_BackToPool p =
     p\<lparr>p_msgId := MsgId_None, p_socketKey := SocketKey_Clear (p_socketKey p), p_tagKey := [],
       b_begin := 0, b_end := 0, p_ref := 0, p_isRefOpen := False\<rparr>"

definition Packet_GetDataLength :: "packet \<Rightarrow> u16" where
  "Packet_GetDataLength p = ucast (b_end p - b_begin p)"

definition Packet_FillData :: "u32 \<Rightarrow> packet \<Rightarrow> packet" where
  "Packet_FillData sz p = p\<lparr>b_end := b_end p + sz\<rparr>"

definition Packet_ReAllocBuffer :: "packet \<Rightarrow> packet option" where
  "Packet_ReAllocBuffer p = Buffer_ReAllocBuffer (b_end p - b_begin p) p"

text \<open>\<open>while (GetEmptySize() < total) ReAllocBuffer();\<close>\<close>

partial_function (option) reserve :: "u32 \<Rightarrow> packet \<Rightarrow> packet option" where
  "reserve tot p =
     (if Buffer_GetEmptySize p < tot
      then Option.bind (Packet_ReAllocBuffer p) (reserve tot)
      else Some p)"

text \<open>The message of a protocol buffer is given by its serialised bytes.\<close>

definition SerializeToBuffer :: "u8 list \<Rightarrow> packet \<Rightarrow> packet option" where
  "SerializeToBuffer protoClase p =
     (let tot = of_nat (length protoClase) in do {
        p \<leftarrow> reserve tot p;
        m \<leftarrow> mem_write (b_buffer p) 0 protoClase;
        Some (Packet_FillData tot (p\<lparr>b_buffer := m\<rparr>))
      })"

definition SerializeBytes :: "u8 list \<Rightarrow> packet \<Rightarrow> packet option" where
  "SerializeBytes s p =
     (let len = of_nat (length s) in do {
        p \<leftarrow> reserve len p;
        m \<leftarrow> mem_write (b_buffer p) (unat (b_end p)) s;
        Some (Packet_FillData len (p\<lparr>b_buffer := m\<rparr>))
      })"

definition Packet_CopyFrom :: "packet \<Rightarrow> packet \<Rightarrow> packet option" where
  "Packet_CopyFrom pPacket p =
     (let tot = (ucast (Packet_GetDataLength pPacket) :: u32) in do {
        p \<leftarrow> reserve tot p;
        let p = p\<lparr>b_begin := 0, b_end := tot\<rparr>;
        xs \<leftarrow> mem_read (b_buffer pPacket) 0 (unat tot);
        m \<leftarrow> mem_write (b_buffer p) 0 xs;
        Some (p\<lparr>b_buffer := m\<rparr>)
      })"

definition Packet_AddRef :: "packet \<Rightarrow> packet" where
  "Packet_AddRef p = p\<lparr>p_ref := p_ref p + 1\<rparr>"

definition Packet_RemoveRef :: "packet \<Rightarrow> packet" where
  "Packet_RemoveRef p = p\<lparr>p_ref := p_ref p - 1\<rparr>"

definition Packet_OpenRef :: "packet \<Rightarrow> packet" where
  "Packet_OpenRef p = p\<lparr>p_isRefOpen := True\<rparr>"

definition CanBack2Pool :: "packet \<Rightarrow> bool" where
  "CanBack2Pool p = (if \<not> p_isRefOpen p then False else if p_ref p = 0 then True else False)"

text \<open>What \<open>ParseToProto\<close> is given to parse.\<close>

definition packet_data :: "packet \<Rightarrow> u8 list option" where
  "packet_data p = mem_read (b_buffer p) 0 (unat (Packet_GetDataLength p))"

subsection \<open>The invariant and the body of a packet\<close>

definition pk_ok :: "packet \<Rightarrow> bool" where
  "pk_ok p = (length (b_buffer p) = unat (b_size p) \<and> b_begin p = 0 \<and> b_end p \<le> b_size p
     \<and> b_size p < 2147483648)"

definition body :: "packet \<Rightarrow> u8 list" where
  "body p = take (unat (b_end p)) (b_buffer p)"

lemma pk_okD:
  assumes "pk_ok p"
  shows "length (b_buffer p) = unat (b_size p)" "b_begin p = 0" "unat (b_end p) \<le> unat (b_size p)"
    "unat (b_size p) < 2147483648"
  using assms by (auto simp: pk_ok_def word_less_nat_alt word_le_nat_alt)

lemma length_body: "pk_ok p \<Longrightarrow> length (body p) = unat (b_end p)"
  using pk_okD [of p] by (simp add: body_def)

lemma packet_ops_ok [simp, inv_intros]:
  "pk_ok Packet" "pk_ok p \<Longrightarrow> pk_ok (Packet_Awake m i p)" "pk_ok p \<Longrightarrow> pk_ok (Packet_BackToPool p)"
  "pk_ok p \<Longrightarrow> pk_ok (Packet_AddRef p)" "pk_ok p \<Longrightarrow> pk_ok (Packet_RemoveRef p)"
  "pk_ok p \<Longrightarrow> pk_ok (Packet_OpenRef p)"
  by (simp_all add: pk_ok_def Packet_def DEFAULT_PACKET_BUFFER_SIZE_def Packet_Awake_def
      Packet_BackToPool_def Packet_AddRef_def Packet_RemoveRef_def Packet_OpenRef_def Let_def
      split: option.split)

lemma body_Awake [simp]: "body (Packet_Awake m i p) = []"
  by (simp add: body_def Packet_Awake_def Let_def)

lemma Awake_fields [simp]:
  "p_msgId (Packet_Awake m i p) = m" "p_ref (Packet_Awake m i p) = 0"
  "p_isRefOpen (Packet_Awake m i p) = False" "b_size (Packet_Awake m i p) = b_size p"
  "b_buffer (Packet_Awake m i p) = b_buffer p" "b_begin (Packet_Awake m i p) = 0"
  "b_end (Packet_Awake m i p) = 0"
  by (simp_all add: Packet_Awake_def Let_def split: option.split)

lemma Awake_identity:
  "tags_ok (ni_tags i) \<Longrightarrow> p_tagKey (Packet_Awake m (Some i) p) = ni_tags i"
  "p_socketKey (Packet_Awake m (Some i) p) = ni_socket i"
  by (simp_all add: Packet_Awake_def Let_def TagKey_copy_same SocketKey_CopyFrom_def SocketKey_Clear_def)

lemma DataLength_unat:
  "pk_ok p \<Longrightarrow> unat (Packet_GetDataLength p) = length (body p) mod 65536"
  by (simp add: Packet_GetDataLength_def pk_okD length_body)

text \<open>Enlarging keeps everything but the size and the block of memory.\<close>

definition enlarge :: "u8 list \<Rightarrow> u32 \<Rightarrow> packet \<Rightarrow> packet" where
  "enlarge t sz p = p\<lparr>b_buffer := t, b_size := sz\<rparr>"

lemma enlarge_simps [simp]:
  "b_buffer (enlarge t sz p) = t" "b_size (enlarge t sz p) = sz" "b_begin (enlarge t sz p) = b_begin p"
  "b_end (enlarge t sz p) = b_end p" "p_msgId (enlarge t sz p) = p_msgId p"
  "p_socketKey (enlarge t sz p) = p_socketKey p" "p_tagKey (enlarge t sz p) = p_tagKey p"
  "p_ref (enlarge t sz p) = p_ref p" "p_isRefOpen (enlarge t sz p) = p_isRefOpen p"
  "enlarge t sz (enlarge t' sz' p) = enlarge t sz p"
  by (simp_all add: enlarge_def)

lemma Packet_ReAllocBuffer_ok:
  assumes "pk_ok p" "unat (b_size p) < 2147352576"
  shows "\<exists>t. Packet_ReAllocBuffer p = Some (enlarge t (b_size p + 131072) p)
    \<and> pk_ok (enlarge t (b_size p + 131072) p) \<and> body (enlarge t (b_size p + 131072) p) = body p"
proof -
  note d = pk_okD [OF assms(1)]
  have sz: "unat (b_size p + 131072) = unat (b_size p) + 131072"
    using assms(2) by (simp add: unat_plus32)
  define t where "t = body p @ replicate (unat (b_size p) + 131072 - unat (b_end p)) 0"
  have "Packet_ReAllocBuffer p =
      Some (p\<lparr>b_size := b_size p + 131072, b_buffer := t, b_begin := 0, b_end := b_end p\<rparr>)"
  proof (cases "b_end p = 0")
    case True
    then show ?thesis using d sz
      by (simp add: Packet_ReAllocBuffer_def Buffer_ReAllocBuffer_def ADDITIONAL_SIZE_def t_def body_def)
  next
    case False
    then have "0 < b_end p" by (simp add: word_neq_0_conv)
    then show ?thesis using d sz
      by (simp add: Packet_ReAllocBuffer_def Buffer_ReAllocBuffer_def ADDITIONAL_SIZE_def t_def body_def)
  qed
  also have "p\<lparr>b_size := b_size p + 131072, b_buffer := t, b_begin := 0, b_end := b_end p\<rparr>
      = enlarge t (b_size p + 131072) p"
    using d(2) by (cases p) (simp add: enlarge_def)
  finally have "Packet_ReAllocBuffer p = Some (enlarge t (b_size p + 131072) p)" .
  moreover have "pk_ok (enlarge t (b_size p + 131072) p)" "body (enlarge t (b_size p + 131072) p) = body p"
    using d sz assms(2) by (simp_all add: pk_ok_def word_less_nat_alt word_le_nat_alt t_def body_def)
  ultimately show ?thesis by blast
qed

lemma EmptySize_unat: "pk_ok p \<Longrightarrow> unat (Buffer_GetEmptySize p) = unat (b_size p) - unat (b_end p)"
  by (simp add: Buffer_GetEmptySize_def pk_ok_def unat_minus)

text \<open>The loop of \<open>reserve\<close> ends: a size below two gigabytes is always reached.\<close>

lemma reserve_ok:
  assumes "pk_ok p" "unat (b_end p) + unat n < 2147352576"
  shows "\<exists>t sz. reserve n p = Some (enlarge t sz p) \<and> pk_ok (enlarge t sz p)
    \<and> body (enlarge t sz p) = body p \<and> unat (b_end p) + unat n \<le> unat sz"
  using assms
proof (induction "unat (b_end p) + unat n - unat (b_size p)" arbitrary: p rule: less_induct)
  case less
  note d = pk_okD [OF less.prems(1)]
  show ?case
  proof (cases "Buffer_GetEmptySize p < n")
    case True
    then have l: "unat (b_size p) < unat (b_end p) + unat n"
      using d by (simp add: word_less_nat_alt EmptySize_unat [OF less.prems(1)])
    then obtain t where t: "Packet_ReAllocBuffer p = Some (enlarge t (b_size p + 131072) p)"
        "pk_ok (enlarge t (b_size p + 131072) p)" "body (enlarge t (b_size p + 131072) p) = body p"
      using Packet_ReAllocBuffer_ok [OF less.prems(1)] less.prems(2) by auto
    have "unat (b_size p + 131072) = unat (b_size p) + 131072"
      using l less.prems(2) by (simp add: unat_plus32)
    then have "\<exists>t' sz. reserve n (enlarge t (b_size p + 131072) p) = Some (enlarge t' sz p)
        \<and> pk_ok (enlarge t' sz p) \<and> body (enlarge t' sz p) = body p \<and> unat (b_end p) + unat n \<le> unat sz"
      using less.hyps [of "enlarge t (b_size p + 131072) p"] t(2,3) less.prems(2) l by simp
    then show ?thesis using True t(1) by (simp add: reserve.simps [of n p])
  next
    case False
    have eq: "enlarge (b_buffer p) (b_size p) p = p" by (cases p) (simp add: enlarge_def)
    have "unat (b_end p) + unat n \<le> unat (b_size p)"
      using False d by (simp add: word_less_nat_alt EmptySize_unat [OF less.prems(1)])
    then show ?thesis using False less.prems(1)
      by (intro exI [of _ "b_buffer p"] exI [of _ "b_size p"]) (simp only: reserve.simps [of n p] eq, simp)
  qed
qed

text \<open>A packet that has just come out of the pool holds exactly what is serialised into it.\<close>

lemma SerializeToBuffer_ok:
  assumes ok: "pk_ok p" and e: "b_end p = 0" and n: "length xs < 2147352576"
  shows "\<exists>p'. SerializeToBuffer xs p = Some p' \<and> pk_ok p' \<and> body p' = xs
    \<and> p_msgId p' = p_msgId p \<and> p_tagKey p' = p_tagKey p \<and> p_socketKey p' = p_socketKey p
    \<and> p_ref p' = p_ref p \<and> p_isRefOpen p' = p_isRefOpen p"
proof -
  let ?n = "of_nat (length xs) :: u32"
  have u: "unat ?n = length xs" using n by (simp add: unat_of_nat)
  obtain t sz where r: "reserve ?n p = Some (enlarge t sz p)" "pk_ok (enlarge t sz p)" "length xs \<le> unat sz"
    using reserve_ok [OF ok, of ?n] u n e by auto
  then have "length t = unat sz" using pk_okD(1) by fastforce
  then show ?thesis using r u e pk_okD(4) [OF r(2)]
    by (simp add: SerializeToBuffer_def Packet_FillData_def body_def pk_ok_def word_le_nat_alt word_less_nat_alt)
qed

lemma SerializeBytes_ok:
  assumes ok: "pk_ok p" and n: "unat (b_end p) + length xs < 2147352576"
  shows "\<exists>p'. SerializeBytes xs p = Some p' \<and> pk_ok p' \<and> body p' = body p @ xs
    \<and> p_msgId p' = p_msgId p \<and> p_tagKey p' = p_tagKey p \<and> p_socketKey p' = p_socketKey p"
proof -
  let ?n = "of_nat (length xs) :: u32"
  have u: "unat ?n = length xs" using n by (simp add: unat_of_nat)
  obtain t sz where r: "reserve ?n p = Some (enlarge t sz p)" "pk_ok (enlarge t sz p)"
      "body (enlarge t sz p) = body p" "unat (b_end p) + length xs \<le> unat sz"
    using reserve_ok [OF ok, of ?n] u n by auto
  moreover have "length t = unat sz" using pk_okD(1) [OF r(2)] by simp
  moreover have "unat (b_end p + ?n) = unat (b_end p) + length xs"
    using n u by (simp add: unat_plus32)
  ultimately show ?thesis using u pk_okD(2,4) [OF r(2)] pk_okD(1,3) [OF ok]
    by (simp add: SerializeBytes_def Packet_FillData_def body_def pk_ok_def word_le_nat_alt word_less_nat_alt)
qed

text \<open>
  A copy has the body of the original as long as it is shorter than 64 KB: the length is read through an
  \<open>unsigned short\<close>.
\<close>

lemma Packet_CopyFrom_ok:
  assumes ok: "pk_ok p" "pk_ok q" and e: "unat (b_end p) < 2147000000"
  shows "\<exists>p'. Packet_CopyFrom q p = Some p' \<and> pk_ok p' \<and> body p' = take (length (body q) mod 65536) (body q)
    \<and> p_msgId p' = p_msgId p"
proof -
  let ?n = "ucast (Packet_GetDataLength q) :: u32"
  have u: "unat ?n = length (body q) mod 65536" 
    using DataLength_unat [OF ok(2)] by (simp add:)
  then have lt: "unat ?n < 65536" by simp
  obtain t sz where r: "reserve ?n p = Some (enlarge t sz p)" "pk_ok (enlarge t sz p)"
      "unat (b_end p) + unat ?n \<le> unat sz"
    using reserve_ok [OF ok(1), of ?n] lt e by auto
  have le: "length (body q) mod 65536 \<le> unat (b_end q)" using length_body [OF ok(2)] by simp
  then show ?thesis using r u pk_okD [OF r(2)] pk_okD [OF ok(2)]
    by (simp add: Packet_CopyFrom_def pk_ok_def body_def word_le_nat_alt word_less_nat_alt)
qed

end
