(* ===== verification/Framing.thy ===== *)
theory Framing
  imports Packets
begin

text \<open>
  The wire format: \<open>SendNetworkBuffer::AddPacket\<close> and \<open>RecvNetworkBuffer::GetTcpPacket\<close>
  (\<open>network_buffer.cpp\<close>) over the ring, with the two packet heads of \<open>packet.h\<close> laid out byte by byte
  (little endian, packed to four bytes). \<open>frame\<close> is the specification of the format.
\<close>

subsection \<open>Packet heads\<close>

record packet_head =
  MsgId :: u16

record packet_head_s2s = packet_head +
  EntitySn :: u64
  PlayerSn :: u64

definition sizeof_PacketHead :: nat where "sizeof_PacketHead = 2"
definition sizeof_PacketHeadS2S :: nat where "sizeof_PacketHeadS2S = 20"
definition sizeof_TotalSizeType :: nat where "sizeof_TotalSizeType = 2"

lemmas sizeof_defs = sizeof_PacketHead_def sizeof_PacketHeadS2S_def sizeof_TotalSizeType_def

definition PacketHead_bytes :: "packet_head \<Rightarrow> u8 list" where
  "PacketHead_bytes h = bytes_of_nat 2 (unat (MsgId h))"

definition PacketHeadS2S_bytes :: "packet_head_s2s \<Rightarrow> u8 list" where
  "PacketHeadS2S_bytes h =
     bytes_of_nat 2 (unat (MsgId h)) @ [0, 0] @ bytes_of_nat 8 (unat (EntitySn h))
       @ bytes_of_nat 8 (unat (PlayerSn h))"

definition PacketHead_of_bytes :: "u8 list \<Rightarrow> packet_head" where
  "PacketHead_of_bytes bs = \<lparr>MsgId = of_nat (nat_of_bytes (take 2 bs))\<rparr>"

definition PacketHeadS2S_of_bytes :: "u8 list \<Rightarrow> packet_head_s2s" where
  "PacketHeadS2S_of_bytes bs =
     \<lparr>MsgId = of_nat (nat_of_bytes (take 2 bs)),
      EntitySn = of_nat (nat_of_bytes (take 8 (drop 4 bs))),
      PlayerSn = of_nat (nat_of_bytes (take 8 (drop 12 bs)))\<rparr>"

lemma PacketHead_roundtrip: "PacketHead_of_bytes (PacketHead_bytes h) = h"
  using unat_u16_lt [of "MsgId h"]
  by (cases h) (simp add: PacketHead_of_bytes_def PacketHead_bytes_def)

lemma PacketHeadS2S_roundtrip: "PacketHeadS2S_of_bytes (PacketHeadS2S_bytes h) = h"
proof -
  have "unat (MsgId h) < 65536" "unat (EntitySn h) < 18446744073709551616"
    "unat (PlayerSn h) < 18446744073709551616"
    using unsigned_less [of "MsgId h"] unsigned_less [of "EntitySn h"] unsigned_less [of "PlayerSn h"]
    by simp_all
  then show ?thesis
    by (cases h) (simp add: PacketHeadS2S_of_bytes_def PacketHeadS2S_bytes_def)
qed

lemma head_lengths [simp]:
  "length (PacketHead_bytes h) = 2" "length (PacketHeadS2S_bytes k) = 20"
  by (simp_all add: PacketHead_bytes_def PacketHeadS2S_bytes_def)

subsection \<open>Sending\<close>

text \<open>\<open>while (GetEmptySize() < totalSize) ReAllocBuffer();\<close>\<close>

partial_function (option) reserve_send :: "u16 \<Rightarrow> net_buffer \<Rightarrow> net_buffer option" where
  "reserve_send totalSize b =
     (if GetEmptySize b < ucast totalSize
      then Option.bind (NetworkBuffer_ReAllocBuffer b) (reserve_send totalSize)
      else Some b)"

definition AddPacket :: "packet \<Rightarrow> net_buffer \<Rightarrow> net_buffer option" where
  "AddPacket pPacket b = do {
     let dataLength = Packet_GetDataLength pPacket;
     let pTagValue = GetTagValue (p_tagKey pPacket) TagEntity;
     let totalSize = ((case pTagValue of
           None \<Rightarrow> of_nat (unat dataLength + sizeof_PacketHead + sizeof_TotalSizeType * 2)
         | Some _ \<Rightarrow> of_nat (unat dataLength + sizeof_PacketHeadS2S + sizeof_TotalSizeType * 2)) :: u16);
     b \<leftarrow> reserve_send totalSize b;
     let msgId = p_msgId pPacket;
     b \<leftarrow> (if \<not> IsHttpMsg msgId then do {
            b \<leftarrow> MemcpyToBuffer (bytes_of_nat 2 (unat totalSize)) b;
            (case pTagValue of
               None \<Rightarrow> do {
                 let head = \<lparr>MsgId = word_of_int (p_msgId pPacket)\<rparr>;
                 b \<leftarrow> MemcpyToBuffer (bytes_of_nat 2 sizeof_PacketHead) b;
                 MemcpyToBuffer (PacketHead_bytes head) b
               }
             | Some v \<Rightarrow> do {
                 let head = \<lparr>MsgId = word_of_int (p_msgId pPacket), EntitySn = KeyInt64 v,
                     PlayerSn = (case GetTagValue (p_tagKey pPacket) TagPlayer of
                                   None \<Rightarrow> 0 | Some w \<Rightarrow> KeyInt64 w)\<rparr>;
                 b \<leftarrow> MemcpyToBuffer (bytes_of_nat 2 sizeof_PacketHeadS2S) b;
                 MemcpyToBuffer (PacketHeadS2S_bytes head) b
               })
          } else Some b);
     xs \<leftarrow> mem_read (b_buffer pPacket) 0 (unat dataLength);
     MemcpyToBuffer xs b
   }"

subsection \<open>Receiving\<close>

datatype recv_result = NoPacket | InvalidMsg | Received packet

text \<open>\<open>while (pPacket->GetTotalSize() < dataLength) pPacket->ReAllocBuffer();\<close>\<close>

partial_function (option) reserve_recv :: "u32 \<Rightarrow> packet \<Rightarrow> packet option" where
  "reserve_recv dataLength p =
     (if b_size p < dataLength
      then Option.bind (Packet_ReAllocBuffer p) (reserve_recv dataLength)
      else Some p)"

text \<open>
  \<open>ident\<close> is the identity of the connection and \<open>fresh\<close> the object that \<open>CreatePacket\<close> takes from the
  packet pool. \<open>InvalidMsg\<close> is the branch that closes the connection.
\<close>

definition GetTcpPacket :: "net_identify \<Rightarrow> packet \<Rightarrow> net_buffer \<Rightarrow> (recv_result \<times> net_buffer) option" where
  "GetTcpPacket ident fresh b =
     (if b_data b < of_nat sizeof_TotalSizeType then Some (NoPacket, b)
      else do {
        bs \<leftarrow> MemcpyFromBuffer (of_nat sizeof_TotalSizeType) b;
        let totalSize = (of_nat (nat_of_bytes bs) :: u16);
        if b_data b < ucast totalSize then Some (NoPacket, b)
        else do {
          let b = RemoveData (of_nat sizeof_TotalSizeType) b;
          bs \<leftarrow> MemcpyFromBuffer (of_nat sizeof_TotalSizeType) b;
          let headSize = (of_nat (nat_of_bytes bs) :: u16);
          let b = RemoveData (of_nat sizeof_TotalSizeType) b;
          (msgId, pHeadS2s, b) \<leftarrow>
            (if unat headSize = sizeof_PacketHead then do {
               hs \<leftarrow> MemcpyFromBuffer (of_nat sizeof_PacketHead) b;
               Some (MsgId (PacketHead_of_bytes hs), None, RemoveData (of_nat sizeof_PacketHead) b)
             }
             else do {
               hs \<leftarrow> MemcpyFromBuffer (of_nat sizeof_PacketHeadS2S) b;
               let head = PacketHeadS2S_of_bytes hs;
               Some (MsgId head, Some head, RemoveData (of_nat sizeof_PacketHeadS2S) b)
             });
          if \<not> msg_id_known (uint msgId) then Some (InvalidMsg, b)
          else do {
            let pPacket = Packet_Awake (uint msgId) (Some ident) fresh;
            let dataLength = ((case pHeadS2s of
                  None \<Rightarrow> ucast totalSize - of_nat sizeof_PacketHead - of_nat (sizeof_TotalSizeType * 2)
                | Some _ \<Rightarrow> ucast totalSize - of_nat sizeof_PacketHeadS2S
                              - of_nat (sizeof_TotalSizeType * 2)) :: u32);
            pPacket \<leftarrow> reserve_recv dataLength pPacket;
            xs \<leftarrow> MemcpyFromBuffer dataLength b;
            m \<leftarrow> mem_write (b_buffer pPacket) 0 xs;
            let pPacket = Packet_FillData dataLength (pPacket\<lparr>b_buffer := m\<rparr>);
            let b = RemoveData dataLength b;
            let pPacket = (case pHeadS2s of
                  None \<Rightarrow> pPacket
                | Some head \<Rightarrow> pPacket\<lparr>p_tagKey :=
                    AddTagInt TagPlayer (PlayerSn head) (AddTagInt TagEntity (EntitySn head) (p_tagKey pPacket))\<rparr>);
            Some (Received pPacket, b)
          }
        }
      })"

subsection \<open>The format\<close>

definition plain_frame :: "int \<Rightarrow> u8 list \<Rightarrow> u8 list" where
  "plain_frame mid xs =
     bytes_of_nat 2 (length xs + 6) @ bytes_of_nat 2 2 @ PacketHead_bytes \<lparr>MsgId = word_of_int mid\<rparr> @ xs"

definition s2s_frame :: "int \<Rightarrow> u64 \<Rightarrow> u64 \<Rightarrow> u8 list \<Rightarrow> u8 list" where
  "s2s_frame mid esn psn xs =
     bytes_of_nat 2 (length xs + 24) @ bytes_of_nat 2 20
       @ PacketHeadS2S_bytes \<lparr>MsgId = word_of_int mid, EntitySn = esn, PlayerSn = psn\<rparr> @ xs"

definition tag_int :: "tag_key \<Rightarrow> tag_type \<Rightarrow> u64" where
  "tag_int tags t = (case GetTagValue tags t of None \<Rightarrow> 0 | Some v \<Rightarrow> KeyInt64 v)"

definition frame :: "packet \<Rightarrow> u8 list" where
  "frame p =
     (if IsHttpMsg (p_msgId p) then body p
      else if GetTagValue (p_tagKey p) TagEntity = None then plain_frame (p_msgId p) (body p)
      else s2s_frame (p_msgId p) (tag_int (p_tagKey p) TagEntity) (tag_int (p_tagKey p) TagPlayer) (body p))"

definition frame_size :: "packet \<Rightarrow> nat" where
  "frame_size p = (if GetTagValue (p_tagKey p) TagEntity = None then 6 else 24) + length (body p)"

lemma frame_lengths [simp]:
  "length (plain_frame mid xs) = length xs + 6" "length (s2s_frame mid e q xs) = length xs + 24"
  by (simp_all add: plain_frame_def s2s_frame_def)

lemma frame_size_bound: "length (frame p) \<le> frame_size p"
  by (simp add: frame_def frame_size_def)

lemma reserve_send_ok:
  assumes "nb_ok b" "unat (b_data b) + unat n < 2147352576"
  shows "\<exists>b'. reserve_send n b = Some b' \<and> nb_ok b' \<and> contents b' = contents b
    \<and> b_data b' = b_data b \<and> unat n \<le> free_room b'"
  using assms
proof (induction "unat (b_data b) + unat n - unat (b_size b)" arbitrary: b rule: less_induct)
  case less
  show ?case
  proof (cases "GetEmptySize b < ucast n")
    case True
    then have l: "unat (b_size b) < unat (b_data b) + unat n"
      using GetEmptySize_unat [OF less.prems(1)] by (simp add: word_less_nat_alt free_room_def)
    then obtain b1 where b1: "NetworkBuffer_ReAllocBuffer b = Some b1" "nb_ok b1" "contents b1 = contents b"
        "unat (b_size b1) = unat (b_size b) + 131072" "b_data b1 = b_data b"
      using Buffer_ReAllocBuffer_contents [OF less.prems(1)] less.prems(2) by auto
    then show ?thesis using less.hyps [of b1] less.prems(2) l True
      by (simp add: reserve_send.simps [of n b])
  next
    case False
    then show ?thesis using less.prems(1) GetEmptySize_unat [OF less.prems(1)]
      by (simp add: reserve_send.simps [of n b] word_less_nat_alt)
  qed
qed

lemma AddPacket_frame:
  assumes pk: "pk_ok p" and nb: "nb_ok b" and sz: "frame_size p < 65536"
    and room: "length (contents b) < 2147000000"
  shows "\<exists>b'. AddPacket p b = Some b' \<and> nb_ok b' \<and> contents b' = contents b @ frame p"
proof -
  let ?tot = "of_nat (frame_size p) :: u16"
  have u: "unat ?tot = frame_size p" using sz by (simp add: unat_of_nat)
  have dl: "unat (Packet_GetDataLength p) = length (body p)"
    using sz DataLength_unat [OF pk] by (simp add: frame_size_def split: if_splits)
  have rd: "mem_read (b_buffer p) 0 (unat (Packet_GetDataLength p)) = Some (body p)"
    using pk_okD [OF pk] dl length_body [OF pk] by (simp add: body_def)
  obtain b1 where b1: "reserve_send ?tot b = Some b1" "nb_ok b1" "contents b1 = contents b"
      "frame_size p \<le> free_room b1"
    using reserve_send_ok [OF nb, of ?tot] u sz room length_contents [OF nb] by auto
  let ?hd = "if GetTagValue (p_tagKey p) TagEntity = None
    then [bytes_of_nat 2 2, PacketHead_bytes \<lparr>MsgId = word_of_int (p_msgId p)\<rparr>]
    else [bytes_of_nat 2 20, PacketHeadS2S_bytes \<lparr>MsgId = word_of_int (p_msgId p),
            EntitySn = tag_int (p_tagKey p) TagEntity, PlayerSn = tag_int (p_tagKey p) TagPlayer\<rparr>]"
  let ?ps = "(if IsHttpMsg (p_msgId p) then [] else bytes_of_nat 2 (frame_size p) # ?hd) @ [body p]"
  have fr: "concat ?ps = frame p"
    by (simp add: frame_def plain_frame_def s2s_frame_def frame_size_def add.commute)
  have A: "AddPacket p b = write_all MemcpyToBuffer ?ps b1"
    using b1(1) u dl rd
    by (auto simp: AddPacket_def Let_def frame_size_def sizeof_defs tag_int_def write_all_step split: option.splits)
  have B: "length (contents b1) + length (concat ?ps) \<le> unat (b_size b1)"
    unfolding fr using b1(2,4) frame_size_bound [of p] nb_okD(4) [OF b1(2)]
    by (simp add: free_room_def length_contents)
  show ?thesis unfolding A using ring.write_all_ok [OF b1(2) B] unfolding fr b1(3) by blast
qed

lemma reserve_recv_ok:
  assumes "pk_ok p" "unat n < 2147352576"
  shows "\<exists>t sz. reserve_recv n p = Some (enlarge t sz p) \<and> pk_ok (enlarge t sz p)
    \<and> body (enlarge t sz p) = body p \<and> unat n \<le> unat sz"
  using assms
proof (induction "unat n - unat (b_size p)" arbitrary: p rule: less_induct)
  case less
  show ?case
  proof (cases "b_size p < n")
    case True
    then have l: "unat (b_size p) < unat n" by (simp add: word_less_nat_alt)
    then obtain t where t: "Packet_ReAllocBuffer p = Some (enlarge t (b_size p + 131072) p)"
        "pk_ok (enlarge t (b_size p + 131072) p)" "body (enlarge t (b_size p + 131072) p) = body p"
      using Packet_ReAllocBuffer_ok [OF less.prems(1)] less.prems(2) by auto
    have "unat (b_size p + 131072) = unat (b_size p) + 131072"
      using l less.prems(2) by (simp add: unat_plus32)
    then have "\<exists>t' sz. reserve_recv n (enlarge t (b_size p + 131072) p) = Some (enlarge t' sz p)
        \<and> pk_ok (enlarge t' sz p) \<and> body (enlarge t' sz p) = body p \<and> unat n \<le> unat sz"
      using less.hyps [of "enlarge t (b_size p + 131072) p"] t(2,3) less.prems(2) l by simp
    then show ?thesis using True t(1) by (simp add: reserve_recv.simps [of n p])
  next
    case False
    have eq: "enlarge (b_buffer p) (b_size p) p = p" by (cases p) (simp add: enlarge_def)
    have "unat n \<le> unat (b_size p)" using False by (simp add: word_less_nat_alt)
    then show ?thesis using False less.prems(1)
      by (intro exI [of _ "b_buffer p"] exI [of _ "b_size p"]) (simp only: reserve_recv.simps [of n p] eq, simp)
  qed
qed

text \<open>The last part of \<open>GetTcpPacket\<close>: \<open>n\<close> bytes move from the ring to a packet just taken from the pool.\<close>

lemma take_body_ok:
  assumes fresh: "pk_ok p" "b_end p = 0" and nb: "nb_ok b" and c: "contents b = xs @ rest"
    and n: "unat n = length xs" "length xs < 65536"
  shows "\<exists>q m. reserve_recv n p = Some q \<and> MemcpyFromBuffer n b = Some xs
    \<and> mem_write (b_buffer q) 0 xs = Some m \<and> pk_ok (Packet_FillData n (q\<lparr>b_buffer := m\<rparr>))
    \<and> body (Packet_FillData n (q\<lparr>b_buffer := m\<rparr>)) = xs \<and> p_msgId q = p_msgId p
    \<and> p_tagKey q = p_tagKey p \<and> p_socketKey q = p_socketKey p \<and> p_ref q = p_ref p \<and> p_isRefOpen q = p_isRefOpen p
    \<and> nb_ok (RemoveData n b) \<and> contents (RemoveData n b) = rest"
proof -
  obtain t sz where r: "reserve_recv n p = Some (enlarge t sz p)" "pk_ok (enlarge t sz p)" "length xs \<le> unat sz"
    using reserve_recv_ok [OF fresh(1), of n] n by auto
  have "length t = unat sz" using pk_okD(1) [OF r(2)] by simp
  then show ?thesis using r n fresh(2) ring.read_field [OF nb c n(1)] pk_okD(2,4) [OF r(2)]
    by (simp add: Packet_FillData_def pk_ok_def body_def word_le_nat_alt word_less_nat_alt)
qed

text \<open>A frame at the front of the ring is taken off and becomes a packet.\<close>

definition frame_result :: "packet \<Rightarrow> net_buffer \<Rightarrow> int \<Rightarrow> tag_key \<Rightarrow> socket_key \<Rightarrow> u8 list \<Rightarrow> u8 list \<Rightarrow> bool" where
  "frame_result p b mid tags sock xs rest =
     (pk_ok p \<and> body p = xs \<and> p_msgId p = mid \<and> p_tagKey p = tags \<and> p_socketKey p = sock \<and> p_ref p = 0
      \<and> \<not> p_isRefOpen p \<and> nb_ok b \<and> contents b = rest)"

lemma GetTcpPacket_plain:
  assumes nb: "nb_ok b" and c: "contents b = plain_frame mid xs @ rest" and mid: "msg_id_known mid"
    and n: "length xs + 6 < 65536" and fresh: "pk_ok fresh"
  shows "\<exists>p b'. GetTcpPacket ident fresh b = Some (Received p, b')
    \<and> frame_result p b' mid (p_tagKey (Packet_Awake mid (Some ident) fresh))
        (p_socketKey (Packet_Awake mid (Some ident) fresh)) xs rest"
proof -
  let ?tot = "of_nat (length xs) + 6 :: u16" and ?h = "\<lparr>MsgId = word_of_int mid\<rparr>"
  have tot: "unat ?tot = length xs + 6"
    using unat_of_nat [of "length xs + 6", where 'a = 16] n by simp
  have mid16: "uint (word_of_int mid :: u16) = mid"
    using msg_id_known_range [OF mid] by (simp add: uint_word_of_int)
  have data: "unat (b_data b) = length xs + 6 + length rest"
    using length_contents [OF nb] c by simp
  note r1 = ring.read_field [OF nb c [unfolded plain_frame_def append_assoc], of 2]
  note r2 = ring.read_field [OF r1(2) r1(3), of 2]
  note r3 = ring.read_field [OF r2(2) r2(3), of 2]
  let ?n = "ucast ?tot - 2 - 4 :: u32"
  have n': "unat ?n = length xs" using tot by (simp add: unat_minus word_le_nat_alt)
  let ?p = "Packet_Awake mid (Some ident) fresh"
  obtain q m where q: "reserve_recv ?n ?p = Some q" "MemcpyFromBuffer ?n (RemoveData 2 (RemoveData 2 (RemoveData 2 b))) = Some xs"
      "mem_write (b_buffer q) 0 xs = Some m" "pk_ok (Packet_FillData ?n (q\<lparr>b_buffer := m\<rparr>))"
      "body (Packet_FillData ?n (q\<lparr>b_buffer := m\<rparr>)) = xs" "p_msgId q = p_msgId ?p" "p_tagKey q = p_tagKey ?p"
      "p_socketKey q = p_socketKey ?p" "p_ref q = p_ref ?p" "p_isRefOpen q = p_isRefOpen ?p"
      "nb_ok (RemoveData ?n (RemoveData 2 (RemoveData 2 (RemoveData 2 b))))"
      "contents (RemoveData ?n (RemoveData 2 (RemoveData 2 (RemoveData 2 b)))) = rest"
    using take_body_ok [OF _ _ r3(2) r3(3), of ?p ?n] n n' fresh by auto
  have "GetTcpPacket ident fresh b = Some (Received (Packet_FillData ?n (q\<lparr>b_buffer := m\<rparr>)),
      RemoveData ?n (RemoveData 2 (RemoveData 2 (RemoveData 2 b))))"
    using r1 r2 r3 q data tot n mid mid16
    by (simp add: GetTcpPacket_def sizeof_defs word_less_nat_alt PacketHead_roundtrip Let_def)
  then show ?thesis using q by (simp add: frame_result_def Packet_FillData_def)
qed

lemma GetTcpPacket_s2s:
  assumes nb: "nb_ok b" and c: "contents b = s2s_frame mid esn psn xs @ rest" and mid: "msg_id_known mid"
    and n: "length xs + 24 < 65536" and fresh: "pk_ok fresh"
  shows "\<exists>p b'. GetTcpPacket ident fresh b = Some (Received p, b')
    \<and> frame_result p b' mid
        (AddTagInt TagPlayer psn (AddTagInt TagEntity esn (p_tagKey (Packet_Awake mid (Some ident) fresh))))
        (p_socketKey (Packet_Awake mid (Some ident) fresh)) xs rest"
proof -
  let ?tot = "of_nat (length xs) + 24 :: u16"
  let ?h = "\<lparr>MsgId = word_of_int mid, EntitySn = esn, PlayerSn = psn\<rparr>"
  have tot: "unat ?tot = length xs + 24"
    using unat_of_nat [of "length xs + 24", where 'a = 16] n by simp
  have mid16: "uint (word_of_int mid :: u16) = mid"
    using msg_id_known_range [OF mid] by (simp add: uint_word_of_int)
  have data: "unat (b_data b) = length xs + 24 + length rest"
    using length_contents [OF nb] c by simp
  note r1 = ring.read_field [OF nb c [unfolded s2s_frame_def append_assoc], of 2]
  note r2 = ring.read_field [OF r1(2) r1(3), of 2]
  note r3 = ring.read_field [OF r2(2) r2(3), of 20]
  let ?n = "ucast ?tot - 20 - 4 :: u32"
  let ?b3 = "RemoveData 20 (RemoveData 2 (RemoveData 2 b))"
  have n': "unat ?n = length xs" using tot by (simp add: unat_minus word_le_nat_alt)
  let ?p = "Packet_Awake mid (Some ident) fresh"
  obtain q m where q: "reserve_recv ?n ?p = Some q" "MemcpyFromBuffer ?n ?b3 = Some xs"
      "mem_write (b_buffer q) 0 xs = Some m" "pk_ok (Packet_FillData ?n (q\<lparr>b_buffer := m\<rparr>))"
      "body (Packet_FillData ?n (q\<lparr>b_buffer := m\<rparr>)) = xs" "p_msgId q = p_msgId ?p" "p_tagKey q = p_tagKey ?p"
      "p_socketKey q = p_socketKey ?p" "p_ref q = p_ref ?p" "p_isRefOpen q = p_isRefOpen ?p"
      "nb_ok (RemoveData ?n ?b3)" "contents (RemoveData ?n ?b3) = rest"
    using take_body_ok [OF _ _ r3(2) r3(3), of ?p ?n] n n' fresh by auto
  let ?q = "Packet_FillData ?n (q\<lparr>b_buffer := m\<rparr>)"
  have "GetTcpPacket ident fresh b = Some (Received (?q\<lparr>p_tagKey :=
      AddTagInt TagPlayer psn (AddTagInt TagEntity esn (p_tagKey ?q))\<rparr>), RemoveData ?n ?b3)"
    using r1 r2 r3 q data tot n mid mid16
    by (simp add: GetTcpPacket_def sizeof_defs word_less_nat_alt PacketHeadS2S_roundtrip Let_def)
  then show ?thesis using q by (simp add: frame_result_def Packet_FillData_def pk_ok_def body_def)
qed

text \<open>An incomplete frame stays where it is.\<close>

lemma GetTcpPacket_incomplete:
  assumes nb: "nb_ok b" and c: "2 \<le> length (contents b)"
    and n: "length (contents b) < nat_of_bytes (take 2 (contents b))"
  shows "GetTcpPacket ident fresh b = Some (NoPacket, b)"
proof -
  have m: "MemcpyFromBuffer 2 b = Some (take 2 (contents b))"
    using ring.peek_ok [OF nb, of 2] c by simp
  have "nat_of_bytes (take 2 (contents b)) < 65536"
    using nat_of_bytes_bound [of "take 2 (contents b)"] c by simp
  then have "unat (of_nat (nat_of_bytes (take 2 (contents b))) :: u16) = nat_of_bytes (take 2 (contents b))"
    by (simp add: unat_of_nat)
  then show ?thesis using m n c length_contents [OF nb]
    by (simp add: GetTcpPacket_def sizeof_defs word_less_nat_alt Let_def)
qed

lemma GetTcpPacket_short:
  "nb_ok b \<Longrightarrow> length (contents b) < 2 \<Longrightarrow> GetTcpPacket ident fresh b = Some (NoPacket, b)"
  using length_contents [of b] by (simp add: GetTcpPacket_def sizeof_defs word_less_nat_alt)

text \<open>
  The length that a frame announces is not compared with the length of its head. A frame that announces
  fewer than six bytes makes \<open>dataLength\<close> wrap round to almost four gigabytes, and the loop that enlarges
  the packet can never reach it: the size of a packet is always 10240 modulo 131072.
\<close>

definition pool_size_ok :: "packet \<Rightarrow> bool" where
  "pool_size_ok p = (unat (b_size p) mod 131072 = 10240)"

lemma ReAllocBuffer_size:
  assumes "Packet_ReAllocBuffer p = Some q"
  shows "b_size q = b_size p + 131072"
  using assms
  unfolding Packet_ReAllocBuffer_def Buffer_ReAllocBuffer_def Let_def ADDITIONAL_SIZE_def
  by (auto simp: bind_eq_Some_conv)

lemma pool_size_ok_ReAlloc:
  assumes "Packet_ReAllocBuffer p = Some q" "pool_size_ok p"
  shows "pool_size_ok q"
proof -
  have "unat (b_size p + 131072) = (unat (b_size p) + 131072) mod 4294967296"
    by (simp add: unat_word_ariths)
  moreover have "(x :: nat) mod 4294967296 mod 131072 = x mod 131072" for x
    by (rule mod_mod_cancel) simp
  ultimately show ?thesis
    using assms ReAllocBuffer_size [OF assms(1)] by (simp add: pool_size_ok_def)
qed

lemma reserve_recv_result:
  assumes "reserve_recv n p = Some q"
  shows "pool_size_ok p \<longrightarrow> pool_size_ok q \<and> n \<le> b_size q"
proof (rule reserve_recv.raw_induct [OF _ assms])
  fix rec and n :: u32 and p q
  assume IH: "\<And>n p q. rec n p = Some q \<Longrightarrow> pool_size_ok p \<longrightarrow> pool_size_ok q \<and> n \<le> b_size q"
    and eq: "(if b_size p < n then Packet_ReAllocBuffer p \<bind> rec n else Some p) = Some q"
  show "pool_size_ok p \<longrightarrow> pool_size_ok q \<and> n \<le> b_size q"
  proof (cases "b_size p < n")
    case True
    then obtain p1 where "Packet_ReAllocBuffer p = Some p1" "rec n p1 = Some q"
      using eq by (auto split: bind_splits)
    then show ?thesis using IH pool_size_ok_ReAlloc by blast
  next
    case False
    then show ?thesis using eq by auto
  qed
qed

lemma reserve_recv_never:
  assumes "pool_size_ok p" "4294846464 < unat n"
  shows "reserve_recv n p = None"
proof (rule ccontr)
  assume "reserve_recv n p \<noteq> None"
  then obtain q where "reserve_recv n p = Some q" by blast
  then have q: "pool_size_ok q" "n \<le> b_size q" using reserve_recv_result assms(1) by blast+
  have "unat (b_size q) div 131072 < 32768"
    using unat_u32_lt [of "b_size q"] by (simp add: less_mult_imp_div_less)
  moreover have "unat (b_size q) = unat (b_size q) div 131072 * 131072 + 10240"
    using q(1) div_mult_mod_eq [of "unat (b_size q)" 131072] by (simp add: pool_size_ok_def)
  ultimately have "unat (b_size q) \<le> 4294846464" by linarith
  then show False using q(2) assms(2) by (simp add: word_le_nat_alt)
qed

lemma PacketHead_bytes_int:
  assumes "msg_id_known mid"
  shows "PacketHead_bytes \<lparr>MsgId = word_of_int mid\<rparr> = bytes_of_nat 2 (nat mid)"
proof -
  have "uint (word_of_int mid :: u16) = mid"
    using msg_id_known_range [OF assms] by (simp add: uint_word_of_int)
  then have "unat (word_of_int mid :: u16) = nat mid" by (metis nat_uint_eq)
  then show ?thesis by (simp add: PacketHead_bytes_def)
qed

lemma GetTcpPacket_undersized:
  assumes nb: "nb_ok b" and c: "contents b = bytes_of_nat 2 n @ bytes_of_nat 2 2 @ bytes_of_nat 2 (nat mid) @ rest"
    and n: "n < 6" and mid: "msg_id_known mid" and fresh: "pool_size_ok fresh"
  shows "GetTcpPacket ident fresh b = None"
proof -
  let ?tot = "of_nat n :: u16" and ?h = "\<lparr>MsgId = word_of_int mid\<rparr>"
  have tot: "unat ?tot = n" using n by (simp add: unat_of_nat)
  have mid16: "uint (word_of_int mid :: u16) = mid"
    using msg_id_known_range [OF mid] by (simp add: uint_word_of_int)
  note b = PacketHead_bytes_int [OF mid, symmetric]
  have data: "unat (b_data b) = 6 + length rest"
    using length_contents [OF nb] c by simp
  note r1 = ring.read_field [OF nb c, of 2]
  note r2 = ring.read_field [OF r1(2) r1(3), of 2]
  note r3 = ring.read_field [OF r2(2) r2(3) [unfolded b], of 2]
  let ?n = "ucast ?tot - 6 :: u32"
  have un: "unat (ucast ?tot :: u32) = n" using tot by simp
  have "unat ?n = n + 4294967290"
    unfolding unat_sub_if' un using n by simp
  then have "4294846464 < unat ?n" using n by simp
  then have "reserve_recv ?n (Packet_Awake mid (Some ident) fresh) = None"
    using fresh by (intro reserve_recv_never) (simp_all add: pool_size_ok_def)
  then show ?thesis
    using r1 r2 r3 data tot n mid mid16
    by (simp add: GetTcpPacket_def sizeof_defs word_less_nat_alt PacketHead_roundtrip Let_def)
qed

text \<open>
  What becomes of the tags of a packet: the receiver gives it the tags of its connection, and of the tags of the
  sender the frame carries two numbers, entity and player, and only if there is an entity tag. An absent player
  tag arrives as the number 0.
\<close>

definition wire_tags :: "tag_key \<Rightarrow> tag_key \<Rightarrow> tag_key" where
  "wire_tags sent conn =
     (if GetTagValue sent TagEntity = None then conn
      else AddTagInt TagPlayer (tag_int sent TagPlayer) (AddTagInt TagEntity (tag_int sent TagEntity) conn))"

lemma wire_tags_int:
  "GetTagValue sent TagEntity \<noteq> None \<Longrightarrow> tag_int (wire_tags sent conn) TagEntity = tag_int sent TagEntity
     \<and> tag_int (wire_tags sent conn) TagPlayer = tag_int sent TagPlayer"
  by (auto simp: wire_tags_def tag_int_def)

text \<open>One packet, whatever its kind: its frame is read back.\<close>

lemma GetTcpPacket_frame_tags:
  assumes nb: "nb_ok b" and c: "contents b = frame p @ rest" and mid: "msg_id_known (p_msgId p)"
    and http: "\<not> IsHttpMsg (p_msgId p)" and n: "frame_size p < 65536" and fresh: "pk_ok fresh"
  shows "\<exists>q b'. GetTcpPacket ident fresh b = Some (Received q, b')
    \<and> frame_result q b' (p_msgId p) (wire_tags (p_tagKey p) (TagKey_CopyFrom (ni_tags ident) [])) (ni_socket ident) (body p) rest"
proof (cases "GetTagValue (p_tagKey p) TagEntity = None")
  case True
  then have "contents b = plain_frame (p_msgId p) (body p) @ rest" "length (body p) + 6 < 65536"
    using c http n by (simp_all add: frame_def frame_size_def)
  from GetTcpPacket_plain [OF nb this(1) mid this(2) fresh, of ident, unfolded Awake_identity(2)] show ?thesis
    using True by (simp add: wire_tags_def Packet_Awake_def)
next
  case False
  then have "contents b = s2s_frame (p_msgId p) (tag_int (p_tagKey p) TagEntity)
      (tag_int (p_tagKey p) TagPlayer) (body p) @ rest" "length (body p) + 24 < 65536"
    using c http n by (simp_all add: frame_def frame_size_def del: not_None_eq)
  from GetTcpPacket_s2s [OF nb this(1) mid this(2) fresh, of ident, unfolded Awake_identity(2)] show ?thesis
    using False by (auto simp: wire_tags_def Packet_Awake_def)
qed

lemma GetTcpPacket_frame:
  assumes "nb_ok b" "contents b = frame p @ rest" "msg_id_known (p_msgId p)" "\<not> IsHttpMsg (p_msgId p)"
    and "frame_size p < 65536" "pk_ok fresh"
  shows "\<exists>q b' tags. GetTcpPacket ident fresh b = Some (Received q, b')
    \<and> frame_result q b' (p_msgId p) tags (ni_socket ident) (body p) rest
    \<and> (GetTagValue (p_tagKey p) TagEntity \<noteq> None \<longrightarrow>
         tag_int tags TagEntity = tag_int (p_tagKey p) TagEntity
         \<and> tag_int tags TagPlayer = tag_int (p_tagKey p) TagPlayer)"
  using GetTcpPacket_frame_tags [OF assms, of ident] wire_tags_int [of "p_tagKey p"] by blast

text \<open>A frame whose announced length is the length of its packet modulo 65536.\<close>

lemma AddPacket_wrapped:
  assumes pk: "pk_ok p" and nb: "nb_ok b" and tag: "GetTagValue (p_tagKey p) TagEntity = None"
    and http: "\<not> IsHttpMsg (p_msgId p)" and len: "65530 \<le> length (body p)" "length (body p) < 65536"
    and room: "length (contents b) + length (body p) + 6 \<le> unat (b_size b)"
  shows "\<exists>b'. AddPacket p b = Some b' \<and> nb_ok b' \<and>
    contents b' = contents b @ bytes_of_nat 2 (length (body p) - 65530) @ bytes_of_nat 2 2
      @ PacketHead_bytes \<lparr>MsgId = word_of_int (p_msgId p)\<rparr> @ body p"
proof -
  let ?n = "length (body p)" and ?tot = "6 + Packet_GetDataLength p"
  have dl: "unat (Packet_GetDataLength p) = ?n" using len DataLength_unat [OF pk] by simp
  have u: "unat ?tot = ?n - 65530"
  proof -
    have "unat ?tot = (6 + ?n) mod 65536" by (simp add: unat_word_ariths dl)
    also have "\<dots> = 6 + ?n - 65536" using len by (intro mod_wrap) simp_all
    finally show ?thesis by simp
  qed
  have rd: "mem_read (b_buffer p) 0 ?n = Some (body p)"
    using pk_okD [OF pk] length_body [OF pk] by (simp add: body_def)
  have sz: "\<not> GetEmptySize b < ucast ?tot"
    using GetEmptySize_unat [OF nb] u room len length_contents [OF nb]
    by (simp add: word_less_nat_alt free_room_def)
  then have b1: "reserve_send ?tot b = Some b" by (subst reserve_send.simps) (rule if_not_P)
  let ?ps = "[bytes_of_nat 2 (?n - 65530), bytes_of_nat 2 2,
     PacketHead_bytes \<lparr>MsgId = word_of_int (p_msgId p)\<rparr>, body p]"
  have "AddPacket p b = write_all MemcpyToBuffer ?ps b"
    using b1 u dl rd tag http
    by (simp add: AddPacket_def Let_def sizeof_defs write_all_step)
  moreover have "length (contents b) + length (concat ?ps) \<le> unat (b_size b)"
    using room by simp
  ultimately show ?thesis using ring.write_all_ok [OF nb, of ?ps] by auto
qed

subsection \<open>Properties\<close>

text \<open>
  C1. Round trip over the wire. A packet with a known message id that is not an HTTP message and whose frame is
  shorter than 64 KB is written into a send buffer with \<open>AddPacket\<close>, and its bytes arrive at the front of a receive
  buffer. It comes out of \<open>GetTcpPacket\<close> with the same message and the same body, and with the socket and the tags of
  the connection; of its own tags exactly the numbers of the entity and of the player travel, only if it has an entity
  tag, and a player tag that it does not have becomes the number 0: its account, application, socket and world tags are
  lost (\<open>wire_tags\<close>). Exactly the bytes of the frame are consumed, and whatever had arrived behind them stays.
\<close>

theorem packet_roundtrip:
  assumes "pk_ok p" "msg_id_known (p_msgId p)" "\<not> IsHttpMsg (p_msgId p)" "frame_size p < 65536"
    and "nb_ok s" "contents s = []"
    and "nb_ok r" "\<And>s'. AddPacket p s = Some s' \<Longrightarrow> contents r = contents s' @ rest"
    and "pk_ok fresh"
  shows "\<exists>s' q r'. AddPacket p s = Some s' \<and> GetTcpPacket ident fresh r = Some (Received q, r')
    \<and> p_msgId q = p_msgId p \<and> body q = body p \<and> nb_ok r' \<and> contents r' = rest
    \<and> p_socketKey q = ni_socket ident
    \<and> p_tagKey q = wire_tags (p_tagKey p) (TagKey_CopyFrom (ni_tags ident) [])"
proof -
  obtain s' where s': "AddPacket p s = Some s'" "contents s' = frame p"
    using AddPacket_frame [OF assms(1,5,4)] assms(6) by auto
  have "contents r = frame p @ rest" using assms(8) [OF s'(1)] s'(2) by simp
  from GetTcpPacket_frame_tags [OF assms(7) this assms(2,3,4,9), of ident] s'(1)
  show ?thesis unfolding frame_result_def by blast
qed

theorem packet_roundtrip_witness:
  "\<exists>s' q r'. AddPacket (Packet\<lparr>b_buffer := [7, 8, 9], b_end := 3, b_size := 3, p_msgId := MI_Ping,
        p_tagKey := AddTagStr TagAccount ''eve'' []\<rparr>) (NetworkBuffer 64) = Some s'
    \<and> GetTcpPacket \<lparr>ni_socket = SocketKey_None, ni_tags = []\<rparr> Packet
        \<lparr>b_buffer = [9, 0, 0, 9, 0, 2, 0, 101, 0, 7, 8], b_begin = 3, b_end = 1, b_size = 11, b_data = 9\<rparr>
      = Some (Received q, r')
    \<and> body q = [7, 8, 9] \<and> p_tagKey q = []"
proof -
  let ?p = "Packet\<lparr>b_buffer := [7, 8, 9], b_end := 3, b_size := 3, p_msgId := MI_Ping,
    p_tagKey := AddTagStr TagAccount ''eve'' []\<rparr>"
  let ?r = "\<lparr>b_buffer = [9, 0, 0, 9, 0, 2, 0, 101, 0, 7, 8], b_begin = 3, b_end = 1, b_size = 11, b_data = 9\<rparr>"
  have p: "pk_ok ?p" "msg_id_known (p_msgId ?p)" "\<not> IsHttpMsg (p_msgId ?p)" "frame_size ?p < 65536"
    by (simp_all add: pk_ok_def Packet_def msg_id_known_def msg_ids_def IsHttpMsg_def frame_size_def body_def)
  have s: "nb_ok (NetworkBuffer 64)" "contents (NetworkBuffer 64) = []"
    using nb_ok_NetworkBuffer [of 64] by simp_all
  have r: "nb_ok ?r" by (simp add: nb_ok_def)
  have f: "frame ?p = contents ?r @ []"
    by (simp add: frame_def plain_frame_def contents_def body_def Packet_def IsHttpMsg_def
        GetTagValue_def AddTagStr_def PacketHead_bytes_def bytes_of_nat_2)
  have "contents ?r = contents s' @ []" if "AddPacket ?p (NetworkBuffer 64) = Some s'" for s'
    using AddPacket_frame [OF p(1) s(1) p(4)] s(2) f that by auto
  note packet_roundtrip [OF p s r this packet_ops_ok(1), of "\<lparr>ni_socket = SocketKey_None, ni_tags = []\<rparr>"]
  moreover have "body ?p = [7, 8, 9]" by (simp add: body_def)
  moreover have "wire_tags (p_tagKey ?p) (TagKey_CopyFrom [] []) = []" by (simp add: wire_tags_def GetTagValue_def AddTagStr_def)
  ultimately show ?thesis by (metis net_identify.select_convs(2))
qed

text \<open>
  C3. A packet of 65530 to 65535 bytes announces a frame of 0 to 5 bytes, because the total size is kept in
  an \<open>unsigned short\<close>; and a receiver that finds such a frame never comes back from \<open>GetTcpPacket\<close>: the
  data length wraps round to almost four gigabytes and the loop that enlarges the packet cannot reach it.
\<close>

theorem oversized_packet_hangs_receiver:
  assumes "pk_ok p" "GetTagValue (p_tagKey p) TagEntity = None" "\<not> IsHttpMsg (p_msgId p)"
    and "msg_id_known (p_msgId p)" "65530 \<le> length (body p)" "length (body p) < 65536"
    and "nb_ok s" "contents s = []" "length (body p) + 6 \<le> unat (b_size s)"
    and "nb_ok r" "\<And>s'. AddPacket p s = Some s' \<Longrightarrow> contents r = contents s' @ rest"
    and "pool_size_ok fresh"
  shows "(\<exists>s'. AddPacket p s = Some s') \<and> GetTcpPacket ident fresh r = None"
proof -
  have room: "length (contents s) + length (body p) + 6 \<le> unat (b_size s)" using assms(8,9) by simp
  from AddPacket_wrapped [OF assms(1,7,2,3,5,6) room] assms(8) obtain s' where s': "AddPacket p s = Some s'"
    "contents s' = bytes_of_nat 2 (length (body p) - 65530) @ bytes_of_nat 2 2
      @ PacketHead_bytes \<lparr>MsgId = word_of_int (p_msgId p)\<rparr> @ body p" by auto
  have "contents r = bytes_of_nat 2 (length (body p) - 65530) @ bytes_of_nat 2 2
      @ bytes_of_nat 2 (nat (p_msgId p)) @ body p @ rest"
    using assms(11) [OF s'(1)] s'(2) PacketHead_bytes_int [OF assms(4)] by simp
  from GetTcpPacket_undersized [OF assms(10) this _ assms(4,12)] s'(1) assms(6)
  show ?thesis by simp
qed

theorem oversized_packet_hangs_receiver_witness:
  "\<exists>s r. (\<exists>s'. AddPacket (Packet\<lparr>b_buffer := replicate 65530 0, b_end := 65530, b_size := 65530, p_msgId := MI_Ping\<rparr>) s = Some s')
     \<and> GetTcpPacket \<lparr>ni_socket = SocketKey_None, ni_tags = []\<rparr> Packet r = None"
proof -
  let ?p = "Packet\<lparr>b_buffer := replicate 65530 0, b_end := 65530, b_size := 65530, p_msgId := MI_Ping\<rparr>"
  have p: "pk_ok ?p" "GetTagValue (p_tagKey ?p) TagEntity = None" "\<not> IsHttpMsg (p_msgId ?p)"
    "msg_id_known (p_msgId ?p)" "65530 \<le> length (body ?p)" "length (body ?p) < 65536"
    by (simp_all add: pk_ok_def Packet_def msg_id_known_def msg_ids_def IsHttpMsg_def body_def GetTagValue_def)
  have s: "nb_ok (NetworkBuffer 131072)" "contents (NetworkBuffer 131072) = []"
    using nb_ok_NetworkBuffer [of 131072] by simp_all
  have sz: "length (body ?p) + 6 \<le> unat (b_size (NetworkBuffer 131072))"
    by (simp add: body_def NetworkBuffer_def)
  have room: "length (contents (NetworkBuffer 131072)) + length (body ?p) + 6 \<le> unat (b_size (NetworkBuffer 131072))"
    using s sz by simp
  from AddPacket_wrapped [OF p(1) s(1) p(2,3,5,6) room] obtain s' where
    s': "AddPacket ?p (NetworkBuffer 131072) = Some s'" "nb_ok s'" by blast
  then have "contents s' = contents s'' @ []" if "AddPacket ?p (NetworkBuffer 131072) = Some s''" for s''
    using that by simp
  moreover have "pool_size_ok Packet"
    by (simp add: pool_size_ok_def Packet_def DEFAULT_PACKET_BUFFER_SIZE_def)
  ultimately show ?thesis
    using oversized_packet_hangs_receiver [OF p s sz s'(2)] by blast
qed

end
