(* ===== verification/Heaps.thy ===== *)
theory Heaps
  imports Prelude
begin

text \<open>
  \<open>std::make_heap\<close>, \<open>push_heap\<close> and \<open>pop_heap\<close> on a vector, for a comparison that puts the smallest key in
  front, as \<open>TimerComponent\<close> uses them. The C++ standard fixes only their contract; the sifting below is the
  usual implementation. The locale \<open>min_queue\<close> states the contract, and is interpreted on it.
\<close>

definition par :: "nat \<Rightarrow> nat" where "par i = (i - 1) div 2"

lemma par_less: "0 < j \<Longrightarrow> par j < j"
  by (simp add: par_def)

function sift_up :: "('a \<Rightarrow> 'k::linorder) \<Rightarrow> nat \<Rightarrow> 'a list \<Rightarrow> 'a list" where
  "sift_up key i h =
     (if i \<noteq> 0 \<and> key (h ! par i) > key (h ! i)
      then sift_up key (par i) (h[i := h ! par i, par i := h ! i])
      else h)"
  by auto
termination
  by (relation "measure (\<lambda>(key, i, h). i)") (auto simp: par_less)

declare sift_up.simps [simp del]

definition small_child :: "('a \<Rightarrow> 'k::linorder) \<Rightarrow> nat \<Rightarrow> 'a list \<Rightarrow> nat" where
  "small_child key i h =
     (if 2 * i + 2 < length h \<and> key (h ! (2 * i + 2)) < key (h ! (2 * i + 1)) then 2 * i + 2
      else 2 * i + 1)"

function sift_down :: "('a \<Rightarrow> 'k::linorder) \<Rightarrow> nat \<Rightarrow> 'a list \<Rightarrow> 'a list" where
  "sift_down key i h =
     (let m = small_child key i h in
      if 2 * i + 1 < length h \<and> key (h ! m) < key (h ! i)
      then sift_down key m (h[m := h ! i, i := h ! m])
      else h)"
  by auto
termination
  by (relation "measure (\<lambda>(key, i, h). length h - i)") (auto simp: small_child_def)

declare sift_down.simps [simp del]

fun make_heap_loop :: "('a \<Rightarrow> 'k::linorder) \<Rightarrow> nat \<Rightarrow> 'a list \<Rightarrow> 'a list" where
  "make_heap_loop key 0 h = h"
| "make_heap_loop key (Suc k) h = make_heap_loop key k (sift_down key k h)"

definition make_heap :: "('a \<Rightarrow> 'k::linorder) \<Rightarrow> 'a list \<Rightarrow> 'a list" where
  "make_heap key h = make_heap_loop key (length h div 2) h"

definition push_heap :: "('a \<Rightarrow> 'k::linorder) \<Rightarrow> 'a list \<Rightarrow> 'a list" where
  "push_heap key h = sift_up key (length h - 1) h"

definition pop_heap :: "('a \<Rightarrow> 'k::linorder) \<Rightarrow> 'a list \<Rightarrow> 'a list" where
  "pop_heap key h = sift_down key 0 (butlast (h[0 := last h])) @ [hd h]"

definition heap_from :: "('a \<Rightarrow> 'k::linorder) \<Rightarrow> nat \<Rightarrow> 'a list \<Rightarrow> bool" where
  "heap_from key k h = (\<forall>j < length h. 0 < j \<longrightarrow> k \<le> par j \<longrightarrow> key (h ! par j) \<le> key (h ! j))"

definition is_heap :: "('a \<Rightarrow> 'k::linorder) \<Rightarrow> 'a list \<Rightarrow> bool" where
  "is_heap key h = (\<forall>j < length h. 0 < j \<longrightarrow> key (h ! par j) \<le> key (h ! j))"

lemma is_heap_from: "is_heap key h = heap_from key 0 h"
  by (simp add: is_heap_def heap_from_def)

lemma mset_swap2: "i < length h \<Longrightarrow> j < length h \<Longrightarrow> mset (h[i := h ! j, j := h ! i]) = mset h"
  by (rule mset_swap)

lemma length_sift_up [simp]: "length (sift_up key i h) = length h"
  by (induction key i h rule: sift_up.induct) (subst sift_up.simps, simp)

lemma mset_sift_up [simp]: "i < length h \<Longrightarrow> mset (sift_up key i h) = mset h"
proof (induction key i h rule: sift_up.induct)
  case (1 key i h)
  have "0 < i \<Longrightarrow> par i < length h" using "1.prems" par_less [of i] by linarith
  then show ?case using 1 by (subst sift_up.simps) (simp add: mset_swap2)
qed

lemma length_sift_down [simp]: "length (sift_down key i h) = length h"
  by (induction key i h rule: sift_down.induct) (subst sift_down.simps, simp add: Let_def)

lemma mset_sift_down [simp]: "mset (sift_down key i h) = mset h"
proof (induction key i h rule: sift_down.induct)
  case (1 key i h)
  have "2 * i + 1 < length h \<Longrightarrow> small_child key i h < length h \<and> i < length h"
    by (auto simp: small_child_def)
  then show ?case using 1 by (subst sift_down.simps) (simp add: Let_def mset_swap2)
qed

lemma length_make_heap_loop [simp]: "length (make_heap_loop key k h) = length h"
  by (induction key k h rule: make_heap_loop.induct) auto

lemma mset_make_heap [simp]: "mset (make_heap key h) = mset h"
proof -
  have "mset (make_heap_loop key k h) = mset h" for k
    by (induction key k h rule: make_heap_loop.induct) auto
  then show ?thesis by (simp add: make_heap_def)
qed

lemma sift_up_heap:
  assumes "\<And>j. j < length h \<Longrightarrow> 0 < j \<Longrightarrow> j \<noteq> i \<Longrightarrow> key (h ! par j) \<le> key (h ! j)"
    and "\<And>j. j < length h \<Longrightarrow> 0 < j \<Longrightarrow> par j = i \<Longrightarrow> 0 < i \<Longrightarrow> key (h ! par i) \<le> key (h ! j)"
    and "i < length h"
  shows "is_heap key (sift_up key i h)"
  using assms
proof (induction key i h rule: sift_up.induct)
  case (1 key i h)
  show ?case
  proof (cases "0 < i \<and> key (h ! i) < key (h ! par i)")
    case False
    then have "sift_up key i h = h" by (subst sift_up.simps) auto
    moreover have "key (h ! par j) \<le> key (h ! j)" if "j < length h" "0 < j" for j
      using False "1.prems"(1) [OF that] that by (cases "j = i") auto
    ultimately show ?thesis by (simp add: is_heap_def)
  next
    case True
    let ?p = "par i" and ?h = "h[i := h ! par i, par i := h ! i]"
    have p: "?p < i" "?p < length h" using True par_less "1.prems"(3) by (auto intro: less_trans)
    have n: "?h ! k = (if k = ?p then h ! i else if k = i then h ! ?p else h ! k)" for k
      using p "1.prems"(3) by (simp add: nth_list_update)
    have A: "key (?h ! par j) \<le> key (?h ! j)" if j: "j < length h" "0 < j" "j \<noteq> ?p" for j
    proof -
      consider "j = i" | "j \<noteq> i" "par j = ?p" | "j \<noteq> i" "par j = i" | "j \<noteq> i" "par j \<noteq> ?p" "par j \<noteq> i"
        by blast
      then show ?thesis
      proof cases
        case 2
        then have "key (h ! ?p) \<le> key (h ! j)" using "1.prems"(1) [OF j(1,2)] by simp
        then show ?thesis using 2 True j by (simp add: n) (meson less_imp_le order_trans)
      next
        case 3
        then show ?thesis using "1.prems"(2) [OF j(1,2)] True j p by (simp add: n)
      next
        case 4
        then show ?thesis using "1.prems"(1) [OF j(1,2)] j by (simp add: n)
      qed (use True p in \<open>simp add: n\<close>)
    qed
    have B: "key (?h ! par ?p) \<le> key (?h ! j)" if j: "j < length h" "0 < j" "par j = ?p" "0 < ?p" for j
    proof -
      have pp: "par ?p \<noteq> ?p" "par ?p \<noteq> i" using par_less [OF j(4)] p by auto
      have l: "key (h ! par ?p) \<le> key (h ! ?p)" using "1.prems"(1) [OF p(2) j(4)] p by simp
      have "key (h ! ?p) \<le> key (h ! j)" if "j \<noteq> i" using "1.prems"(1) [OF j(1,2) that] j by simp
      then show ?thesis using l pp j par_less [OF j(2)] by (auto simp: n intro: order_trans)
    qed
    have "is_heap key (sift_up key ?p ?h)"
      by (rule "1.IH") (use A B p True in auto)
    then show ?thesis using True by (subst sift_up.simps) simp
  qed
qed

lemma heap_push:
  assumes "is_heap key h"
  shows "is_heap key (push_heap key (h @ [x]))"
  unfolding push_heap_def
proof (rule sift_up_heap)
  fix j
  assume j: "j < length (h @ [x])" "0 < j" "j \<noteq> length (h @ [x]) - 1"
  then have "j < length h" by simp
  then show "key ((h @ [x]) ! par j) \<le> key ((h @ [x]) ! j)"
    using assms j par_less [OF j(2)] by (auto simp: is_heap_def nth_append)
next
  fix j
  assume j: "j < length (h @ [x])" "0 < j" "par j = length (h @ [x]) - 1"
  then show "key ((h @ [x]) ! par (length (h @ [x]) - 1)) \<le> key ((h @ [x]) ! j)"
    using par_less [OF j(2)] by simp
qed simp

lemma child_of: "0 < j \<Longrightarrow> par j = i \<Longrightarrow> j = 2 * i + 1 \<or> j = 2 * i + 2"
  unfolding par_def by presburger

lemma par_child [simp]: "par (2 * i + 1) = i" "par (2 * i + 2) = i" "par (Suc (2 * i)) = i" "par (Suc (Suc (2 * i))) = i"
  by (simp_all add: par_def)

lemma sift_down_heap:
  assumes "\<And>j. j < length h \<Longrightarrow> 0 < j \<Longrightarrow> k \<le> par j \<Longrightarrow> par j \<noteq> i \<Longrightarrow> key (h ! par j) \<le> key (h ! j)"
    and "\<And>j. j < length h \<Longrightarrow> 0 < j \<Longrightarrow> par j = i \<Longrightarrow> 0 < i \<Longrightarrow> k \<le> par i \<Longrightarrow> key (h ! par i) \<le> key (h ! j)"
    and "k \<le> i"
  shows "heap_from key k (sift_down key i h)"
  using assms
proof (induction key i h rule: sift_down.induct)
  case (1 key i h)
  let ?m = "small_child key i h"
  show ?case
  proof (cases "2 * i + 1 < length h \<and> key (h ! ?m) < key (h ! i)")
    case False
    then have e: "sift_down key i h = h" by (subst sift_down.simps) (auto simp: Let_def)
    have "key (h ! i) \<le> key (h ! j)" if j: "j < length h" "0 < j" "par j = i" for j
      using child_of [OF j(2,3)] False j(1) by (auto simp: small_child_def not_less split: if_splits)
    then show ?thesis using "1.prems"(1) unfolding e heap_from_def by metis
  next
    case True
    let ?h = "h[?m := h ! i, i := h ! ?m]"
    have m: "?m < length h" "par ?m = i" "0 < ?m" "i < ?m" "i < length h"
      using True by (auto simp: small_child_def)
    have n: "?h ! x = (if x = i then h ! ?m else if x = ?m then h ! i else h ! x)" for x
      using m by (simp add: nth_list_update)
    have sm: "key (h ! ?m) \<le> key (h ! j)" if "j < length h" "0 < j" "par j = i" for j
      using child_of [OF that(2,3)] that(1) by (auto simp: small_child_def)
    have A: "key (?h ! par j) \<le> key (?h ! j)" if j: "j < length h" "0 < j" "k \<le> par j" "par j \<noteq> ?m" for j
    proof (cases "par j = i")
      case True': True
      then have "j \<noteq> i" using par_less [OF j(2)] by simp
      then show ?thesis using True True' sm [OF j(1,2) True'] by (simp add: n less_imp_le)
    next
      case False
      then have le: "key (h ! par j) \<le> key (h ! j)" "j \<noteq> ?m"
        using "1.prems"(1) [OF j(1-3)] m(2) by auto
      show ?thesis
      proof (cases "j = i")
        case True
        then have "key (h ! par i) \<le> key (h ! ?m)" using "1.prems"(2) [OF m(1,3,2)] j by simp
        then show ?thesis using True False j by (simp add: n)
      qed (use le False j in \<open>simp add: n\<close>)
    qed
    have B: "key (?h ! par ?m) \<le> key (?h ! j)" if j: "j < length h" "0 < j" "par j = ?m" for j
    proof -
      have "?m < j" using par_less [OF j(2)] j(3) by simp
      moreover have "key (h ! ?m) \<le> key (h ! j)"
        using "1.prems"(1) [OF j(1,2)] j m "1.prems"(3) by simp
      ultimately show ?thesis using m by (simp add: n)
    qed
    have "heap_from key k (sift_down key ?m ?h)"
      using "1.IH" [OF refl True] A B m "1.prems"(3) by simp
    then show ?thesis using True by (subst sift_down.simps) (simp add: Let_def)
  qed
qed

lemma make_heap_loop_heap: "heap_from key k h \<Longrightarrow> is_heap key (make_heap_loop key k h)"
proof (induction key k h rule: make_heap_loop.induct)
  case (2 key k h)
  have "heap_from key k (sift_down key k h)"
  proof (rule sift_down_heap)
    fix j assume "j < length h" "0 < j" "k \<le> par j" "par j \<noteq> k"
    then show "key (h ! par j) \<le> key (h ! j)" using "2.prems" by (simp add: heap_from_def)
  next
    fix j assume "0 < k" "k \<le> par k"
    then show "key (h ! par k) \<le> key (h ! j)" using par_less [of k] by simp
  qed simp
  then show ?case using 2 by simp
qed (simp add: is_heap_from)

lemma heap_make [simp]: "is_heap key (make_heap key h)"
  unfolding make_heap_def
proof (rule make_heap_loop_heap)
  show "heap_from key (length h div 2) h"
    unfolding heap_from_def par_def by (intro allI impI) linarith
qed

lemma heap_min:
  assumes "is_heap key h" "j < length h"
  shows "key (h ! 0) \<le> key (h ! j)"
  using assms(2)
proof (induction j rule: less_induct)
  case (less j)
  show ?case
  proof (cases "j = 0")
    case False
    then have "key (h ! 0) \<le> key (h ! par j)" using less par_less [of j] by simp
    also have "\<dots> \<le> key (h ! j)" using assms(1) less.prems False by (simp add: is_heap_def)
    finally show ?thesis .
  qed simp
qed

lemma heap_pop:
  assumes "is_heap key h" "h \<noteq> []"
  shows "is_heap key (butlast (pop_heap key h))" "last (pop_heap key h) = hd h"
    "mset h = add_mset (hd h) (mset (butlast (pop_heap key h)))"
proof -
  let ?t = "butlast (h[0 := last h])"
  have e: "butlast (pop_heap key h) = sift_down key 0 ?t" by (simp add: pop_heap_def)
  have "heap_from key 0 (sift_down key 0 ?t)"
  proof (rule sift_down_heap)
    fix j assume j: "j < length ?t" "0 < j" "par j \<noteq> 0"
    then show "key (?t ! par j) \<le> key (?t ! j)"
      using assms(1) par_less [OF j(2)] by (simp add: nth_butlast is_heap_def)
  qed simp_all
  then show "is_heap key (butlast (pop_heap key h))" by (simp add: e is_heap_from)
  show "last (pop_heap key h) = hd h" by (simp add: pop_heap_def)
  obtain x xs where h: "h = x # xs" using assms(2) by (cases h) auto
  have "mset ?t = mset xs"
  proof (cases "xs = []")
    case False
    have "mset (butlast xs) + mset [last xs] = mset xs"
      by (simp only: mset_append [symmetric] append_butlast_last_id [OF False])
    then show ?thesis using False by (simp add: h)
  qed (simp add: h)
  then have "mset (butlast (pop_heap key h)) = mset xs" unfolding e by simp
  then show "mset h = add_mset (hd h) (mset (butlast (pop_heap key h)))" by (simp add: h)
qed

subsection \<open>The contract\<close>

locale min_queue =
  fixes inv :: "'q \<Rightarrow> bool" and elems :: "'q \<Rightarrow> 'a multiset" and key :: "'a \<Rightarrow> 'k::linorder"
    and push :: "'a \<Rightarrow> 'q \<Rightarrow> 'q" and front :: "'q \<Rightarrow> 'a" and pop :: "'q \<Rightarrow> 'a \<times> 'q"
  assumes push_ok: "inv q \<Longrightarrow> inv (push x q) \<and> elems (push x q) = add_mset x (elems q)"
    and front_ok: "inv q \<Longrightarrow> elems q \<noteq> {#} \<Longrightarrow> front q \<in># elems q \<and> (\<forall>y \<in># elems q. key (front q) \<le> key y)"
    and pop_ok: "inv q \<Longrightarrow> elems q \<noteq> {#} \<Longrightarrow> fst (pop q) = front q \<and> inv (snd (pop q))
      \<and> elems q = add_mset (front q) (elems (snd (pop q)))"
begin

lemma pop_min:
  assumes "inv q" "elems q \<noteq> {#}" "pop q = (x, q')"
  shows "inv q'" "elems q = add_mset x (elems q')" "\<forall>y \<in># elems q. key x \<le> key y"
  using pop_ok [OF assms(1,2)] front_ok [OF assms(1,2)] assms(3) by auto

lemma due_front:
  assumes "inv q"
  shows "(elems q \<noteq> {#} \<and> key (front q) \<le> t) = (\<exists>x \<in># elems q. key x \<le> t)"
proof
  assume "elems q \<noteq> {#} \<and> key (front q) \<le> t"
  then show "\<exists>x \<in># elems q. key x \<le> t" using front_ok [OF assms] by blast
next
  assume "\<exists>x \<in># elems q. key x \<le> t"
  then obtain x where x: "x \<in># elems q" "key x \<le> t" by blast
  then have "elems q \<noteq> {#}" by auto
  then show "elems q \<noteq> {#} \<and> key (front q) \<le> t" using front_ok [OF assms] x by (meson order_trans)
qed

end

interpretation heap: min_queue "is_heap key" mset key "\<lambda>x h. push_heap key (h @ [x])" hd
  "\<lambda>h. (last (pop_heap key h), butlast (pop_heap key h))" for key :: "'a \<Rightarrow> 'k::linorder"
proof
  fix q :: "'a list" and x
  assume q: "is_heap key q"
  show "is_heap key (push_heap key (q @ [x])) \<and> mset (push_heap key (q @ [x])) = add_mset x (mset q)"
    using heap_push [OF q] by (simp add: push_heap_def)
  assume "mset q \<noteq> {#}"
  then have ne: "q \<noteq> []" by auto
  show "hd q \<in># mset q \<and> (\<forall>y \<in># mset q. key (hd q) \<le> key y)"
    using heap_min [OF q] ne by (auto simp: hd_conv_nth in_set_conv_nth)
  show "fst (last (pop_heap key q), butlast (pop_heap key q)) = hd q
      \<and> is_heap key (snd (last (pop_heap key q), butlast (pop_heap key q)))
      \<and> mset q = add_mset (hd q) (mset (snd (last (pop_heap key q), butlast (pop_heap key q))))"
    using heap_pop [OF q ne] by simp
qed

end
