(* ===== verification/Timers.thy ===== *)
theory Timers
  imports Heaps NetTypes
begin

text \<open>
  \<open>TimerComponent\<close> (\<open>timer_component.cpp\<close>): a heap of timers ordered by the time of their next call.
  A handler is a value of type \<open>'h\<close>; what calling it does to the heap (it may add and remove timers) is the
  parameter \<open>call\<close> of \<open>Update\<close>, which also records the serial numbers of the timers it fires, in order.
\<close>

record 'h timer =
  tm_NextTime :: u64
  tm_Handler :: 'h
  tm_DurationSecond :: int
  tm_CallCountTotal :: int
  tm_CallCountCur :: int
  tm_SN :: u64

definition AddSeconds :: "u64 \<Rightarrow> int \<Rightarrow> u64" where
  "AddSeconds timeValue second = timeValue + word_of_int second * 1000"

definition Timer_Push :: "'h timer \<Rightarrow> 'h timer list \<Rightarrow> 'h timer list" where
  "Timer_Push data h =
     (let h = h @ [data] in
      if length h = 1 then make_heap tm_NextTime h else push_heap tm_NextTime h)"

definition Timer_BackToPool :: "'h timer list \<Rightarrow> 'h timer list" where
  "Timer_BackToPool h = []"

definition Timer_Add :: "int \<Rightarrow> int \<Rightarrow> bool \<Rightarrow> int \<Rightarrow> 'h \<Rightarrow> global \<Rightarrow> 'h timer list \<Rightarrow> u64 \<times> global \<times> 'h timer list" where
  "Timer_Add tot durations immediateDo immediateDoDelaySecond handler g h =
     (let (sn, g) = GenerateSN g;
          data = \<lparr>tm_NextTime = AddSeconds (g_TimeTick g) durations, tm_Handler = handler,
                  tm_DurationSecond = durations, tm_CallCountTotal = tot, tm_CallCountCur = 0, tm_SN = sn\<rparr>;
          data = (if immediateDo
                  then data\<lparr>tm_NextTime := AddSeconds (g_TimeTick g) immediateDoDelaySecond\<rparr> else data)
      in (tm_SN data, g, Timer_Push data h))"

text \<open>\<open>find_if\<close> and \<open>erase\<close>: \<open>None\<close> when no timer has the serial number.\<close>

fun erase_sn :: "u64 \<Rightarrow> 'h timer list \<Rightarrow> 'h timer list option" where
  "erase_sn sn [] = None"
| "erase_sn sn (one # h) = (if tm_SN one = sn then Some h else map_option ((#) one) (erase_sn sn h))"

fun Timer_RemoveList :: "u64 list \<Rightarrow> 'h timer list \<Rightarrow> 'h timer list" where
  "Timer_RemoveList [] h = make_heap tm_NextTime h"
| "Timer_RemoveList (sn # timers) h =
     (case erase_sn sn h of None \<Rightarrow> h | Some h \<Rightarrow> Timer_RemoveList timers h)"

definition Timer_Remove :: "u64 \<Rightarrow> 'h timer list \<Rightarrow> 'h timer list" where
  "Timer_Remove tm h = (case erase_sn tm h of None \<Rightarrow> h | Some h \<Rightarrow> make_heap tm_NextTime h)"

definition CheckTime :: "u64 \<Rightarrow> 'h timer list \<Rightarrow> bool" where
  "CheckTime TimeTick h = (if h = [] then False else tm_NextTime (hd h) \<le> TimeTick)"

definition PopTimeHeap :: "'h timer list \<Rightarrow> 'h timer \<times> 'h timer list" where
  "PopTimeHeap h = (let h = pop_heap tm_NextTime h in (last h, butlast h))"

text \<open>The end of one round: the call count, and the timer back into the heap unless it is used up.\<close>

definition Timer_Again :: "u64 \<Rightarrow> 'h timer \<Rightarrow> 'h timer list \<Rightarrow> 'h timer list" where
  "Timer_Again TimeTick data h =
     (let data = (if tm_CallCountTotal data \<noteq> 0
                  then data\<lparr>tm_CallCountCur := tm_CallCountCur data + 1\<rparr> else data)
      in if tm_CallCountTotal data = 0 \<or> tm_CallCountCur data < tm_CallCountTotal data
         then Timer_Push (data\<lparr>tm_NextTime := AddSeconds TimeTick (tm_DurationSecond data)\<rparr>) h
         else h)"

partial_function (option) Timer_Update ::
  "('h \<Rightarrow> 'h timer list \<Rightarrow> 'h timer list) \<Rightarrow> u64 \<Rightarrow> 'h timer list \<Rightarrow> ('h timer list \<times> u64 list) option" where
  "Timer_Update call TimeTick h =
     (if CheckTime TimeTick h then do {
        let (data, h) = PopTimeHeap h;
        let h = call (tm_Handler data) h;
        (h, log) \<leftarrow> Timer_Update call TimeTick (Timer_Again TimeTick data h);
        Some (h, tm_SN data # log)
      } else Some (h, []))"

abbreviation timer_heap :: "'h timer list \<Rightarrow> bool" where "timer_heap \<equiv> is_heap tm_NextTime"

definition due :: "u64 \<Rightarrow> 'h timer list \<Rightarrow> 'h timer multiset" where
  "due TimeTick h = filter_mset (\<lambda>x. tm_NextTime x \<le> TimeTick) (mset h)"

lemma Timer_Push_ok [simp, inv_intros]:
  "timer_heap h \<Longrightarrow> timer_heap (Timer_Push data h)" "mset (Timer_Push data h) = add_mset data (mset h)"
  using heap.push_ok [of tm_NextTime h data]
  by (auto simp: Timer_Push_def Let_def push_heap_def)

lemma erase_sn_mset: "erase_sn sn h = Some h' \<Longrightarrow> \<exists>x. tm_SN x = sn \<and> mset h = add_mset x (mset h')"
  by (induction sn h arbitrary: h' rule: erase_sn.induct) (auto split: if_splits)

lemma erase_sn_None: "(erase_sn sn h = None) = (\<forall>x \<in> set h. tm_SN x \<noteq> sn)"
  by (induction sn h rule: erase_sn.induct) auto

lemma Timer_Remove_heap [inv_intros]: "timer_heap h \<Longrightarrow> timer_heap (Timer_Remove tm h)"
  by (simp add: Timer_Remove_def split: option.split)

lemma CheckTime_due: "timer_heap h \<Longrightarrow> CheckTime TimeTick h = (due TimeTick h \<noteq> {#})"
  using heap.due_front [of tm_NextTime h TimeTick]
  by (auto simp: CheckTime_def due_def set_mset_eq_empty_iff [symmetric] simp del: set_mset_eq_empty_iff)

lemma PopTimeHeap_ok:
  assumes "timer_heap h" "CheckTime TimeTick h" "PopTimeHeap h = (data, h')"
  shows "timer_heap h'" "mset h = add_mset data (mset h')" "\<forall>y \<in> set h. tm_NextTime data \<le> tm_NextTime y"
    "tm_NextTime data \<le> TimeTick" "due TimeTick h = add_mset data (due TimeTick h')"
proof -
  have "mset h \<noteq> {#}" using assms(2) by (auto simp: CheckTime_def)
  note p = heap.pop_min [OF assms(1) this] 
  have e: "(last (pop_heap tm_NextTime h), butlast (pop_heap tm_NextTime h)) = (data, h')"
    using assms(3) by (simp add: PopTimeHeap_def Let_def)
  show 1: "timer_heap h'" "mset h = add_mset data (mset h')" "\<forall>y \<in> set h. tm_NextTime data \<le> tm_NextTime y"
    using p [OF e] by (simp_all, metis mset_eq_setD order.refl set_mset_add_mset_insert set_mset_mset insertE)
  have "data \<in> set h" using 1(2) by (metis set_mset_mset union_single_eq_member)
  have "hd h \<in> set h" using assms(2) by (auto simp: CheckTime_def split: if_splits)
  then show "tm_NextTime data \<le> TimeTick"
    using 1(3) assms(2) by (auto simp: CheckTime_def split: if_splits intro: order_trans)
  then show "due TimeTick h = add_mset data (due TimeTick h')" by (simp add: due_def 1(2))
qed

text \<open>A timer that is put back is not due again when its interval is positive and the clock does not wrap.\<close>

definition positive :: "u64 \<Rightarrow> 'h timer list \<Rightarrow> bool" where
  "positive TimeTick h = (\<forall>x \<in> set h. TimeTick < AddSeconds TimeTick (tm_DurationSecond x))"

lemma Timer_Again_heap [simp]: "timer_heap h \<Longrightarrow> timer_heap (Timer_Again TimeTick data h)"
  by (simp add: Timer_Again_def Let_def)

lemma Timer_Again_due:
  "TimeTick < AddSeconds TimeTick (tm_DurationSecond data) \<Longrightarrow> due TimeTick (Timer_Again TimeTick data h) = due TimeTick h"
  by (auto simp: Timer_Again_def Let_def due_def not_le)

lemma Timer_Again_positive:
  assumes "TimeTick < AddSeconds TimeTick (tm_DurationSecond data)" "positive TimeTick h"
  shows "positive TimeTick (Timer_Again TimeTick data h)"
proof -
  have "set (Timer_Push d h) = insert d (set h)" for d :: "'a timer"
    by (metis Timer_Push_ok(2) set_mset_add_mset_insert set_mset_mset)
  then show ?thesis using assms by (auto simp: Timer_Again_def Let_def positive_def)
qed

definition quiet :: "('h \<Rightarrow> 'h timer list \<Rightarrow> 'h timer list) \<Rightarrow> u64 \<Rightarrow> bool" where
  "quiet call TimeTick = (\<forall>x h. timer_heap h \<longrightarrow> positive TimeTick h \<longrightarrow>
     timer_heap (call x h) \<and> positive TimeTick (call x h) \<and> due TimeTick (call x h) \<subseteq># due TimeTick h)"

lemma Timer_Update_round:
  assumes h: "timer_heap h" "positive TimeTick h" and c: "CheckTime TimeTick h" and q: "quiet call TimeTick"
    and p: "PopTimeHeap h = (data, h1)"
  defines "h2 \<equiv> Timer_Again TimeTick data (call (tm_Handler data) h1)"
  shows "timer_heap h2" "positive TimeTick h2" "due TimeTick h2 \<subseteq># due TimeTick h1"
    "size (due TimeTick h2) < size (due TimeTick h)"
proof -
  note pop = PopTimeHeap_ok [OF h(1) c p]
  have s: "insert data (set h1) = set h" by (metis pop(2) set_mset_add_mset_insert set_mset_mset)
  then have "positive TimeTick h1" "TimeTick < AddSeconds TimeTick (tm_DurationSecond data)"
    using h(2) by (auto simp: positive_def)
  with q pop(1) have "timer_heap (call (tm_Handler data) h1)" "positive TimeTick (call (tm_Handler data) h1)"
    "due TimeTick (call (tm_Handler data) h1) \<subseteq># due TimeTick h1"
    by (auto simp: quiet_def)
  then show "timer_heap h2" "positive TimeTick h2" "due TimeTick h2 \<subseteq># due TimeTick h1"
    using \<open>TimeTick < _\<close> by (simp_all add: h2_def Timer_Again_positive Timer_Again_due)
  then show "size (due TimeTick h2) < size (due TimeTick h)"
    using size_mset_mono [of "due TimeTick h2" "due TimeTick h1"] by (simp add: pop(5))
qed

lemma Timer_Update_total:
  assumes "timer_heap h" "positive TimeTick h" "quiet call TimeTick"
  shows "\<exists>h' log. Timer_Update call TimeTick h = Some (h', log) \<and> timer_heap h' \<and> due TimeTick h' = {#}
    \<and> length log \<le> size (due TimeTick h)"
  using assms(1,2)
proof (induction "size (due TimeTick h)" arbitrary: h rule: less_induct)
  case less
  show ?case
  proof (cases "CheckTime TimeTick h")
    case True
    obtain data h1 where p: "PopTimeHeap h = (data, h1)" by force
    note r = Timer_Update_round [OF less.prems True assms(3) p]
    from less.hyps [OF r(4) r(1,2)] r(4) show ?thesis
      using True p by (subst Timer_Update.simps) auto
  next
    case False
    then show ?thesis using CheckTime_due [OF less.prems(1)] less.prems(1)
      by (simp add: Timer_Update.simps)
  qed
qed

lemma Timer_Update_fires:
  assumes "timer_heap h" "positive TimeTick h"
  shows "\<exists>h' ts. Timer_Update (\<lambda>_ h. h) TimeTick h = Some (h', map tm_SN ts)
    \<and> mset ts = due TimeTick h \<and> sorted (map tm_NextTime ts)"
  using assms
proof (induction "size (due TimeTick h)" arbitrary: h rule: less_induct)
  case less
  show ?case
  proof (cases "CheckTime TimeTick h")
    case True
    obtain data h1 where p: "PopTimeHeap h = (data, h1)" by force
    have q: "quiet (\<lambda>_ h. h) TimeTick" by (simp add: quiet_def)
    note r = Timer_Update_round [OF less.prems True q p]
    note pop = PopTimeHeap_ok [OF less.prems(1) True p]
    obtain h' ts where ts: "Timer_Update (\<lambda>_ h. h) TimeTick (Timer_Again TimeTick data h1) = Some (h', map tm_SN ts)"
      "mset ts = due TimeTick (Timer_Again TimeTick data h1)" "sorted (map tm_NextTime ts)"
      using less.hyps [OF r(4) r(1,2)] by blast
    have s: "insert data (set h1) = set h" by (metis pop(2) set_mset_add_mset_insert set_mset_mset)
    then have "TimeTick < AddSeconds TimeTick (tm_DurationSecond data)"
      using less.prems(2) by (auto simp: positive_def)
    then have m: "mset ts = due TimeTick h1" using ts(2) by (simp add: Timer_Again_due)
    have "set ts \<subseteq> set h"
    proof -
      have "set_mset (mset ts) \<subseteq> set_mset (mset h)" unfolding m pop(2) due_def by auto
      then show ?thesis by simp
    qed
    then have "sorted (map tm_NextTime (data # ts))" using pop(3) ts(3) by auto
    moreover have "Timer_Update (\<lambda>_ h. h) TimeTick h = Some (h', map tm_SN (data # ts))"
      using True p ts(1) by (subst Timer_Update.simps) simp
    moreover have "mset (data # ts) = due TimeTick h" using m pop(5) by simp
    ultimately show ?thesis by blast
  next
    case False
    then show ?thesis using CheckTime_due [OF less.prems(1)]
      by (intro exI [of _ h] exI [of _ "[]"]) (simp add: Timer_Update.simps)
  qed
qed

text \<open>A timer that is called for ever at once: the loop of \<open>Update\<close> does not end.\<close>

definition forever :: "u64 \<Rightarrow> 'h timer list \<Rightarrow> bool" where
  "forever TimeTick h = (\<exists>x \<in> set h. tm_CallCountTotal x = 0 \<and> AddSeconds TimeTick (tm_DurationSecond x) \<le> TimeTick
     \<and> tm_NextTime x \<le> TimeTick)"

lemma forever_again:
  assumes "timer_heap h" "forever TimeTick h" "CheckTime TimeTick h" "PopTimeHeap h = (data, h1)"
  shows "forever TimeTick (Timer_Again TimeTick data h1) \<and> timer_heap (Timer_Again TimeTick data h1)"
proof -
  note pop = PopTimeHeap_ok [OF assms(1,3,4)]
  have s: "set h = insert data (set h1)" by (metis pop(2) set_mset_add_mset_insert set_mset_mset)
  have t: "set (Timer_Push d h1) = insert d (set h1)" for d
    by (metis Timer_Push_ok(2) set_mset_add_mset_insert set_mset_mset)
  obtain x where x: "x \<in> set h" "tm_CallCountTotal x = 0" "AddSeconds TimeTick (tm_DurationSecond x) \<le> TimeTick"
    "tm_NextTime x \<le> TimeTick" using assms(2) by (auto simp: forever_def)
  show ?thesis
  proof (cases "x = data")
    case True
    then show ?thesis using x pop(1) by (auto simp: Timer_Again_def Let_def forever_def t)
  next
    case False
    then have "x \<in> set (Timer_Again TimeTick data h1)" using x(1) s t by (auto simp: Timer_Again_def Let_def)
    then show ?thesis using x pop(1) by (auto simp: forever_def)
  qed
qed

lemma Timer_Update_forever:
  assumes "timer_heap h" "forever TimeTick h"
  shows "Timer_Update (\<lambda>_ h. h) TimeTick h = None"
proof (rule ccontr)
  assume "Timer_Update (\<lambda>_ h. h) TimeTick h \<noteq> None"
  then obtain y where y: "Timer_Update (\<lambda>_ h. h) TimeTick h = Some y" by blast
  have "(call = (\<lambda>_ h. h)) \<longrightarrow> timer_heap h \<longrightarrow> \<not> forever TimeTick h"
    if r: "Timer_Update call TimeTick h = Some y" for call y
  proof (rule Timer_Update.raw_induct [OF _ r])
    fix upd and call :: "'a \<Rightarrow> 'a timer list \<Rightarrow> 'a timer list" and TimeTick h y
    assume IH: "\<And>call TimeTick h y. upd call TimeTick h = Some y \<Longrightarrow>
        (call = (\<lambda>_ h. h)) \<longrightarrow> timer_heap h \<longrightarrow> \<not> forever TimeTick h"
      and eq: "(if CheckTime TimeTick h then do {
          let (data, h) = PopTimeHeap h;
          let h = call (tm_Handler data) h;
          (h, log) \<leftarrow> upd call TimeTick (Timer_Again TimeTick data h);
          Some (h, tm_SN data # log)
        } else Some (h, [])) = Some y"
    show "(call = (\<lambda>_ h. h)) \<longrightarrow> timer_heap h \<longrightarrow> \<not> forever TimeTick h"
    proof (intro impI notI)
      assume c: "call = (\<lambda>_ h. h)" and h: "timer_heap h" and f: "forever TimeTick h"
      obtain x where "x \<in> set h" "tm_NextTime x \<le> TimeTick" using f by (auto simp: forever_def)
      then have ct: "CheckTime TimeTick h"
        unfolding CheckTime_due [OF h] by (auto simp: due_def filter_mset_eq_conv)
      obtain data h1 where p: "PopTimeHeap h = (data, h1)" by force
      obtain z where "upd call TimeTick (Timer_Again TimeTick data h1) = Some z"
        using eq ct p c by (auto simp: bind_eq_Some_conv)
      from IH [OF this] c forever_again [OF h f ct p] show False by blast
    qed
  qed
  from this [OF y] assms show False by simp
qed

subsection \<open>Properties\<close>

text \<open>
  C7. When every interval is positive, one frame of \<open>Update\<close> fires exactly the timers that are due, each
  once, in the order of their times.
\<close>

theorem timer_update_fires_due:
  assumes "timer_heap h" "positive TimeTick h"
  shows "\<exists>h' ts. Timer_Update (\<lambda>_ h. h) TimeTick h = Some (h', map tm_SN ts)
    \<and> mset ts = due TimeTick h \<and> sorted (map tm_NextTime ts)"
  using Timer_Update_fires [OF assms] .

definition timer_at :: "u64 \<Rightarrow> int \<Rightarrow> int \<Rightarrow> u64 \<Rightarrow> unit timer" where
  "timer_at t d tot sn = \<lparr>tm_NextTime = t, tm_Handler = (), tm_DurationSecond = d, tm_CallCountTotal = tot,
     tm_CallCountCur = 0, tm_SN = sn\<rparr>"

lemma timer_heap_trivial: "timer_heap []" "timer_heap [x]"
  by (simp_all add: is_heap_def)

theorem timer_update_fires_due_witness:
  "\<exists>h' ts. Timer_Update (\<lambda>_ h. h) 5000 [timer_at 4000 2 1 9] = Some (h', map tm_SN ts)
    \<and> mset ts = {#timer_at 4000 2 1 9#} \<and> sorted (map tm_NextTime ts)"
proof -
  have "positive 5000 [timer_at 4000 2 1 9]" "due 5000 [timer_at 4000 2 1 9] = {#timer_at 4000 2 1 9#}"
    by (simp_all add: positive_def AddSeconds_def timer_at_def due_def)
  with timer_update_fires_due [OF timer_heap_trivial(2)] show ?thesis by metis
qed

text \<open>
  C8. \<open>Update\<close> returns, with the heap restored and nothing due any more, whatever the handlers do to the
  heap, as long as they keep it a heap, keep intervals positive and add no timer that is due at once.
\<close>

theorem timer_update_terminates:
  assumes "timer_heap h" "positive TimeTick h" "quiet call TimeTick"
  shows "\<exists>h' log. Timer_Update call TimeTick h = Some (h', log) \<and> timer_heap h'
    \<and> due TimeTick h' = {#} \<and> length log \<le> size (due TimeTick h)"
  using Timer_Update_total [OF assms] .

theorem timer_update_terminates_witness:
  "\<exists>h' log. Timer_Update (\<lambda>_ h. []) 5000 [timer_at 4000 2 1 9] = Some (h', log) \<and> length log \<le> 1"
proof -
  have "quiet (\<lambda>_ h. []) (5000 :: u64)"
    by (simp add: quiet_def timer_heap_trivial positive_def due_def)
  with timer_update_terminates [of "[timer_at 4000 2 1 9]" 5000 "\<lambda>_ h. []"] timer_heap_trivial
  show ?thesis by (auto simp: positive_def AddSeconds_def timer_at_def due_def)
qed

text \<open>
  An endless timer whose interval is not positive (zero seconds, for instance) keeps \<open>Update\<close> in its
  loop for ever once it is due: nothing rejects such an interval.
\<close>

theorem timer_zero_interval_hangs:
  assumes "timer_heap h" "x \<in> set h" "tm_CallCountTotal x = 0" "tm_NextTime x \<le> TimeTick"
    and "AddSeconds TimeTick (tm_DurationSecond x) \<le> TimeTick"
  shows "Timer_Update (\<lambda>_ h. h) TimeTick h = None"
  using Timer_Update_forever [OF assms(1)] assms(2-) unfolding forever_def by blast

theorem timer_zero_interval_hangs_witness:
  "Timer_Update (\<lambda>_ h. h) 5000 [timer_at 4000 0 0 9] = None"
  by (rule timer_zero_interval_hangs [of _ "timer_at 4000 0 0 9"])
    (simp_all add: timer_heap_trivial timer_at_def AddSeconds_def)

text \<open>
  Removing a single timer keeps the heap and removes only that timer; so does removing a list of timers
  when all of them are there.
\<close>

lemma Timer_RemoveList_ok:
  "mset timers \<subseteq># image_mset tm_SN (mset h) \<Longrightarrow>
     timer_heap (Timer_RemoveList timers h)
     \<and> image_mset tm_SN (mset (Timer_RemoveList timers h)) = image_mset tm_SN (mset h) - mset timers"
proof (induction timers h rule: Timer_RemoveList.induct)
  case (2 sn timers h)
  show ?case
  proof (cases "erase_sn sn h")
    case None
    then have "sn \<notin># image_mset tm_SN (mset h)" by (auto simp: erase_sn_None)
    then show ?thesis using mset_subset_eqD [OF 2(2), of sn] by simp
  next
    case (Some h')
    then obtain x where x: "tm_SN x = sn" "mset h = add_mset x (mset h')" using erase_sn_mset by blast
    then have "mset timers \<subseteq># image_mset tm_SN (mset h')" using 2(2) by simp
    then show ?thesis using 2(1) [OF Some] Some x by simp
  qed
qed simp

theorem timer_remove_list:
  assumes "mset timers \<subseteq># image_mset tm_SN (mset h)"
  shows "timer_heap (Timer_RemoveList timers h)
    \<and> image_mset tm_SN (mset (Timer_RemoveList timers h)) = image_mset tm_SN (mset h) - mset timers"
  using Timer_RemoveList_ok [OF assms] .

theorem timer_remove_list_witness:
  "timer_heap (Timer_RemoveList [7] [timer_at 1 1 1 5, timer_at 2 1 1 7])"
  using timer_remove_list [of "[7]" "[timer_at 1 1 1 5, timer_at 2 1 1 7]"]
  by (simp add: timer_at_def)

text \<open>
  When one serial number of the list is missing (a timer that has made its last call, for instance),
  \<open>Remove\<close> returns at once: the timers listed behind it stay, the timers erased so far are gone, and the
  vector is no longer a heap, so that \<open>CheckTime\<close> overlooks a timer that is due.
\<close>

theorem timer_remove_list_breaks_heap:
  "\<exists>(h :: unit timer list) timers TimeTick. timer_heap h \<and> \<not> timer_heap (Timer_RemoveList timers h)
     \<and> set timers \<inter> tm_SN ` set (Timer_RemoveList timers h) \<noteq> {}
     \<and> due TimeTick (Timer_RemoveList timers h) \<noteq> {#} \<and> \<not> CheckTime TimeTick (Timer_RemoveList timers h)"
proof -
  let ?h = "map (\<lambda>t. timer_at t 1 1 t) [1, 10, 2, 11, 12, 3]"
  have r: "Timer_RemoveList [1, 99, 2] ?h = map (\<lambda>t. timer_at t 1 1 t) [10, 2, 11, 12, 3]"
    by (simp add: timer_at_def)
  have "timer_heap ?h"
    unfolding is_heap_def
  proof (intro allI impI)
    fix j assume "j < length ?h" "0 < j"
    then have "j \<in> {1, 2, 3, 4, 5}" by auto
    then show "tm_NextTime (?h ! par j) \<le> tm_NextTime (?h ! j)"
      by (auto simp: par_def timer_at_def)
  qed
  moreover have "\<not> timer_heap (Timer_RemoveList [1, 99, 2] ?h)"
    unfolding r is_heap_def by (auto simp: par_def timer_at_def intro!: exI [of _ "1 :: nat"])
  moreover have "due 5 (Timer_RemoveList [1, 99, 2] ?h) \<noteq> {#}" "\<not> CheckTime 5 (Timer_RemoveList [1, 99, 2] ?h)"
    unfolding r by (simp_all add: due_def CheckTime_def timer_at_def)
  moreover have "set [1, 99, 2] \<inter> tm_SN ` set (Timer_RemoveList [1, 99, 2] ?h) \<noteq> {}"
    unfolding r by (simp add: timer_at_def)
  ultimately show ?thesis by blast
qed

end
