(* ===== verification/ObjectPools.thy ===== *)
theory ObjectPools
  imports Packets
begin

text \<open>
  \<open>CacheRefresh\<close>, \<open>CacheSwap\<close> and \<open>DynamicObjectPool\<close>: the containers through which objects are added to and
  removed from a running frame without disturbing iteration, and the pool that recycles them.
  An object is a record of its address, its serial number and its content; \<open>new\<close> hands out the addresses
  in order. A pool step is one call of the pool, and the invariant says that every object the pool ever
  created is in exactly one place, so that no object is handed out twice.
\<close>

subsection \<open>\<open>CacheRefresh\<close>\<close>

record 'a pobj =
  o_addr :: nat
  o_sn :: u64
  o_data :: 'a

record 'a cache_refresh =
  cr_objs :: "(u64, 'a pobj) smap"
  cr_adds :: "(u64, 'a pobj) smap"
  cr_removes :: "u64 list"

definition CacheRefresh_empty :: "'a cache_refresh" where
  "CacheRefresh_empty = \<lparr>cr_objs = [], cr_adds = [], cr_removes = []\<rparr>"

definition GetReaderCache :: "'a cache_refresh \<Rightarrow> (u64, 'a pobj) smap" where
  "GetReaderCache c = cr_objs c"

definition CR_AddObj :: "'a pobj \<Rightarrow> 'a cache_refresh \<Rightarrow> 'a cache_refresh" where
  "CR_AddObj pObj c = c\<lparr>cr_adds := smap_emplace (o_sn pObj) pObj (cr_adds c)\<rparr>"

definition CR_RemoveObj :: "u64 \<Rightarrow> 'a cache_refresh \<Rightarrow> 'a cache_refresh" where
  "CR_RemoveObj sn c = c\<lparr>cr_removes := cr_removes c @ [sn]\<rparr>"

definition CR_Count :: "'a cache_refresh \<Rightarrow> nat" where
  "CR_Count c = length (cr_objs c) + length (cr_adds c)"

text \<open>\<open>map::insert(first, last)\<close>\<close>

fun insert_range :: "('k::linorder \<times> 'v) list \<Rightarrow> ('k, 'v) smap \<Rightarrow> ('k, 'v) smap" where
  "insert_range [] m = m"
| "insert_range ((k, v) # src) m = insert_range src (smap_emplace k v m)"

text \<open>
  The removal loop of \<open>Swap\<close>. With a recycle queue the object gets serial number 0 and joins the queue;
  without one (\<open>nullptr\<close>) it is deleted, which the second component records.
\<close>

fun CR_remove_loop :: "bool \<Rightarrow> u64 list \<Rightarrow> (u64, 'a pobj) smap \<Rightarrow> 'a pobj list \<Rightarrow> 'a pobj list \<Rightarrow>
    (u64, 'a pobj) smap \<times> 'a pobj list \<times> 'a pobj list" where
  "CR_remove_loop recycle [] objs rl del = (objs, rl, del)"
| "CR_remove_loop recycle (one # removes) objs rl del =
     (case map_of objs one of
        None \<Rightarrow> CR_remove_loop recycle removes objs rl del
      | Some pObj \<Rightarrow>
          (if recycle
           then CR_remove_loop recycle removes (smap_erase one objs) (rl @ [pObj\<lparr>o_sn := 0\<rparr>]) del
           else CR_remove_loop recycle removes (smap_erase one objs) rl (del @ [pObj])))"

definition CR_Swap :: "bool \<Rightarrow> 'a pobj list \<Rightarrow> 'a cache_refresh \<Rightarrow>
    'a cache_refresh \<times> 'a pobj list \<times> 'a pobj list" where
  "CR_Swap recycle pRecycleList c =
     (let c = (if cr_adds c \<noteq> []
               then c\<lparr>cr_objs := insert_range (cr_adds c) (cr_objs c), cr_adds := []\<rparr> else c)
      in if cr_removes c \<noteq> []
         then (case CR_remove_loop recycle (cr_removes c) (cr_objs c) pRecycleList [] of
                 (objs, rl, del) \<Rightarrow> (c\<lparr>cr_objs := objs, cr_removes := []\<rparr>, rl, del))
         else (c, pRecycleList, []))"

definition CR_CanSwap :: "'a cache_refresh \<Rightarrow> bool" where
  "CR_CanSwap c = (cr_adds c \<noteq> [] \<or> cr_removes c \<noteq> [])"

text \<open>\<open>BackToPool\<close> sends every object back to its own pool; the list is the order of the calls.\<close>

definition CR_BackToPool :: "'a cache_refresh \<Rightarrow> 'a cache_refresh \<times> 'a pobj list" where
  "CR_BackToPool c =
     (c\<lparr>cr_adds := [], cr_objs := [], cr_removes := []\<rparr>, map snd (cr_adds c) @ map snd (cr_objs c))"

definition CR_Dispose :: "'a cache_refresh \<Rightarrow> 'a cache_refresh \<times> 'a pobj list" where
  "CR_Dispose c =
     (c\<lparr>cr_adds := [], cr_objs := [], cr_removes := []\<rparr>, map snd (cr_adds c) @ map snd (cr_objs c))"

definition cr_ok :: "'a cache_refresh \<Rightarrow> bool" where
  "cr_ok c = (smap_ok (cr_objs c) \<and> smap_ok (cr_adds c)
     \<and> (\<forall>p \<in> set (cr_objs c) \<union> set (cr_adds c). fst p = o_sn (snd p)))"

text \<open>The addresses a cache holds.\<close>

definition addrs :: "('k \<times> 'a pobj) list \<Rightarrow> nat list" where
  "addrs m = map (\<lambda>p. o_addr (snd p)) m"

definition cr_addrs :: "'a cache_refresh \<Rightarrow> nat list" where
  "cr_addrs c = addrs (cr_objs c) @ addrs (cr_adds c)"

lemma addrs_assign_fresh:
  "map_of m k = None \<Longrightarrow> mset (addrs (smap_assign k v m)) = add_mset (o_addr v) (mset (addrs m))"
  by (induction m rule: smap_assign.induct) (auto simp: addrs_def split: if_splits)

lemma addrs_erase:
  "smap_ok m \<Longrightarrow> map_of m k = Some v \<Longrightarrow> mset (addrs m) = add_mset (o_addr v) (mset (addrs (smap_erase k m)))"
proof (induction m)
  case (Cons p m)
  show ?case
  proof (cases "fst p = k")
    case True
    then have "k \<notin> fst ` set m" using Cons.prems(1) by auto
    then have "smap_erase k m = m" by (auto simp: smap_erase_def filter_id_conv)
    then show ?thesis using True Cons.prems by (simp add: addrs_def smap_erase_def)
  next
    case False
    then show ?thesis using Cons by (auto simp: addrs_def smap_erase_def)
  qed
qed simp

lemma addrs_emplace_sub: "mset (addrs (smap_emplace k v m)) \<subseteq># add_mset (o_addr v) (mset (addrs m))"
  by (cases "map_of m k") (auto simp: smap_emplace_def addrs_assign_fresh)

lemma addrs_insert_range:
  "mset (addrs (insert_range src m)) \<subseteq># mset (addrs src) + mset (addrs m)"
proof (induction src m rule: insert_range.induct)
  case (2 k v src m)
  have "mset (addrs src) + mset (addrs (smap_emplace k v m))
      \<subseteq># mset (addrs src) + add_mset (o_addr v) (mset (addrs m))"
    by (rule mset_subset_eq_mono_add [OF subset_mset.order_refl addrs_emplace_sub])
  then show ?case using 2 by (auto simp: addrs_def intro: subset_mset.order_trans)
qed (simp add: addrs_def)

lemma insert_range_fresh:
  assumes "smap_ok src" "fst ` set src \<inter> fst ` set m = {}"
  shows "mset (addrs (insert_range src m)) = mset (addrs src) + mset (addrs m)"
    "map_of (insert_range src m) = map_of m ++ map_of src"
  using assms
proof (induction src m rule: insert_range.induct)
  case (2 k v src m)
  case 1
  then have k: "map_of m k = None" and "fst ` set src \<inter> fst ` set (smap_emplace k v m) = {}"
    by (auto simp: map_of_eq_None_iff smap_emplace_def)
  then show ?case using "2.IH" 1 by (simp add: addrs_def [of "(k, v) # src"] addrs_def [of src, symmetric]
        smap_emplace_def addrs_assign_fresh)
next
  case (2 k v src m)
  case 2
  then have k: "map_of m k = None" and "fst ` set src \<inter> fst ` set (smap_emplace k v m) = {}"
    and "map_of src k = None"
    by (auto simp: map_of_eq_None_iff smap_emplace_def)
  then show ?case using "2.IH"(2) 2
    by (auto simp: smap_emplace_def map_add_def fun_eq_iff split: option.splits)
qed (simp_all add: addrs_def)

lemma smap_ok_insert_range [simp, inv_intros]: "smap_ok m \<Longrightarrow> smap_ok (insert_range src m)"
  by (induction src m rule: insert_range.induct) auto

lemma CR_remove_loop_addrs:
  assumes "CR_remove_loop r rs objs rl del = (objs', rl', del')" "smap_ok objs"
  shows "mset (addrs objs') + mset (map o_addr rl') + mset (map o_addr del')
      = mset (addrs objs) + mset (map o_addr rl) + mset (map o_addr del)
    \<and> smap_ok objs' \<and> set objs' \<subseteq> set objs"
  using assms
proof (induction r rs objs rl del rule: CR_remove_loop.induct)
  case (2 r one rs objs rl del)
  show ?case
  proof (cases "map_of objs one")
    case (Some v)
    have sub: "set (smap_erase one objs) \<subseteq> set objs" by (auto simp: smap_erase_def)
    show ?thesis using 2 Some addrs_erase [OF "2.prems"(2) Some] sub
      by (cases r) (simp_all, blast+)
  qed (use 2 in simp)
qed simp

lemma CR_remove_loop_sn:
  assumes "CR_remove_loop True rs objs rl del = (objs', rl', del')" "\<forall>x \<in> set rl. o_sn x = 0"
  shows "(\<forall>x \<in> set rl'. o_sn x = 0) \<and> del' = del"
  using assms
proof (induction rs arbitrary: objs rl)
  case (Cons one rs)
  show ?case
  proof (cases "map_of objs one")
    case None
    then show ?thesis using Cons.IH [of objs rl] Cons.prems by simp
  next
    case (Some v)
    then show ?thesis using Cons.IH [of "smap_erase one objs" "rl @ [v\<lparr>o_sn := 0\<rparr>]"] Cons.prems by auto
  qed
qed simp

lemma CR_remove_loop_lookup:
  assumes "CR_remove_loop r rs objs rl del = (objs', rl', del')"
  shows "map_of objs' = (\<lambda>k. if k \<in> set rs then None else map_of objs k)"
  using assms
proof (induction r rs objs rl del rule: CR_remove_loop.induct)
  case (2 r one rs objs rl del)
  show ?case
  proof (cases "map_of objs one")
    case None
    then show ?thesis using 2 by (auto simp: fun_eq_iff)
  next
    case (Some v)
    then have "map_of objs' = (\<lambda>k. if k \<in> set rs then None else map_of (smap_erase one objs) k)"
      using 2 by (cases r) simp_all
    then show ?thesis by (simp add: fun_eq_iff)
  qed
qed simp

text \<open>
  \<open>Swap\<close> is the only operation that changes what readers see: afterwards the reader cache holds the old
  objects and the added ones, without those whose removal was asked for in the meantime.
\<close>

definition cr_merged :: "'a cache_refresh \<Rightarrow> (u64, 'a pobj) smap" where
  "cr_merged c = (if cr_adds c \<noteq> [] then insert_range (cr_adds c) (cr_objs c) else cr_objs c)"

lemma CR_Swap_loop:
  "CR_Swap r rl c =
     (case CR_remove_loop r (cr_removes c) (cr_merged c) rl [] of
        (objs, rl', del) \<Rightarrow> (c\<lparr>cr_objs := objs, cr_adds := [], cr_removes := []\<rparr>, rl', del))"
  by (cases c) (auto simp: CR_Swap_def cr_merged_def Let_def)

lemma cr_merged_lookup:
  assumes "cr_ok c" "fst ` set (cr_adds c) \<inter> fst ` set (cr_objs c) = {}"
  shows "map_of (cr_merged c) = map_of (cr_objs c) ++ map_of (cr_adds c)"
  using insert_range_fresh(2) [of "cr_adds c" "cr_objs c"] assms
  by (cases "cr_adds c = []") (simp_all add: cr_merged_def cr_ok_def)

lemma CR_Swap_lookup:
  assumes "cr_ok c" "fst ` set (cr_adds c) \<inter> fst ` set (cr_objs c) = {}"
  shows "map_of (GetReaderCache (fst (CR_Swap r rl c)))
      = (\<lambda>k. if k \<in> set (cr_removes c) then None else (map_of (cr_objs c) ++ map_of (cr_adds c)) k)"
    "cr_adds (fst (CR_Swap r rl c)) = []" "cr_removes (fst (CR_Swap r rl c)) = []"
proof -
  obtain objs rl' del where e: "CR_remove_loop r (cr_removes c) (cr_merged c) rl [] = (objs, rl', del)"
    by (metis prod_cases3)
  show "map_of (GetReaderCache (fst (CR_Swap r rl c)))
      = (\<lambda>k. if k \<in> set (cr_removes c) then None else (map_of (cr_objs c) ++ map_of (cr_adds c)) k)"
    unfolding CR_Swap_loop e GetReaderCache_def cr_merged_lookup [OF assms, symmetric]
    using CR_remove_loop_lookup [OF e] by simp
  show "cr_adds (fst (CR_Swap r rl c)) = []" "cr_removes (fst (CR_Swap r rl c)) = []"
    unfolding CR_Swap_loop e by simp_all
qed

subsection \<open>\<open>CacheSwap\<close>\<close>

text \<open>Two objs and the question which of them is the reader's; the flag is true when \<open>_caches2\<close> is.\<close>

record 'a cache_swap =
  cs_caches1 :: "'a list"
  cs_caches2 :: "'a list"
  cs_reader2 :: bool

definition CacheSwap_empty :: "'a cache_swap" where
  "CacheSwap_empty = \<lparr>cs_caches1 = [], cs_caches2 = [], cs_reader2 = True\<rparr>"

definition CS_GetWriterCache :: "'a cache_swap \<Rightarrow> 'a list" where
  "CS_GetWriterCache c = (if cs_reader2 c then cs_caches1 c else cs_caches2 c)"

definition CS_GetReaderCache :: "'a cache_swap \<Rightarrow> 'a list" where
  "CS_GetReaderCache c = (if cs_reader2 c then cs_caches2 c else cs_caches1 c)"

definition CS_Swap :: "'a cache_swap \<Rightarrow> 'a cache_swap" where
  "CS_Swap c = c\<lparr>cs_reader2 := \<not> cs_reader2 c\<rparr>"

definition CS_CanSwap :: "'a cache_swap \<Rightarrow> bool" where
  "CS_CanSwap c = (length (CS_GetWriterCache c) > 0)"

definition CS_BackToPool :: "'a cache_swap \<Rightarrow> 'a cache_swap \<times> 'a list" where
  "CS_BackToPool c = (c\<lparr>cs_caches1 := [], cs_caches2 := []\<rparr>, cs_caches1 c @ cs_caches2 c)"

text \<open>What users of the swap do with the objs: append to the writer's, clear the reader's.\<close>

definition CS_write :: "'a \<Rightarrow> 'a cache_swap \<Rightarrow> 'a cache_swap" where
  "CS_write x c = (if cs_reader2 c then c\<lparr>cs_caches1 := cs_caches1 c @ [x]\<rparr>
                   else c\<lparr>cs_caches2 := cs_caches2 c @ [x]\<rparr>)"

definition CS_clear_reader :: "'a cache_swap \<Rightarrow> 'a cache_swap" where
  "CS_clear_reader c = (if cs_reader2 c then c\<lparr>cs_caches2 := []\<rparr> else c\<lparr>cs_caches1 := []\<rparr>)"

lemma cache_swap_simps [simp]:
  "CS_GetReaderCache (CS_Swap c) = CS_GetWriterCache c" "CS_GetWriterCache (CS_Swap c) = CS_GetReaderCache c"
  "CS_GetWriterCache (CS_write x c) = CS_GetWriterCache c @ [x]"
  "CS_GetReaderCache (CS_write x c) = CS_GetReaderCache c"
  "CS_GetReaderCache (CS_clear_reader c) = []"
  "CS_GetWriterCache (CS_clear_reader c) = CS_GetWriterCache c"
  "CS_GetReaderCache CacheSwap_empty = []" "CS_GetWriterCache CacheSwap_empty = []"
  by (simp_all add: CS_GetReaderCache_def CS_GetWriterCache_def CS_Swap_def CS_write_def CS_clear_reader_def
      CacheSwap_empty_def)

subsection \<open>The pool\<close>

record 'a pool =
  pl_free :: "'a pobj list"
  pl_inUse :: "'a cache_refresh"
  pl_next :: nat

definition DynamicObjectPool :: "'a pool" where
  "DynamicObjectPool = \<lparr>pl_free = [], pl_inUse = CacheRefresh_empty, pl_next = 0\<rparr>"

definition new_objects :: "'a \<Rightarrow> nat \<Rightarrow> 'a pool \<Rightarrow> 'a pool" where
  "new_objects T n p =
     p\<lparr>pl_free := pl_free p @ map (\<lambda>i. \<lparr>o_addr = pl_next p + i, o_sn = 0, o_data = T\<rparr>) [0..<n],
       pl_next := pl_next p + n\<rparr>"

text \<open>
  \<open>T\<close> is a default-constructed object, \<open>isSingle\<close> is \<open>T::IsSingle()\<close> and \<open>awake\<close> the call of \<open>Awake\<close>; the
  serial number generator is the global state.
\<close>

definition MallocObject ::
  "'a \<Rightarrow> bool \<Rightarrow> ('a \<Rightarrow> 'a) \<Rightarrow> u64 \<Rightarrow> global \<Rightarrow> 'a pool \<Rightarrow> 'a pobj \<times> global \<times> 'a pool" where
  "MallocObject T isSingle awake sn g p =
     (let p = (if pl_free p = [] then new_objects T (if isSingle then 1 else 50) p else p);
          pObj = hd (pl_free p);
          p = p\<lparr>pl_free := tl (pl_free p)\<rparr>;
          (sn, g) = (if sn = 0 then GenerateSN g else (sn, g));
          pObj = pObj\<lparr>o_sn := sn, o_data := awake (o_data pObj)\<rparr>
      in (pObj, g, p\<lparr>pl_inUse := CR_AddObj pObj (pl_inUse p)\<rparr>))"

definition FreeObject :: "u64 \<Rightarrow> 'a pool \<Rightarrow> 'a pool" where
  "FreeObject sn p = (if sn = 0 then p else p\<lparr>pl_inUse := CR_RemoveObj sn (pl_inUse p)\<rparr>)"

definition Pool_Update :: "'a pool \<Rightarrow> 'a pool" where
  "Pool_Update p =
     (if CR_CanSwap (pl_inUse p)
      then (case CR_Swap True (pl_free p) (pl_inUse p) of (c, rl, del) \<Rightarrow> p\<lparr>pl_inUse := c, pl_free := rl\<rparr>)
      else p)"

definition Pool_Dispose :: "'a pool \<Rightarrow> 'a pool \<times> 'a pobj list" where
  "Pool_Dispose p = (p\<lparr>pl_free := []\<rparr>, pl_free p)"

text \<open>The addresses of all objects the pool knows.\<close>

definition pool_addrs :: "'a pool \<Rightarrow> nat list" where
  "pool_addrs p = map o_addr (pl_free p) @ cr_addrs (pl_inUse p)"

definition pool_ok :: "'a pool \<Rightarrow> bool" where
  "pool_ok p = (cr_ok (pl_inUse p) \<and> (\<forall>x \<in> set (pl_free p). o_sn x = 0)
     \<and> fst ` set (cr_adds (pl_inUse p)) \<inter> fst ` set (cr_objs (pl_inUse p)) = {}
     \<and> mset (pool_addrs p) = mset [0..<pl_next p])"

definition sn_in_use :: "u64 \<Rightarrow> 'a pool \<Rightarrow> bool" where
  "sn_in_use sn p = (map_of (cr_objs (pl_inUse p)) sn \<noteq> None \<or> map_of (cr_adds (pl_inUse p)) sn \<noteq> None)"

lemma pool_ok_init [inv_intros]: "pool_ok DynamicObjectPool"
  by (simp add: pool_ok_def DynamicObjectPool_def CacheRefresh_empty_def cr_ok_def pool_addrs_def
      cr_addrs_def addrs_def)

lemma pool_ok_new_objects [inv_intros]: "pool_ok p \<Longrightarrow> pool_ok (new_objects T n p)"
proof -
  assume ok: "pool_ok p"
  have "map ((+) (pl_next p)) [0..<n] = [pl_next p..<pl_next p + n]"
    using map_add_upt [of "pl_next p" n] by (simp add: add.commute [of "pl_next p"] cong: map_cong)
  then have "mset (map o_addr (map (\<lambda>i. \<lparr>o_addr = pl_next p + i, o_sn = 0, o_data = T\<rparr>) [0..<n]))
      = mset [pl_next p..<pl_next p + n]" by (simp add: comp_def del: mset_map)
  moreover have "mset [0..<pl_next p + n] = mset [0..<pl_next p] + mset [pl_next p..<pl_next p + n]"
    using upt_add_eq_append [of 0 "pl_next p" n] by simp
  ultimately show ?thesis using ok
    by (auto simp: pool_ok_def new_objects_def pool_addrs_def simp del: mset_map)
qed

lemma cr_ok_AddObj [inv_intros]: "cr_ok c \<Longrightarrow> cr_ok (CR_AddObj obj c)"
  using set_assign_subset [of "o_sn obj" obj "cr_adds c"]
  by (auto simp: cr_ok_def CR_AddObj_def smap_emplace_def)

lemma pool_ok_take:
  assumes ok: "pool_ok p" and f: "pl_free p = x # xs" and obj: "o_addr obj = o_addr x"
    and fresh: "\<not> sn_in_use (o_sn obj) p"
  shows "pool_ok (p\<lparr>pl_free := xs, pl_inUse := CR_AddObj obj (pl_inUse p)\<rparr>)"
proof -
  have n: "map_of (cr_adds (pl_inUse p)) (o_sn obj) = None" "map_of (cr_objs (pl_inUse p)) (o_sn obj) = None"
    using fresh by (simp_all add: sn_in_use_def)
  have "fst ` set (cr_adds (CR_AddObj obj (pl_inUse p))) \<inter> fst ` set (cr_objs (pl_inUse p)) = {}"
    using ok n by (auto simp: pool_ok_def CR_AddObj_def smap_emplace_def map_of_eq_None_iff)
  moreover have "mset (cr_addrs (CR_AddObj obj (pl_inUse p))) = add_mset (o_addr x) (mset (cr_addrs (pl_inUse p)))"
    using n obj by (simp add: cr_addrs_def CR_AddObj_def smap_emplace_def addrs_assign_fresh)
  ultimately show ?thesis using ok f cr_ok_AddObj [of "pl_inUse p" obj]
    by (simp add: pool_ok_def pool_addrs_def CR_AddObj_def)
qed

lemma MallocObject_spec:
  assumes "MallocObject T single awake sn g p = (obj, g', p')"
  obtains p1 x xs where "p1 = (if pl_free p = [] then new_objects T (if single then 1 else 50) p else p)"
    "pl_free p1 = x # xs" "o_addr obj = o_addr x" "o_data obj = awake (o_data x)"
    "p' = p1\<lparr>pl_free := xs, pl_inUse := CR_AddObj obj (pl_inUse p1)\<rparr>"
    "o_sn obj = (if sn = 0 then fst (GenerateSN g) else sn)"
proof -
  let ?p1 = "if pl_free p = [] then new_objects T (if single then 1 else 50) p else p"
  have "pl_free ?p1 \<noteq> []" by (simp add: new_objects_def)
  then obtain x xs where x: "pl_free ?p1 = x # xs" by (cases "pl_free ?p1") auto
  obtain sn' g1 where sg: "(if sn = 0 then GenerateSN g else (sn, g)) = (sn', g1)" by force
  have "obj = x\<lparr>o_sn := sn', o_data := awake (o_data x)\<rparr>"
    "p' = ?p1\<lparr>pl_free := xs, pl_inUse := CR_AddObj obj (pl_inUse ?p1)\<rparr>"
    using assms unfolding MallocObject_def Let_def x sg by auto
  moreover have "sn' = (if sn = 0 then fst (GenerateSN g) else sn)"
    using sg by (metis fst_conv)
  ultimately show thesis using x by (intro that [of ?p1 x xs]) simp_all
qed

lemma sn_in_use_new [simp]: "sn_in_use sn (new_objects T n p) = sn_in_use sn p"
  by (simp add: sn_in_use_def new_objects_def)

lemma pool_ok_Malloc [inv_intros]:
  assumes "pool_ok p" "MallocObject T single awake sn g p = (obj, g', p')" "\<not> sn_in_use (o_sn obj) p"
  shows "pool_ok p'"
  using assms(2)
proof (rule MallocObject_spec)
  fix p1 x xs
  assume p1: "p1 = (if pl_free p = [] then new_objects T (if single then 1 else 50) p else p)"
    and x: "pl_free p1 = x # xs" "o_addr obj = o_addr x"
    and p': "p' = p1\<lparr>pl_free := xs, pl_inUse := CR_AddObj obj (pl_inUse p1)\<rparr>"
  have "pool_ok p1" "\<not> sn_in_use (o_sn obj) p1"
    using assms(1,3) p1 by (simp_all add: pool_ok_new_objects)
  then show ?thesis unfolding p' using x by (intro pool_ok_take)
qed

lemma FreeObject_fields:
  "cr_objs (pl_inUse (FreeObject sn p)) = cr_objs (pl_inUse p)"
  "cr_adds (pl_inUse (FreeObject sn p)) = cr_adds (pl_inUse p)"
  "pl_free (FreeObject sn p) = pl_free p" "pl_next (FreeObject sn p) = pl_next p"
  by (simp_all add: FreeObject_def CR_RemoveObj_def)

lemma pool_ok_Free [inv_intros]: "pool_ok p \<Longrightarrow> pool_ok (FreeObject sn p)"
  unfolding pool_ok_def cr_ok_def pool_addrs_def cr_addrs_def FreeObject_fields .

lemma cr_merged_ok:
  assumes "cr_ok c" "fst ` set (cr_adds c) \<inter> fst ` set (cr_objs c) = {}"
  shows "smap_ok (cr_merged c)" "mset (addrs (cr_merged c)) = mset (cr_addrs c)"
    "\<forall>p \<in> set (cr_merged c). fst p = o_sn (snd p)"
proof -
  show ok: "smap_ok (cr_merged c)" using assms by (simp add: cr_merged_def cr_ok_def)
  show "mset (addrs (cr_merged c)) = mset (cr_addrs c)"
    using assms insert_range_fresh(1) [of "cr_adds c" "cr_objs c"]
    by (cases "cr_adds c = []") (simp_all add: cr_merged_def cr_addrs_def cr_ok_def addrs_def)
  have "p \<in> set (cr_objs c) \<union> set (cr_adds c)" if "p \<in> set (cr_merged c)" for p
  proof -
    have "map_of (cr_merged c) (fst p) = Some (snd p)"
      using smap_ok_mem [OF ok, of "fst p" "snd p"] that by simp
    then have "map_of (cr_objs c) (fst p) = Some (snd p) \<or> map_of (cr_adds c) (fst p) = Some (snd p)"
      by (auto simp: cr_merged_lookup [OF assms] map_add_Some_iff)
    then show ?thesis by (metis Un_iff map_of_SomeD prod.collapse)
  qed
  then show "\<forall>p \<in> set (cr_merged c). fst p = o_sn (snd p)"
    using assms(1) by (auto simp: cr_ok_def)
qed

lemma pool_ok_Update [inv_intros]:
  assumes "pool_ok p"
  shows "pool_ok (Pool_Update p)"
proof (cases "CR_CanSwap (pl_inUse p)")
  case True
  let ?c = "pl_inUse p"
  have c: "cr_ok ?c" "fst ` set (cr_adds ?c) \<inter> fst ` set (cr_objs ?c) = {}"
    using assms by (simp_all add: pool_ok_def)
  obtain objs rl del where e: "CR_remove_loop True (cr_removes ?c) (cr_merged ?c) (pl_free p) [] = (objs, rl, del)"
    by (metis prod_cases3)
  have sn: "\<forall>x \<in> set rl. o_sn x = 0" "del = []"
    using CR_remove_loop_sn [OF e] assms by (simp_all add: pool_ok_def)
  note l = CR_remove_loop_addrs [OF e cr_merged_ok(1) [OF c]]
  then have "mset (addrs objs) + mset (map o_addr rl) = mset (pool_addrs p)"
    using sn(2) cr_merged_ok(2) [OF c] by (simp add: pool_addrs_def)
  moreover have "\<forall>q \<in> set objs. fst q = o_sn (snd q)" using l cr_merged_ok(3) [OF c] by blast
  ultimately show ?thesis using True e sn l assms
    by (simp add: Pool_Update_def CR_Swap_loop pool_ok_def cr_ok_def pool_addrs_def cr_addrs_def addrs_def [of "[]"] add.commute)
qed (use assms in \<open>simp add: Pool_Update_def\<close>)

text \<open>
  The states a pool can be in. A serial number given to \<open>MallocObject\<close>, or generated by it, must not be
  in use in the same pool: an object whose serial number is in use is dropped by \<open>emplace\<close> or \<open>insert\<close>.
\<close>

inductive pool_reach :: "'a \<Rightarrow> bool \<Rightarrow> 'a pool \<Rightarrow> bool" for T single where
  pool_init: "pool_reach T single DynamicObjectPool"
| pool_malloc: "pool_reach T single p \<Longrightarrow> MallocObject T single awake sn g p = (obj, g', p') \<Longrightarrow>
    \<not> sn_in_use (o_sn obj) p \<Longrightarrow> pool_reach T single p'"
| pool_free: "pool_reach T single p \<Longrightarrow> pool_reach T single (FreeObject sn p)"
| pool_update: "pool_reach T single p \<Longrightarrow> pool_reach T single (Pool_Update p)"

lemma pool_reach_ok: "pool_reach T single p \<Longrightarrow> pool_ok p"
  by (induction rule: pool_reach.induct) (auto intro: inv_intros)

lemma pool_addrs_distinct: "pool_ok p \<Longrightarrow> distinct (pool_addrs p)"
  unfolding pool_ok_def by (metis distinct_upt mset_eq_imp_distinct_iff)

lemma MallocObject_fresh:
  assumes ok: "pool_ok p" and m: "MallocObject T single awake sn g p = (obj, g', p')"
  shows "o_addr obj \<notin> set (cr_addrs (pl_inUse p))"
  using m
proof (rule MallocObject_spec)
  fix p1 x xs
  assume p1: "p1 = (if pl_free p = [] then new_objects T (if single then 1 else 50) p else p)"
    and x: "pl_free p1 = x # xs" "o_addr obj = o_addr x"
  have "pool_ok p1" using ok p1 by (simp add: pool_ok_new_objects)
  from pool_addrs_distinct [OF this] show ?thesis
    using x p1 by (auto simp: pool_addrs_def new_objects_def split: if_splits)
qed

subsection \<open>The packet pool\<close>

definition MallocPacket :: "int \<Rightarrow> net_identify option \<Rightarrow> global \<Rightarrow> packet pool \<Rightarrow>
    packet pobj \<times> global \<times> packet pool" where
  "MallocPacket msgId pIdentify g p = MallocObject Packet False (Packet_Awake msgId pIdentify) 0 g p"

fun PacketPool_scan :: "(u64, packet pobj) smap \<Rightarrow> packet pool \<Rightarrow> packet pool" where
  "PacketPool_scan [] p = p"
| "PacketPool_scan ((k, pPacket) # objs) p =
     PacketPool_scan objs (if CanBack2Pool (o_data pPacket) then FreeObject (o_sn pPacket) p else p)"

definition PacketPool_Update :: "packet pool \<Rightarrow> packet pool" where
  "PacketPool_Update p =
     (let p = Pool_Update p in PacketPool_scan (GetReaderCache (pl_inUse p)) p)"

definition PacketPool_FreeObject :: "packet pobj \<Rightarrow> packet pool \<Rightarrow> packet pool" where
  "PacketPool_FreeObject pObj p = FreeObject (o_sn pObj) p"

lemma PacketPool_scan_spec:
  "cr_removes (pl_inUse (PacketPool_scan objs p)) = cr_removes (pl_inUse p) @
     map (\<lambda>q. o_sn (snd q)) (filter (\<lambda>q. CanBack2Pool (o_data (snd q)) \<and> o_sn (snd q) \<noteq> 0) objs)
   \<and> cr_objs (pl_inUse (PacketPool_scan objs p)) = cr_objs (pl_inUse p)
   \<and> cr_adds (pl_inUse (PacketPool_scan objs p)) = cr_adds (pl_inUse p)
   \<and> pl_free (PacketPool_scan objs p) = pl_free p \<and> pl_next (PacketPool_scan objs p) = pl_next p"
  by (induction objs p rule: PacketPool_scan.induct) (simp_all add: FreeObject_def CR_RemoveObj_def)

lemma pool_ok_scan [inv_intros]: "pool_ok p \<Longrightarrow> pool_ok (PacketPool_scan objs p)"
  by (induction objs p rule: PacketPool_scan.induct) (simp_all add: pool_ok_Free)

lemma pool_ok_PacketPool_Update [inv_intros]: "pool_ok p \<Longrightarrow> pool_ok (PacketPool_Update p)"
  by (simp add: PacketPool_Update_def Let_def pool_ok_scan pool_ok_Update)

subsection \<open>Properties\<close>

text \<open>
  C5. Whatever sequence of allocations, releases and updates a pool goes through, every object it has ever
  created is in exactly one place (free, in use, or waiting to be in use), so an allocation never hands out
  an object that is still in use, and none is lost. The condition is that a serial number is not given
  twice to objects in use.
\<close>

theorem pool_conserves_objects:
  assumes "pool_reach T single p"
  shows "mset (pool_addrs p) = mset [0..<pl_next p]
    \<and> o_addr (fst (MallocObject T single awake sn g p)) \<notin> set (cr_addrs (pl_inUse p))"
proof -
  obtain obj g' p' where m: "MallocObject T single awake sn g p = (obj, g', p')" by (metis prod_cases3)
  show ?thesis using pool_reach_ok [OF assms] MallocObject_fresh [OF pool_reach_ok [OF assms] m] m
    by (simp add: pool_ok_def)
qed

theorem pool_conserves_objects_witness:
  "\<exists>p. pool_reach (0 :: nat) True p \<and> pl_next p = 2 \<and> mset (pool_addrs p) = mset [0..<pl_next p]
    \<and> o_addr (fst (MallocObject 0 True id 9 \<lparr>g_TimeTick = 0, g_snTicket = 0, g_appType = 0, g_appId = 1\<rparr> p))
        \<notin> set (cr_addrs (pl_inUse p))"
proof -
  let ?g = "\<lparr>g_TimeTick = 0, g_snTicket = 0, g_appType = 0, g_appId = 1\<rparr>"
  obtain o1 g1 p1 where m1: "MallocObject (0 :: nat) True id 5 ?g DynamicObjectPool = (o1, g1, p1)"
    by (metis prod_cases3)
  then have 1: "o_sn o1 = 5" "pl_next p1 = 1" "pl_free p1 = []"
      "map_of (cr_objs (pl_inUse p1)) 7 = None" "map_of (cr_adds (pl_inUse p1)) 7 = None"
    by (auto simp: MallocObject_def DynamicObjectPool_def CacheRefresh_empty_def new_objects_def
        CR_AddObj_def smap_emplace_def Let_def)
  have r1: "pool_reach 0 True p1"
    by (rule pool_malloc [OF pool_init m1])
      (simp add: sn_in_use_def DynamicObjectPool_def CacheRefresh_empty_def)
  obtain o2 g2 p2 where m2: "MallocObject 0 True id 7 ?g p1 = (o2, g2, p2)"
    by (metis prod_cases3)
  then have 2: "o_sn o2 = 7" "pl_next p2 = 2"
    using 1 by (auto simp: MallocObject_def new_objects_def Let_def)
  have "pool_reach 0 True p2"
    using pool_malloc [OF r1 m2] 1 2 by (simp add: sn_in_use_def)
  then show ?thesis using pool_conserves_objects [of 0 True p2] 2 by blast
qed

text \<open>
  A packet goes back to the free list only when the dispatching thread has opened its count and the
  count is zero: one update of the packet pool marks exactly those packets, and no other packet is marked.
\<close>

theorem packet_pool_marks_released:
  "set (cr_removes (pl_inUse (PacketPool_Update p))) =
     set (cr_removes (pl_inUse (Pool_Update p)))
     \<union> {o_sn q |k q. (k, q) \<in> set (GetReaderCache (pl_inUse (Pool_Update p)))
          \<and> p_isRefOpen (o_data q) \<and> p_ref (o_data q) = 0 \<and> o_sn q \<noteq> 0}"
  using PacketPool_scan_spec [of "GetReaderCache (pl_inUse (Pool_Update p))" "Pool_Update p"]
  by (force simp: PacketPool_Update_def Let_def CanBack2Pool_def)

end
