(* ===== verification/MessageSystem.thy ===== *)
theory MessageSystem
  imports ObjectPools
begin

text \<open>
  \<open>MessageSystem\<close> (\<open>message_system.cpp\<close>, \<open>message_callback.h\<close>): the queue of packets of one thread and the
  callbacks registered for message numbers. Packets are shared between threads, so the queue holds their
  addresses and the packets themselves live in a store. Running a handler is recorded as a call; what
  handlers do is the subject of the theories of the components that register them.
\<close>

type_synonym packet_store = "nat \<Rightarrow> packet"

text \<open>
  \<open>MessageCallBack\<close> takes every packet; \<open>MessageCallBackFilter\<close> first looks for the object the packet is for.
\<close>

datatype 'h message_callback =
  MessageCallBack 'h
| MessageCallBackFilter "net_identify \<Rightarrow> u64 option" 'h

definition packet_identify :: "packet \<Rightarrow> net_identify" where
  "packet_identify p = \<lparr>ni_socket = p_socketKey p, ni_tags = p_tagKey p\<rparr>"

datatype 'h handler_call = HandlerCall (hc_handler: 'h) (hc_target: "u64 option") (hc_packet: nat)

fun ProcessPacket :: "'h message_callback \<Rightarrow> packet_store \<Rightarrow> nat \<Rightarrow> bool \<times> 'h handler_call list" where
  "ProcessPacket (MessageCallBack f) st p = (True, [HandlerCall f None p])"
| "ProcessPacket (MessageCallBackFilter GetFilterObj f) st p =
     (case GetFilterObj (packet_identify (st p)) of
        None \<Rightarrow> (False, [])
      | Some pObj \<Rightarrow> (True, [HandlerCall f (Some pObj) p]))"

record 'h message_system =
  ms_cachePackets :: "nat cache_swap"
  ms_callbacks :: "(int, (u64, 'h message_callback) smap) smap"
  ms_defaultCallbacks :: "(u64, 'h message_callback option) smap"

definition MessageSystem_empty :: "'h message_system" where
  "MessageSystem_empty = \<lparr>ms_cachePackets = CacheSwap_empty, ms_callbacks = [], ms_defaultCallbacks = []\<rparr>"

definition AddPacketToList :: "nat \<Rightarrow> packet_store \<times> 'h message_system \<Rightarrow> packet_store \<times> 'h message_system" where
  "AddPacketToList pPacket s =
     (case s of (st, ms) \<Rightarrow>
        (st(pPacket := Packet_AddRef (st pPacket)),
         ms\<lparr>ms_cachePackets := CS_write pPacket (ms_cachePackets ms)\<rparr>))"

definition RegisterFunction :: "u64 \<Rightarrow> int \<Rightarrow> 'h message_callback \<Rightarrow> 'h message_system \<Rightarrow> 'h message_system" where
  "RegisterFunction sn msgId pCallback ms =
     (let callbacks = (if map_of (ms_callbacks ms) msgId = None
                       then smap_emplace msgId [] (ms_callbacks ms) else ms_callbacks ms);
          sub = the (map_of callbacks msgId)
      in ms\<lparr>ms_callbacks := smap_assign msgId (smap_emplace sn pCallback sub) callbacks\<rparr>)"

definition RegisterDefaultFunction :: "u64 \<Rightarrow> 'h message_callback \<Rightarrow> 'h message_system \<Rightarrow> 'h message_system" where
  "RegisterDefaultFunction sn pCallback ms =
     ms\<lparr>ms_defaultCallbacks := smap_emplace sn (Some pCallback) (ms_defaultCallbacks ms)\<rparr>"

definition RemoveFunction :: "u64 \<Rightarrow> 'h message_system \<Rightarrow> 'h message_system" where
  "RemoveFunction sn ms =
     ms\<lparr>ms_callbacks := map (\<lambda>(msgId, pSub). (msgId, smap_erase sn pSub)) (ms_callbacks ms),
        ms_defaultCallbacks := smap_erase sn (ms_defaultCallbacks ms)\<rparr>"

fun process_all :: "(u64, 'h message_callback) smap \<Rightarrow> packet_store \<Rightarrow> nat \<Rightarrow> bool \<times> 'h handler_call list" where
  "process_all [] st p = (False, [])"
| "process_all ((sn, cb) # pSub) st p =
     (let (done1, calls1) = ProcessPacket cb st p; (done2, calls2) = process_all pSub st p
      in (done1 \<or> done2, calls1 @ calls2))"

text \<open>One packet: the entity it is for, the callbacks of its number, and the default callback.\<close>

definition packet_entity :: "packet \<Rightarrow> u64" where
  "packet_entity p = (case GetTagValue (p_tagKey p) TagEntity of None \<Rightarrow> 0 | Some v \<Rightarrow> KeyInt64 v)"

definition handle_packet :: "packet_store \<Rightarrow> nat \<Rightarrow> 'h message_system \<Rightarrow> 'h message_system \<times> 'h handler_call list" where
  "handle_packet st p ms =
     (let entitySn = packet_entity (st p);
          (isDo, calls) =
            (case map_of (ms_callbacks ms) (p_msgId (st p)) of
               None \<Rightarrow> (False, [])
             | Some pSub \<Rightarrow>
                 (if entitySn > 0
                  then (case map_of pSub entitySn of None \<Rightarrow> (False, []) | Some cb \<Rightarrow> ProcessPacket cb st p)
                  else process_all pSub st p))
      in if \<not> isDo \<and> entitySn > 0 \<and> GetTagValue (p_tagKey (st p)) TagToWorld = None
         then (case map_of (ms_defaultCallbacks ms) entitySn of
                 None \<Rightarrow> (ms\<lparr>ms_defaultCallbacks := smap_assign entitySn None (ms_defaultCallbacks ms)\<rparr>, calls)
               | Some None \<Rightarrow> (ms, calls)
               | Some (Some cb) \<Rightarrow> (ms, calls @ snd (ProcessPacket cb st p)))
         else (ms, calls))"

fun handle_packets :: "nat list \<Rightarrow> packet_store \<Rightarrow> 'h message_system \<Rightarrow>
    packet_store \<times> 'h message_system \<times> 'h handler_call list" where
  "handle_packets [] st ms = (st, ms, [])"
| "handle_packets (p # ps) st ms =
     (let (ms, calls) = handle_packet st p ms;
          st = st(p := Packet_RemoveRef (st p));
          (st, ms, calls') = handle_packets ps st ms
      in (st, ms, calls @ calls'))"

definition MessageSystem_Update :: "packet_store \<Rightarrow> 'h message_system \<Rightarrow>
    packet_store \<times> 'h message_system \<times> 'h handler_call list" where
  "MessageSystem_Update st ms =
     (let ms = (if CS_CanSwap (ms_cachePackets ms)
                then ms\<lparr>ms_cachePackets := CS_Swap (ms_cachePackets ms)\<rparr> else ms)
      in if CS_GetReaderCache (ms_cachePackets ms) = [] then (st, ms, [])
         else (case handle_packets (CS_GetReaderCache (ms_cachePackets ms)) st ms of
                 (st, ms, calls) \<Rightarrow>
                   (st, ms\<lparr>ms_cachePackets := CS_clear_reader (ms_cachePackets ms)\<rparr>, calls)))"

subsection \<open>Lemmas\<close>

definition ms_ok :: "'h message_system \<Rightarrow> bool" where
  "ms_ok ms = (smap_ok (ms_callbacks ms) \<and> (\<forall>p \<in> set (ms_callbacks ms). smap_ok (snd p))
     \<and> smap_ok (ms_defaultCallbacks ms))"

definition callback_of :: "'h message_system \<Rightarrow> int \<Rightarrow> u64 \<Rightarrow> 'h message_callback option" where
  "callback_of ms msgId sn = Option.bind (map_of (ms_callbacks ms) msgId) (\<lambda>pSub. map_of pSub sn)"

definition default_of :: "'h message_system \<Rightarrow> u64 \<Rightarrow> 'h message_callback option" where
  "default_of ms sn = Option.bind (map_of (ms_defaultCallbacks ms) sn) id"

lemma ms_ok_empty [inv_intros]: "ms_ok MessageSystem_empty"
  by (simp add: ms_ok_def MessageSystem_empty_def)

lemma ms_ok_Register [inv_intros]: "ms_ok ms \<Longrightarrow> ms_ok (RegisterFunction sn msgId cb ms)"
proof -
  assume ok: "ms_ok ms"
  let ?c = "if map_of (ms_callbacks ms) msgId = None then smap_emplace msgId [] (ms_callbacks ms) else ms_callbacks ms"
  have c: "smap_ok ?c" "\<forall>p \<in> set ?c. smap_ok (snd p)" "map_of ?c msgId \<noteq> None"
    using ok set_assign_subset [of msgId "[]" "ms_callbacks ms"]
    by (auto simp: ms_ok_def smap_emplace_def)
  then obtain sub where sub: "map_of ?c msgId = Some sub" by blast
  then have "smap_ok sub" using c(2) map_of_SomeD [OF sub] by fastforce
  then show ?thesis using ok c sub set_assign_subset [of msgId "smap_emplace sn cb sub" ?c]
    unfolding ms_ok_def RegisterFunction_def Let_def by fastforce
qed

lemma ms_ok_RegisterDefault [inv_intros]: "ms_ok ms \<Longrightarrow> ms_ok (RegisterDefaultFunction sn cb ms)"
  by (simp add: ms_ok_def RegisterDefaultFunction_def)

lemma map_of_map_snd: "map_of (map (\<lambda>(k, v). (k, f v)) m) k = map_option f (map_of m k)"
  by (induction m) auto

lemma smap_ok_map_snd: "smap_ok (map (\<lambda>(k, v). (k, f v)) m) = smap_ok m"
  by (simp add: smap_ok_def comp_def case_prod_beta)

lemma ms_ok_Remove [inv_intros]: "ms_ok ms \<Longrightarrow> ms_ok (RemoveFunction sn ms)"
  by (auto simp: ms_ok_def RemoveFunction_def smap_ok_map_snd)

lemma RegisterFunction_lookup:
  "callback_of (RegisterFunction sn msgId cb ms) m k =
     (if m = msgId \<and> k = sn \<and> callback_of ms msgId sn = None then Some cb else callback_of ms m k)"
  by (auto simp: callback_of_def RegisterFunction_def Let_def smap_emplace_def split: option.splits)

lemma RemoveFunction_lookup:
  "callback_of (RemoveFunction sn ms) m k = (if k = sn then None else callback_of ms m k)"
  "default_of (RemoveFunction sn ms) k = (if k = sn then None else default_of ms k)"
  by (cases "map_of (ms_callbacks ms) m", auto simp: callback_of_def RemoveFunction_def map_of_map_snd)
    (simp_all add: default_of_def RemoveFunction_def)

text \<open>
  What one packet causes, as a function of the registrations alone: the registered callback of its entity,
  all callbacks of its number when it names no entity, and the default callback otherwise.
\<close>

definition packet_calls :: "packet_store \<Rightarrow> 'h message_system \<Rightarrow> nat \<Rightarrow> 'h handler_call list" where
  "packet_calls st ms p = snd (handle_packet st p ms)"

definition default_calls :: "'h message_system \<Rightarrow> packet_store \<Rightarrow> nat \<Rightarrow> 'h handler_call list" where
  "default_calls ms st p =
     (if GetTagValue (p_tagKey (st p)) TagToWorld = None
      then (case default_of ms (packet_entity (st p)) of None \<Rightarrow> [] | Some cb \<Rightarrow> snd (ProcessPacket cb st p))
      else [])"

lemma packet_calls_spec:
  "packet_calls st ms p =
     (let e = packet_entity (st p); m = p_msgId (st p);
          r = (if e > 0 then (case callback_of ms m e of None \<Rightarrow> (False, []) | Some cb \<Rightarrow> ProcessPacket cb st p)
               else (case map_of (ms_callbacks ms) m of None \<Rightarrow> (False, []) | Some pSub \<Rightarrow> process_all pSub st p))
      in snd r @ (if \<not> fst r \<and> e > 0 \<and> GetTagValue (p_tagKey (st p)) TagToWorld = None
                  then (case default_of ms e of None \<Rightarrow> [] | Some cb \<Rightarrow> snd (ProcessPacket cb st p)) else []))"
  unfolding packet_calls_def handle_packet_def Let_def callback_of_def default_of_def
  by (cases "map_of (ms_callbacks ms) (p_msgId (st p))")
    (auto split: option.splits prod.splits)

definition same_dispatch :: "'h message_system \<Rightarrow> 'h message_system \<Rightarrow> bool" where
  "same_dispatch ms ms' = (ms_callbacks ms' = ms_callbacks ms \<and> (\<forall>e. default_of ms' e = default_of ms e)
     \<and> ms_cachePackets ms' = ms_cachePackets ms)"

lemma handle_packet_same: "same_dispatch ms (fst (handle_packet st p ms))"
  unfolding handle_packet_def Let_def same_dispatch_def
  by (auto simp: default_of_def split: prod.splits option.splits)

lemma same_dispatch_calls:
  "same_dispatch ms ms' \<Longrightarrow> packet_calls st ms' p = packet_calls st ms p"
  by (simp add: packet_calls_spec same_dispatch_def callback_of_def Let_def)

lemma same_dispatch_trans: "same_dispatch a b \<Longrightarrow> same_dispatch b c \<Longrightarrow> same_dispatch a c"
  by (simp add: same_dispatch_def)

text \<open>Only the reference count of a packet changes while it is handled, and no call depends on it.\<close>

definition same_but_ref :: "packet_store \<Rightarrow> packet_store \<Rightarrow> bool" where
  "same_but_ref st st' = (\<forall>p. (st' p)\<lparr>p_ref := 0\<rparr> = (st p)\<lparr>p_ref := 0\<rparr>)"

lemma same_but_ref_fields:
  assumes "same_but_ref st st'"
  shows "p_tagKey (st' p) = p_tagKey (st p)" "p_msgId (st' p) = p_msgId (st p)"
    "p_socketKey (st' p) = p_socketKey (st p)" "p_isRefOpen (st' p) = p_isRefOpen (st p)"
proof -
  have e: "(st' p)\<lparr>p_ref := 0\<rparr> = (st p)\<lparr>p_ref := 0\<rparr>" using assms by (simp add: same_but_ref_def)
  show "p_tagKey (st' p) = p_tagKey (st p)" using arg_cong [OF e, of p_tagKey] by simp
  show "p_msgId (st' p) = p_msgId (st p)" using arg_cong [OF e, of p_msgId] by simp
  show "p_socketKey (st' p) = p_socketKey (st p)" using arg_cong [OF e, of p_socketKey] by simp
  show "p_isRefOpen (st' p) = p_isRefOpen (st p)" using arg_cong [OF e, of p_isRefOpen] by simp
qed

lemma ProcessPacket_same: "same_but_ref st st' \<Longrightarrow> ProcessPacket cb st' p = ProcessPacket cb st p"
  by (cases cb) (simp_all add: packet_identify_def same_but_ref_fields)

lemma process_all_same: "same_but_ref st st' \<Longrightarrow> process_all pSub st' p = process_all pSub st p"
proof (induction pSub)
  case (Cons x pSub)
  then show ?case by (cases x) (simp add: ProcessPacket_same)
qed simp

lemma packet_calls_same:
  assumes "same_but_ref st st'"
  shows "packet_calls st' ms p = packet_calls st ms p"
  unfolding packet_calls_spec packet_entity_def same_but_ref_fields [OF assms] process_all_same [OF assms]
    ProcessPacket_same [OF assms] ..

lemma same_but_ref_refl: "same_but_ref st st"
  by (simp add: same_but_ref_def)

lemma same_but_ref_RemoveRef: "same_but_ref st (st(p := Packet_RemoveRef (st p)))"
  by (simp add: same_but_ref_def Packet_RemoveRef_def)

lemma same_but_ref_trans: "same_but_ref a b \<Longrightarrow> same_but_ref b c \<Longrightarrow> same_but_ref a c"
  by (simp add: same_but_ref_def)

lemma handle_packets_spec:
  assumes "handle_packets ps st ms = (st', ms', calls)"
  shows "calls = concat (map (packet_calls st ms) ps) \<and> same_but_ref st st' \<and> same_dispatch ms ms'
    \<and> (\<forall>p. p_ref (st' p) = p_ref (st p) - int (count_list ps p))"
  using assms
proof (induction ps arbitrary: st ms calls)
  case Nil
  then show ?case by (auto simp: same_but_ref_refl same_dispatch_def)
next
  case (Cons p ps)
  obtain ms1 c1 where 1: "handle_packet st p ms = (ms1, c1)" by force
  let ?st = "st(p := Packet_RemoveRef (st p))"
  obtain st2 ms2 c2 where 2: "handle_packets ps ?st ms1 = (st2, ms2, c2)" by (metis prod_cases3)
  have r: "st' = st2" "ms' = ms2" "calls = c1 @ c2" using Cons.prems 1 2 by simp_all
  have s1: "same_dispatch ms ms1" using handle_packet_same [of ms st p] 1 by simp
  note ih = Cons.IH [OF 2 [folded r(1) r(2)]]
  have "packet_calls ?st ms1 = packet_calls st ms"
    by (intro ext) (simp only: packet_calls_same [OF same_but_ref_RemoveRef] same_dispatch_calls [OF s1])
  moreover have "c1 = packet_calls st ms p" using 1 by (simp add: packet_calls_def)
  moreover have "same_but_ref st st'" using same_but_ref_trans [OF same_but_ref_RemoveRef] ih by blast
  moreover have "same_dispatch ms ms'" using same_dispatch_trans [OF s1] ih by blast
  moreover have "p_ref (st' q) = p_ref (st q) - int (count_list (p # ps) q)" for q
  proof -
    have "p_ref (st' q) = p_ref (?st q) - int (count_list ps q)" using ih by blast
    then show ?thesis by (simp add: Packet_RemoveRef_def)
  qed
  moreover have "c2 = concat (map (packet_calls ?st ms1) ps)" using ih by blast
  ultimately show ?case using r(3) by simp
qed

lemma MessageSystem_Update_spec:
  assumes "CS_GetReaderCache (ms_cachePackets ms) = []"
    and "MessageSystem_Update st ms = (st', ms', calls)"
  shows "calls = concat (map (packet_calls st ms) (CS_GetWriterCache (ms_cachePackets ms)))
    \<and> same_but_ref st st'
    \<and> (\<forall>p. p_ref (st' p) = p_ref (st p) - int (count_list (CS_GetWriterCache (ms_cachePackets ms)) p))
    \<and> CS_GetReaderCache (ms_cachePackets ms') = [] \<and> CS_GetWriterCache (ms_cachePackets ms') = []
    \<and> ms_callbacks ms' = ms_callbacks ms \<and> (\<forall>e. default_of ms' e = default_of ms e)"
proof (cases "CS_GetWriterCache (ms_cachePackets ms) = []")
  case True
  then show ?thesis using assms by (auto simp: MessageSystem_Update_def CS_CanSwap_def same_but_ref_refl)
next
  case False
  let ?w = "CS_GetWriterCache (ms_cachePackets ms)"
  let ?ms = "ms\<lparr>ms_cachePackets := CS_Swap (ms_cachePackets ms)\<rparr>"
  obtain st2 ms2 c2 where h: "handle_packets ?w st ?ms = (st2, ms2, c2)" by (metis prod_cases3)
  have r: "st' = st2" "ms' = ms2\<lparr>ms_cachePackets := CS_clear_reader (ms_cachePackets ms2)\<rparr>" "calls = c2"
    using assms(2) False h by (auto simp: MessageSystem_Update_def CS_CanSwap_def Let_def)
  note spec = handle_packets_spec [OF h]
  have d: "packet_calls st ?ms = packet_calls st ms"
    by (rule ext) (simp add: packet_calls_spec callback_of_def default_of_def Let_def)
  have "default_of ?ms e = default_of ms e" "default_of ms' e = default_of ms2 e" for e
    by (simp_all add: default_of_def r)
  moreover have "ms_callbacks ms' = ms_callbacks ms" "ms_cachePackets ms2 = CS_Swap (ms_cachePackets ms)"
    "\<forall>e. default_of ms2 e = default_of ?ms e"
    using spec r by (auto simp: same_dispatch_def)
  ultimately show ?thesis using spec r d assms(1) by auto
qed

subsection \<open>Properties\<close>

text \<open>
  C6. One frame of a thread's message system handles every packet that was queued before the frame, in the
  order of their arrival, and nothing else: the calls it makes are those the registrations ask for, packet
  by packet; each packet loses as many references as it had places in the queue; and the queue is empty.
\<close>

theorem message_update_handles_queue:
  assumes "CS_GetReaderCache (ms_cachePackets ms) = []" "MessageSystem_Update st ms = (st', ms', calls)"
  shows "calls = concat (map (packet_calls st ms) (CS_GetWriterCache (ms_cachePackets ms)))
    \<and> (\<forall>p. p_ref (st' p) = p_ref (st p) - int (count_list (CS_GetWriterCache (ms_cachePackets ms)) p))
    \<and> CS_GetReaderCache (ms_cachePackets ms') = [] \<and> CS_GetWriterCache (ms_cachePackets ms') = []"
  using MessageSystem_Update_spec [OF assms] by blast

theorem message_update_handles_queue_witness:
  "\<exists>st' ms'. MessageSystem_Update (\<lambda>_. Packet\<lparr>p_msgId := 5, p_ref := 1\<rparr>)
      (snd (AddPacketToList 3 (\<lambda>_. Packet, RegisterFunction 8 5 (MessageCallBack ''h'') MessageSystem_empty)))
      = (st', ms', [HandlerCall ''h'' None 3]) \<and> p_ref (st' 3) = 0"
proof -
  let ?st = "\<lambda>_ :: nat. Packet\<lparr>p_msgId := 5, p_ref := 1\<rparr>"
  let ?ms = "snd (AddPacketToList 3 (\<lambda>_. Packet, RegisterFunction 8 5 (MessageCallBack ''h'') MessageSystem_empty))"
  obtain st' ms' calls where u: "MessageSystem_Update ?st ?ms = (st', ms', calls)" by (metis prod_cases3)
  have w: "CS_GetWriterCache (ms_cachePackets ?ms) = [3]" "CS_GetReaderCache (ms_cachePackets ?ms) = []"
    by (simp_all add: AddPacketToList_def RegisterFunction_def MessageSystem_empty_def Let_def)
  have c: "packet_calls ?st ?ms 3 = [HandlerCall ''h'' None 3]"
    by (simp add: packet_calls_def handle_packet_def packet_entity_def GetTagValue_def Packet_def
        AddPacketToList_def RegisterFunction_def MessageSystem_empty_def smap_emplace_def Let_def)
  show ?thesis using message_update_handles_queue [OF w(2) u] u w c by auto
qed

text \<open>
  Addressing. A packet with an entity tag goes to the callback registered for its number by that entity
  and to no other; if there is none, or it declines, it goes to the default callback of that entity, unless
  it is addressed to the world proper; a packet without an entity tag goes to every callback of its number,
  in the order of the entities' serial numbers.
\<close>

theorem message_addressing:
  assumes "ms_ok ms"
  shows "if 0 < packet_entity (st p)
     then (case callback_of ms (p_msgId (st p)) (packet_entity (st p)) of
             Some cb \<Rightarrow>
               (if fst (ProcessPacket cb st p) then packet_calls st ms p = snd (ProcessPacket cb st p)
                else packet_calls st ms p = default_calls ms st p)
           | None \<Rightarrow> packet_calls st ms p = default_calls ms st p)
     else (\<exists>pSub. sorted_wrt (<) (map fst pSub)
             \<and> map_of pSub = callback_of ms (p_msgId (st p))
             \<and> packet_calls st ms p = concat (map (\<lambda>(sn, cb). snd (ProcessPacket cb st p)) pSub))"
proof -
  have all: "snd (process_all pSub st p) = concat (map (\<lambda>(sn, cb). snd (ProcessPacket cb st p)) pSub)" for pSub
    by (induction pSub st p rule: process_all.induct) (auto simp: Let_def split: prod.splits)
  have declined: "fst (ProcessPacket cb st p) \<or> snd (ProcessPacket cb st p) = []" for cb
    by (cases cb) (auto split: option.splits)
  show ?thesis
  proof (cases "0 < packet_entity (st p)")
    case True
    then show ?thesis using declined
      by (auto simp: packet_calls_spec Let_def default_calls_def split: option.splits)
  next
    case False
    let ?sub = "case map_of (ms_callbacks ms) (p_msgId (st p)) of None \<Rightarrow> [] | Some pSub \<Rightarrow> pSub"
    have "smap_ok ?sub" using assms map_of_SomeD by (fastforce simp: ms_ok_def split: option.splits)
    moreover have "map_of ?sub = callback_of ms (p_msgId (st p))"
      by (auto simp: callback_of_def fun_eq_iff split: option.splits)
    moreover have "packet_calls st ms p = concat (map (\<lambda>(sn, cb). snd (ProcessPacket cb st p)) ?sub)"
      using False by (auto simp: packet_calls_spec Let_def all split: option.splits)
    ultimately show ?thesis using False unfolding smap_ok_def by auto
  qed
qed

theorem message_addressing_witness:
  "packet_calls (\<lambda>_. Packet\<lparr>p_msgId := 5, p_tagKey := AddTagInt TagEntity 8 []\<rparr>)
     (RegisterFunction 8 5 (MessageCallBack ''h'') (RegisterFunction 7 5 (MessageCallBack ''g'') MessageSystem_empty)) 3
   = [HandlerCall ''h'' None 3]"
proof -
  let ?ms = "RegisterFunction 8 5 (MessageCallBack ''h'') (RegisterFunction 7 5 (MessageCallBack ''g'') MessageSystem_empty)"
  have "ms_ok ?ms" by (intro inv_intros)
  from message_addressing [OF this, of "\<lambda>_. Packet\<lparr>p_msgId := 5, p_tagKey := AddTagInt TagEntity 8 []\<rparr>" 3]
  show ?thesis
    by (simp add: packet_entity_def RegisterFunction_lookup callback_of_def [of MessageSystem_empty])
      (simp add: MessageSystem_empty_def)
qed

end
