(* ===== verification/ThreadDispatch.thy ===== *)
theory ThreadDispatch
  imports MessageSystem
begin

text \<open>
  The main thread hands packets to the worker threads: \<open>ThreadCollector\<close>, \<open>ThreadCollectorExclusive\<close> and
  the two update steps of \<open>ThreadMgr\<close>. A thread is its message system; a collector keeps the threads of
  one type by serial number and the number of the thread whose turn it is. \<open>None\<close> is the dereference of
  the end iterator of an empty thread map.
\<close>

definition MainThread :: int where "MainThread = 1"
definition ListenThread :: int where "ListenThread = 2"
definition ConnectThread :: int where "ConnectThread = 4"
definition LogicThread :: int where "LogicThread = 8"
definition MysqlThread :: int where "MysqlThread = 16"

definition GetThreadTypeName :: "int \<Rightarrow> string" where
  "GetThreadTypeName t =
     (if t = MainThread then ''MainThread''
      else if t = LogicThread then ''LogicThread''
      else if t = ListenThread then ''ListenThread''
      else if t = ConnectThread then ''ConnectThread''
      else if t = MysqlThread then ''MysqlThread''
      else ''unknown'')"

subsection \<open>Thread collectors\<close>

record 'h thread_collector =
  tc_exclusive :: bool
  tc_threads :: "(u64, 'h message_system) smap"
  tc_nextThreadSn :: u64

text \<open>The constructor: threads with the serial numbers they were created with.\<close>

definition ThreadCollector :: "int \<Rightarrow> u64 list \<Rightarrow> 'h thread_collector" where
  "ThreadCollector threadType sns =
     \<lparr>tc_exclusive = (threadType = MysqlThread),
      tc_threads = fold (\<lambda>sn m. smap_emplace sn MessageSystem_empty m) sns [], tc_nextThreadSn = 0\<rparr>"

definition add_to_thread :: "u64 \<Rightarrow> nat \<Rightarrow> packet_store \<times> 'h thread_collector \<Rightarrow>
    packet_store \<times> 'h thread_collector" where
  "add_to_thread sn pPacket s =
     (case s of (st, tc) \<Rightarrow>
        (case map_of (tc_threads tc) sn of
           None \<Rightarrow> (st, tc)
         | Some ms \<Rightarrow>
             (case AddPacketToList pPacket (st, ms) of
                (st, ms) \<Rightarrow> (st, tc\<lparr>tc_threads := smap_assign sn ms (tc_threads tc)\<rparr>))))"

fun add_to_threads :: "u64 list \<Rightarrow> nat \<Rightarrow> packet_store \<times> 'h thread_collector \<Rightarrow>
    packet_store \<times> 'h thread_collector" where
  "add_to_threads [] pPacket s = s"
| "add_to_threads (sn # sns) pPacket s = add_to_threads sns pPacket (add_to_thread sn pPacket s)"

text \<open>\<open>++iter\<close>, and back to \<open>begin()\<close> at the end.\<close>

fun next_key :: "'k \<Rightarrow> ('k \<times> 'v) list \<Rightarrow> 'k option" where
  "next_key k [] = None"
| "next_key k [p] = None"
| "next_key k (p # q # m) = (if fst p = k then Some (fst q) else next_key k (q # m))"

definition turn_of :: "'h thread_collector \<Rightarrow> u64 option" where
  "turn_of tc =
     (case tc_threads tc of
        [] \<Rightarrow> None
      | p # _ \<Rightarrow> Some (if map_of (tc_threads tc) (tc_nextThreadSn tc) = None then fst p
                       else tc_nextThreadSn tc))"

definition one_in_turn :: "nat \<Rightarrow> packet_store \<times> 'h thread_collector \<Rightarrow>
    (packet_store \<times> 'h thread_collector) option" where
  "one_in_turn pPacket s =
     (case s of (st, tc) \<Rightarrow> do {
        sn \<leftarrow> turn_of tc;
        let (st, tc) = add_to_thread sn pPacket (st, tc);
        let next = (case next_key sn (tc_threads tc) of
                      Some k \<Rightarrow> k | None \<Rightarrow> fst (hd (tc_threads tc)));
        Some (st, tc\<lparr>tc_nextThreadSn := next\<rparr>)
      })"

definition HandlerCreateMessage :: "nat \<Rightarrow> bool \<Rightarrow> packet_store \<times> 'h thread_collector \<Rightarrow>
    (packet_store \<times> 'h thread_collector) option" where
  "HandlerCreateMessage pPacket isToAllThread s =
     (if isToAllThread then Some (add_to_threads (map fst (tc_threads (snd s))) pPacket s)
      else one_in_turn pPacket s)"

definition HandlerMessage :: "nat \<Rightarrow> packet_store \<times> 'h thread_collector \<Rightarrow>
    (packet_store \<times> 'h thread_collector) option" where
  "HandlerMessage pPacket s =
     (if tc_exclusive (snd s)
      then (if p_msgId (fst s pPacket) = MI_CmdThread then HandlerCreateMessage pPacket True s
            else one_in_turn pPacket s)
      else Some (add_to_threads (map fst (tc_threads (snd s))) pPacket s))"

subsection \<open>\<open>ThreadMgr\<close>\<close>

record 'h thread_mgr =
  mgr_threads :: "(int, 'h thread_collector) smap"
  mgr_createPackets :: "nat cache_swap"
  mgr_packets :: "nat cache_swap"
  mgr_main :: "'h message_system"

record create_proto =
  cp_thread_type :: int
  cp_is_to_all_thread :: bool

definition DispatchPacket :: "nat \<Rightarrow> 'h thread_mgr \<Rightarrow> 'h thread_mgr" where
  "DispatchPacket pPacket mgr = mgr\<lparr>mgr_packets := CS_write pPacket (mgr_packets mgr)\<rparr>"

definition open_ref :: "nat \<Rightarrow> packet_store \<Rightarrow> packet_store" where
  "open_ref p st = st(p := Packet_OpenRef (st p))"

fun handler_messages :: "int list \<Rightarrow> nat \<Rightarrow> packet_store \<times> 'h thread_mgr \<Rightarrow> (packet_store \<times> 'h thread_mgr) option" where
  "handler_messages [] pPacket s = Some s"
| "handler_messages (t # ts) pPacket (st, mgr) =
     (case map_of (mgr_threads mgr) t of
        None \<Rightarrow> handler_messages ts pPacket (st, mgr)
      | Some tc \<Rightarrow> do {
          (st, tc) \<leftarrow> HandlerMessage pPacket (st, tc);
          handler_messages ts pPacket (st, mgr\<lparr>mgr_threads := smap_assign t tc (mgr_threads mgr)\<rparr>)
        })"

definition dispatch_one :: "nat \<Rightarrow> packet_store \<times> 'h thread_mgr \<Rightarrow> (packet_store \<times> 'h thread_mgr) option" where
  "dispatch_one pPacket s =
     (case s of (st, mgr) \<Rightarrow> do {
        let (st, ms) = AddPacketToList pPacket (st, mgr_main mgr);
        let mgr = mgr\<lparr>mgr_main := ms\<rparr>;
        (st, mgr) \<leftarrow> handler_messages (map fst (mgr_threads mgr)) pPacket (st, mgr);
        Some (open_ref pPacket st, mgr)
      })"

fun foldM :: "('x \<Rightarrow> 's \<Rightarrow> 's option) \<Rightarrow> 'x list \<Rightarrow> 's \<Rightarrow> 's option" where
  "foldM f [] s = Some s"
| "foldM f (x # xs) s = Option.bind (f x s) (foldM f xs)"

definition UpdateDispatchPacket :: "packet_store \<times> 'h thread_mgr \<Rightarrow> (packet_store \<times> 'h thread_mgr) option" where
  "UpdateDispatchPacket s =
     (case s of (st, mgr) \<Rightarrow> do {
        let mgr = (if CS_CanSwap (mgr_packets mgr) then mgr\<lparr>mgr_packets := CS_Swap (mgr_packets mgr)\<rparr> else mgr);
        (st, mgr) \<leftarrow> foldM dispatch_one (CS_GetReaderCache (mgr_packets mgr)) (st, mgr);
        Some (st, mgr\<lparr>mgr_packets := CS_clear_reader (mgr_packets mgr)\<rparr>)
      })"

text \<open>\<open>parse\<close> is \<open>ParseToProto<Proto::CreateComponent>\<close>.\<close>

definition create_one :: "(packet \<Rightarrow> create_proto) \<Rightarrow> nat \<Rightarrow> packet_store \<times> 'h thread_mgr \<Rightarrow>
    (packet_store \<times> 'h thread_mgr) option" where
  "create_one parse pPacket s =
     (case s of (st, mgr) \<Rightarrow>
        if mgr_threads mgr \<noteq> []
        then (let pCreateProto = parse (st pPacket) in
              case map_of (mgr_threads mgr) (cp_thread_type pCreateProto) of
                None \<Rightarrow> Some (st, mgr)
              | Some tc \<Rightarrow> do {
                  (st, tc) \<leftarrow> HandlerCreateMessage pPacket (cp_is_to_all_thread pCreateProto) (st, tc);
                  Some (open_ref pPacket st,
                        mgr\<lparr>mgr_threads := smap_assign (cp_thread_type pCreateProto) tc (mgr_threads mgr)\<rparr>)
                })
        else (let (st, ms) = AddPacketToList pPacket (st, mgr_main mgr)
              in Some (open_ref pPacket st, mgr\<lparr>mgr_main := ms\<rparr>)))"

definition UpdateCreatePacket :: "(packet \<Rightarrow> create_proto) \<Rightarrow> packet_store \<times> 'h thread_mgr \<Rightarrow>
    (packet_store \<times> 'h thread_mgr) option" where
  "UpdateCreatePacket parse s =
     (case s of (st, mgr) \<Rightarrow> do {
        let mgr = (if CS_CanSwap (mgr_createPackets mgr)
                   then mgr\<lparr>mgr_createPackets := CS_Swap (mgr_createPackets mgr)\<rparr> else mgr);
        (st, mgr) \<leftarrow> foldM (create_one parse) (CS_GetReaderCache (mgr_createPackets mgr)) (st, mgr);
        Some (st, mgr\<lparr>mgr_createPackets := CS_clear_reader (mgr_createPackets mgr)\<rparr>)
      })"

subsection \<open>The turn of the exclusive threads\<close>

lemma add_to_thread_keys:
  "smap_ok (tc_threads tc) \<Longrightarrow> map fst (tc_threads (snd (add_to_thread sn p (st, tc)))) = map fst (tc_threads tc)"
  by (auto simp: add_to_thread_def AddPacketToList_def smap_assign_present split: option.splits)

definition thread_queue :: "'h thread_collector \<Rightarrow> u64 \<Rightarrow> nat list" where
  "thread_queue tc sn =
     (case map_of (tc_threads tc) sn of None \<Rightarrow> [] | Some ms \<Rightarrow> CS_GetWriterCache (ms_cachePackets ms))"

lemma add_to_thread_queue:
  assumes "sn \<in> fst ` set (tc_threads tc)"
  shows "thread_queue (snd (add_to_thread sn p (st, tc))) k = thread_queue tc k @ (if k = sn then [p] else [])"
proof -
  obtain ms where "map_of (tc_threads tc) sn = Some ms"
    using assms by (metis map_of_eq_None_iff not_None_eq)
  then show ?thesis by (auto simp: add_to_thread_def AddPacketToList_def thread_queue_def)
qed

lemma add_to_thread_fields [simp]:
  "tc_exclusive (snd (add_to_thread sn p s)) = tc_exclusive (snd s)"
  "tc_nextThreadSn (snd (add_to_thread sn p s)) = tc_nextThreadSn (snd s)"
  by (auto simp: add_to_thread_def AddPacketToList_def split: prod.splits option.splits)

lemma next_key_nth:
  "distinct (map fst m) \<Longrightarrow> i < length m \<Longrightarrow>
     next_key (fst (m ! i)) m = (if Suc i < length m then Some (fst (m ! Suc i)) else None)"
proof (induction "fst (m ! i)" m arbitrary: i rule: next_key.induct)
  case (3 p q m)
  show ?case
  proof (cases i)
    case (Suc j)
    then have "(q # m) ! j \<in> set (q # m)" using 3(3) Suc by (intro nth_mem) simp
    then have "fst p \<noteq> fst ((p # q # m) ! i)" using 3(2) Suc by force
    then show ?thesis using 3 Suc by auto
  qed simp
qed auto

text \<open>The place of the collector's turn among its threads.\<close>

definition turn_index :: "'h thread_collector \<Rightarrow> nat \<Rightarrow> bool" where
  "turn_index tc i = (i < length (tc_threads tc) \<and> turn_of tc = Some (fst (tc_threads tc ! i)))"

lemma turn_index_ex:
  assumes "tc_threads tc \<noteq> []"
  shows "\<exists>i. turn_index tc i"
proof -
  obtain p m where m: "tc_threads tc = p # m" using assms by (cases "tc_threads tc") auto
  show ?thesis
  proof (cases "map_of (tc_threads tc) (tc_nextThreadSn tc)")
    case None
    then show ?thesis using m by (intro exI [of _ 0]) (simp add: turn_index_def turn_of_def)
  next
    case (Some ms)
    then have "(tc_nextThreadSn tc, ms) \<in> set (tc_threads tc)" by (rule map_of_SomeD)
    then obtain i where "i < length (tc_threads tc)" "tc_threads tc ! i = (tc_nextThreadSn tc, ms)"
      by (auto simp: in_set_conv_nth)
    then show ?thesis using m Some by (intro exI [of _ i]) (simp add: turn_index_def turn_of_def)
  qed
qed

lemma one_in_turn_step:
  assumes ok: "smap_ok (tc_threads tc)" and i: "turn_index tc i"
  shows "\<exists>st' tc'. one_in_turn p (st, tc) = Some (st', tc')
    \<and> map fst (tc_threads tc') = map fst (tc_threads tc) \<and> smap_ok (tc_threads tc')
    \<and> turn_index tc' (Suc i mod length (tc_threads tc))
    \<and> (\<forall>k. thread_queue tc' k = thread_queue tc k @ (if k = fst (tc_threads tc ! i) then [p] else []))
    \<and> tc_exclusive tc' = tc_exclusive tc"
proof -
  let ?n = "length (tc_threads tc)" and ?sn = "fst (tc_threads tc ! i)"
  have il: "i < ?n" and t: "turn_of tc = Some ?sn" using i by (simp_all add: turn_index_def)
  obtain st1 tc1 where a: "add_to_thread ?sn p (st, tc) = (st1, tc1)" by force
  have keys: "map fst (tc_threads tc1) = map fst (tc_threads tc)"
    using add_to_thread_keys [OF ok, of ?sn p st] a by simp
  then have len: "length (tc_threads tc1) = ?n" by (metis length_map)
  have nth: "fst (tc_threads tc1 ! j) = fst (tc_threads tc ! j)" if "j < ?n" for j
    using keys that len by (metis nth_map)
  have ok1: "smap_ok (tc_threads tc1)" using ok keys by (simp add: smap_ok_def)
  have nk: "next_key ?sn (tc_threads tc1) = (if Suc i < ?n then Some (fst (tc_threads tc1 ! Suc i)) else None)"
    using next_key_nth [OF smap_ok_distinct [OF ok1], of i] len il nth [OF il] by simp
  let ?nx = "case next_key ?sn (tc_threads tc1) of Some k \<Rightarrow> k | None \<Rightarrow> fst (hd (tc_threads tc1))"
  let ?tc = "tc1\<lparr>tc_nextThreadSn := ?nx\<rparr>"
  let ?j = "Suc i mod ?n"
  have j: "?j < ?n" using il by (intro mod_less_divisor) linarith
  have ne: "tc_threads tc1 \<noteq> []" using len il by auto
  have nx: "?nx = fst (tc_threads tc1 ! ?j)"
  proof (cases "Suc i < ?n")
    case False
    then have "Suc i = ?n" using il by simp
    then show ?thesis using nk ne by (simp add: hd_conv_nth)
  qed (simp add: nk)
  have "fst (tc_threads tc1 ! ?j) \<in> fst ` set (tc_threads tc1)" using j len by (simp add: nth_mem)
  then have "map_of (tc_threads tc1) (fst (tc_threads tc1 ! ?j)) \<noteq> None" by (simp add: map_of_eq_None_iff)
  then have "turn_index ?tc ?j"
    using nx j len ne by (auto simp: turn_index_def turn_of_def split: list.splits)
  moreover have "thread_queue ?tc k = thread_queue tc k @ (if k = ?sn then [p] else [])" for k
    using add_to_thread_queue [of ?sn tc p st k] a il by (simp add: thread_queue_def)
  moreover have "one_in_turn p (st, tc) = Some (st1, ?tc)" using t a by (simp add: one_in_turn_def)
  moreover have "tc_exclusive tc1 = tc_exclusive tc" using add_to_thread_fields(1) [of ?sn p "(st, tc)"] a by simp
  ultimately show ?thesis using keys ok1 by auto
qed

text \<open>The packets that fall to the thread with index \<open>t\<close> of \<open>n\<close> when the turn is at \<open>i\<close>.\<close>

fun share :: "nat \<Rightarrow> nat \<Rightarrow> nat \<Rightarrow> nat list \<Rightarrow> nat list" where
  "share n i t [] = []"
| "share n i t (p # ps) = (if i = t then [p] else []) @ share n (Suc i mod n) t ps"

lemma round_robin_shares:
  assumes "smap_ok (tc_threads tc)" "turn_index tc i"
  shows "\<exists>st' tc'. foldM one_in_turn ps (st, tc) = Some (st', tc')
    \<and> (\<forall>t < length (tc_threads tc). thread_queue tc' (fst (tc_threads tc ! t))
          = thread_queue tc (fst (tc_threads tc ! t)) @ share (length (tc_threads tc)) i t ps)"
  using assms
proof (induction ps arbitrary: st tc i)
  case (Cons p ps)
  obtain st1 tc1 where 1: "one_in_turn p (st, tc) = Some (st1, tc1)"
    "map fst (tc_threads tc1) = map fst (tc_threads tc)" "smap_ok (tc_threads tc1)"
    "turn_index tc1 (Suc i mod length (tc_threads tc))"
    "\<And>k. thread_queue tc1 k = thread_queue tc k @ (if k = fst (tc_threads tc ! i) then [p] else [])"
    using one_in_turn_step [OF Cons.prems] by blast
  have len: "length (tc_threads tc1) = length (tc_threads tc)" using 1(2) by (metis length_map)
  have nth: "fst (tc_threads tc1 ! t) = fst (tc_threads tc ! t)" if "t < length (tc_threads tc)" for t
    using 1(2) that len by (metis nth_map)
  obtain st2 tc2 where 2: "foldM one_in_turn ps (st1, tc1) = Some (st2, tc2)"
    "\<forall>t < length (tc_threads tc1). thread_queue tc2 (fst (tc_threads tc1 ! t))
        = thread_queue tc1 (fst (tc_threads tc1 ! t))
          @ share (length (tc_threads tc1)) (Suc i mod length (tc_threads tc)) t ps"
    using Cons.IH [OF 1(3,4)] by blast
  have i: "i < length (tc_threads tc)" using Cons.prems(2) by (simp add: turn_index_def)
  have d: "(fst (tc_threads tc ! t) = fst (tc_threads tc ! i)) = (i = t)" if "t < length (tc_threads tc)" for t
    using smap_ok_distinct [OF Cons.prems(1)] that i
    by (metis (no_types, lifting) length_map nth_eq_iff_index_eq nth_map)
  show ?case using 1(1,5) 2 len nth d by (simp add: append_assoc)
qed simp

lemma share_length:
  assumes "length ps \<le> n" "i < n" "t < n"
  shows "length (share n i t ps) = (if (if i \<le> t then t - i else t + n - i) < length ps then 1 else 0)"
  using assms
proof (induction ps arbitrary: i)
  case (Cons p ps)
  have m: "Suc i mod n = (if Suc i = n then 0 else Suc i)" using Cons.prems by simp
  then have "Suc i mod n < n" using Cons.prems by simp
  from Cons.IH [OF _ this Cons.prems(3)] Cons.prems m show ?case by (auto split: if_splits)
qed simp

lemma share_once: "length ps = n \<Longrightarrow> i < n \<Longrightarrow> t < n \<Longrightarrow> length (share n i t ps) = 1"
  by (simp add: share_length) linarith

subsection \<open>References and places in queues\<close>

text \<open>
  Every place of a packet in a queue of a thread is one reference: \<open>occ\<close> counts the places, \<open>balanced\<close> says
  that the reference count of every packet is their number.
\<close>

definition occ_ms :: "nat \<Rightarrow> 'h message_system \<Rightarrow> nat" where
  "occ_ms p ms = count_list (CS_GetWriterCache (ms_cachePackets ms)) p
     + count_list (CS_GetReaderCache (ms_cachePackets ms)) p"

definition occ_tc :: "nat \<Rightarrow> 'h thread_collector \<Rightarrow> nat" where
  "occ_tc p tc = sum_list (map (\<lambda>q. occ_ms p (snd q)) (tc_threads tc))"

definition occ :: "nat \<Rightarrow> 'h thread_mgr \<Rightarrow> nat" where
  "occ p mgr = occ_ms p (mgr_main mgr) + sum_list (map (\<lambda>q. occ_tc p (snd q)) (mgr_threads mgr))"

definition balanced :: "packet_store \<Rightarrow> 'h thread_mgr \<Rightarrow> bool" where
  "balanced st mgr = (\<forall>p. p_ref (st p) = int (occ p mgr))"

definition tc_ok :: "'h thread_collector \<Rightarrow> bool" where
  "tc_ok tc = (smap_ok (tc_threads tc) \<and> tc_threads tc \<noteq> [])"

definition mgr_ok :: "'h thread_mgr \<Rightarrow> bool" where
  "mgr_ok mgr = (smap_ok (mgr_threads mgr) \<and> (\<forall>q \<in> set (mgr_threads mgr). tc_ok (snd q)))"

text \<open>One step adds as many references as places, and opens no count.\<close>

definition step_tc :: "packet_store \<times> 'h thread_collector \<Rightarrow> packet_store \<times> 'h thread_collector \<Rightarrow> bool" where
  "step_tc s s' = (tc_ok (snd s')
     \<and> (\<forall>q. p_ref (fst s' q) - p_ref (fst s q) = int (occ_tc q (snd s')) - int (occ_tc q (snd s)))
     \<and> (\<forall>q. p_isRefOpen (fst s' q) = p_isRefOpen (fst s q)))"

lemma AddPacketToList_balance:
  assumes "AddPacketToList p (st, ms) = (st', ms')"
  shows "\<forall>q. p_ref (st' q) - p_ref (st q) = int (occ_ms q ms') - int (occ_ms q ms)"
    "\<forall>q. p_isRefOpen (st' q) = p_isRefOpen (st q)"
  using assms by (auto simp: AddPacketToList_def occ_ms_def Packet_AddRef_def split: if_splits)

lemma step_tc_refl: "tc_ok (snd s) \<Longrightarrow> step_tc s s"
  by (simp add: step_tc_def)

lemma step_tc_trans: "step_tc a b \<Longrightarrow> step_tc b c \<Longrightarrow> step_tc a c"
  unfolding step_tc_def by (smt (verit))

lemma add_to_thread_step:
  assumes "tc_ok (snd s)"
  shows "step_tc s (add_to_thread sn p s)"
proof -
  obtain st tc where s: "s = (st, tc)" by force
  show ?thesis
  proof (cases "map_of (tc_threads tc) sn")
    case None
    then show ?thesis using assms by (simp add: add_to_thread_def s step_tc_refl)
  next
    case (Some ms)
    obtain st' ms' where a: "AddPacketToList p (st, ms) = (st', ms')" by force
    note m = smap_assign_present [OF Some, of ms']
    have ok: "smap_ok (tc_threads tc)" using assms by (simp add: s tc_ok_def)
    have "smap_assign sn ms' (tc_threads tc) \<noteq> []"
      using assms m [OF ok] by (metis list.map_disc_iff s snd_conv tc_ok_def)
    moreover have "occ_tc q (tc\<lparr>tc_threads := smap_assign sn ms' (tc_threads tc)\<rparr>) + occ_ms q ms
        = occ_tc q tc + occ_ms q ms'" for q
      using m [OF ok, of "\<lambda>x. occ_ms q (snd x)"] by (simp add: occ_tc_def)
    then have "int (occ_tc q (tc\<lparr>tc_threads := smap_assign sn ms' (tc_threads tc)\<rparr>)) - int (occ_tc q tc)
        = int (occ_ms q ms') - int (occ_ms q ms)" for q by (smt (verit) of_nat_add)
    ultimately show ?thesis using AddPacketToList_balance [OF a] Some a ok
      by (simp add: add_to_thread_def s step_tc_def tc_ok_def)
  qed
qed

lemma add_to_threads_step: "tc_ok (snd s) \<Longrightarrow> step_tc s (add_to_threads sns p s)"
proof (induction sns p s rule: add_to_threads.induct)
  case (2 sn sns p s)
  have "step_tc s (add_to_thread sn p s)" using 2(2) by (rule add_to_thread_step)
  moreover from this have "step_tc (add_to_thread sn p s) (add_to_threads sns p (add_to_thread sn p s))"
    by (intro 2(1)) (simp add: step_tc_def)
  ultimately show ?case by (simp add: step_tc_trans)
qed (simp add: step_tc_refl)

lemma one_in_turn_total:
  assumes "tc_ok (snd s)"
  shows "\<exists>s'. one_in_turn p s = Some s' \<and> step_tc s s'"
proof -
  obtain st tc where s: "s = (st, tc)" by force
  obtain sn where sn: "turn_of tc = Some sn"
    using assms by (cases "tc_threads tc") (auto simp: s tc_ok_def turn_of_def)
  obtain st1 tc1 where a: "add_to_thread sn p (st, tc) = (st1, tc1)" by force
  have "step_tc (st, tc) (st1, tc1)" using add_to_thread_step [of "(st, tc)" sn p] assms s a by simp
  then show ?thesis using sn a
    by (auto simp: one_in_turn_def s step_tc_def tc_ok_def occ_tc_def)
qed

lemma HandlerCreateMessage_total:
  "tc_ok (snd s) \<Longrightarrow> \<exists>s'. HandlerCreateMessage p a s = Some s' \<and> step_tc s s'"
  using one_in_turn_total [of s p] add_to_threads_step [of s _ p]
  by (simp add: HandlerCreateMessage_def del: split_paired_Ex)

lemma HandlerMessage_total:
  "tc_ok (snd s) \<Longrightarrow> \<exists>s'. HandlerMessage p s = Some s' \<and> step_tc s s'"
  using HandlerCreateMessage_total [of s p True] one_in_turn_total [of s p] add_to_threads_step [of s _ p]
  by (simp add: HandlerMessage_def del: split_paired_Ex)

definition step_mgr :: "packet_store \<times> 'h thread_mgr \<Rightarrow> packet_store \<times> 'h thread_mgr \<Rightarrow> bool" where
  "step_mgr s s' = (mgr_ok (snd s') \<and> map fst (mgr_threads (snd s')) = map fst (mgr_threads (snd s))
     \<and> mgr_createPackets (snd s') = mgr_createPackets (snd s) \<and> mgr_packets (snd s') = mgr_packets (snd s)
     \<and> (\<forall>q. p_ref (fst s' q) - p_ref (fst s q) = int (occ q (snd s')) - int (occ q (snd s)))
     \<and> (\<forall>q. p_isRefOpen (fst s q) \<longrightarrow> p_isRefOpen (fst s' q)))"

lemma step_mgr_refl: "mgr_ok (snd s) \<Longrightarrow> step_mgr s s"
  by (simp add: step_mgr_def)

lemma step_mgr_trans: "step_mgr a b \<Longrightarrow> step_mgr b c \<Longrightarrow> step_mgr a c"
  unfolding step_mgr_def by (smt (verit))

lemma step_mgr_assign:
  assumes ok: "mgr_ok mgr" and t: "map_of (mgr_threads mgr) t = Some tc" and s: "step_tc (st, tc) (st', tc')"
  shows "step_mgr (st, mgr) (st', mgr\<lparr>mgr_threads := smap_assign t tc' (mgr_threads mgr)\<rparr>)"
proof -
  have sm: "smap_ok (mgr_threads mgr)" using ok by (simp add: mgr_ok_def)
  note m = smap_assign_present [OF t sm, of tc']
  let ?mgr = "mgr\<lparr>mgr_threads := smap_assign t tc' (mgr_threads mgr)\<rparr>"
  have "occ q ?mgr + occ_tc q tc = occ q mgr + occ_tc q tc'" for q
    using m [of "\<lambda>x. occ_tc q (snd x)"] by (simp add: occ_def)
  then have "int (occ q ?mgr) - int (occ q mgr) = int (occ_tc q tc') - int (occ_tc q tc)" for q
    by (smt (verit) of_nat_add)
  moreover have "\<forall>q \<in> set (smap_assign t tc' (mgr_threads mgr)). tc_ok (snd q)"
    using ok s set_assign_subset [of t tc' "mgr_threads mgr"] by (auto simp: mgr_ok_def step_tc_def)
  ultimately show ?thesis using s m sm by (simp add: step_mgr_def step_tc_def mgr_ok_def)
qed

lemma handler_messages_total:
  "mgr_ok (snd s) \<Longrightarrow> \<exists>s'. handler_messages ts p s = Some s' \<and> step_mgr s s'"
proof (induction ts arbitrary: s)
  case (Cons t ts)
  obtain st mgr where s: "s = (st, mgr)" by force
  show ?case
  proof (cases "map_of (mgr_threads mgr) t")
    case None
    then show ?thesis using Cons by (simp add: s)
  next
    case (Some tc)
    have "tc_ok tc" using Cons.prems map_of_SomeD [OF Some] by (auto simp: s mgr_ok_def)
    then obtain st1 tc1 where 1: "HandlerMessage p (st, tc) = Some (st1, tc1)" "step_tc (st, tc) (st1, tc1)"
      using HandlerMessage_total [of "(st, tc)" p] by auto
    let ?mgr = "mgr\<lparr>mgr_threads := smap_assign t tc1 (mgr_threads mgr)\<rparr>"
    have 2: "step_mgr s (st1, ?mgr)" using step_mgr_assign [OF _ Some 1(2)] Cons.prems by (simp add: s)
    then obtain s' where "handler_messages ts p (st1, ?mgr) = Some s'" "step_mgr (st1, ?mgr) s'"
      using Cons.IH [of "(st1, ?mgr)"] by (auto simp: step_mgr_def)
    then show ?thesis using Some 1(1) step_mgr_trans [OF 2] by (auto simp: s)
  qed
qed (simp add: step_mgr_refl)

lemma step_mgr_main:
  assumes "mgr_ok mgr" "AddPacketToList p (st, mgr_main mgr) = (st', ms')"
  shows "step_mgr (st, mgr) (st', mgr\<lparr>mgr_main := ms'\<rparr>)"
  using AddPacketToList_balance [OF assms(2)] assms(1) by (simp add: step_mgr_def occ_def mgr_ok_def)

lemma open_ref_fields [simp]:
  "p_ref (open_ref p st q) = p_ref (st q)" "p_isRefOpen (open_ref p st p)"
  "p_isRefOpen (st q) \<Longrightarrow> p_isRefOpen (open_ref p st q)"
  by (simp_all add: open_ref_def Packet_OpenRef_def)

lemma dispatch_one_total:
  assumes "mgr_ok (snd s)"
  shows "\<exists>s'. dispatch_one p s = Some s' \<and> step_mgr s s' \<and> p_isRefOpen (fst s' p)"
proof -
  obtain st mgr where s: "s = (st, mgr)" by force
  obtain st1 ms1 where a: "AddPacketToList p (st, mgr_main mgr) = (st1, ms1)" by force
  let ?mgr = "mgr\<lparr>mgr_main := ms1\<rparr>"
  have 1: "step_mgr s (st1, ?mgr)" using step_mgr_main [OF _ a] assms by (simp add: s)
  then obtain st2 mgr2 where 2: "handler_messages (map fst (mgr_threads ?mgr)) p (st1, ?mgr) = Some (st2, mgr2)"
    "step_mgr (st1, ?mgr) (st2, mgr2)"
    using handler_messages_total [of "(st1, ?mgr)"] unfolding step_mgr_def by (metis prod.collapse snd_conv)
  have "step_mgr s (open_ref p st2, mgr2)"
    using step_mgr_trans [OF 1 2(2)] by (simp add: step_mgr_def)
  then show ?thesis using a 2(1) by (auto simp: dispatch_one_def s)
qed

lemma foldM_dispatch_total:
  "mgr_ok (snd s) \<Longrightarrow> \<exists>s'. foldM dispatch_one ps s = Some s' \<and> step_mgr s s'
     \<and> (\<forall>p \<in> set ps. p_isRefOpen (fst s' p))"
proof (induction ps arbitrary: s)
  case (Cons p ps)
  obtain s1 where 1: "dispatch_one p s = Some s1" "step_mgr s s1" "p_isRefOpen (fst s1 p)"
    using dispatch_one_total [OF Cons.prems] by blast
  then obtain s2 where 2: "foldM dispatch_one ps s1 = Some s2" "step_mgr s1 s2"
    "\<forall>p \<in> set ps. p_isRefOpen (fst s2 p)"
    using Cons.IH [of s1] by (auto simp: step_mgr_def)
  then have "p_isRefOpen (fst s2 p)" using 1(3) by (simp add: step_mgr_def)
  then show ?case using 1 2 step_mgr_trans [OF 1(2) 2(2)] by auto
qed (simp add: step_mgr_refl)

lemma create_one_total:
  assumes "mgr_ok (snd s)"
  shows "\<exists>s'. create_one parse p s = Some s' \<and> step_mgr s s'"
proof -
  obtain st mgr where s: "s = (st, mgr)" by force
  show ?thesis
  proof (cases "mgr_threads mgr = []")
    case True
    obtain st1 ms1 where a: "AddPacketToList p (st, mgr_main mgr) = (st1, ms1)" by force
    have "step_mgr s (open_ref p st1, mgr\<lparr>mgr_main := ms1\<rparr>)"
      using step_mgr_main [OF _ a] assms by (simp add: s step_mgr_def)
    then show ?thesis using True a by (simp add: create_one_def s)
  next
    case False
    show ?thesis
    proof (cases "map_of (mgr_threads mgr) (cp_thread_type (parse (st p)))")
      case None
      then show ?thesis using False assms by (simp add: create_one_def s step_mgr_refl)
    next
      case (Some tc)
      have "tc_ok tc" using assms map_of_SomeD [OF Some] by (auto simp: s mgr_ok_def)
      then obtain st1 tc1 where 1: "HandlerCreateMessage p (cp_is_to_all_thread (parse (st p))) (st, tc) = Some (st1, tc1)"
        "step_tc (st, tc) (st1, tc1)" using HandlerCreateMessage_total [of "(st, tc)"] by (metis prod.collapse snd_conv)
      have "step_mgr s (st1, mgr\<lparr>mgr_threads := smap_assign (cp_thread_type (parse (st p))) tc1 (mgr_threads mgr)\<rparr>)"
        using step_mgr_assign [OF _ Some 1(2)] assms by (simp add: s)
      then have "step_mgr s (open_ref p st1, mgr\<lparr>mgr_threads :=
          smap_assign (cp_thread_type (parse (st p))) tc1 (mgr_threads mgr)\<rparr>)"
        by (simp add: step_mgr_def)
      then show ?thesis using False Some 1(1) by (simp add: create_one_def s Let_def)
    qed
  qed
qed

lemma foldM_create_total:
  "mgr_ok (snd s) \<Longrightarrow> \<exists>s'. foldM (create_one parse) ps s = Some s' \<and> step_mgr s s'"
proof (induction ps arbitrary: s)
  case (Cons p ps)
  obtain s1 where 1: "create_one parse p s = Some s1" "step_mgr s s1"
    using create_one_total [OF Cons.prems] by blast
  then obtain s2 where "foldM (create_one parse) ps s1 = Some s2" "step_mgr s1 s2"
    using Cons.IH [of s1] by (auto simp: step_mgr_def)
  then show ?case using 1 step_mgr_trans [OF 1(2)] by auto
qed (simp add: step_mgr_refl)

lemma step_mgr_balanced: "step_mgr (st, mgr) (st', mgr') \<Longrightarrow> balanced st mgr \<Longrightarrow> balanced st' mgr'"
  unfolding step_mgr_def balanced_def fst_conv snd_conv by (smt (verit))

subsection \<open>Properties\<close>

text \<open>
  C4. One frame of packet dispatch returns, and keeps the books: if every packet had as many references as
  places in the queues of the threads before, so it has after; the count of every dispatched packet is
  open, and the inbox is empty. No thread map is empty; the reader side of the inbox was.
\<close>

theorem dispatch_keeps_balance:
  assumes "mgr_ok mgr" "balanced st mgr" "CS_GetReaderCache (mgr_packets mgr) = []"
  shows "\<exists>st' mgr'. UpdateDispatchPacket (st, mgr) = Some (st', mgr') \<and> balanced st' mgr' \<and> mgr_ok mgr'
    \<and> (\<forall>p \<in> set (CS_GetWriterCache (mgr_packets mgr)). p_isRefOpen (st' p))
    \<and> CS_GetReaderCache (mgr_packets mgr') = [] \<and> CS_GetWriterCache (mgr_packets mgr') = []"
proof -
  let ?w = "CS_GetWriterCache (mgr_packets mgr)"
  let ?mgr = "if CS_CanSwap (mgr_packets mgr) then mgr\<lparr>mgr_packets := CS_Swap (mgr_packets mgr)\<rparr> else mgr"
  have ok: "mgr_ok ?mgr" and bal: "balanced st ?mgr" using assms by (simp_all add: mgr_ok_def balanced_def occ_def)
  have q: "CS_GetReaderCache (mgr_packets ?mgr) = ?w" "CS_GetWriterCache (mgr_packets ?mgr) = []"
    using assms(3) by (auto simp: CS_CanSwap_def)
  obtain st1 mgr1 where 1: "foldM dispatch_one ?w (st, ?mgr) = Some (st1, mgr1)"
    "step_mgr (st, ?mgr) (st1, mgr1)" "\<forall>p \<in> set ?w. p_isRefOpen (st1 p)"
    using foldM_dispatch_total [of "(st, ?mgr)" ?w] ok by auto
  have "UpdateDispatchPacket (st, mgr) = Some (st1, mgr1\<lparr>mgr_packets := CS_clear_reader (mgr_packets mgr1)\<rparr>)"
    using 1(1) q(1) unfolding UpdateDispatchPacket_def Let_def by simp
  moreover have "mgr_packets mgr1 = mgr_packets ?mgr" using 1(2) by (simp add: step_mgr_def)
  moreover have "balanced st1 mgr1" using step_mgr_balanced [OF 1(2) bal] .
  ultimately show ?thesis using 1(2,3) q(2) by (simp add: balanced_def occ_def step_mgr_def mgr_ok_def)
qed

theorem dispatch_keeps_balance_witness:
  "\<exists>st' mgr'. UpdateDispatchPacket (\<lambda>_. Packet, DispatchPacket 4
      \<lparr>mgr_threads = [(8, ThreadCollector LogicThread [10, 11])], mgr_createPackets = CacheSwap_empty,
       mgr_packets = CacheSwap_empty, mgr_main = MessageSystem_empty\<rparr>)
      = Some (st', mgr' :: string thread_mgr) \<and> balanced st' mgr' \<and> p_isRefOpen (st' 4)"
proof -
  let ?mgr = "DispatchPacket 4
      \<lparr>mgr_threads = [(8, ThreadCollector LogicThread [10, 11])], mgr_createPackets = CacheSwap_empty,
       mgr_packets = CacheSwap_empty, mgr_main = MessageSystem_empty\<rparr> :: string thread_mgr"
  have ok: "mgr_ok ?mgr" "CS_GetReaderCache (mgr_packets ?mgr) = []" "CS_GetWriterCache (mgr_packets ?mgr) = [4]"
    by (simp_all add: mgr_ok_def tc_ok_def DispatchPacket_def ThreadCollector_def smap_emplace_def)
  have "balanced (\<lambda>_. Packet) ?mgr"
    by (simp add: balanced_def occ_def occ_tc_def occ_ms_def DispatchPacket_def ThreadCollector_def smap_emplace_def
        MessageSystem_empty_def Packet_def)
  from dispatch_keeps_balance [OF ok(1) this ok(2)] ok(3) show ?thesis by auto
qed

text \<open>
  C10. Packets that go to one thread of an exclusive collector are dealt out in turn: the thread with index
  \<open>t\<close> receives its \<open>share\<close>, and as many packets as there are threads give every thread exactly one.
\<close>

theorem exclusive_round_robin:
  assumes "smap_ok (tc_threads tc)" "turn_index tc i"
  shows "\<exists>st' tc'. foldM one_in_turn ps (st, tc) = Some (st', tc')
    \<and> (\<forall>t < length (tc_threads tc).
         thread_queue tc' (fst (tc_threads tc ! t))
           = thread_queue tc (fst (tc_threads tc ! t)) @ share (length (tc_threads tc)) i t ps
         \<and> (length ps = length (tc_threads tc) \<longrightarrow> length (share (length (tc_threads tc)) i t ps) = 1))"
proof -
  have "i < length (tc_threads tc)" using assms(2) by (simp add: turn_index_def)
  then show ?thesis using round_robin_shares [OF assms, of ps st] share_once [of ps] by blast
qed

theorem exclusive_round_robin_witness:
  "\<exists>st' tc'. foldM one_in_turn [5, 6] (\<lambda>_. Packet, ThreadCollector MysqlThread [10, 11] :: string thread_collector)
      = Some (st', tc') \<and> thread_queue tc' 10 = [5] \<and> thread_queue tc' 11 = [6]"
proof -
  let ?tc = "ThreadCollector MysqlThread [10, 11] :: string thread_collector"
  have t: "tc_threads ?tc = [(10, MessageSystem_empty), (11, MessageSystem_empty)]"
    by (simp add: ThreadCollector_def smap_emplace_def)
  have i: "turn_index ?tc 0" by (simp add: turn_index_def turn_of_def t) (simp add: ThreadCollector_def)
  have "smap_ok (tc_threads ?tc)" by (simp add: t)
  from exclusive_round_robin [OF this i, of "[5, 6]" "\<lambda>_. Packet"] obtain st' tc' where
    r: "foldM one_in_turn [5, 6] (\<lambda>_. Packet, ?tc) = Some (st', tc')"
    "\<forall>t < length (tc_threads ?tc). thread_queue tc' (fst (tc_threads ?tc ! t))
           = thread_queue ?tc (fst (tc_threads ?tc ! t)) @ share (length (tc_threads ?tc)) 0 t [5, 6]" by blast
  have q: "thread_queue ?tc k = []" for k by (simp add: thread_queue_def t MessageSystem_empty_def)
  have l: "length (tc_threads ?tc) = 2" by (simp add: t)
  have "thread_queue tc' 10 = [5]" using r(2) [unfolded l, rule_format, of 0] by (simp add: t q)
  moreover have "thread_queue tc' 11 = [6]" using r(2) [unfolded l, rule_format, of 1] by (simp add: t q)
  ultimately show ?thesis using r(1) by blast
qed

text \<open>
  A request to create a component on a thread type that does not exist is skipped before its count is
  opened: the packet leaves the queue, nobody refers to it, and it can never go back to the pool.
\<close>

theorem create_unknown_thread_leaks:
  assumes "mgr_threads mgr \<noteq> []" "map_of (mgr_threads mgr) (cp_thread_type (parse (st p))) = None"
    and "CS_GetReaderCache (mgr_createPackets mgr) = []" "CS_GetWriterCache (mgr_createPackets mgr) = [p]"
    and "\<not> p_isRefOpen (st p)"
  shows "\<exists>mgr'. UpdateCreatePacket parse (st, mgr) = Some (st, mgr') \<and> \<not> CanBack2Pool (st p)
    \<and> mgr_threads mgr' = mgr_threads mgr \<and> mgr_main mgr' = mgr_main mgr
    \<and> CS_GetReaderCache (mgr_createPackets mgr') = [] \<and> CS_GetWriterCache (mgr_createPackets mgr') = []"
proof -
  let ?mgr = "mgr\<lparr>mgr_createPackets := CS_Swap (mgr_createPackets mgr)\<rparr>"
  have "CS_CanSwap (mgr_createPackets mgr)" using assms(4) by (simp add: CS_CanSwap_def)
  moreover have "create_one parse p (st, ?mgr) = Some (st, ?mgr)" using assms(1,2) by (simp add: create_one_def)
  ultimately show ?thesis using assms(3-5) by (simp add: UpdateCreatePacket_def CanBack2Pool_def)
qed

theorem create_unknown_thread_leaks_witness:
  "\<exists>mgr'. UpdateCreatePacket (\<lambda>_. \<lparr>cp_thread_type = 16, cp_is_to_all_thread = False\<rparr>) (\<lambda>_. Packet,
      \<lparr>mgr_threads = [(8, ThreadCollector LogicThread [10])], mgr_createPackets = CS_write 4 CacheSwap_empty,
       mgr_packets = CacheSwap_empty, mgr_main = MessageSystem_empty\<rparr> :: string thread_mgr)
      = Some (\<lambda>_. Packet, mgr') \<and> \<not> CanBack2Pool Packet"
  using create_unknown_thread_leaks [where st = "\<lambda>_. Packet" and p = 4 and
      parse = "\<lambda>_. \<lparr>cp_thread_type = 16, cp_is_to_all_thread = False\<rparr>" and
      mgr = "\<lparr>mgr_threads = [(8, ThreadCollector LogicThread [10])], mgr_createPackets = CS_write 4 CacheSwap_empty,
       mgr_packets = CacheSwap_empty, mgr_main = MessageSystem_empty\<rparr> :: string thread_mgr"]
  by (auto simp: Packet_def)

end
