(* ===== verification/PacketLife.thy ===== *)
theory PacketLife
  imports ThreadDispatch
begin

text \<open>
  The life of a packet shared by threads, step by step. The main thread takes packets from its inbox, adds
  each to the queues of the threads one by one and then opens its reference count; every thread swaps its
  queue, handles a packet and drops its reference; and the pool takes back a packet whose count is open
  and zero. The threads interleave at the grain of these steps, each of which is atomic in the program (a
  lock or an atomic counter). The operations are those of the previous theories: \<open>AddRef\<close>, \<open>RemoveRef\<close>,
  \<open>OpenRef\<close>, \<open>CanBack2Pool\<close>, and the writer and reader lists of \<open>CacheSwap\<close>. Packets that create objects (\<open>UpdateCreatePacket\<close>), the send lists of the networks and the
  pings that a network answers itself are not part of this system.
\<close>

record life =
  lf_store :: packet_store
  lf_alive :: "nat set"
  lf_inbox :: "nat list"
  lf_job :: "(nat \<times> nat list) option"
  lf_queue :: "nat \<Rightarrow> nat cache_swap"

definition CS_pop_reader :: "'a cache_swap \<Rightarrow> 'a cache_swap" where
  "CS_pop_reader c = (if cs_reader2 c then c\<lparr>cs_caches2 := tl (cs_caches2 c)\<rparr>
                      else c\<lparr>cs_caches1 := tl (cs_caches1 c)\<rparr>)"

lemma CS_pop_reader_simps [simp]:
  "CS_GetReaderCache (CS_pop_reader c) = tl (CS_GetReaderCache c)"
  "CS_GetWriterCache (CS_pop_reader c) = CS_GetWriterCache c"
  by (simp_all add: CS_pop_reader_def CS_GetReaderCache_def CS_GetWriterCache_def)

definition update_packet :: "nat \<Rightarrow> (packet \<Rightarrow> packet) \<Rightarrow> life \<Rightarrow> life" where
  "update_packet p f s = s\<lparr>lf_store := (lf_store s)(p := f (lf_store s p))\<rparr>"

definition update_queue :: "nat \<Rightarrow> (nat cache_swap \<Rightarrow> nat cache_swap) \<Rightarrow> life \<Rightarrow> life" where
  "update_queue t f s = s\<lparr>lf_queue := (lf_queue s)(t := f (lf_queue s t))\<rparr>"

inductive life_step :: "nat \<Rightarrow> life \<Rightarrow> life \<Rightarrow> bool" for n where
  produce: "p \<notin> lf_alive s \<Longrightarrow>
    life_step n s ((update_packet p (Packet_Awake m i) s)\<lparr>lf_alive := insert p (lf_alive s), lf_inbox := lf_inbox s @ [p]\<rparr>)"
| take_job: "lf_job s = None \<Longrightarrow> lf_inbox s = p # ps \<Longrightarrow> set ts \<subseteq> {..<n} \<Longrightarrow>
    life_step n s (s\<lparr>lf_inbox := ps, lf_job := Some (p, ts)\<rparr>)"
| deliver: "lf_job s = Some (p, t # ts) \<Longrightarrow>
    life_step n s ((update_queue t (CS_write p) (update_packet p Packet_AddRef s))\<lparr>lf_job := Some (p, ts)\<rparr>)"
| open_count: "lf_job s = Some (p, []) \<Longrightarrow>
    life_step n s ((update_packet p Packet_OpenRef s)\<lparr>lf_job := None\<rparr>)"
| swap: "t < n \<Longrightarrow> CS_GetReaderCache (lf_queue s t) = [] \<Longrightarrow> CS_CanSwap (lf_queue s t) \<Longrightarrow>
    life_step n s (update_queue t CS_Swap s)"
| handle: "t < n \<Longrightarrow> CS_GetReaderCache (lf_queue s t) = p # ps \<Longrightarrow>
    life_step n s (update_queue t CS_pop_reader (update_packet p Packet_RemoveRef s))"
| recycle: "p \<in> lf_alive s \<Longrightarrow> CanBack2Pool (lf_store s p) \<Longrightarrow>
    life_step n s ((update_packet p Packet_BackToPool s)\<lparr>lf_alive := lf_alive s - {p}\<rparr>)"

definition life_init :: life where
  "life_init = \<lparr>lf_store = \<lambda>_. Packet, lf_alive = {}, lf_inbox = [], lf_job = None, lf_queue = \<lambda>_. CacheSwap_empty\<rparr>"

inductive life_reach :: "nat \<Rightarrow> life \<Rightarrow> bool" for n where
  life_start: "life_reach n life_init"
| life_next: "life_reach n s \<Longrightarrow> life_step n s s' \<Longrightarrow> life_reach n s'"

definition places :: "nat \<Rightarrow> life \<Rightarrow> nat \<Rightarrow> nat" where
  "places n s p = (\<Sum>t < n. count_list (CS_GetWriterCache (lf_queue s t)) p
     + count_list (CS_GetReaderCache (lf_queue s t)) p)"

definition waiting :: "life \<Rightarrow> nat list" where
  "waiting s = (case lf_job s of None \<Rightarrow> [] | Some (p, _) \<Rightarrow> [p]) @ lf_inbox s"

definition life_ok :: "nat \<Rightarrow> life \<Rightarrow> bool" where
  "life_ok n s = ((\<forall>p \<in> lf_alive s. p_ref (lf_store s p) = int (places n s p))
     \<and> (\<forall>p. p \<notin> lf_alive s \<longrightarrow> places n s p = 0)
     \<and> (\<forall>p \<in> lf_alive s. p_isRefOpen (lf_store s p) = (p \<notin> set (waiting s)))
     \<and> set (waiting s) \<subseteq> lf_alive s \<and> distinct (waiting s)
     \<and> (case lf_job s of None \<Rightarrow> True | Some (p, ts) \<Rightarrow> set ts \<subseteq> {..<n}))"

lemma places_packet [simp]: "places n (update_packet q f s) p = places n s p"
  by (simp add: places_def update_packet_def)

lemma places_fields [simp]:
  "places n (s\<lparr>lf_alive := a\<rparr>) p = places n s p" "places n (s\<lparr>lf_inbox := b\<rparr>) p = places n s p"
  "places n (s\<lparr>lf_job := j\<rparr>) p = places n s p" "places n (s\<lparr>lf_store := st\<rparr>) p = places n s p"
  by (simp_all add: places_def)

lemma update_queue_fields:
  "lf_store (update_queue t f s) = lf_store s" "lf_alive (update_queue t f s) = lf_alive s"
  "lf_job (update_queue t f s) = lf_job s" "waiting (update_queue t f s) = waiting s"
  by (simp_all add: update_queue_def waiting_def)

lemma sum_one: "t < (n :: nat) \<Longrightarrow> (\<Sum>u < n. if u = t then f u + k else f u) = (\<Sum>u < n. f u) + (k :: nat)"
proof -
  assume t: "t < n"
  have eq: "(\<lambda>u. if u = t then f u + k else f u) = (\<lambda>u. f u + (if u = t then k else 0))" by auto
  show ?thesis unfolding eq using t by (simp add: sum.distrib)
qed

lemma places_write:
  assumes "t < n"
  shows "places n (update_queue t (CS_write q) s) p = places n s p + (if p = q then 1 else 0)"
proof -
  let ?f = "\<lambda>u. count_list (CS_GetWriterCache (lf_queue s u)) p + count_list (CS_GetReaderCache (lf_queue s u)) p"
  have "places n (update_queue t (CS_write q) s) p
      = (\<Sum>u < n. if u = t then ?f u + (if p = q then 1 else 0) else ?f u)"
    unfolding places_def update_queue_def by (intro sum.cong) auto
  then show ?thesis using sum_one [OF assms, of ?f] by (simp add: places_def)
qed

lemma places_swap: "places n (update_queue t CS_Swap s) p = places n s p"
  unfolding places_def update_queue_def by (intro sum.cong) auto

lemma places_pop:
  assumes "t < n" "CS_GetReaderCache (lf_queue s t) = q # ps"
  shows "places n s p = places n (update_queue t CS_pop_reader s) p + (if p = q then 1 else 0)"
proof -
  let ?s = "update_queue t CS_pop_reader s"
  let ?f = "\<lambda>u. count_list (CS_GetWriterCache (lf_queue ?s u)) p + count_list (CS_GetReaderCache (lf_queue ?s u)) p"
  have "places n s p = (\<Sum>u < n. if u = t then ?f u + (if p = q then 1 else 0) else ?f u)"
    unfolding places_def update_queue_def using assms(2) by (intro sum.cong) auto
  then show ?thesis using sum_one [OF assms(1), of ?f] by (simp add: places_def)
qed

lemma places_pos:
  assumes "t < n" "p \<in> set (CS_GetReaderCache (lf_queue s t)) \<union> set (CS_GetWriterCache (lf_queue s t))"
  shows "0 < places n s p"
proof -
  have "0 < count_list (CS_GetWriterCache (lf_queue s t)) p + count_list (CS_GetReaderCache (lf_queue s t)) p"
    using assms(2) by (metis Un_iff add_is_0 count_list_0_iff not_gr_zero)
  also have "\<dots> \<le> places n s p" unfolding places_def
    by (rule member_le_sum [of t "{..<n}"]) (use assms(1) in auto)
  finally show ?thesis .
qed

lemma life_ok_init: "life_ok n life_init"
  by (simp add: life_ok_def life_init_def places_def waiting_def)

lemma life_ok_step:
  assumes "life_step n s s'" "life_ok n s"
  shows "life_ok n s'"
  using assms
proof (cases rule: life_step.cases)
  case (produce p m i)
  then show ?thesis using assms(2)
    by (auto simp: life_ok_def waiting_def update_packet_def split: option.splits)
next
  case (take_job p ps ts)
  then show ?thesis using assms(2) by (auto simp: life_ok_def waiting_def)
next
  case (deliver p t ts)
  then have t: "t < n" "p \<in> lf_alive s" using assms(2) by (auto simp: life_ok_def waiting_def)
  show ?thesis using assms(2) deliver t
    by (auto simp: life_ok_def places_write waiting_def)
      (auto simp: update_packet_def update_queue_def Packet_AddRef_def split: if_splits)
next
  case (open_count p)
  then show ?thesis using assms(2)
    by (auto simp: life_ok_def waiting_def update_packet_def Packet_OpenRef_def)
next
  case (swap t)
  then show ?thesis using assms(2)
    by (simp add: life_ok_def places_swap update_queue_fields)
next
  case (handle t p ps)
  have pl: "places n s q = places n (update_queue t CS_pop_reader (update_packet p Packet_RemoveRef s)) q
      + (if q = p then 1 else 0)" for q
    using places_pop [of t n "update_packet p Packet_RemoveRef s" p ps q] handle by (simp add: update_packet_def)
  have "0 < places n s p" using places_pos [of t n p s] handle by simp
  then have al: "p \<in> lf_alive s" using assms(2) by (auto simp: life_ok_def)
  show ?thesis unfolding handle(1) life_ok_def
  proof (intro conjI ballI allI impI)
    fix q assume "q \<in> lf_alive (update_queue t CS_pop_reader (update_packet p Packet_RemoveRef s))"
    then have "q \<in> lf_alive s" by (simp add: update_queue_def update_packet_def)
    then have "p_ref (lf_store s q) = int (places n s q)" using assms(2) by (simp add: life_ok_def)
    then show "p_ref (lf_store (update_queue t CS_pop_reader (update_packet p Packet_RemoveRef s)) q)
        = int (places n (update_queue t CS_pop_reader (update_packet p Packet_RemoveRef s)) q)"
      using pl [of q] by (auto simp: update_queue_def update_packet_def Packet_RemoveRef_def)
  next
    fix q assume "q \<notin> lf_alive (update_queue t CS_pop_reader (update_packet p Packet_RemoveRef s))"
    then have "places n s q = 0" using assms(2) by (simp add: life_ok_def update_queue_def update_packet_def)
    then show "places n (update_queue t CS_pop_reader (update_packet p Packet_RemoveRef s)) q = 0"
      using pl [of q] by simp
  qed (use assms(2) in \<open>auto simp: life_ok_def waiting_def update_queue_def update_packet_def Packet_RemoveRef_def\<close>)
next
  case (recycle p)
  then have "places n s p = 0" "p \<notin> set (waiting s)"
    using assms(2) by (auto simp: life_ok_def CanBack2Pool_def split: if_splits)
  then show ?thesis using recycle assms(2)
    by (auto simp: life_ok_def waiting_def update_packet_def)
qed

lemma life_reach_ok: "life_reach n s \<Longrightarrow> life_ok n s"
  by (induction rule: life_reach.induct) (auto intro: life_ok_init life_ok_step)

subsection \<open>Properties\<close>

text \<open>
  C2. However the threads interleave, a packet that waits to be dispatched or lies in the queue of a thread
  has not gone back to the pool: no thread ever handles a packet that has been recycled.
\<close>

theorem no_use_after_recycle:
  assumes "life_reach n s"
    and "p \<in> set (waiting s) \<or> (t < n \<and> p \<in> set (CS_GetReaderCache (lf_queue s t)) \<union> set (CS_GetWriterCache (lf_queue s t)))"
  shows "p \<in> lf_alive s"
proof -
  have ok: "life_ok n s" using life_reach_ok [OF assms(1)] .
  from assms(2) show ?thesis
  proof
    assume "t < n \<and> p \<in> set (CS_GetReaderCache (lf_queue s t)) \<union> set (CS_GetWriterCache (lf_queue s t))"
    then have "0 < places n s p" using places_pos by blast
    then show ?thesis using ok by (auto simp: life_ok_def)
  qed (use ok in \<open>auto simp: life_ok_def\<close>)
qed

definition life_one :: life where
  "life_one = (update_packet 7 (Packet_Awake MI_Ping None) life_init)\<lparr>lf_alive := insert 7 (lf_alive life_init),
     lf_inbox := lf_inbox life_init @ [7]\<rparr>"

lemma life_one_reach: "life_reach n life_one"
  unfolding life_one_def by (rule life_next [OF life_start]) (rule produce, simp add: life_init_def)

theorem no_use_after_recycle_witness: "7 \<in> lf_alive life_one"
  using no_use_after_recycle [OF life_one_reach [of 2], of 7 0] by (simp add: waiting_def life_one_def life_init_def update_packet_def)

end
