(* ===== verification/Config.thy ===== *)
theory Config
  imports NetTypes
begin

text \<open>
  The configuration of the server (\<open>yaml.cpp\<close>, \<open>yaml.h\<close>). The YAML library is a parameter: a record of the
  functions the loader calls on a node, in which \<open>None\<close> is the exception of a conversion that fails. The class
  hierarchy of the configurations is a datatype, and each \<open>dynamic_cast\<close> a partial selector.
\<close>

record 'n yaml_api =
  yn_get :: "'n \<Rightarrow> string \<Rightarrow> 'n"
  yn_defined :: "'n \<Rightarrow> bool"
  yn_string :: "'n \<Rightarrow> string option"
  yn_int :: "'n \<Rightarrow> int option"
  yn_bool :: "'n \<Rightarrow> bool option"
  yn_items :: "'n \<Rightarrow> 'n list"
  yn_pairs :: "'n \<Rightarrow> ('n \<times> 'n) list"

datatype npc_type = NpcPublic | NpcDungeon

fun GetNpcType :: "npc_type \<Rightarrow> string" where
  "GetNpcType NpcPublic = ''public''"
| "GetNpcType NpcDungeon = ''dungeon''"

record app_config =
  LogicThreadNum :: int
  MysqlThreadNum :: int
  ListenThreadNum :: int
  ConnectThreadNum :: int

record common_config = app_config +
  IntraIp :: string
  ExtraIp :: string
  Port :: int
  HttpPort :: int

record one_config = common_config +
  Id :: int

record db_config =
  DBType :: string
  Db_Ip :: string
  Db_Port :: int
  User :: string
  Password :: string
  DatabaseName :: string
  CharacterSet :: string
  Collation :: string

record bt_config =
  bt_nodes :: "string list"
  rebirth :: bool

datatype yaml_config =
  CommonConfig common_config
| SpaceConfig app_config "one_config list"
| GameConfig app_config "one_config list"
| LoginConfig app_config "one_config list" string string
| DBMgrConfig common_config "db_config list"
| RobotConfig app_config

definition AppConfig_default :: app_config where
  "AppConfig_default = \<lparr>LogicThreadNum = 0, MysqlThreadNum = 0, ListenThreadNum = 1, ConnectThreadNum = 1\<rparr>"

definition CommonConfig_default :: common_config where
  "CommonConfig_default =
     \<lparr>LogicThreadNum = 0, MysqlThreadNum = 0, ListenThreadNum = 1, ConnectThreadNum = 1,
      IntraIp = ''127.0.0.1'', ExtraIp = ''127.0.0.1'', Port = 6661, HttpPort = 5051\<rparr>"

definition AppListForOneConfig_default :: one_config where
  "AppListForOneConfig_default = common_config.extend CommonConfig_default \<lparr>Id = 0\<rparr>"

definition DBConfig_default :: db_config where
  "DBConfig_default =
     \<lparr>DBType = [], Db_Ip = ''127.0.0.1'', Db_Port = 3306, User = [], Password = [], DatabaseName = [],
      CharacterSet = [], Collation = []\<rparr>"

subsection \<open>Looking configurations up\<close>

fun AppList_GetOne :: "int \<Rightarrow> one_config list \<Rightarrow> one_config option" where
  "AppList_GetOne i [] = None"
| "AppList_GetOne i (one # apps) = (if Id one = i then Some one else AppList_GetOne i apps)"

fun GetDBConfig :: "string \<Rightarrow> db_config list \<Rightarrow> db_config option" where
  "GetDBConfig dbType [] = None"
| "GetDBConfig dbType (one # DBs) = (if DBType one \<noteq> dbType then GetDBConfig dbType DBs else Some one)"

fun BtComposite_GetOne :: "string \<Rightarrow> string list \<Rightarrow> string option" where
  "BtComposite_GetOne t [] = None"
| "BtComposite_GetOne t (node # nodes) = (if node = t then Some node else BtComposite_GetOne t nodes)"

fun as_app_list :: "yaml_config \<Rightarrow> one_config list option" where
  "as_app_list (SpaceConfig a apps) = Some apps"
| "as_app_list (GameConfig a apps) = Some apps"
| "as_app_list (LoginConfig a apps u m) = Some apps"
| "as_app_list _ = None"

fun as_common :: "yaml_config \<Rightarrow> common_config option" where
  "as_common (CommonConfig c) = Some c"
| "as_common (DBMgrConfig c dbs) = Some c"
| "as_common _ = None"

record yaml =
  ym_appConfigs :: "(int, yaml_config) smap"
  ym_npcConfigs :: "(nat, bt_config) smap"

fun npc_number :: "npc_type \<Rightarrow> nat" where
  "npc_number NpcPublic = 0"
| "npc_number NpcDungeon = 1"

definition Yaml_BackToPool :: "yaml \<Rightarrow> yaml" where
  "Yaml_BackToPool y = y\<lparr>ym_appConfigs := []\<rparr>"

definition GetConfig :: "int \<Rightarrow> yaml \<Rightarrow> yaml_config option" where
  "GetConfig appType y = map_of (ym_appConfigs y) appType"

definition GetNpcConfig :: "npc_type \<Rightarrow> yaml \<Rightarrow> bt_config option" where
  "GetNpcConfig npcType y = map_of (ym_npcConfigs y) (npc_number npcType)"

definition GetIPEndPoint :: "int \<Rightarrow> int \<Rightarrow> yaml \<Rightarrow> common_config option" where
  "GetIPEndPoint appType appId y =
     (case GetConfig appType y of
        None \<Rightarrow> None
      | Some pConfig \<Rightarrow>
          (case as_app_list pConfig of
             Some apps \<Rightarrow>
               (case AppList_GetOne appId apps of
                  None \<Rightarrow> None
                | Some pOneCfg \<Rightarrow> Some (common_config.truncate pOneCfg))
           | None \<Rightarrow> as_common pConfig))"

subsection \<open>Loading\<close>

fun mapM :: "('x \<Rightarrow> 'y option) \<Rightarrow> 'x list \<Rightarrow> 'y list option" where
  "mapM f [] = Some []"
| "mapM f (x # xs) = do { y \<leftarrow> f x; ys \<leftarrow> mapM f xs; Some (y # ys) }"

definition LoadApp :: "'n yaml_api \<Rightarrow> 'n \<Rightarrow> one_config option" where
  "LoadApp api node = do {
     i \<leftarrow> yn_int api (yn_get api node ''id'');
     intra \<leftarrow> yn_string api (yn_get api node ''intraIp'');
     extra \<leftarrow> yn_string api (yn_get api node ''extraIp'');
     port \<leftarrow> yn_int api (yn_get api node ''port'');
     Some (AppListForOneConfig_default\<lparr>Id := i, IntraIp := intra, ExtraIp := extra, Port := port\<rparr>)
   }"

definition LoadAppList :: "'n yaml_api \<Rightarrow> 'n \<Rightarrow> one_config list option" where
  "LoadAppList api node = mapM (LoadApp api) (yn_items api (yn_get api node ''apps''))"

definition tolower :: "char \<Rightarrow> char" where
  "tolower c = (if CHR ''A'' \<le> c \<and> c \<le> CHR ''Z'' then char_of (of_char c + 32 :: nat) else c)"

definition LoadDbField :: "'n yaml_api \<Rightarrow> string \<Rightarrow> 'n \<Rightarrow> db_config \<Rightarrow> db_config option" where
  "LoadDbField api key node one =
     (if key = ''type'' then map_option (\<lambda>s. one\<lparr>DBType := map tolower s\<rparr>) (yn_string api node)
      else if key = ''ip'' then map_option (\<lambda>s. one\<lparr>Db_Ip := s\<rparr>) (yn_string api node)
      else if key = ''port'' then map_option (\<lambda>n. one\<lparr>Db_Port := n\<rparr>) (yn_int api node)
      else if key = ''user'' then map_option (\<lambda>s. one\<lparr>User := s\<rparr>) (yn_string api node)
      else if key = ''password'' then map_option (\<lambda>s. one\<lparr>Password := s\<rparr>) (yn_string api node)
      else if key = ''character_set'' then map_option (\<lambda>s. one\<lparr>CharacterSet := s\<rparr>) (yn_string api node)
      else if key = ''collation'' then map_option (\<lambda>s. one\<lparr>Collation := s\<rparr>) (yn_string api node)
      else if key = ''database_name'' then map_option (\<lambda>s. one\<lparr>DatabaseName := s\<rparr>) (yn_string api node)
      else Some one)"

fun LoadDbFields :: "'n yaml_api \<Rightarrow> ('n \<times> 'n) list \<Rightarrow> db_config \<Rightarrow> db_config option" where
  "LoadDbFields api [] one = Some one"
| "LoadDbFields api ((k, v) # ps) one = do {
     key \<leftarrow> yn_string api k;
     one \<leftarrow> LoadDbField api key v one;
     LoadDbFields api ps one
   }"

definition LoadDbConfig :: "'n yaml_api \<Rightarrow> 'n \<Rightarrow> db_config option" where
  "LoadDbConfig api node = LoadDbFields api (yn_pairs api node) DBConfig_default"

definition optional_int :: "'n yaml_api \<Rightarrow> 'n \<Rightarrow> string \<Rightarrow> int \<Rightarrow> int option" where
  "optional_int api node key dflt =
     (if yn_defined api (yn_get api node key) then yn_int api (yn_get api node key) else Some dflt)"

definition load_common :: "'n yaml_api \<Rightarrow> 'n \<Rightarrow> common_config \<Rightarrow> common_config option" where
  "load_common api node c = do {
     intra \<leftarrow> yn_string api (yn_get api node ''intraIp'');
     extra \<leftarrow> yn_string api (yn_get api node ''extraIp'');
     port \<leftarrow> yn_int api (yn_get api node ''port'');
     http \<leftarrow> optional_int api node ''http_port'' (HttpPort c);
     Some (c\<lparr>IntraIp := intra, ExtraIp := extra, Port := port, HttpPort := http\<rparr>)
   }"

definition load_threads :: "'n yaml_api \<Rightarrow> 'n \<Rightarrow> 'a app_config_scheme \<Rightarrow> 'a app_config_scheme option" where
  "load_threads api node a = do {
     logic \<leftarrow> optional_int api node ''thread_logic'' 0;
     mysql \<leftarrow> optional_int api node ''thread_mysql'' 0;
     listen \<leftarrow> optional_int api node ''thread_listen'' 0;
     conn \<leftarrow> optional_int api node ''thread_connector'' 0;
     Some (a\<lparr>LogicThreadNum := logic, MysqlThreadNum := mysql, ListenThreadNum := listen, ConnectThreadNum := conn\<rparr>)
   }"

definition LoadConfig :: "'n yaml_api \<Rightarrow> int \<Rightarrow> 'n \<Rightarrow> yaml \<Rightarrow> yaml option" where
  "LoadConfig api appType config y =
     (let node = yn_get api config (GetAppName appType) in do {
        pYamlConfig \<leftarrow>
          (if appType = APP_SPACE
           then (do { apps \<leftarrow> LoadAppList api node; a \<leftarrow> load_threads api node AppConfig_default; Some (SpaceConfig a apps) })
           else if appType = APP_GAME
           then (do { apps \<leftarrow> LoadAppList api node; a \<leftarrow> load_threads api node AppConfig_default; Some (GameConfig a apps) })
           else if appType = APP_LOGIN
           then (do {
             url \<leftarrow> yn_string api (yn_get api node ''url_login'');
             meth \<leftarrow> yn_string api (yn_get api node ''url_method'');
             apps \<leftarrow> LoadAppList api node;
             a \<leftarrow> load_threads api node AppConfig_default;
             Some (LoginConfig a apps url meth)
           })
           else if appType = APP_DB_MGR
           then (do {
             dbs \<leftarrow> mapM (LoadDbConfig api) (yn_items api (yn_get api node ''dbs''));
             c \<leftarrow> load_common api node CommonConfig_default;
             c \<leftarrow> load_threads api node c;
             Some (DBMgrConfig c dbs)
           })
           else if appType = APP_ROBOT
           then (do { a \<leftarrow> load_threads api node AppConfig_default; Some (RobotConfig a) })
           else (do {
             c \<leftarrow> load_common api node CommonConfig_default;
             c \<leftarrow> load_threads api node c;
             Some (CommonConfig c)
           }));
        Some (y\<lparr>ym_appConfigs := smap_emplace appType pYamlConfig (ym_appConfigs y)\<rparr>)
      })"

definition LoadNpcConfig :: "'n yaml_api \<Rightarrow> npc_type \<Rightarrow> 'n \<Rightarrow> yaml \<Rightarrow> yaml option" where
  "LoadNpcConfig api npcType config y =
     (let node = yn_get api config (GetNpcType npcType); selector = yn_get api node ''selector'' in do {
        r \<leftarrow> yn_bool api (yn_get api node ''rebirth'');
        nodes \<leftarrow> mapM (\<lambda>n. yn_string api (yn_get api n ''node'')) (yn_items api selector);
        Some (y\<lparr>ym_npcConfigs := smap_emplace (npc_number npcType) \<lparr>bt_nodes = nodes, rebirth = r\<rparr> (ym_npcConfigs y)\<rparr>)
      })"

text \<open>The files \<open>engine.yaml\<close> and \<open>bt_config.yaml\<close> are given by their root nodes.\<close>

fun LoadConfigs :: "'n yaml_api \<Rightarrow> int list \<Rightarrow> 'n \<Rightarrow> yaml \<Rightarrow> yaml option" where
  "LoadConfigs api [] config y = Some y"
| "LoadConfigs api (t # ts) config y = do { y \<leftarrow> LoadConfig api t config y; LoadConfigs api ts config y }"

definition Yaml_Awake :: "'n yaml_api \<Rightarrow> 'n \<Rightarrow> 'n \<Rightarrow> yaml \<Rightarrow> yaml option" where
  "Yaml_Awake api appConfig npcConfig y = do {
     y \<leftarrow> LoadConfigs api [APP_ALLINONE, APP_LOGIN, APP_GAME, APP_SPACE, APP_ROBOT, APP_DB_MGR, APP_APPMGR] appConfig y;
     y \<leftarrow> LoadNpcConfig api NpcPublic npcConfig y;
     LoadNpcConfig api NpcDungeon npcConfig y
   }"

subsection \<open>What is found is what was loaded\<close>

lemma AppList_GetOne_find: "AppList_GetOne i apps = List.find (\<lambda>one. Id one = i) apps"
  by (induction i apps rule: AppList_GetOne.induct) auto

lemma GetDBConfig_find: "GetDBConfig t dbs = List.find (\<lambda>one. DBType one = t) dbs"
  by (induction t dbs rule: GetDBConfig.induct) auto

lemma LoadConfig_keys:
  "LoadConfig api t config y = Some y' \<Longrightarrow>
     (\<exists>c. ym_appConfigs y' = smap_emplace t c (ym_appConfigs y)) \<and> ym_npcConfigs y' = ym_npcConfigs y"
  by (auto simp: LoadConfig_def Let_def split: if_splits bind_splits)

lemma LoadConfigs_other:
  "LoadConfigs api ts config y = Some y' \<Longrightarrow> t \<notin> set ts \<Longrightarrow> GetConfig t y' = GetConfig t y"
proof (induction api ts config y rule: LoadConfigs.induct)
  case (2 api u ts config y)
  obtain y1 where l: "LoadConfig api u config y = Some y1" "LoadConfigs api ts config y1 = Some y'"
    using 2(2) by (auto split: bind_splits)
  then show ?case using 2(1) [OF l] 2(3) LoadConfig_keys [OF l(1)]
    by (auto simp: GetConfig_def smap_simps split: if_splits)
qed simp

lemma LoadConfigs_append:
  "LoadConfigs api (ts @ us) config y = Option.bind (LoadConfigs api ts config y) (LoadConfigs api us config)"
proof (induction api ts config y rule: LoadConfigs.induct)
  case (2 api t ts config y)
  then show ?case by (cases "LoadConfig api t config y") simp_all
qed simp

lemma LoadNpc_apps: "LoadNpcConfig api t config y = Some y' \<Longrightarrow> ym_appConfigs y' = ym_appConfigs y"
  by (auto simp: LoadNpcConfig_def Let_def split: bind_splits)

lemma Yaml_Awake_loaded:
  assumes "Yaml_Awake api a n \<lparr>ym_appConfigs = [], ym_npcConfigs = []\<rparr> = Some y" "t \<in> {APP_LOGIN, APP_GAME, APP_SPACE, APP_ROBOT, APP_DB_MGR, APP_APPMGR, APP_ALLINONE}"
  obtains y0 y1 where "LoadConfig api t a y0 = Some y1" "GetConfig t y = GetConfig t y1" "GetConfig t y0 = None"
proof -
  define e where "e = \<lparr>ym_appConfigs = [], ym_npcConfigs = []\<rparr>"
  let ?ts = "[APP_ALLINONE, APP_LOGIN, APP_GAME, APP_SPACE, APP_ROBOT, APP_DB_MGR, APP_APPMGR]"
  obtain ya yb where l: "LoadConfigs api ?ts a e = Some ya" "LoadNpcConfig api NpcPublic n ya = Some yb"
      "LoadNpcConfig api NpcDungeon n yb = Some y"
    using assms(1) unfolding Yaml_Awake_def e_def [symmetric] by (auto simp del: LoadConfigs.simps split: bind_splits)
  have d: "distinct ?ts" by (simp add: app_type_defs)
  have "t \<in> set ?ts" using assms(2) by auto
  then obtain us vs where s: "?ts = us @ t # vs" using split_list by metis
  then have nin: "t \<notin> set us" "t \<notin> set vs" using d by auto
  obtain y0 y1 where y: "LoadConfigs api us a e = Some y0" "LoadConfig api t a y0 = Some y1" "LoadConfigs api vs a y1 = Some ya"
    using l(1) unfolding s by (auto simp: LoadConfigs_append split: bind_splits)
  have "GetConfig t y = GetConfig t ya" using LoadNpc_apps [OF l(2)] LoadNpc_apps [OF l(3)] by (simp add: GetConfig_def)
  moreover have "GetConfig t ya = GetConfig t y1" using LoadConfigs_other [OF y(3) nin(2)] .
  moreover have "GetConfig t y0 = None" using LoadConfigs_other [OF y(1) nin(1)] by (simp add: GetConfig_def e_def)
  ultimately show thesis using that y(2) by metis
qed

subsection \<open>Properties\<close>

definition yaml_empty :: yaml where
  "yaml_empty = \<lparr>ym_appConfigs = [], ym_npcConfigs = []\<rparr>"

text \<open>
  After the configuration has been loaded, the end point of a game, space or login application is read
  from the first entry of that type's list with the application's number, with the address and port that the
  file gives; a number that is not in the list has no end point, and robots have none at all.
\<close>

theorem endpoint_is_configured:
  assumes l: "Yaml_Awake api a n yaml_empty = Some y"
    and apps: "mapM (LoadApp api) (yn_items api (yn_get api (yn_get api a (GetAppName t)) ''apps'')) = Some apps"
    and t: "t \<in> {APP_SPACE, APP_GAME, APP_LOGIN}"
  shows "GetIPEndPoint t i y = map_option common_config.truncate (List.find (\<lambda>one. Id one = i) apps)
    \<and> GetIPEndPoint APP_ROBOT i y = None"
proof
  note loaded = Yaml_Awake_loaded [OF l [unfolded yaml_empty_def]]
  have "t \<in> {APP_LOGIN, APP_GAME, APP_SPACE, APP_ROBOT, APP_DB_MGR, APP_APPMGR, APP_ALLINONE}" using t by auto
  then obtain y0 y1 where y: "LoadConfig api t a y0 = Some y1" "GetConfig t y = GetConfig t y1" "GetConfig t y0 = None"
    by (rule loaded)
  obtain c where c: "GetConfig t y1 = Some c" "as_app_list c = Some apps"
    using y(1,3) t apps
    by (auto simp: LoadConfig_def LoadAppList_def Let_def GetConfig_def smap_simps app_type_defs split: if_splits bind_splits)
  then show "GetIPEndPoint t i y = map_option common_config.truncate (List.find (\<lambda>one. Id one = i) apps)"
    using y(2) by (simp add: GetIPEndPoint_def AppList_GetOne_find map_option_case)
  obtain z0 z1 where z: "LoadConfig api APP_ROBOT a z0 = Some z1" "GetConfig APP_ROBOT y = GetConfig APP_ROBOT z1"
      "GetConfig APP_ROBOT z0 = None"
    by (rule loaded [of APP_ROBOT]) simp
  then show "GetIPEndPoint APP_ROBOT i y = None"
    by (auto simp: LoadConfig_def Let_def GetConfig_def GetIPEndPoint_def smap_simps app_type_defs split: if_splits bind_splits)
qed

text \<open>A small model of YAML documents, for the concrete instance.\<close>

datatype ynode = YUndefined | YStr string | YInt int | YBool bool | YMap "(string \<times> ynode) list" | YSeq "ynode list"

definition ynode_api :: "ynode yaml_api" where
  "ynode_api =
     \<lparr>yn_get = (\<lambda>n k. case n of YMap m \<Rightarrow> (case map_of m k of None \<Rightarrow> YUndefined | Some v \<Rightarrow> v) | _ \<Rightarrow> YUndefined),
      yn_defined = (\<lambda>n. n \<noteq> YUndefined),
      yn_string = (\<lambda>n. case n of YStr s \<Rightarrow> Some s | _ \<Rightarrow> None),
      yn_int = (\<lambda>n. case n of YInt i \<Rightarrow> Some i | _ \<Rightarrow> None),
      yn_bool = (\<lambda>n. case n of YBool b \<Rightarrow> Some b | _ \<Rightarrow> None),
      yn_items = (\<lambda>n. case n of YSeq ns \<Rightarrow> ns | _ \<Rightarrow> []),
      yn_pairs = (\<lambda>n. case n of YMap m \<Rightarrow> map (\<lambda>(k, v). (YStr k, v)) m | _ \<Rightarrow> [])\<rparr>"

definition sample_endpoint :: ynode where
  "sample_endpoint = YMap [(''intraIp'', YStr ''10.0.0.1''), (''extraIp'', YStr ''1.2.3.4''), (''port'', YInt 7000),
     (''id'', YInt 1), (''url_login'', YStr ''u''), (''url_method'', YStr ''m'')]"

definition sample_game :: ynode where
  "sample_game = YMap [(''apps'', YSeq [sample_endpoint])]"

definition sample_config :: ynode where
  "sample_config = YMap [(''allinone'', sample_endpoint), (''login'', sample_endpoint), (''game'', sample_game),
     (''space'', YMap []), (''robot'', YMap []), (''dbmgr'', sample_endpoint), (''appmgr'', sample_endpoint)]"

definition sample_npc :: ynode where
  "sample_npc = YMap [(''public'', YMap [(''rebirth'', YBool True)]), (''dungeon'', YMap [(''rebirth'', YBool False)])]"

theorem endpoint_is_configured_witness:
  "\<exists>y. Yaml_Awake ynode_api sample_config sample_npc yaml_empty = Some y
     \<and> map_option Port (GetIPEndPoint APP_GAME 1 y) = Some 7000 \<and> GetIPEndPoint APP_GAME 2 y = None
     \<and> GetIPEndPoint APP_ROBOT 1 y = None"
proof -
  note defs = ynode_api_def sample_config_def sample_game_def sample_endpoint_def sample_npc_def app_type_defs
  define one where "one = AppListForOneConfig_default\<lparr>Id := 1, IntraIp := ''10.0.0.1'', ExtraIp := ''1.2.3.4'', Port := 7000\<rparr>"
  obtain y where y: "Yaml_Awake ynode_api sample_config sample_npc yaml_empty = Some y"
    by (simp add: Yaml_Awake_def LoadConfig_def LoadNpcConfig_def LoadAppList_def LoadApp_def LoadDbConfig_def
        load_common_def load_threads_def optional_int_def Let_def defs)
  have apps: "mapM (LoadApp ynode_api) (yn_items ynode_api (yn_get ynode_api
      (yn_get ynode_api sample_config (GetAppName APP_GAME)) ''apps'')) = Some [one]"
    by (simp add: LoadApp_def defs one_def)
  have "APP_GAME \<in> {APP_SPACE, APP_GAME, APP_LOGIN}" by simp
  from endpoint_is_configured [OF y apps this]
  have "GetIPEndPoint APP_GAME i y = map_option common_config.truncate (List.find (\<lambda>one. Id one = i) [one])
      \<and> GetIPEndPoint APP_ROBOT i y = None" for i .
  then show ?thesis using y
    by (simp add: one_def common_config.defs AppListForOneConfig_default_def CommonConfig_default_def)
qed

end
