(* ===== verification/Locators.thy ===== *)
theory Locators
  imports NetTypes
begin

text \<open>
  The two registries through which packets find their way: \<open>NetworkLocator\<close> (\<open>network_locator.cpp\<close>), which
  knows the socket of every connected application and the networks of this process, and \<open>SocketLocator\<close>
  (\<open>socket_locator.cpp\<close>), which knows the game object a client socket belongs to. The operations that send
  packets as well are in \<open>Messaging\<close>.
\<close>

subsection \<open>The order of the network types\<close>

fun network_type_number :: "network_type \<Rightarrow> nat" where
  "network_type_number NtNone = 0"
| "network_type_number TcpListen = 1"
| "network_type_number TcpConnector = 2"
| "network_type_number HttpListen = 4"
| "network_type_number HttpConnector = 8"

lemma network_type_number_inj: "network_type_number a = network_type_number b \<Longrightarrow> a = b"
  by (cases a; cases b; simp)

instantiation network_type :: linorder
begin

definition less_eq_network_type :: "network_type \<Rightarrow> network_type \<Rightarrow> bool" where
  "less_eq_network_type a b = (network_type_number a \<le> network_type_number b)"

definition less_network_type :: "network_type \<Rightarrow> network_type \<Rightarrow> bool" where
  "less_network_type a b = (network_type_number a < network_type_number b)"

instance
  by standard (auto simp: less_eq_network_type_def less_network_type_def intro: network_type_number_inj)

end

definition NetIdentify_empty :: net_identify where
  "NetIdentify_empty = \<lparr>ni_socket = SocketKey_None, ni_tags = []\<rparr>"

subsection \<open>\<open>NetworkLocator\<close>\<close>

text \<open>A network is known by its address.\<close>

record network_locator =
  nl_netIdentify :: "(u64, net_identify) smap"
  nl_connectors :: "(network_type, nat) smap"
  nl_listens :: "(network_type, nat) smap"

definition NetworkLocator_BackToPool :: "network_locator \<Rightarrow> network_locator" where
  "NetworkLocator_BackToPool l = l\<lparr>nl_netIdentify := [], nl_connectors := [], nl_listens := []\<rparr>"

definition AddConnectorLocator :: "nat \<Rightarrow> network_type \<Rightarrow> network_locator \<Rightarrow> network_locator" where
  "AddConnectorLocator pNetwork networkType l =
     l\<lparr>nl_connectors := smap_assign networkType pNetwork (nl_connectors l)\<rparr>"

definition AddListenLocator :: "nat \<Rightarrow> network_type \<Rightarrow> network_locator \<Rightarrow> network_locator" where
  "AddListenLocator pNetwork networkType l =
     l\<lparr>nl_listens := smap_assign networkType pNetwork (nl_listens l)\<rparr>"

definition GetNetwork :: "network_type \<Rightarrow> network_locator \<Rightarrow> nat option" where
  "GetNetwork networkType l =
     (if networkType = HttpListen \<or> networkType = TcpListen then map_of (nl_listens l) networkType
      else if networkType = HttpConnector \<or> networkType = TcpConnector
           then map_of (nl_connectors l) networkType
      else None)"

definition app_identify :: "socket_key \<Rightarrow> u64 \<Rightarrow> net_identify" where
  "app_identify pSocket appKey =
     \<lparr>ni_socket = SocketKey_CopyFrom pSocket SocketKey_None, ni_tags = AddTagInt TagApp appKey []\<rparr>"

text \<open>The part of \<open>AddNetworkIdentify\<close> under the lock: an entry of the same key is replaced.\<close>

definition insert_identify :: "socket_key \<Rightarrow> u64 \<Rightarrow> network_locator \<Rightarrow> network_locator" where
  "insert_identify pSocket appKey l =
     (let m = (if map_of (nl_netIdentify l) appKey \<noteq> None then smap_erase appKey (nl_netIdentify l)
               else nl_netIdentify l)
      in l\<lparr>nl_netIdentify := smap_emplace appKey (app_identify pSocket appKey) m\<rparr>)"

text \<open>The loop of \<open>GetAppNetworks\<close>: \<open>std::find_if\<close> from where the last search stopped.\<close>

fun GetAppNetworks_loop :: "int \<Rightarrow> (u64, net_identify) smap \<Rightarrow> net_identify list" where
  "GetAppNetworks_loop appType [] = []"
| "GetAppNetworks_loop appType ((appKey, ident) # m) =
     (if GetTypeFromAppKey appKey = appType then ident # GetAppNetworks_loop appType m
      else GetAppNetworks_loop appType m)"

definition GetAppNetworks :: "int \<Rightarrow> network_locator \<Rightarrow> net_identify list" where
  "GetAppNetworks appType l = GetAppNetworks_loop appType (nl_netIdentify l)"

definition GetNetworkIdentify :: "int \<Rightarrow> int \<Rightarrow> network_locator \<Rightarrow> net_identify" where
  "GetNetworkIdentify appType appId l =
     (case map_of (nl_netIdentify l) (GetAppKey appType appId) of
        None \<Rightarrow> NetIdentify_empty | Some ident \<Rightarrow> ident)"

subsection \<open>\<open>SocketLocator\<close>\<close>

type_synonym socket_locator = "(int, u64) smap"

definition SocketLocator_BackToPool :: "socket_locator \<Rightarrow> socket_locator" where
  "SocketLocator_BackToPool l = []"

definition RegisterToLocator :: "int \<Rightarrow> u64 \<Rightarrow> socket_locator \<Rightarrow> socket_locator" where
  "RegisterToLocator socket sn l =
     (case map_of l socket of Some _ \<Rightarrow> smap_assign socket sn l | None \<Rightarrow> smap_emplace socket sn l)"

definition SocketLocator_Remove :: "int \<Rightarrow> socket_locator \<Rightarrow> socket_locator" where
  "SocketLocator_Remove socket l = smap_erase socket l"

definition GetTargetEntitySn :: "int \<Rightarrow> socket_locator \<Rightarrow> u64" where
  "GetTargetEntitySn socket l = (case map_of l socket of None \<Rightarrow> 0 | Some sn \<Rightarrow> sn)"

definition SocketLocator_HandleNetworkDisconnect :: "net_identify \<Rightarrow> socket_locator \<Rightarrow> socket_locator" where
  "SocketLocator_HandleNetworkDisconnect pPacket l = smap_erase (Socket (ni_socket pPacket)) l"

subsection \<open>What a registry promises\<close>

text \<open>
  Both locators are used through the same three operations: enter a key, forget a key, and look a key up,
  with a value that stands for absence. Later entries win, and keys do not disturb each other.
\<close>

locale registry =
  fixes enter :: "'k \<Rightarrow> 'a \<Rightarrow> 's \<Rightarrow> 's" and forget :: "'k \<Rightarrow> 's \<Rightarrow> 's"
    and find :: "'k \<Rightarrow> 's \<Rightarrow> 'b" and stored :: "'k \<Rightarrow> 'a \<Rightarrow> 'b" and absent :: 'b and inv :: "'s \<Rightarrow> bool"
  assumes enter_inv: "inv s \<Longrightarrow> inv (enter k v s)"
    and forget_inv: "inv s \<Longrightarrow> inv (forget k s)"
    and find_enter: "inv s \<Longrightarrow> find k' (enter k v s) = (if k' = k then stored k v else find k' s)"
    and find_forget: "inv s \<Longrightarrow> find k' (forget k s) = (if k' = k then absent else find k' s)"
begin

fun run :: "('k \<times> 'a option) list \<Rightarrow> 's \<Rightarrow> 's" where
  "run [] s = s"
| "run ((k, Some v) # ops) s = run ops (enter k v s)"
| "run ((k, None) # ops) s = run ops (forget k s)"

fun last_op :: "'k \<Rightarrow> ('k \<times> 'a option) list \<Rightarrow> 'a option option \<Rightarrow> 'a option option" where
  "last_op k [] r = r"
| "last_op k ((k', v) # ops) r = last_op k ops (if k' = k then Some v else r)"

definition answer :: "'k \<Rightarrow> 'a option option \<Rightarrow> 's \<Rightarrow> 'b" where
  "answer k r s = (case r of None \<Rightarrow> find k s | Some None \<Rightarrow> absent | Some (Some v) \<Rightarrow> stored k v)"

lemma run_inv: "inv s \<Longrightarrow> inv (run ops s)"
  by (induction ops s rule: run.induct) (simp_all add: enter_inv forget_inv)

lemma last_op_Some: "last_op k ops (Some v) = Some (case last_op k ops None of None \<Rightarrow> v | Some w \<Rightarrow> w)"
  by (induction ops arbitrary: v) auto

lemma run_find: "inv s \<Longrightarrow> find k (run ops s) = answer k (last_op k ops None) s"
proof (induction ops s rule: run.induct)
  case (1 s)
  then show ?case by (simp add: answer_def)
next
  case (2 k' v ops s)
  then have "find k (run ops (enter k' v s)) = answer k (last_op k ops None) (enter k' v s)"
    by (simp add: enter_inv)
  then show ?case using 2(2)
    by (cases "k' = k") (auto simp: answer_def last_op_Some find_enter split: option.splits)
next
  case (3 k' ops s)
  then have "find k (run ops (forget k' s)) = answer k (last_op k ops None) (forget k' s)"
    by (simp add: forget_inv)
  then show ?case using 3(2)
    by (cases "k' = k") (auto simp: answer_def last_op_Some find_forget split: option.splits)
qed

end

definition forget_identify :: "u64 \<Rightarrow> network_locator \<Rightarrow> network_locator" where
  "forget_identify appKey l = l\<lparr>nl_netIdentify := smap_erase appKey (nl_netIdentify l)\<rparr>"

definition find_identify :: "u64 \<Rightarrow> network_locator \<Rightarrow> net_identify option" where
  "find_identify appKey l = map_of (nl_netIdentify l) appKey"

definition nl_ok :: "network_locator \<Rightarrow> bool" where
  "nl_ok l = (smap_ok (nl_netIdentify l) \<and> smap_ok (nl_connectors l) \<and> smap_ok (nl_listens l))"

lemma nl_ok_ops [simp, inv_intros]:
  "nl_ok l \<Longrightarrow> nl_ok (AddConnectorLocator n t l)" "nl_ok l \<Longrightarrow> nl_ok (AddListenLocator n t l)"
  "nl_ok l \<Longrightarrow> nl_ok (insert_identify k a l)" "nl_ok l \<Longrightarrow> nl_ok (forget_identify a l)"
  "nl_ok (NetworkLocator_BackToPool l)"
  by (simp_all add: nl_ok_def AddConnectorLocator_def AddListenLocator_def insert_identify_def Let_def
      forget_identify_def NetworkLocator_BackToPool_def)

interpretation netloc: registry "\<lambda>k s. insert_identify s k" forget_identify find_identify
  "\<lambda>k s. Some (app_identify s k)" None nl_ok
  by unfold_locales
    (auto simp: find_identify_def insert_identify_def forget_identify_def smap_emplace_def Let_def nl_ok_def)

interpretation sockloc: registry RegisterToLocator SocketLocator_Remove GetTargetEntitySn "\<lambda>k v. v" 0
  "smap_ok :: socket_locator \<Rightarrow> bool"
  by unfold_locales
    (auto simp: GetTargetEntitySn_def RegisterToLocator_def SocketLocator_Remove_def smap_emplace_def
      split: option.splits)

lemma GetAppNetworks_loop_filter:
  "GetAppNetworks_loop t m = map snd (filter (\<lambda>p. GetTypeFromAppKey (fst p) = t) m)"
  by (induction t m rule: GetAppNetworks_loop.induct) auto

lemma app_identify_simps [simp]:
  "ni_socket (app_identify s k) = s" "GetTagValue (ni_tags (app_identify s k)) TagApp = Some \<lparr>KeyStr = [], KeyInt64 = k\<rparr>"
  "tags_ok (ni_tags (app_identify s k))"
  by (simp_all add: app_identify_def SocketKey_CopyFrom_def SocketKey_None_def AddTagInt_assign GetTagValue_def
      tags_ok_def tag_value_ok_def)

lemma GetAppKey_inj:
  assumes "0 \<le> t" "t < 65536" "0 \<le> i" "i < 4294967296" "0 \<le> t'" "t' < 65536" "0 \<le> i'" "i' < 4294967296"
    and "GetAppKey t i = GetAppKey t' i'"
  shows "t = t' \<and> i = i'"
proof -
  have "t * 4294967296 + i = t' * 4294967296 + i'"
    using assms GetAppKey_uint [of t i] GetAppKey_uint [of t' i'] by simp
  then have "(i + 4294967296 * t) div 4294967296 = (i' + 4294967296 * t') div 4294967296"
    by (simp add: algebra_simps)
  then have "t = t'" using assms(3,4,7,8) by simp
  then show ?thesis using \<open>t * 4294967296 + i = t' * 4294967296 + i'\<close> by simp
qed

subsection \<open>The socket locator as a history\<close>

text \<open>
  What the locator answers is determined by the last thing that happened to the socket: \<open>socket_history\<close> looks for
  it from the end of the history.
\<close>

fun locator_run :: "(int \<times> u64 option) list \<Rightarrow> socket_locator \<Rightarrow> socket_locator" where
  "locator_run [] l = l"
| "locator_run ((socket, Some sn) # ops) l = locator_run ops (RegisterToLocator socket sn l)"
| "locator_run ((socket, None) # ops) l = locator_run ops (SocketLocator_Remove socket l)"

definition socket_history :: "int \<Rightarrow> (int \<times> u64 option) list \<Rightarrow> u64" where
  "socket_history socket ops = (case map_of (rev ops) socket of Some (Some sn) \<Rightarrow> sn | _ \<Rightarrow> 0)"

lemma locator_run_registry: "locator_run ops l = sockloc.run ops l"
  by (induction ops l rule: locator_run.induct) simp_all

lemma last_op_map_of: "sockloc.last_op k ops r = (case map_of (rev ops) k of None \<Rightarrow> r | Some v \<Rightarrow> Some v)"
  by (induction ops arbitrary: r) (auto simp: map_add_def split: option.splits)

text \<open>
  C22. After any registrations and removals, in any order and with sockets used again, the locator finds the entity
  that was registered last for a socket and not removed since, and 0 when there is none.
\<close>

theorem socket_locator_equals_history:
  "GetTargetEntitySn socket (locator_run ops []) = socket_history socket ops"
proof -
  have "GetTargetEntitySn socket [] = 0" by (simp add: GetTargetEntitySn_def)
  then show ?thesis
    using sockloc.run_find [of "[]" socket ops]
    by (simp add: locator_run_registry last_op_map_of sockloc.answer_def socket_history_def split: option.splits)
qed

end
