(* ===== verification/Messaging.thy ===== *)
theory Messaging
  imports Locators Config ThreadDispatch Framing
begin

text \<open>
  The state the threads of one process share, and \<open>MessageSystemHelp\<close> (\<open>message_system_help.cpp\<close>), through
  which every component sends: to the threads of this process, to a network of this process, or to another
  application by way of \<open>NetworkLocator\<close>. The handlers of \<open>NetworkLocator\<close> that send packets follow.

  Packets are known by their addresses: the pool hands out addresses and serial numbers, \<open>sv_store\<close> holds the
  packets themselves. Protocol buffers are generated code: a message is a record, and its encoding and decoding
  are parameters. \<open>None\<close> is a loop that does not end or an access outside a buffer.
\<close>

subsection \<open>Connections and networks as data\<close>

datatype connect_state = StateNone | Connecting | Connected

record connect_obj = net_identify +
  co_state :: connect_state
  co_recvBuffer :: net_buffer
  co_sendBuffer :: net_buffer

definition co_identify :: "connect_obj \<Rightarrow> net_identify" where
  "co_identify c = \<lparr>ni_socket = ni_socket c, ni_tags = ni_tags c\<rparr>"

text \<open>
  A network: the array \<open>_connects\<close> of pointers, the sockets in use, the packets to be sent. The connection
  objects live in a pool of the network's thread; \<open>nw_objs\<close> is the memory they live in. \<open>nw_ms\<close> is the message
  system of that thread, \<open>nw_closed\<close> lists the calls of \<open>_sock_close\<close>, and \<open>nw_epoll\<close> holds the events the kernel
  watches for, by socket. The last fields belong to the listening and to the connecting networks.
\<close>

record connect_detail =
  cd_Ip :: string
  cd_Port :: int
  cd_TType :: tag_type
  cd_TValue :: tag_value

record 'h network =
  nw_connects :: "nat option list"
  nw_sockets :: "(int, unit) smap"
  nw_sendMsgList :: "nat cache_swap"
  nw_networkType :: network_type
  nw_pool :: "unit pool"
  nw_objs :: "nat \<Rightarrow> connect_obj"
  nw_objSn :: "nat \<Rightarrow> u64"
  nw_ms :: "'h message_system"
  nw_closed :: "int list"
  nw_epoll :: "(int, u32) smap"
  nw_masterSocket :: int
  nw_mainSocketEventIndex :: int
  nw_connecting :: "connect_detail cache_refresh"
  nw_details :: nat

record 'h server =
  sv_global :: global
  sv_pool :: "unit pool"
  sv_store :: packet_store
  sv_sn :: "nat \<Rightarrow> u64"
  sv_mgr :: "'h thread_mgr"
  sv_netLocator :: network_locator
  sv_socketLocator :: "socket_locator option"
  sv_networks :: "nat \<Rightarrow> 'h network"

record app_register =
  ar_type :: int
  ar_id :: int

record network_connect =
  nc_network_type :: int
  nc_tag_type :: nat
  nc_value_int64 :: u64
  nc_value_str :: string
  nc_ip :: string
  nc_port :: int

subsection \<open>Creating, freeing and filling packets\<close>

definition CreatePacket :: "int \<Rightarrow> net_identify option \<Rightarrow> 'h server \<Rightarrow> nat \<times> 'h server" where
  "CreatePacket msgId pIdentify s =
     (case MallocObject () False id 0 (sv_global s) (sv_pool s) of
        (obj, g, pool) \<Rightarrow>
          (o_addr obj,
           s\<lparr>sv_global := g, sv_pool := pool, sv_sn := (sv_sn s)(o_addr obj := o_sn obj),
             sv_store := (sv_store s)(o_addr obj := Packet_Awake msgId pIdentify (sv_store s (o_addr obj)))\<rparr>))"

definition free_packet :: "nat \<Rightarrow> 'h server \<Rightarrow> 'h server" where
  "free_packet p s = s\<lparr>sv_pool := FreeObject (sv_sn s p) (sv_pool s)\<rparr>"

definition serialize :: "u8 list \<Rightarrow> nat \<Rightarrow> 'h server \<Rightarrow> 'h server option" where
  "serialize proto p s = do {
     q \<leftarrow> SerializeToBuffer proto (sv_store s p);
     Some (s\<lparr>sv_store := (sv_store s)(p := q)\<rparr>)
   }"

definition dispatch :: "nat \<Rightarrow> 'h server \<Rightarrow> 'h server" where
  "dispatch pPacket s = s\<lparr>sv_mgr := DispatchPacket pPacket (sv_mgr s)\<rparr>"

subsection \<open>\<open>MessageSystemHelp\<close>\<close>

definition Help_DispatchMsg :: "int \<Rightarrow> net_identify option \<Rightarrow> 'h server \<Rightarrow> 'h server" where
  "Help_DispatchMsg msgId pIdentify s =
     (let (pPacket, s) = CreatePacket msgId pIdentify s in dispatch pPacket s)"

definition Help_DispatchProto :: "int \<Rightarrow> u8 list \<Rightarrow> net_identify option \<Rightarrow> 'h server \<Rightarrow> 'h server option" where
  "Help_DispatchProto msgId proto pIdentify s =
     (let (pPacket, s) = CreatePacket msgId pIdentify s in do {
        s \<leftarrow> serialize proto pPacket s;
        Some (dispatch pPacket s)
      })"

definition Network_SendPacket :: "nat \<Rightarrow> nat \<Rightarrow> 'h server \<Rightarrow> 'h server" where
  "Network_SendPacket n pPacket s =
     (let nw = sv_networks s n in
      if NetType (p_socketKey (sv_store s pPacket)) \<noteq> nw_networkType nw then s
      else s\<lparr>sv_networks := (sv_networks s)(n := nw\<lparr>nw_sendMsgList := CS_write pPacket (nw_sendMsgList nw)\<rparr>)\<rparr>)"

definition Help_SendPacket :: "nat \<Rightarrow> 'h server \<Rightarrow> 'h server" where
  "Help_SendPacket pPacket s =
     (let socketKey = p_socketKey (sv_store s pPacket) in
      if Socket socketKey = INVALID_SOCKET \<or> NetType socketKey = NtNone then dispatch pPacket s
      else case GetNetwork (NetType socketKey) (sv_netLocator s) of
             Some pNetwork \<Rightarrow> Network_SendPacket pNetwork pPacket s
           | None \<Rightarrow> s)"

definition Help_SendProto :: "int \<Rightarrow> u8 list \<Rightarrow> net_identify option \<Rightarrow> 'h server \<Rightarrow> 'h server option" where
  "Help_SendProto msgId proto pIdentify s =
     (let (pPacket, s) = CreatePacket msgId pIdentify s in do {
        s \<leftarrow> serialize proto pPacket s;
        Some (Help_SendPacket pPacket s)
      })"

definition is_local :: "int \<Rightarrow> 'h server \<Rightarrow> bool" where
  "is_local appType s = (g_appType (sv_global s) AND appType \<noteq> 0)"

definition Help_SendProtoApp :: "int \<Rightarrow> u8 list \<Rightarrow> int \<Rightarrow> int \<Rightarrow> 'h server \<Rightarrow> 'h server option" where
  "Help_SendProtoApp msgId proto appType appId s =
     (if is_local appType s then Help_DispatchProto msgId proto None s
      else (let networkIdentify = GetNetworkIdentify appType appId (sv_netLocator s) in
            if NetType (ni_socket networkIdentify) = NtNone then Some s
            else Help_SendProto msgId proto (Some networkIdentify) s))"

definition Help_SendPacketApp :: "nat \<Rightarrow> int \<Rightarrow> int \<Rightarrow> 'h server \<Rightarrow> 'h server" where
  "Help_SendPacketApp pPacket appType appId s =
     (if is_local appType s then dispatch pPacket s
      else (let netIdentify = GetNetworkIdentify appType appId (sv_netLocator s) in
            if NetType (ni_socket netIdentify) = NtNone then s
            else (let p = sv_store s pPacket;
                      p = p\<lparr>p_socketKey := (p_socketKey p)\<lparr>Socket := Socket (ni_socket netIdentify),
                                                            NetType := NetType (ni_socket netIdentify)\<rparr>\<rparr>
                  in Help_SendPacket pPacket (s\<lparr>sv_store := (sv_store s)(pPacket := p)\<rparr>))))"

definition tag_identify :: "socket_key \<Rightarrow> tag_key \<Rightarrow> net_identify" where
  "tag_identify k pTagKey = \<lparr>ni_socket = SocketKey_CopyFrom k SocketKey_None, ni_tags = TagKey_CopyFrom pTagKey []\<rparr>"

definition Help_SendProtoTags :: "int \<Rightarrow> u8 list \<Rightarrow> tag_key \<Rightarrow> int \<Rightarrow> int \<Rightarrow> 'h server \<Rightarrow> 'h server option" where
  "Help_SendProtoTags msgId proto pTagKey appType appId s =
     (if is_local appType s
      then Help_DispatchProto msgId proto (Some \<lparr>ni_socket = SocketKey_None, ni_tags = TagKey_CopyFrom pTagKey []\<rparr>) s
      else (let netIdentify = GetNetworkIdentify appType appId (sv_netLocator s) in
            if NetType (ni_socket netIdentify) = NtNone then Some s
            else Help_SendProto msgId proto (Some (tag_identify (ni_socket netIdentify) pTagKey)) s))"

definition Help_SendTags :: "int \<Rightarrow> tag_key \<Rightarrow> int \<Rightarrow> int \<Rightarrow> 'h server \<Rightarrow> 'h server" where
  "Help_SendTags msgId pTagKey appType appId s =
     (if is_local appType s
      then Help_DispatchMsg msgId (Some \<lparr>ni_socket = SocketKey_None, ni_tags = TagKey_CopyFrom pTagKey []\<rparr>) s
      else (let netIdentify = GetNetworkIdentify appType appId (sv_netLocator s) in
            if NetType (ni_socket netIdentify) = NtNone then s
            else (let (packet, s) = CreatePacket msgId (Some (tag_identify (ni_socket netIdentify) pTagKey)) s
                  in Help_SendPacket packet s)))"

fun send_to_all :: "int \<Rightarrow> u8 list \<Rightarrow> net_identify list \<Rightarrow> 'h server \<Rightarrow> 'h server option" where
  "send_to_all msgId proto [] s = Some s"
| "send_to_all msgId proto (one # networks) s =
     (let (pPacket, s) = CreatePacket msgId (Some one) s in do {
        s \<leftarrow> serialize proto pPacket s;
        let s = (case GetNetwork (NetType (ni_socket one)) (sv_netLocator s) of
                   Some pConnector \<Rightarrow> Network_SendPacket pConnector pPacket s
                 | None \<Rightarrow> s);
        send_to_all msgId proto networks s
      })"

definition Help_SendPacketToAllApp :: "int \<Rightarrow> u8 list \<Rightarrow> int \<Rightarrow> 'h server \<Rightarrow> 'h server option" where
  "Help_SendPacketToAllApp msgId proto appType s =
     (if is_local appType s then Help_DispatchProto msgId proto None s
      else send_to_all msgId proto (GetAppNetworks appType (sv_netLocator s)) s)"

definition Help_CreateConnect :: "(network_connect \<Rightarrow> u8 list) \<Rightarrow> network_type \<Rightarrow> tag_type \<Rightarrow> tag_value \<Rightarrow>
    string \<Rightarrow> int \<Rightarrow> 'h server \<Rightarrow> 'h server option" where
  "Help_CreateConnect wire iType tagType tagValue ip port s =
     (let protoConn = \<lparr>nc_network_type = int (network_type_number iType), nc_tag_type = tag_number tagType,
                       nc_value_int64 = KeyInt64 tagValue, nc_value_str = KeyStr tagValue, nc_ip = ip, nc_port = port\<rparr>
      in Help_DispatchProto MI_NetworkConnect (wire protoConn) None s)"

subsection \<open>The handlers of \<open>NetworkLocator\<close>\<close>

definition AddNetworkIdentify :: "(app_register \<Rightarrow> u8 list) \<Rightarrow> socket_key \<Rightarrow> u64 \<Rightarrow> 'h server \<Rightarrow> 'h server option" where
  "AddNetworkIdentify wire pSocket appKey s =
     (let s = s\<lparr>sv_netLocator := insert_identify pSocket appKey (sv_netLocator s)\<rparr>;
          appType = GetTypeFromAppKey appKey; appId = GetIdFromAppKey appKey; g = sv_global s
      in if g_appType g AND APP_APPMGR = 0
            \<and> (appType AND APP_APPMGR \<noteq> 0 \<or> appType AND APP_SPACE \<noteq> 0 \<or> appType AND APP_GAME \<noteq> 0)
         then Help_SendProtoApp MI_AppRegister (wire \<lparr>ar_type = g_appType g, ar_id = g_appId g\<rparr>) appType appId s
         else Some s)"

definition HandleAppRegister :: "(packet \<Rightarrow> app_register) \<Rightarrow> nat \<Rightarrow> 'h server \<Rightarrow> 'h server" where
  "HandleAppRegister parse pPacket s =
     (let p = sv_store s pPacket; proto = parse p; appKey = GetAppKey (ar_type proto) (ar_id proto); l = sv_netLocator s
      in case map_of (nl_netIdentify l) appKey of
           None \<Rightarrow>
             (let netIdentify = app_identify (p_socketKey p) appKey;
                  s = s\<lparr>sv_netLocator := l\<lparr>nl_netIdentify := smap_emplace appKey netIdentify (nl_netIdentify l)\<rparr>\<rparr>
              in Help_DispatchMsg MI_NetworkListenKey (Some netIdentify) s)
         | Some ident \<Rightarrow>
             s\<lparr>sv_netLocator := l\<lparr>nl_netIdentify := smap_assign appKey
                 (ident\<lparr>ni_tags := TagKey_CopyFrom (p_tagKey p) (ni_tags ident)\<rparr>) (nl_netIdentify l)\<rparr>\<rparr>)"

text \<open>The end point of the application is dereferenced as it is: \<open>None\<close> when the configuration has none.\<close>

definition NetworkLocator_HandleNetworkDisconnect ::
  "(network_connect \<Rightarrow> u8 list) \<Rightarrow> yaml \<Rightarrow> nat \<Rightarrow> 'h server \<Rightarrow> 'h server option" where
  "NetworkLocator_HandleNetworkDisconnect wire pYaml pPacket s =
     (case GetTagValue (p_tagKey (sv_store s pPacket)) TagApp of
        None \<Rightarrow> Some s
      | Some pTagApp \<Rightarrow>
          (let appKey = KeyInt64 pTagApp;
               s = s\<lparr>sv_netLocator := forget_identify appKey (sv_netLocator s)\<rparr>;
               appType = GetTypeFromAppKey appKey; appId = GetIdFromAppKey appKey
           in do {
             pCommonConfig \<leftarrow> GetIPEndPoint appType appId pYaml;
             Help_CreateConnect wire TcpConnector TagApp \<lparr>KeyStr = [], KeyInt64 = appKey\<rparr>
               (IntraIp pCommonConfig) (Port pCommonConfig) s
           }))"

subsection \<open>The state in which packets can be made\<close>

definition store_ok :: "'h server \<Rightarrow> bool" where
  "store_ok s = (\<forall>p. pk_ok (sv_store s p))"

definition pending :: "nat \<Rightarrow> 'h server \<Rightarrow> nat list" where
  "pending n s = CS_GetWriterCache (nw_sendMsgList (sv_networks s n))"

definition inbox :: "'h server \<Rightarrow> nat list" where
  "inbox s = CS_GetWriterCache (mgr_packets (sv_mgr s))"

definition in_use :: "'h server \<Rightarrow> nat set" where
  "in_use s = set (cr_addrs (pl_inUse (sv_pool s)))"

lemma dispatch_fields [simp]:
  "sv_store (dispatch p s) = sv_store s" "sv_networks (dispatch p s) = sv_networks s"
  "sv_netLocator (dispatch p s) = sv_netLocator s" "inbox (dispatch p s) = inbox s @ [p]"
  "sv_pool (dispatch p s) = sv_pool s" "sv_global (dispatch p s) = sv_global s"
  "sv_sn (dispatch p s) = sv_sn s" "sv_socketLocator (dispatch p s) = sv_socketLocator s"
  "pending n (dispatch p s) = pending n s" "store_ok (dispatch p s) = store_ok s"
  by (simp_all add: dispatch_def inbox_def DispatchPacket_def pending_def store_ok_def)

lemma Network_SendPacket_fields [simp]:
  "sv_store (Network_SendPacket n p s) = sv_store s" "sv_mgr (Network_SendPacket n p s) = sv_mgr s"
  "sv_netLocator (Network_SendPacket n p s) = sv_netLocator s" "sv_pool (Network_SendPacket n p s) = sv_pool s"
  "sv_global (Network_SendPacket n p s) = sv_global s" "inbox (Network_SendPacket n p s) = inbox s"
  "sv_sn (Network_SendPacket n p s) = sv_sn s" "store_ok (Network_SendPacket n p s) = store_ok s"
  "sv_socketLocator (Network_SendPacket n p s) = sv_socketLocator s"
  by (simp_all add: Network_SendPacket_def Let_def inbox_def store_ok_def)

lemma CreatePacket_fields:
  assumes "CreatePacket msgId pIdentify s = (p, s')"
  shows "sv_store s' = (sv_store s)(p := Packet_Awake msgId pIdentify (sv_store s p))"
    "sv_mgr s' = sv_mgr s" "sv_netLocator s' = sv_netLocator s" "sv_networks s' = sv_networks s"
    "sv_socketLocator s' = sv_socketLocator s" "inbox s' = inbox s" "pending n s' = pending n s"
    "g_appType (sv_global s') = g_appType (sv_global s)" "store_ok s \<Longrightarrow> store_ok s'"
    "pool_ok (sv_pool s) \<Longrightarrow> p \<notin> in_use s"
proof -
  obtain obj g pool where m: "MallocObject () False id 0 (sv_global s) (sv_pool s) = (obj, g, pool)"
    by (metis prod_cases3)
  have e: "p = o_addr obj" "s' = s\<lparr>sv_global := g, sv_pool := pool, sv_sn := (sv_sn s)(p := o_sn obj),
      sv_store := (sv_store s)(p := Packet_Awake msgId pIdentify (sv_store s p))\<rparr>"
    using assms m by (auto simp: CreatePacket_def)
  show "sv_store s' = (sv_store s)(p := Packet_Awake msgId pIdentify (sv_store s p))"
    "sv_mgr s' = sv_mgr s" "sv_netLocator s' = sv_netLocator s" "sv_networks s' = sv_networks s"
    "sv_socketLocator s' = sv_socketLocator s" "inbox s' = inbox s" "pending n s' = pending n s"
    by (simp_all add: e inbox_def pending_def)
  have "g = snd (GenerateSN (sv_global s))" using m by (auto simp: MallocObject_def Let_def split: prod.splits)
  then show "g_appType (sv_global s') = g_appType (sv_global s)" by (simp add: e GenerateSN_def)
  show "store_ok s'" if "store_ok s" using that by (simp add: e store_ok_def)
  show "p \<notin> in_use s" if "pool_ok (sv_pool s)"
    using MallocObject_fresh [OF that m] by (simp add: e in_use_def)
qed

text \<open>
  The next \<open>k\<close> serial numbers are not in use: then \<open>k\<close> packets can be made that are different from each other and
  from all packets in use.
\<close>

definition fresh_sns :: "nat \<Rightarrow> 'h server \<Rightarrow> bool" where
  "fresh_sns k s = (pool_ok (sv_pool s) \<and> k \<le> 65536 \<and> 0 \<le> g_appId (sv_global s) \<and> g_appId (sv_global s) < 1024
     \<and> (\<forall>sn \<in> set (fst (GenerateSNs k (sv_global s))). \<not> sn_in_use sn (sv_pool s)))"

lemma GenerateSNs_Suc:
  "fst (GenerateSNs (Suc k) g) = fst (GenerateSN g) # fst (GenerateSNs k (snd (GenerateSN g)))"
  by (simp add: Let_def split: prod.splits)

lemma CreatePacket_pool:
  assumes c: "CreatePacket msgId pIdentify s = (p, s')" and f: "fresh_sns (Suc k) s"
  shows "fresh_sns k s'" "in_use s' = insert p (in_use s)" "p \<notin> in_use s"
proof -
  obtain obj g pool where m: "MallocObject () False id 0 (sv_global s) (sv_pool s) = (obj, g, pool)"
    by (metis prod_cases3)
  have e: "p = o_addr obj" "sv_pool s' = pool" "sv_global s' = g"
    using c m by (auto simp: CreatePacket_def)
  let ?sn = "fst (GenerateSN (sv_global s))" and ?sns = "fst (GenerateSNs k (snd (GenerateSN (sv_global s))))"
  have g: "g = snd (GenerateSN (sv_global s))" using m by (auto simp: MallocObject_def Let_def split: prod.splits)
  have ok: "pool_ok (sv_pool s)" "\<not> sn_in_use ?sn (sv_pool s)" "\<forall>x \<in> set ?sns. \<not> sn_in_use x (sv_pool s)"
    using f by (simp_all only: fresh_sns_def GenerateSNs_Suc) simp_all
  have d: "?sn \<notin> set ?sns"
    using GenerateSNs_distinct [of "sv_global s" "Suc k"] f unfolding fresh_sns_def GenerateSNs_Suc by simp
  obtain p1 :: "unit pool" and x :: "unit pobj" and xs where x: "p1 = (if pl_free (sv_pool s) = [] then new_objects () 50 (sv_pool s) else sv_pool s)"
      "o_addr obj = o_addr x" "pool = p1\<lparr>pl_free := xs, pl_inUse := CR_AddObj obj (pl_inUse p1)\<rparr>" "o_sn obj = ?sn"
  proof (rule MallocObject_spec [OF m])
    fix p1 :: "unit pool" and x :: "unit pobj" and xs
    assume "p1 = (if pl_free (sv_pool s) = [] then new_objects () (if False then 1 else 50) (sv_pool s) else sv_pool s)"
      "o_addr obj = o_addr x" "pool = p1\<lparr>pl_free := xs, pl_inUse := CR_AddObj obj (pl_inUse p1)\<rparr>"
      "o_sn obj = (if 0 = 0 then ?sn else 0)"
    then show thesis by (intro that [of p1 x xs]) simp_all
  qed
  have u: "pl_inUse p1 = pl_inUse (sv_pool s)" using x(1) by (simp add: new_objects_def)
  have nin: "map_of (cr_adds (pl_inUse (sv_pool s))) ?sn = None" using ok(2) by (simp add: sn_in_use_def)
  have s1: "sn_in_use y pool = (y = ?sn \<or> sn_in_use y (sv_pool s))" for y
    using nin x(3,4) by (auto simp: sn_in_use_def u CR_AddObj_def smap_emplace_def)
  have "pool_ok pool" using pool_ok_Malloc [OF ok(1) m] ok(2) x(4) by simp
  moreover have "g_appId g = g_appId (sv_global s)" by (simp add: g GenerateSN_def)
  ultimately show "fresh_sns k s'" using f s1 ok(3) d by (auto simp: fresh_sns_def e g)
  have "set (cr_addrs (pl_inUse pool)) = insert (o_addr obj) (set (cr_addrs (pl_inUse (sv_pool s))))"
  proof -
    have "mset (cr_addrs (pl_inUse pool)) = add_mset (o_addr obj) (mset (cr_addrs (pl_inUse (sv_pool s))))"
      using nin x(3,4) by (simp add: u cr_addrs_def CR_AddObj_def smap_emplace_def addrs_assign_fresh)
    from arg_cong [OF this, of set_mset] show ?thesis by simp
  qed
  then show "in_use s' = insert p (in_use s)" by (simp add: in_use_def e)
  show "p \<notin> in_use s" using CreatePacket_fields(10) [OF c ok(1)] .
qed

text \<open>A new packet with a message in it: every sender makes one.\<close>

definition new_packet :: "int \<Rightarrow> u8 list \<Rightarrow> net_identify option \<Rightarrow> 'h server \<Rightarrow> (nat \<times> 'h server) option" where
  "new_packet msgId proto pIdentify s =
     (let (p, s) = CreatePacket msgId pIdentify s in map_option (Pair p) (serialize proto p s))"

definition carries :: "int \<Rightarrow> u8 list \<Rightarrow> net_identify option \<Rightarrow> packet \<Rightarrow> bool" where
  "carries msgId proto pIdentify q =
     (pk_ok q \<and> p_msgId q = msgId \<and> body q = proto
      \<and> p_socketKey q = (case pIdentify of None \<Rightarrow> SocketKey_None | Some i \<Rightarrow> ni_socket i)
      \<and> p_tagKey q = (case pIdentify of None \<Rightarrow> [] | Some i \<Rightarrow> ni_tags i)
      \<and> p_ref q = 0 \<and> \<not> p_isRefOpen q)"

definition ident_ok :: "net_identify option \<Rightarrow> bool" where
  "ident_ok pIdentify = (case pIdentify of None \<Rightarrow> True | Some i \<Rightarrow> tags_ok (ni_tags i))"

lemma Awake_carries:
  assumes "pk_ok q" "ident_ok i"
  shows "carries m [] i (Packet_Awake m i q)"
  using assms Awake_identity
  by (cases i) (auto simp: carries_def ident_ok_def Packet_Awake_def SocketKey_Clear_def SocketKey_None_def Let_def
      pk_ok_def body_def SocketKey_CopyFrom_def TagKey_copy_same)

lemma new_packet_ok:
  assumes ok: "store_ok s" and n: "length proto < 2147352576" and i: "ident_ok pIdentify"
  obtains p s' q where "new_packet msgId proto pIdentify s = Some (p, s')"
    "sv_store s' = (sv_store s)(p := q)" "carries msgId proto pIdentify q"
    "sv_mgr s' = sv_mgr s" "sv_netLocator s' = sv_netLocator s" "sv_networks s' = sv_networks s"
    "g_appType (sv_global s') = g_appType (sv_global s)" "store_ok s'"
    "pool_ok (sv_pool s) \<Longrightarrow> p \<notin> in_use s" "sv_socketLocator s' = sv_socketLocator s"
proof -
  obtain p s1 where c: "CreatePacket msgId pIdentify s = (p, s1)" by force
  note f = CreatePacket_fields [OF c]
  let ?a = "Packet_Awake msgId pIdentify (sv_store s p)"
  have a: "pk_ok ?a" "b_end ?a = 0" "carries msgId [] pIdentify ?a"
    using ok i Awake_carries [of "sv_store s p" pIdentify msgId] by (simp_all add: store_ok_def carries_def)
  obtain q where q: "SerializeToBuffer proto ?a = Some q" "pk_ok q" "body q = proto" "p_msgId q = p_msgId ?a"
      "p_tagKey q = p_tagKey ?a" "p_socketKey q = p_socketKey ?a" "p_ref q = p_ref ?a" "p_isRefOpen q = p_isRefOpen ?a"
    using SerializeToBuffer_ok [OF a(1,2) n] by blast
  let ?s = "s1\<lparr>sv_store := (sv_store s)(p := q)\<rparr>"
  have "new_packet msgId proto pIdentify s = Some (p, ?s)"
    using q(1) by (simp add: new_packet_def c serialize_def f(1))
  moreover have "carries msgId proto pIdentify q" using a(3) q by (simp add: carries_def)
  moreover have "store_ok ?s" using ok q(2) by (simp add: store_ok_def)
  ultimately show thesis using f by (intro that [of p ?s q]) auto
qed

lemma send_by_new_packet:
  "Help_DispatchProto msgId proto i s = map_option (\<lambda>(p, s). dispatch p s) (new_packet msgId proto i s)"
  "Help_SendProto msgId proto i s = map_option (\<lambda>(p, s). Help_SendPacket p s) (new_packet msgId proto i s)"
  by (auto simp: Help_DispatchProto_def Help_SendProto_def new_packet_def map_option_case split: prod.splits option.splits bind_splits)

subsection \<open>Where a packet goes\<close>

datatype route = ToThreads | ToNetwork nat | Nowhere

text \<open>The route of a socket key: the networks of this process answer for their own type only.\<close>

definition route_of :: "socket_key \<Rightarrow> 'h server \<Rightarrow> route" where
  "route_of k s =
     (if Socket k = INVALID_SOCKET \<or> NetType k = NtNone then ToThreads
      else case GetNetwork (NetType k) (sv_netLocator s) of
             None \<Rightarrow> Nowhere
           | Some n \<Rightarrow> if NetType k = nw_networkType (sv_networks s n) then ToNetwork n else Nowhere)"

definition app_route :: "int \<Rightarrow> int \<Rightarrow> 'h server \<Rightarrow> (net_identify option \<times> route) option" where
  "app_route appType appId s =
     (if is_local appType s then Some (None, ToThreads)
      else case find_identify (GetAppKey appType appId) (sv_netLocator s) of
             None \<Rightarrow> None
           | Some i \<Rightarrow> if NetType (ni_socket i) = NtNone then None else Some (Some i, route_of (ni_socket i) s))"

definition delivered :: "route \<Rightarrow> nat \<Rightarrow> 'h server \<Rightarrow> 'h server \<Rightarrow> bool" where
  "delivered r p s s' =
     ((\<forall>n. pending n s' = pending n s @ (if r = ToNetwork n then [p] else []))
      \<and> inbox s' = inbox s @ (if r = ToThreads then [p] else []))"

lemma pending_Network_SendPacket:
  "pending m (Network_SendPacket n p s) = pending m s @
     (if m = n \<and> NetType (p_socketKey (sv_store s p)) = nw_networkType (sv_networks s n) then [p] else [])"
  by (simp add: pending_def Network_SendPacket_def Let_def)

lemma Help_SendPacket_delivered:
  "delivered (route_of (p_socketKey (sv_store s p)) s) p s (Help_SendPacket p s)"
  by (auto simp: Help_SendPacket_def delivered_def route_of_def Let_def pending_Network_SendPacket split: option.splits)

lemma Help_SendPacket_fields [simp]:
  "sv_store (Help_SendPacket p s) = sv_store s" "sv_netLocator (Help_SendPacket p s) = sv_netLocator s"
  "sv_pool (Help_SendPacket p s) = sv_pool s" "sv_socketLocator (Help_SendPacket p s) = sv_socketLocator s"
  "store_ok (Help_SendPacket p s) = store_ok s" "sv_global (Help_SendPacket p s) = sv_global s"
  by (simp_all add: Help_SendPacket_def Let_def split: option.split)

lemma same_routes:
  "sv_netLocator s' = sv_netLocator s \<Longrightarrow> sv_networks s' = sv_networks s \<Longrightarrow> route_of k s' = route_of k s"
  by (simp add: route_of_def split: option.split)

lemma delivered_from:
  "delivered r p s1 s' \<Longrightarrow> sv_mgr s1 = sv_mgr s \<Longrightarrow> sv_networks s1 = sv_networks s \<Longrightarrow> delivered r p s s'"
  by (simp add: delivered_def pending_def inbox_def)

lemma Help_SendProto_delivered:
  assumes "store_ok s" "length proto < 2147352576" "ident_ok pIdentify"
  shows "\<exists>p q s'. Help_SendProto msgId proto pIdentify s = Some s' \<and> sv_store s' = (sv_store s)(p := q)
    \<and> carries msgId proto pIdentify q \<and> (pool_ok (sv_pool s) \<longrightarrow> p \<notin> in_use s)
    \<and> delivered (route_of (case pIdentify of None \<Rightarrow> SocketKey_None | Some i \<Rightarrow> ni_socket i) s) p s s'
    \<and> store_ok s' \<and> sv_netLocator s' = sv_netLocator s"
  using assms
proof (rule new_packet_ok [where msgId = msgId])
  fix p s1 q
  assume n: "new_packet msgId proto pIdentify s = Some (p, s1)" "sv_store s1 = (sv_store s)(p := q)"
    "carries msgId proto pIdentify q" "sv_mgr s1 = sv_mgr s" "sv_netLocator s1 = sv_netLocator s"
    "sv_networks s1 = sv_networks s" "store_ok s1" "pool_ok (sv_pool s) \<Longrightarrow> p \<notin> in_use s"
  have "delivered (route_of (p_socketKey q) s) p s (Help_SendPacket p s1)"
    using Help_SendPacket_delivered [of s1 p] n(2) same_routes [OF n(5,6)] delivered_from [OF _ n(4,6)] by simp
  then show ?thesis using n by (intro exI [of _ p] exI [of _ q] exI [of _ "Help_SendPacket p s1"])
    (simp add: send_by_new_packet carries_def)
qed

lemma Help_DispatchProto_delivered:
  assumes "store_ok s" "length proto < 2147352576" "ident_ok pIdentify"
  shows "\<exists>p q s'. Help_DispatchProto msgId proto pIdentify s = Some s' \<and> sv_store s' = (sv_store s)(p := q)
    \<and> carries msgId proto pIdentify q \<and> (pool_ok (sv_pool s) \<longrightarrow> p \<notin> in_use s) \<and> delivered ToThreads p s s'
    \<and> store_ok s' \<and> sv_netLocator s' = sv_netLocator s"
  using assms
proof (rule new_packet_ok [where msgId = msgId])
  fix p s1 q
  assume n: "new_packet msgId proto pIdentify s = Some (p, s1)" "sv_store s1 = (sv_store s)(p := q)"
    "carries msgId proto pIdentify q" "sv_mgr s1 = sv_mgr s" "sv_netLocator s1 = sv_netLocator s"
    "sv_networks s1 = sv_networks s" "store_ok s1" "pool_ok (sv_pool s) \<Longrightarrow> p \<notin> in_use s"
  have "delivered ToThreads p s1 (dispatch p s1)" by (simp add: delivered_def)
  from delivered_from [OF this n(4,6)] show ?thesis using n
    by (intro exI [of _ p] exI [of _ q] exI [of _ "dispatch p s1"]) (simp add: send_by_new_packet)
qed

subsection \<open>Properties\<close>

definition locator_tags_ok :: "'h server \<Rightarrow> bool" where
  "locator_tags_ok s = (\<forall>k i. find_identify k (sv_netLocator s) = Some i \<longrightarrow> tags_ok (ni_tags i))"

text \<open>
  C13. A message to another application is put into one new packet, and the packet goes exactly one way: to
  the threads of this process when the process is (also) of that type; to the network that serves the
  application's connection, with the application's socket and tags, when it is connected; and nothing
  changes when it is not known.
\<close>

theorem message_reaches_application:
  assumes "store_ok s" "locator_tags_ok s" "length proto < 2147352576"
  shows "\<exists>s'. Help_SendProtoApp msgId proto appType appId s = Some s'
    \<and> (case app_route appType appId s of
         None \<Rightarrow> s' = s
       | Some (i, r) \<Rightarrow> \<exists>p q. sv_store s' = (sv_store s)(p := q) \<and> carries msgId proto i q
           \<and> (pool_ok (sv_pool s) \<longrightarrow> p \<notin> in_use s) \<and> delivered r p s s')"
proof (cases "is_local appType s")
  case True
  then show ?thesis using Help_DispatchProto_delivered [OF assms(1,3), of None]
    by (fastforce simp: Help_SendProtoApp_def app_route_def ident_ok_def)
next
  case False
  show ?thesis
  proof (cases "find_identify (GetAppKey appType appId) (sv_netLocator s)")
    case None
    then show ?thesis using False
      by (simp add: Help_SendProtoApp_def app_route_def GetNetworkIdentify_def find_identify_def NetIdentify_empty_def
          SocketKey_None_def)
  next
    case (Some i)
    then have i: "ident_ok (Some i)" "GetNetworkIdentify appType appId (sv_netLocator s) = i"
      using assms(2) by (auto simp: locator_tags_ok_def ident_ok_def GetNetworkIdentify_def find_identify_def)
    show ?thesis
    proof (cases "NetType (ni_socket i) = NtNone")
      case False
      then show ?thesis using Help_SendProto_delivered [OF assms(1,3) i(1), of msgId] i(2) Some \<open>\<not> is_local appType s\<close>
        by (fastforce simp: Help_SendProtoApp_def app_route_def)
    qed (use i Some \<open>\<not> is_local appType s\<close> in \<open>simp add: Help_SendProtoApp_def app_route_def\<close>)
  qed
qed

text \<open>A process with one connector, for the concrete instances.\<close>

definition Network_new :: "network_type \<Rightarrow> 'h network" where
  "Network_new t =
     \<lparr>nw_connects = replicate 5120 None, nw_sockets = [], nw_sendMsgList = CacheSwap_empty, nw_networkType = t,
      nw_pool = DynamicObjectPool,
      nw_objs = \<lambda>_. \<lparr>ni_socket = SocketKey_None, ni_tags = [], co_state = StateNone,
        co_recvBuffer = NetworkBuffer 10240, co_sendBuffer = NetworkBuffer 10240\<rparr>,
      nw_objSn = \<lambda>_. 0, nw_ms = MessageSystem_empty, nw_closed = [], nw_epoll = [], nw_masterSocket = INVALID_SOCKET,
      nw_mainSocketEventIndex = - 1, nw_connecting = CacheRefresh_empty, nw_details = 0\<rparr>"

definition server_new :: "int \<Rightarrow> int \<Rightarrow> unit server" where
  "server_new appType appId =
     \<lparr>sv_global = \<lparr>g_TimeTick = 0, g_snTicket = 1, g_appType = appType, g_appId = appId\<rparr>,
      sv_pool = DynamicObjectPool, sv_store = \<lambda>_. Packet, sv_sn = \<lambda>_. 0,
      sv_mgr = \<lparr>mgr_threads = [], mgr_createPackets = CacheSwap_empty, mgr_packets = CacheSwap_empty,
        mgr_main = MessageSystem_empty\<rparr>,
      sv_netLocator = AddConnectorLocator 0 TcpConnector \<lparr>nl_netIdentify = [], nl_connectors = [], nl_listens = []\<rparr>,
      sv_socketLocator = None,
      sv_networks = \<lambda>n. Network_new (if n = 0 then TcpConnector else TcpListen)\<rparr>"

lemma server_new_ok [simp]: "store_ok (server_new t i)" "nl_ok (sv_netLocator (server_new t i))"
  "pool_ok (sv_pool (server_new t i))" "g_appType (sv_global (server_new t i)) = t" "g_appId (sv_global (server_new t i)) = i"
  "find_identify k (sv_netLocator (server_new t i)) = None"
  "GetNetwork TcpConnector (sv_netLocator (server_new t i)) = Some 0"
  "nw_networkType (sv_networks (server_new t i) 0) = TcpConnector"
  by (simp_all add: store_ok_def server_new_def pool_ok_init find_identify_def AddConnectorLocator_def GetNetwork_def
      nl_ok_def Network_new_def)

definition with_app :: "socket_key \<Rightarrow> u64 \<Rightarrow> 'h server \<Rightarrow> 'h server" where
  "with_app k appKey s = s\<lparr>sv_netLocator := insert_identify k appKey (sv_netLocator s)\<rparr>"

lemma insert_identify_networks [simp]: "GetNetwork t (insert_identify k a l) = GetNetwork t l"
  by (simp add: GetNetwork_def insert_identify_def Let_def)

lemma with_app_simps [simp]:
  "store_ok (with_app k a s) = store_ok s" "sv_global (with_app k a s) = sv_global s"
  "sv_networks (with_app k a s) = sv_networks s" "sv_mgr (with_app k a s) = sv_mgr s"
  "GetNetwork t (sv_netLocator (with_app k a s)) = GetNetwork t (sv_netLocator s)"
  "nl_ok (sv_netLocator s) \<Longrightarrow>
     find_identify b (sv_netLocator (with_app k a s)) = (if b = a then Some (app_identify k a) else find_identify b (sv_netLocator s))"
  by (simp_all add: with_app_def store_ok_def netloc.find_enter)

theorem message_reaches_application_witness:
  "\<exists>s'. Help_SendProtoApp MI_AppRegister [7] APP_GAME 1
      (with_app \<lparr>Socket = 5, NetType = TcpConnector\<rparr> (GetAppKey APP_GAME 1) (server_new APP_SPACE 3)) = Some s'
    \<and> (\<exists>p q. pending 0 s' = [p] \<and> body (sv_store s' p) = [7] \<and> Socket (p_socketKey (sv_store s' p)) = 5)"
proof -
  let ?k = "\<lparr>Socket = 5, NetType = TcpConnector\<rparr>"
  let ?s = "with_app ?k (GetAppKey APP_GAME 1) (server_new APP_SPACE 3)"
  have t: "locator_tags_ok ?s" by (auto simp: locator_tags_ok_def split: if_splits)
  have "\<not> is_local APP_GAME ?s" by (simp add: is_local_def app_type_defs)
  then have r: "app_route APP_GAME 1 ?s = Some (Some (app_identify ?k (GetAppKey APP_GAME 1)), ToNetwork 0)"
    by (simp add: app_route_def route_of_def)
  have "pending 0 ?s = []" by (simp add: pending_def server_new_def Network_new_def)
  then show ?thesis
    using message_reaches_application [of ?s "[7]" MI_AppRegister APP_GAME 1] t r
    by (fastforce simp: delivered_def carries_def)
qed

text \<open>
  When a connection to another application is established, that application can be found by its key
  from then on, on the new socket, whatever connection it had before; and a process that is not a manager
  announces itself to a manager, game or space application by one registration message, which goes to the
  network of the new connection.
\<close>

theorem connection_is_registered:
  assumes "store_ok s" "nl_ok (sv_netLocator s)" "locator_tags_ok s" "length (wire \<lparr>ar_type = g_appType (sv_global s), ar_id = g_appId (sv_global s)\<rparr>) < 65536"
    and t: "t \<in> {APP_APPMGR, APP_GAME, APP_SPACE}" "g_appType (sv_global s) AND APP_APPMGR = 0"
      "\<not> is_local t s"
    and i: "0 \<le> i" "i < 65536"
    and k: "Socket k \<noteq> INVALID_SOCKET" "NetType k \<noteq> NtNone"
  shows "\<exists>s' p q. AddNetworkIdentify wire k (GetAppKey t i) s = Some s'
    \<and> GetNetworkIdentify t i (sv_netLocator s') = app_identify k (GetAppKey t i)
    \<and> (\<forall>a. a \<noteq> GetAppKey t i \<longrightarrow> find_identify a (sv_netLocator s') = find_identify a (sv_netLocator s))
    \<and> sv_store s' = (sv_store s)(p := q)
    \<and> carries MI_AppRegister (wire \<lparr>ar_type = g_appType (sv_global s), ar_id = g_appId (sv_global s)\<rparr>)
        (Some (app_identify k (GetAppKey t i))) q
    \<and> delivered (route_of k s) p s s'"
proof -
  let ?a = "GetAppKey t i" and ?w = "wire \<lparr>ar_type = g_appType (sv_global s), ar_id = g_appId (sv_global s)\<rparr>"
  let ?s = "with_app k ?a s"
  have tr: "0 \<le> t" "t < 4294967296" using t(1) by (auto simp: app_type_defs)
  have ty: "GetTypeFromAppKey ?a = t" using GetTypeFromAppKey_key [OF tr] i by simp
  have id: "GetIdFromAppKey ?a = i" using GetIdFromAppKey_key [OF tr i] .
  have g: "(t AND APP_APPMGR \<noteq> 0 \<or> t AND APP_SPACE \<noteq> 0 \<or> t AND APP_GAME \<noteq> 0)"
    using t(1) by (auto simp: app_type_defs)
  have f: "GetNetworkIdentify t i (sv_netLocator ?s) = app_identify k ?a" "ident_ok (Some (app_identify k ?a))"
    using with_app_simps(6) [OF assms(2), of ?a k ?a] by (simp_all add: GetNetworkIdentify_def find_identify_def ident_ok_def)
  have "AddNetworkIdentify wire k ?a s = Help_SendProto MI_AppRegister ?w (Some (app_identify k ?a)) ?s"
    using t(2,3) g f(1) k(2) unfolding AddNetworkIdentify_def ty id Let_def with_app_def [symmetric]
    by (simp add: Help_SendProtoApp_def is_local_def)
  moreover have "route_of k ?s = route_of k s" by (simp add: route_of_def split: option.split)
  moreover have "delivered r p ?s s' = delivered r p s s'" for r p s' by (simp add: delivered_def pending_def inbox_def)
  moreover have "sv_store ?s = sv_store s" by (simp add: with_app_def)
  moreover obtain p q s' where d: "Help_SendProto MI_AppRegister ?w (Some (app_identify k ?a)) ?s = Some s'"
      "sv_store s' = (sv_store ?s)(p := q)" "carries MI_AppRegister ?w (Some (app_identify k ?a)) q"
      "delivered (route_of k ?s) p ?s s'" "sv_netLocator s' = sv_netLocator ?s"
    using Help_SendProto_delivered [of ?s ?w "Some (app_identify k ?a)" MI_AppRegister] assms(1,4) f(2) by auto
  moreover have "find_identify b (sv_netLocator ?s) = find_identify b (sv_netLocator s)" if "b \<noteq> ?a" for b
    using that assms(2) by simp
  ultimately show ?thesis using f(1) by (intro exI [of _ s'] exI [of _ p] exI [of _ q]) simp
qed

theorem connection_is_registered_witness:
  "\<exists>s'. AddNetworkIdentify (\<lambda>r. [word_of_int (ar_type r), word_of_int (ar_id r)]) \<lparr>Socket = 5, NetType = TcpConnector\<rparr> (GetAppKey APP_GAME 1)
      (server_new APP_SPACE 3) = Some s'
    \<and> Socket (ni_socket (GetNetworkIdentify APP_GAME 1 (sv_netLocator s'))) = 5
    \<and> (\<exists>p. pending 0 s' = [p] \<and> body (sv_store s' p) = [32, 3])"
proof -
  let ?k = "\<lparr>Socket = 5, NetType = TcpConnector\<rparr>" and ?w = "\<lambda>r. [word_of_int (ar_type r), word_of_int (ar_id r)] :: u8 list"
  let ?s = "server_new APP_SPACE 3"
  have 1: "locator_tags_ok ?s" "\<not> is_local APP_GAME ?s" "g_appType (sv_global ?s) AND APP_APPMGR = 0"
    by (simp_all add: locator_tags_ok_def is_local_def app_type_defs)
  have r: "route_of ?k ?s = ToNetwork 0" by (simp add: route_of_def)
  have p: "pending 0 ?s = []" by (simp add: pending_def server_new_def Network_new_def)
  from connection_is_registered [OF server_new_ok(1,2) 1(1), of ?w APP_GAME 1 ?k] 1 r p show ?thesis
    by (fastforce simp: carries_def delivered_def app_type_defs)
qed

text \<open>
  When an application's connection is lost, it is forgotten and, if the configuration has its end point,
  one request to connect to it again is handed to the threads, carrying its key; if the configuration has
  none, the handler dereferences a null pointer.
\<close>

theorem lost_application_is_reconnected:
  assumes "store_ok s" "GetTagValue (p_tagKey (sv_store s m)) TagApp = Some v" "\<And>r. length (wire r) < 65536"
    "nl_ok (sv_netLocator s)"
  shows "case GetIPEndPoint (GetTypeFromAppKey (KeyInt64 v)) (GetIdFromAppKey (KeyInt64 v)) y of
      None \<Rightarrow> NetworkLocator_HandleNetworkDisconnect wire y m s = None
    | Some c \<Rightarrow> \<exists>s' p q. NetworkLocator_HandleNetworkDisconnect wire y m s = Some s'
        \<and> (\<forall>a. find_identify a (sv_netLocator s') = (if a = KeyInt64 v then None else find_identify a (sv_netLocator s)))
        \<and> sv_store s' = (sv_store s)(p := q) \<and> delivered ToThreads p s s'
        \<and> carries MI_NetworkConnect (wire \<lparr>nc_network_type = 2, nc_tag_type = 2, nc_value_int64 = KeyInt64 v,
             nc_value_str = [], nc_ip = IntraIp c, nc_port = Port c\<rparr>) None q"
proof (cases "GetIPEndPoint (GetTypeFromAppKey (KeyInt64 v)) (GetIdFromAppKey (KeyInt64 v)) y")
  case None
  then show ?thesis using assms(2) by (simp add: NetworkLocator_HandleNetworkDisconnect_def Let_def)
next
  case (Some c)
  let ?s = "s\<lparr>sv_netLocator := forget_identify (KeyInt64 v) (sv_netLocator s)\<rparr>"
  let ?w = "wire \<lparr>nc_network_type = 2, nc_tag_type = 2, nc_value_int64 = KeyInt64 v, nc_value_str = [],
      nc_ip = IntraIp c, nc_port = Port c\<rparr>"
  have e: "NetworkLocator_HandleNetworkDisconnect wire y m s = Help_DispatchProto MI_NetworkConnect ?w None ?s"
    using Some assms(2) by (simp add: NetworkLocator_HandleNetworkDisconnect_def Let_def Help_CreateConnect_def)
  have "store_ok ?s" "ident_ok None" "length ?w < 2147352576"
    using assms(1) assms(3) [of "\<lparr>nc_network_type = 2, nc_tag_type = 2, nc_value_int64 = KeyInt64 v, nc_value_str = [],
      nc_ip = IntraIp c, nc_port = Port c\<rparr>"] by (simp_all add: store_ok_def ident_ok_def)
  then obtain p q s' where d: "Help_DispatchProto MI_NetworkConnect ?w None ?s = Some s'" "sv_store s' = (sv_store s)(p := q)"
      "carries MI_NetworkConnect ?w None q" "delivered ToThreads p ?s s'"
      "sv_netLocator s' = forget_identify (KeyInt64 v) (sv_netLocator s)"
    using Help_DispatchProto_delivered [of ?s ?w None MI_NetworkConnect] by auto
  have "delivered ToThreads p s s'" using d(4) by (simp add: delivered_def pending_def inbox_def)
  then show ?thesis using Some d netloc.find_forget [OF assms(4)] unfolding e by auto
qed

theorem lost_application_is_reconnected_witness:
  "\<exists>s m. GetTagValue (p_tagKey (sv_store s m)) TagApp = Some \<lparr>KeyStr = [], KeyInt64 = GetAppKey APP_GAME 1\<rparr>
     \<and> NetworkLocator_HandleNetworkDisconnect (\<lambda>r. []) yaml_empty m (s :: unit server) = None"
proof -
  let ?v = "\<lparr>KeyStr = [], KeyInt64 = GetAppKey APP_GAME 1\<rparr>"
  let ?s = "server_new APP_SPACE 3\<lparr>sv_store := \<lambda>_. Packet\<lparr>p_tagKey := [(TagApp, ?v)]\<rparr>\<rparr>"
  have o: "store_ok ?s" "nl_ok (sv_netLocator ?s)" using server_new_ok(2) [of APP_SPACE 3]
    by (simp_all add: store_ok_def pk_ok_def Packet_def DEFAULT_PACKET_BUFFER_SIZE_def)
  have t: "GetTagValue (p_tagKey (sv_store ?s 0)) TagApp = Some ?v" by (simp add: GetTagValue_def)
  from lost_application_is_reconnected [OF o(1) t, of "\<lambda>_. []" yaml_empty] o(2) t show ?thesis
    by (intro exI [of _ ?s] exI [of _ 0]) (simp add: GetIPEndPoint_def GetConfig_def yaml_empty_def)
qed

end
