(* ===== verification/Http.thy ===== *)
theory Http
  imports Messaging
begin

text \<open>
  HTTP on the server's sockets: \<open>RecvNetworkBuffer::GetHttpPacket\<close> (\<open>network_buffer.cpp\<close>) and \<open>ParseHttp\<close>,
  \<open>SendHttpResponse\<close> and \<open>SendHttpRequest\<close> (\<open>message_system_help.cpp\<close>). The HTTP parser of the vendored
  mongoose library is a parameter, except \<open>mg_skip\<close>, with which the server itself takes chunked bodies apart.
\<close>

subsection \<open>Strings and numbers\<close>

definition bytes_of_string :: "string \<Rightarrow> u8 list" where
  "bytes_of_string s = map (\<lambda>c. of_nat (of_char c)) s"

fun dec_nat :: "nat \<Rightarrow> string" where
  "dec_nat n = (if n < 10 then [char_of (48 + n)] else dec_nat (n div 10) @ [char_of (48 + n mod 10)])"

declare dec_nat.simps [simp del]

definition dec :: "int \<Rightarrow> string" where
  "dec i = (if i < 0 then CHR ''-'' # dec_nat (nat (- i)) else dec_nat (nat i))"

definition is_digit :: "u8 \<Rightarrow> bool" where
  "is_digit c = (48 \<le> c \<and> c \<le> 57)"

definition is_space :: "u8 \<Rightarrow> bool" where
  "is_space c = (c = 32 \<or> (9 \<le> c \<and> c \<le> 13))"

text \<open>\<open>std::atoi\<close>; \<open>None\<close> when it runs out of the block of memory it reads.\<close>

fun atoi_digits :: "int \<Rightarrow> u8 list \<Rightarrow> int option" where
  "atoi_digits n [] = None"
| "atoi_digits n (c # cs) = (if is_digit c then atoi_digits (n * 10 + (uint c - 48)) cs else Some n)"

fun atoi :: "u8 list \<Rightarrow> int option" where
  "atoi [] = None"
| "atoi (c # cs) =
     (if is_space c then atoi cs
      else if c = 45 then map_option uminus (atoi_digits 0 cs)
      else if c = 43 then atoi_digits 0 cs
      else atoi_digits 0 (c # cs))"

text \<open>
  \<open>mg_skip(s, end, delims, v)\<close> over the bytes from \<open>s\<close> to \<open>end\<close>: the token before the delimiters and what
  follows them. The \<open>strchr\<close> in it finds the final zero of \<open>delims\<close>, so a zero byte is a delimiter too.
\<close>

definition mg_skip :: "u8 list \<Rightarrow> u8 list \<Rightarrow> u8 list \<times> u8 list" where
  "mg_skip delims s =
     (let delim = (\<lambda>c. c = 0 \<or> c \<in> set delims); v = takeWhile (\<lambda>c. \<not> delim c) s
      in (v, dropWhile delim (drop (length v) s)))"

record http_message =
  hm_method :: string
  hm_uri :: string
  hm_resp_code :: int

record mongoose =
  mg_parse_http :: "u8 list \<Rightarrow> bool \<Rightarrow> int \<times> http_message"
  mg_get_http_header :: "http_message \<Rightarrow> string \<Rightarrow> u8 list option"
  mg_vcasecmp :: "string \<Rightarrow> string \<Rightarrow> int"
  mg_http_get_request_len :: "u8 list \<Rightarrow> int"
  mg_status_message :: "int \<Rightarrow> string"

record http_proto =
  hp_body :: "u8 list"
  hp_status_code :: int

subsection \<open>\<open>ParseHttp\<close>\<close>

text \<open>
  The loop over the chunks: \<open>s\<close> is the memory from the read position, of which \<open>n\<close> bytes are before \<open>end\<close>.
\<close>

abbreviation crlf :: "u8 list" where "crlf \<equiv> [13, 10]"

partial_function (option) chunk_loop :: "u8 list \<Rightarrow> nat \<Rightarrow> u8 list \<Rightarrow> u8 list option" where
  "chunk_loop s n acc = do {
     len \<leftarrow> atoi s;
     if len = 0 then Some acc
     else (case mg_skip crlf (take n s) of
             (tmp, s1) \<Rightarrow>
               (case mg_skip crlf s1 of
                  (tmp, s2) \<Rightarrow> chunk_loop (s2 @ drop n s) (length s2) (acc @ tmp)))
   }"

definition http_msg_id :: "mongoose \<Rightarrow> http_message \<Rightarrow> int" where
  "http_msg_id mg hm =
     (if length (hm_method hm) > 0
      then (if mg_vcasecmp mg (hm_method hm) ''GET'' = 0
            then (if mg_vcasecmp mg (hm_uri hm) ''/login'' = 0 then MI_HttpRequestLogin else MI_HttpRequestBad)
            else MI_HttpRequestBad)
      else MI_HttpOuterResponse)"

definition ParseHttp :: "mongoose \<Rightarrow> (http_proto \<Rightarrow> u8 list) \<Rightarrow> net_identify \<Rightarrow> packet \<Rightarrow> u8 list \<Rightarrow> u32 \<Rightarrow> bool \<Rightarrow>
    http_message \<Rightarrow> packet option" where
  "ParseHttp mg wire pIdentify fresh s bodyLen isChunked hm = do {
     bd \<leftarrow> (if bodyLen > 0
            then (if isChunked then chunk_loop s (unat bodyLen) [] else mem_read s 0 (unat bodyLen))
            else Some []);
     let msgId = http_msg_id mg hm;
     let proto = \<lparr>hp_body = bd, hp_status_code = (if length (hm_method hm) > 0 then 0 else hm_resp_code hm)\<rparr>;
     SerializeToBuffer (wire proto) (Packet_Awake msgId (Some pIdentify) fresh)
   }"

subsection \<open>\<open>GetHttpPacket\<close>\<close>

text \<open>
  \<open>fresh\<close> is the object the packet pool hands out. The lengths are \<open>unsigned int\<close>, as in the code: a negative
  result of the parser becomes a large one.
\<close>

definition GetHttpPacket :: "mongoose \<Rightarrow> (http_proto \<Rightarrow> u8 list) \<Rightarrow> network_type \<Rightarrow> net_identify \<Rightarrow> packet \<Rightarrow>
    net_buffer \<Rightarrow> (recv_result \<times> net_buffer) option" where
  "GetHttpPacket mg wire iType ident fresh b =
     (if b_end b < b_begin b then Some (InvalidMsg, b)
      else do {
        let recvBufLength = b_end b - b_begin b;
        let isConnector = (iType = HttpConnector);
        bs \<leftarrow> mem_read (b_buffer b) (unat (b_begin b)) (unat recvBufLength);
        let (n, hm) = mg_parse_http mg bs (\<not> isConnector);
        let headerLen = (word_of_int n :: u32);
        if headerLen \<le> 0 then Some (NoPacket, b)
        else do {
          (bodyLen, wait) \<leftarrow>
            (case mg_get_http_header mg hm ''Content-Length'' of
               None \<Rightarrow> Some (0, False)
             | Some p \<Rightarrow> do {
                 len \<leftarrow> atoi p;
                 let bodyLen = (word_of_int len :: u32);
                 Some (bodyLen, bodyLen > 0 \<and> recvBufLength < bodyLen + headerLen)
               });
          if wait then Some (NoPacket, b)
          else do {
            let isChunked = (case mg_get_http_header mg hm ''Transfer-Encoding'' of
                               None \<Rightarrow> False
                             | Some v \<Rightarrow> mg_vcasecmp mg (map (\<lambda>c. char_of (unat c)) v) ''chunked'' = 0);
            let rest = drop (unat headerLen) bs;
            if isChunked \<and> (recvBufLength = headerLen \<or> (word_of_int (mg_http_get_request_len mg rest) :: u32) \<le> 0)
            then Some (NoPacket, b)
            else do {
              let bodyLen = (if isChunked then b_end b - b_begin b - headerLen else bodyLen);
              pPacket \<leftarrow> ParseHttp mg wire ident fresh (drop (unat (b_begin b) + unat headerLen) (b_buffer b)) bodyLen isChunked hm;
              Some (Received pPacket, RemoveData (bodyLen + headerLen) b)
            }
          }
        }
      })"

subsection \<open>Sending requests and responses\<close>

definition append_bytes :: "u8 list \<Rightarrow> nat \<Rightarrow> 'h server \<Rightarrow> 'h server option" where
  "append_bytes xs p s = do {
     q \<leftarrow> SerializeBytes xs (sv_store s p);
     Some (s\<lparr>sv_store := (sv_store s)(p := q)\<rparr>)
   }"

definition http_response :: "mongoose \<Rightarrow> int \<Rightarrow> u8 list \<Rightarrow> u8 list" where
  "http_response mg status_code content =
     bytes_of_string (''HTTP/1.1 '' @ dec status_code @ '' '' @ mg_status_message mg status_code @ [CHR 13, CHR 10]
       @ ''Connection: close'' @ [CHR 13, CHR 10]
       @ ''Content-Type: application/json; charset=utf-8'' @ [CHR 13, CHR 10]
       @ ''Content-Length:'' @ dec (int (length content)) @ [CHR 13, CHR 10, CHR 13, CHR 10]) @ content"

definition SendHttpResponseBase :: "mongoose \<Rightarrow> net_identify \<Rightarrow> int \<Rightarrow> u8 list \<Rightarrow> 'h server \<Rightarrow> 'h server option" where
  "SendHttpResponseBase mg pIdentify status_code content s =
     (case GetNetwork HttpListen (sv_netLocator s) of
        None \<Rightarrow> Some s
      | Some pNetwork \<Rightarrow>
          (let (pPacket, s) = CreatePacket MI_HttpInnerResponse (Some pIdentify) s in do {
             s \<leftarrow> append_bytes (http_response mg status_code content) pPacket s;
             Some (Network_SendPacket pNetwork pPacket s)
           }))"

definition SendHttpResponse404 :: "mongoose \<Rightarrow> net_identify \<Rightarrow> 'h server \<Rightarrow> 'h server option" where
  "SendHttpResponse404 mg pIdentify s = SendHttpResponseBase mg pIdentify 404 [] s"

definition SendHttpResponse :: "mongoose \<Rightarrow> net_identify \<Rightarrow> u8 list \<Rightarrow> 'h server \<Rightarrow> 'h server option" where
  "SendHttpResponse mg pIdentify content s = SendHttpResponseBase mg pIdentify 200 content s"

fun query :: "(string \<times> string) list \<Rightarrow> string" where
  "query [] = []"
| "query ((k, v) # ps) = k @ ''='' @ v @ ''&'' @ query ps"

definition http_request :: "string \<Rightarrow> int \<Rightarrow> string \<Rightarrow> (string \<times> string) list option \<Rightarrow> u8 list" where
  "http_request ip port meth pParams =
     bytes_of_string (''GET '' @ meth
       @ (case pParams of None \<Rightarrow> [] | Some ps \<Rightarrow> ''?'' @ query ps)
       @ '' HTTP/1.1'' @ [CHR 13, CHR 10]
       @ ''Host: '' @ ip @ '':'' @ dec port @ [CHR 13, CHR 10]
       @ ''Content-Type: application/json; charset=utf-8'' @ [CHR 13, CHR 10]
       @ ''Accept: */*,text/*,text/html'' @ [CHR 13, CHR 10] @ [CHR 13, CHR 10])"

definition SendHttpRequest :: "net_identify option \<Rightarrow> string \<Rightarrow> int \<Rightarrow> string \<Rightarrow> (string \<times> string) list option \<Rightarrow>
    'h server \<Rightarrow> 'h server option" where
  "SendHttpRequest pIdentify ip port meth pParams s =
     (let (pPacket, s) = CreatePacket MI_HttpOuterRequest pIdentify s in do {
        s \<leftarrow> append_bytes (http_request ip port meth pParams) pPacket s;
        Some (Help_SendPacket pPacket s)
      })"

subsection \<open>Chunked bodies\<close>

text \<open>
  A chunk as the server reads it: a line that starts with its length in decimal, and one line of data.
\<close>

definition plain_line :: "u8 list \<Rightarrow> bool" where
  "plain_line xs = (xs \<noteq> [] \<and> (\<forall>c \<in> set xs. c \<noteq> 0 \<and> c \<noteq> 13 \<and> c \<noteq> 10))"

definition chunk_ok :: "u8 list \<times> u8 list \<Rightarrow> bool" where
  "chunk_ok c = (plain_line (fst c) \<and> plain_line (snd c) \<and> (\<exists>n. atoi (fst c @ crlf) = Some n \<and> n \<noteq> 0))"

fun chunks_bytes :: "(u8 list \<times> u8 list) list \<Rightarrow> u8 list" where
  "chunks_bytes [] = []"
| "chunks_bytes ((l, d) # cs) = l @ crlf @ d @ crlf @ chunks_bytes cs"

lemma mg_skip_line:
  assumes "plain_line l" "\<And>c cs. rest = c # cs \<Longrightarrow> c \<noteq> 0 \<and> c \<noteq> 13 \<and> c \<noteq> 10"
  shows "mg_skip crlf (l @ crlf @ rest) = (l, rest)"
proof -
  have "takeWhile (\<lambda>c. c \<noteq> 0 \<and> c \<noteq> 13 \<and> c \<noteq> 10) (l @ 13 # 10 # rest) = l"
    using assms(1) by (subst takeWhile_append2) (auto simp: plain_line_def)
  moreover have "dropWhile (\<lambda>c. c = 0 \<or> c = 13 \<or> c = 10) rest = rest"
    using assms(2) by (cases rest) auto
  ultimately show ?thesis by (simp add: mg_skip_def Let_def)
qed

lemma atoi_digits_append: "atoi_digits n xs = Some k \<Longrightarrow> atoi_digits n (xs @ ys) = Some k"
  by (induction n xs rule: atoi_digits.induct) (auto split: if_splits)

lemma atoi_append: "atoi xs = Some k \<Longrightarrow> atoi (xs @ ys) = Some k"
proof (induction xs rule: atoi.induct)
  case (2 c cs)
  then show ?case using atoi_digits_append [of 0 "c # cs" k ys]
    by (auto simp: atoi_digits_append split: if_splits simp del: atoi_digits.simps)
qed simp

lemma chunk_loop_append:
  "chunk_loop (s @ beyond) (length s) acc =
     Option.bind (atoi (s @ beyond)) (\<lambda>len. if len = 0 then Some acc
       else (case mg_skip crlf s of (tmp, s1) \<Rightarrow> (case mg_skip crlf s1 of (tmp, s2) \<Rightarrow>
               chunk_loop (s2 @ beyond) (length s2) (acc @ tmp))))"
  by (subst chunk_loop.simps) (simp cong: if_cong)

lemma chunk_step:
  assumes "chunk_ok (l, d)" "\<And>c cs. rest = c # cs \<Longrightarrow> c \<noteq> 0 \<and> c \<noteq> 13 \<and> c \<noteq> 10"
  shows "chunk_loop (l @ crlf @ d @ crlf @ rest @ beyond) (length (l @ crlf @ d @ crlf @ rest)) acc
    = chunk_loop (rest @ beyond) (length rest) (acc @ d)"
proof -
  obtain n where n: "atoi (l @ crlf) = Some n" "n \<noteq> 0" and p: "plain_line l" "plain_line d"
    using assms(1) by (auto simp: chunk_ok_def)
  have a: "atoi (l @ crlf @ d @ crlf @ rest @ beyond) = Some n"
    using atoi_append [OF n(1), of "d @ crlf @ rest @ beyond"] by simp
  have 1: "mg_skip crlf (l @ crlf @ d @ crlf @ rest) = (l, d @ crlf @ rest)"
    using p by (intro mg_skip_line) (cases d; auto simp: plain_line_def)+
  have 2: "mg_skip crlf (d @ crlf @ rest) = (d, rest)" using p(2) assms(2) by (rule mg_skip_line)
  show ?thesis
    using chunk_loop_append [of "l @ crlf @ d @ crlf @ rest" beyond acc, unfolded 1] n(2) 2 a by simp
qed

lemma chunks_head:
  assumes "\<forall>c \<in> set cs. chunk_ok c" "chunks_bytes cs @ 48 # z = c # xs"
  shows "c \<noteq> 0 \<and> c \<noteq> 13 \<and> c \<noteq> 10"
proof (cases cs)
  case (Cons q cs')
  obtain l d where q: "q = (l, d)" by force
  then have "plain_line l" using assms(1) Cons by (simp add: chunk_ok_def)
  then show ?thesis using assms(2) Cons q by (cases l) (auto simp: plain_line_def)
qed (use assms(2) in auto)

text \<open>
  C15. A chunked HTTP body whose chunks are lines, each announced by a nonzero decimal length, is put together
  in order up to the terminating chunk of length zero, and the loop over the chunks ends.
\<close>

theorem chunked_body_joined:
  assumes "\<forall>c \<in> set cs. chunk_ok c"
  shows "chunk_loop (chunks_bytes cs @ 48 # crlf @ beyond) (length (chunks_bytes cs) + 3) [] = Some (concat (map snd cs))"
proof -
  have "chunk_loop (chunks_bytes cs @ (48 # crlf) @ beyond) (length (chunks_bytes cs @ 48 # crlf)) acc
      = Some (acc @ concat (map snd cs))" for acc
    using assms
  proof (induction cs arbitrary: acc)
    case Nil
    show ?case by (subst chunk_loop.simps) (simp add: is_digit_def is_space_def)
  next
    case (Cons q cs)
    obtain l d where q: "q = (l, d)" by force
    have "chunk_loop (l @ crlf @ d @ crlf @ (chunks_bytes cs @ 48 # crlf) @ beyond)
        (length (l @ crlf @ d @ crlf @ (chunks_bytes cs @ 48 # crlf))) acc
      = chunk_loop ((chunks_bytes cs @ 48 # crlf) @ beyond) (length (chunks_bytes cs @ 48 # crlf)) (acc @ d)"
    proof (rule chunk_step)
      show "chunk_ok (l, d)" using Cons.prems q by simp
      show "c \<noteq> 0 \<and> c \<noteq> 13 \<and> c \<noteq> 10" if "chunks_bytes cs @ 48 # crlf = c # xs" for c xs
        using chunks_head [OF _ that] Cons.prems by simp
    qed
    then show ?case using Cons.IH [of "acc @ d"] Cons.prems q by simp
  qed
  from this [of "[]"] show ?thesis by (simp add: numeral_3_eq_3)
qed

theorem chunked_body_joined_witness:
  "chunk_loop ([51, 13, 10, 97, 98, 99, 13, 10, 50, 13, 10, 100, 101, 13, 10] @ 48 # crlf @ []) 18 [] = Some [97, 98, 99, 100, 101]"
proof -
  let ?cs = "[([51], [97, 98, 99]), ([50], [100, 101])] :: (u8 list \<times> u8 list) list"
  have "\<forall>c \<in> set ?cs. chunk_ok c"
    by (simp add: chunk_ok_def plain_line_def is_digit_def is_space_def)
  from chunked_body_joined [OF this, of "[]"] show ?thesis by simp
qed

text \<open>
  The length of a chunk is hexadecimal in HTTP but is read with \<open>atoi\<close>: a chunk of ten to fifteen bytes, whose
  length is written with a letter, ends the body, and it and all chunks after it are lost.
\<close>

theorem chunk_with_hex_length_is_lost:
  assumes "97 \<le> c" "c \<le> (102 :: u8)"
  shows "chunk_loop (c # rest) n acc = Some acc"
proof -
  have "\<not> is_digit c" "\<not> is_space c" "c \<noteq> 45" "c \<noteq> 43"
    using assms by (auto simp: is_digit_def is_space_def word_le_nat_alt)
  then show ?thesis by (subst chunk_loop.simps) simp
qed

theorem chunk_with_hex_length_is_lost_witness:
  "chunk_loop ([97, 13, 10] @ replicate 10 120 @ [13, 10, 48, 13, 10]) 18 [] = Some []"
  using chunk_with_hex_length_is_lost [of 97 "[13, 10] @ replicate 10 120 @ [13, 10, 48, 13, 10]" 18 "[]"] by simp

lemma SerializeBytes_ref:
  "SerializeBytes xs p = Some q \<Longrightarrow> pk_ok p \<Longrightarrow> unat (b_end p) + length xs < 2147352576 \<Longrightarrow>
     p_ref q = p_ref p \<and> p_isRefOpen q = p_isRefOpen p"
proof -
  assume s: "SerializeBytes xs p = Some q" and ok: "pk_ok p" and n: "unat (b_end p) + length xs < 2147352576"
  have "unat (of_nat (length xs) :: u32) = length xs" using n by (simp add: unat_of_nat)
  then obtain t sz where "reserve (of_nat (length xs)) p = Some (enlarge t sz p)"
    using reserve_ok [OF ok, of "of_nat (length xs)"] n by auto
  then show ?thesis using s by (auto simp: SerializeBytes_def Let_def Packet_FillData_def split: bind_splits)
qed

subsection \<open>Whole requests and responses\<close>

lemma straight_contents:
  assumes ok: "nb_ok b" and lt: "b_begin b < b_end b"
  shows "mem_read (b_buffer b) (unat (b_begin b)) (unat (b_end b - b_begin b)) = Some (contents b)"
    "unat (b_end b - b_begin b) = length (contents b)" "unat (b_data b) = length (contents b)"
    "\<exists>z. drop (unat (b_begin b)) (b_buffer b) = contents b @ z"
proof -
  note d = nb_okD(1-5) [OF ok]
  have l: "unat (b_begin b) < unat (b_end b)" using lt by (simp add: word_less_nat_alt)
  have u: "unat (b_end b - b_begin b) = unat (b_end b) - unat (b_begin b)" using lt by (simp add: unat_minus)
  have dt: "unat (b_data b) = unat (b_end b) - unat (b_begin b)"
    using ok by (rule nb_end_cases) (use l in auto)
  have c: "contents b = take (unat (b_end b) - unat (b_begin b)) (drop (unat (b_begin b)) (b_buffer b))"
    using d dt by (simp add: contents_def)
  show "unat (b_end b - b_begin b) = length (contents b)" "unat (b_data b) = length (contents b)"
    using u dt length_contents [OF ok] by simp_all
  show "mem_read (b_buffer b) (unat (b_begin b)) (unat (b_end b - b_begin b)) = Some (contents b)"
    using d l u c by simp
  show "\<exists>z. drop (unat (b_begin b)) (b_buffer b) = contents b @ z"
    unfolding c by (metis append_take_drop_id)
qed

lemma http_message_straight:
  assumes ok: "nb_ok b" "b_begin b < b_end b" and c: "contents b = hdr @ bd @ rest" and h: "hdr \<noteq> []"
    and parse: "mg_parse_http mg (contents b) (t \<noteq> HttpConnector) = (int (length hdr), hm)"
    and len: "case mg_get_http_header mg hm ''Content-Length'' of
        None \<Rightarrow> bd = [] | Some v \<Rightarrow> atoi v = Some (int (length bd))"
    and te: "mg_get_http_header mg hm ''Transfer-Encoding'' = None"
    and fresh: "pk_ok fresh" and tags: "tags_ok (ni_tags ident)" and w: "\<And>p. length (wire p) < 2147352576"
  shows "\<exists>q b'. GetHttpPacket mg wire t ident fresh b = Some (Received q, b')
    \<and> carries (http_msg_id mg hm)
        (wire \<lparr>hp_body = bd, hp_status_code = (if hm_method hm = [] then hm_resp_code hm else 0)\<rparr>) (Some ident) q
    \<and> nb_ok b' \<and> contents b' = rest"
proof -
  note s = straight_contents [OF ok]
  let ?n = "b_end b - b_begin b" and ?h = "word_of_int (int (length hdr)) :: u32" and ?b = "of_nat (length bd) :: u32"
  have bound: "length (contents b) < 2147483648"
    using length_contents [OF ok(1)] nb_okD(4,5) [OF ok(1)] by simp
  have uh: "unat ?h = length hdr" "unat ?b = length bd"
    using bound unfolding c by (simp_all add: unat_of_nat)
  have hb: "unat (?b + ?h) = length bd + length hdr"
    using bound uh unfolding c by (simp add: unat_plus32)
  have h0: "\<not> ?h \<le> 0" using uh(1) h by (auto simp: word_le_nat_alt)
  have nw: "\<not> ?n < ?b + ?h" unfolding word_less_nat_alt hb s(2) unfolding c by simp
  define bl :: u32 where "bl = (if mg_get_http_header mg hm ''Content-Length'' = None then 0 else ?b)"
  have bl: "bl = ?b" using len by (auto simp: bl_def split: option.splits)
  obtain z where z: "drop (unat (b_begin b)) (b_buffer b) = contents b @ z" using s(4) by blast
  have dr: "drop (unat (b_begin b) + unat ?h) (b_buffer b) = bd @ rest @ z"
    using arg_cong [OF z, of "drop (unat ?h)"] uh unfolding c by (simp add: add.commute)
  let ?hp = "\<lparr>hp_body = bd, hp_status_code = (if length (hm_method hm) > 0 then 0 else hm_resp_code hm)\<rparr>"
  let ?a = "Packet_Awake (http_msg_id mg hm) (Some ident) fresh"
  have a: "carries (http_msg_id mg hm) [] (Some ident) ?a"
    using fresh tags by (intro Awake_carries) (simp_all add: ident_ok_def)
  obtain q where q: "SerializeToBuffer (wire ?hp) ?a = Some q" "carries (http_msg_id mg hm) (wire ?hp) (Some ident) q"
    using SerializeToBuffer_ok [of ?a "wire ?hp"] w [of ?hp] a by (auto simp: carries_def)
  have ph: "ParseHttp mg wire ident fresh (bd @ rest @ z) ?b False hm = Some q"
    using q(1) uh(2) by (cases "bd = []") (auto simp: ParseHttp_def word_gt_0 Let_def)
  define n where "n = int (length hdr)"
  define hl where "hl = ?h"
  define k where "k = ?b"
  have p: "mg_parse_http mg (contents b) (t \<noteq> HttpConnector) = (n, hm)" "word_of_int n = hl"
    using parse by (simp_all add: n_def hl_def)
  have nlt: "\<not> b_end b < b_begin b" using ok(2) by simp
  have "GetHttpPacket mg wire t ident fresh b = Some (Received q, RemoveData (k + hl) b)"
  proof (cases "mg_get_http_header mg hm ''Content-Length''")
    case None
    then have k0: "k = 0" "bd = []" using bl by (simp_all add: bl_def k_def) (use None len in simp)
    show ?thesis unfolding GetHttpPacket_def Let_def
      using None nlt s(1) p h0 [folded hl_def] te dr [folded hl_def] ph [folded k_def] k0 by simp
  next
    case (Some v)
    then have v: "atoi v = Some (int (length bd))" using len by simp
    have wk: "word_of_int (int (length bd)) = k" by (simp add: k_def)
    show ?thesis unfolding GetHttpPacket_def Let_def
      using Some nlt s(1) p h0 [folded hl_def] te dr [folded hl_def] ph [folded k_def] nw [folded hl_def k_def] v wk
      by (simp del: of_int_of_nat_eq)
  qed
  moreover have "nb_ok (RemoveData (k + hl) b)" "contents (RemoveData (k + hl) b) = rest"
    unfolding k_def hl_def using ring.read_field [OF ok(1), of "hdr @ bd" rest "?b + ?h"] hb c by simp_all
  ultimately show ?thesis using q(2) by auto
qed

lemma wrapped_http_is_dropped:
  "b_end b < b_begin b \<Longrightarrow> GetHttpPacket mg wire t ident fresh b = Some (InvalidMsg, b)"
  by (simp add: GetHttpPacket_def)

text \<open>
  C14. A complete HTTP message without a transfer encoding is at the front of the ring. If the bytes of the ring have
  not wrapped round, it is taken off, header and body and nothing more, and becomes one packet with the identity of
  the connection: a login request, a bad request or a response, carrying exactly the announced number of body bytes.
  If they have wrapped round, the same message is not even looked at: the ring stays as it is and the connection is
  reported as invalid, which closes it. (A ring whose read and write positions meet is not covered, and a message
  with chunks takes the whole ring with it, see \<open>GetHttpPacket\<close>.)
\<close>

theorem http_message_received:
  assumes ok: "nb_ok b" "b_begin b \<noteq> b_end b" and c: "contents b = hdr @ bd @ rest" and h: "hdr \<noteq> []"
    and parse: "mg_parse_http mg (contents b) (t \<noteq> HttpConnector) = (int (length hdr), hm)"
    and len: "case mg_get_http_header mg hm ''Content-Length'' of
        None \<Rightarrow> bd = [] | Some v \<Rightarrow> atoi v = Some (int (length bd))"
    and te: "mg_get_http_header mg hm ''Transfer-Encoding'' = None"
    and fresh: "pk_ok fresh" and tags: "tags_ok (ni_tags ident)" and w: "\<And>p. length (wire p) < 2147352576"
  shows "if b_begin b < b_end b
    then \<exists>q b'. GetHttpPacket mg wire t ident fresh b = Some (Received q, b')
      \<and> carries (http_msg_id mg hm)
          (wire \<lparr>hp_body = bd, hp_status_code = (if hm_method hm = [] then hm_resp_code hm else 0)\<rparr>) (Some ident) q
      \<and> nb_ok b' \<and> contents b' = rest
    else GetHttpPacket mg wire t ident fresh b = Some (InvalidMsg, b)"
proof (cases "b_begin b < b_end b")
  case True
  show ?thesis unfolding if_P [OF True] by (rule http_message_straight [where wire = wire, OF ok(1) True c h parse len te fresh tags w])
next
  case False
  then have "b_end b < b_begin b" using ok(2) by simp
  from wrapped_http_is_dropped [OF this] False show ?thesis by simp
qed

definition sample_mongoose :: mongoose where
  "sample_mongoose =
     \<lparr>mg_parse_http = (\<lambda>bs is_req. (3, \<lparr>hm_method = ''GET'', hm_uri = ''/login'', hm_resp_code = 0\<rparr>)),
      mg_get_http_header = (\<lambda>hm name. if name = ''Content-Length'' then Some [50, 13] else None),
      mg_vcasecmp = (\<lambda>a b. if a = b then 0 else 1),
      mg_http_get_request_len = (\<lambda>bs. 0), mg_status_message = (\<lambda>c. ''OK'')\<rparr>"

theorem http_message_received_witness:
  "\<exists>q b'. GetHttpPacket sample_mongoose hp_body HttpListen NetIdentify_empty Packet
      \<lparr>b_buffer = [1, 2, 3, 4, 5, 6, 0, 0], b_begin = 0, b_end = 6, b_size = 8, b_data = 6\<rparr> = Some (Received q, b')
    \<and> p_msgId q = MI_HttpRequestLogin \<and> body q = [4, 5] \<and> contents b' = [6]"
proof -
  let ?b = "\<lparr>b_buffer = [1, 2, 3, 4, 5, 6, 0, 0], b_begin = 0, b_end = 6, b_size = 8, b_data = 6\<rparr> :: net_buffer"
  let ?w = "\<lambda>p. take 9 (hp_body p)" and ?hm = "\<lparr>hm_method = ''GET'', hm_uri = ''/login'', hm_resp_code = 0\<rparr>"
  have b: "nb_ok ?b" "b_begin ?b \<noteq> b_end ?b" "b_begin ?b < b_end ?b" "contents ?b = [1, 2, 3] @ [4, 5] @ [6]"
    by (simp_all add: nb_ok_def contents_def)
  have p: "mg_parse_http sample_mongoose (contents ?b) (HttpListen \<noteq> HttpConnector) = (int (length [1, 2, 3 :: u8]), ?hm)"
    by (simp add: sample_mongoose_def)
  have l: "case mg_get_http_header sample_mongoose ?hm ''Content-Length'' of
      None \<Rightarrow> [4, 5] = ([] :: u8 list) | Some v \<Rightarrow> atoi v = Some (int (length [4, 5 :: u8]))"
    by (simp add: sample_mongoose_def is_space_def is_digit_def)
  have t: "mg_get_http_header sample_mongoose ?hm ''Transfer-Encoding'' = None" by (simp add: sample_mongoose_def)
  have i: "tags_ok (ni_tags NetIdentify_empty)" by (simp add: NetIdentify_empty_def tags_ok_def)
  have w: "length (?w p) < 2147352576" for p by simp
  have m: "http_msg_id sample_mongoose ?hm = MI_HttpRequestLogin" by (simp add: http_msg_id_def sample_mongoose_def)
  have e: "GetHttpPacket sample_mongoose hp_body HttpListen NetIdentify_empty Packet ?b
      = GetHttpPacket sample_mongoose ?w HttpListen NetIdentify_empty Packet ?b"
    unfolding GetHttpPacket_def ParseHttp_def
    by (simp add: sample_mongoose_def is_space_def is_digit_def Let_def)
  show ?thesis unfolding e
    using http_message_received [OF b(1,2,4) _ p l t packet_ops_ok(1) i w] b(3) m by (fastforce simp: carries_def)
qed

text \<open>
  An HTTP response is handed to the listening network as one packet on the socket of the request, whose
  bytes are the status line, the fixed headers with the length of the content, an empty line and the content.
\<close>

theorem http_response_sent:
  assumes "store_ok s" "GetNetwork HttpListen (sv_netLocator s) = Some n"
    "nw_networkType (sv_networks s n) = HttpListen" "NetType (ni_socket ident) = HttpListen" "tags_ok (ni_tags ident)"
    "length (http_response mg code content) < 2147352576"
  shows "\<exists>s' p q. SendHttpResponseBase mg ident code content s = Some s' \<and> sv_store s' = (sv_store s)(p := q)
    \<and> carries MI_HttpInnerResponse (http_response mg code content) (Some ident) q
    \<and> delivered (ToNetwork n) p s s'"
proof -
  obtain p s1 where c: "CreatePacket MI_HttpInnerResponse (Some ident) s = (p, s1)" by force
  note f = CreatePacket_fields [OF c]
  let ?a = "Packet_Awake MI_HttpInnerResponse (Some ident) (sv_store s p)"
  have a: "carries MI_HttpInnerResponse [] (Some ident) ?a"
    using assms(1,5) by (intro Awake_carries) (simp_all add: store_ok_def ident_ok_def)
  then obtain q where q: "SerializeBytes (http_response mg code content) ?a = Some q"
      "carries MI_HttpInnerResponse (http_response mg code content) (Some ident) q"
    using SerializeBytes_ok [of ?a "http_response mg code content"] SerializeBytes_ref assms(6) by (fastforce simp: carries_def)
  let ?s = "s1\<lparr>sv_store := (sv_store s)(p := q)\<rparr>"
  have "SendHttpResponseBase mg ident code content s = Some (Network_SendPacket n p ?s)"
    using assms(2) c q(1) f(1) by (simp add: SendHttpResponseBase_def append_bytes_def)
  moreover have "pending m ?s = pending m s" "inbox ?s = inbox s" for m
    using f(2,4) by (simp_all add: pending_def inbox_def)
  then have "delivered (ToNetwork n) p s (Network_SendPacket n p ?s)"
    using assms(3,4) q(2) f(4) by (auto simp: delivered_def pending_Network_SendPacket carries_def)
  ultimately show ?thesis using q(2) by (intro exI [of _ "Network_SendPacket n p ?s"] exI [of _ p] exI [of _ q]) simp
qed

theorem http_response_sent_witness:
  "\<exists>s' p. SendHttpResponseBase sample_mongoose \<lparr>ni_socket = \<lparr>Socket = 6, NetType = HttpListen\<rparr>, ni_tags = []\<rparr> 200 [1]
      ((server_new APP_LOGIN 1)\<lparr>sv_netLocator := AddListenLocator 1 HttpListen (sv_netLocator (server_new APP_LOGIN 1)),
         sv_networks := \<lambda>n. Network_new HttpListen\<rparr>) = Some s' \<and> pending 1 s' = [p]"
proof -
  let ?s = "(server_new APP_LOGIN 1)\<lparr>sv_netLocator := AddListenLocator 1 HttpListen (sv_netLocator (server_new APP_LOGIN 1)),
         sv_networks := \<lambda>n. Network_new HttpListen\<rparr>"
  let ?i = "\<lparr>ni_socket = \<lparr>Socket = 6, NetType = HttpListen\<rparr>, ni_tags = []\<rparr>"
  have l: "length (http_response sample_mongoose 200 [1]) < 2147352576"
    by (simp add: http_response_def bytes_of_string_def sample_mongoose_def dec_def dec_nat.simps)
  have "pending 1 ?s = []" by (simp add: pending_def Network_new_def)
  moreover have "store_ok ?s" by (simp add: store_ok_def server_new_def)
  moreover have "GetNetwork HttpListen (sv_netLocator ?s) = Some 1" by (simp add: GetNetwork_def AddListenLocator_def)
  ultimately show ?thesis
    using http_response_sent [of ?s 1 ?i sample_mongoose 200 "[1]"] l
    by (fastforce simp: Network_new_def tags_ok_def delivered_def)
qed

end
