(* ===== verification/Connections.thy ===== *)
theory Connections
  imports Http
begin

text \<open>
  \<open>ConnectObj\<close> (\<open>connect_obj.cpp\<close>): one socket with its two rings. A connection is named by its network and its
  address in the network's memory, and every operation is a function on the state of the process. What the
  operating system answers to \<open>recv\<close> and \<open>send\<close> is a list of answers, one per call; an answer that the call
  cannot give, and a list that ends before the loop does, is \<open>None\<close>, as is an access outside a buffer.
\<close>

definition DEFAULT_SEND_BUFFER_SIZE :: u32 where "DEFAULT_SEND_BUFFER_SIZE = 1024 * 128"
definition DEFAULT_RECV_BUFFER_SIZE :: u32 where "DEFAULT_RECV_BUFFER_SIZE = 1024 * 128"

text \<open>The encoders of the messages the connections send.\<close>

record codec =
  cd_http :: "http_proto \<Rightarrow> u8 list"
  cd_register :: "app_register \<Rightarrow> u8 list"

subsection \<open>A connection in its network\<close>

definition upd_net :: "nat \<Rightarrow> ('h network \<Rightarrow> 'h network) \<Rightarrow> 'h server \<Rightarrow> 'h server" where
  "upd_net n f s = s\<lparr>sv_networks := (sv_networks s)(n := f (sv_networks s n))\<rparr>"

definition conn :: "nat \<Rightarrow> nat \<Rightarrow> 'h server \<Rightarrow> connect_obj" where
  "conn n a s = nw_objs (sv_networks s n) a"

definition set_conn :: "nat \<Rightarrow> nat \<Rightarrow> connect_obj \<Rightarrow> 'h server \<Rightarrow> 'h server" where
  "set_conn n a c s = upd_net n (\<lambda>nw. nw\<lparr>nw_objs := (nw_objs nw)(a := c)\<rparr>) s"

definition sock_close :: "nat \<Rightarrow> int \<Rightarrow> 'h server \<Rightarrow> 'h server" where
  "sock_close n socket s = upd_net n (\<lambda>nw. nw\<lparr>nw_closed := nw_closed nw @ [socket]\<rparr>) s"

definition ConnectObj :: connect_obj where
  "ConnectObj =
     \<lparr>ni_socket = SocketKey_None, ni_tags = [], co_state = StateNone,
      co_recvBuffer = NetworkBuffer DEFAULT_RECV_BUFFER_SIZE, co_sendBuffer = NetworkBuffer DEFAULT_SEND_BUFFER_SIZE\<rparr>"

definition ConnectObj_Awake :: "int \<Rightarrow> network_type \<Rightarrow> tag_type \<Rightarrow> tag_value \<Rightarrow> connect_state \<Rightarrow> connect_obj \<Rightarrow> connect_obj" where
  "ConnectObj_Awake socket networkType tagType tagValue state c =
     c\<lparr>ni_socket := \<lparr>Socket = socket, NetType = networkType\<rparr>,
       ni_tags := (if tagType \<noteq> TagNone then AddTagValue tagType tagValue [] else []), co_state := state\<rparr>"

definition ConnectObj_BackToPool :: "nat \<Rightarrow> nat \<Rightarrow> 'h server \<Rightarrow> 'h server" where
  "ConnectObj_BackToPool n a s =
     (let c = conn n a s;
          s = Help_DispatchMsg MI_NetworkDisconnect (Some (co_identify c)) s;
          s = (if Socket (ni_socket c) \<noteq> INVALID_SOCKET then sock_close n (Socket (ni_socket c)) s else s)
      in set_conn n a (c\<lparr>co_state := StateNone, ni_socket := SocketKey_Clear (ni_socket c), ni_tags := [],
           co_recvBuffer := NetworkBuffer_BackToPool (co_recvBuffer c),
           co_sendBuffer := NetworkBuffer_BackToPool (co_sendBuffer c)\<rparr>) s)"

definition HasRecvData :: "connect_obj \<Rightarrow> bool" where
  "HasRecvData c = HasData (co_recvBuffer c)"

definition HasSendData :: "connect_obj \<Rightarrow> bool" where
  "HasSendData c = (if co_state c = Connecting then True else HasData (co_sendBuffer c))"

definition ChangeStateToConnected :: "codec \<Rightarrow> nat \<Rightarrow> nat \<Rightarrow> 'h server \<Rightarrow> 'h server option" where
  "ChangeStateToConnected cd n a s =
     (let c = conn n a s; s = set_conn n a (c\<lparr>co_state := Connected\<rparr>) s
      in case GetTagValue (ni_tags c) TagApp of
           Some pTagValue \<Rightarrow> AddNetworkIdentify (cd_register cd) (ni_socket c) (KeyInt64 pTagValue) s
         | None \<Rightarrow> Some (Help_DispatchMsg MI_NetworkConnected (Some (co_identify c)) s))"

text \<open>A message to the thread itself: the connection asks its network to be closed.\<close>

definition Close :: "nat \<Rightarrow> nat \<Rightarrow> 'h server \<Rightarrow> 'h server" where
  "Close n a s =
     (let (p, s) = CreatePacket MI_NetworkRequestDisconnect (Some (co_identify (conn n a s))) s;
          (st, ms) = AddPacketToList p (sv_store s, nw_ms (sv_networks s n));
          s = upd_net n (\<lambda>nw. nw\<lparr>nw_ms := ms\<rparr>) (s\<lparr>sv_store := st\<rparr>)
      in s\<lparr>sv_store := (sv_store s)(p := Packet_OpenRef (sv_store s p))\<rparr>)"

subsection \<open>Receiving\<close>

datatype recv_answer = RecvData "u8 list" | RecvZero | RecvError int

text \<open>\<open>EINTR\<close>, \<open>EWOULDBLOCK\<close> and \<open>EAGAIN\<close>, \<open>EINPROGRESS\<close>.\<close>

definition IsError :: "int \<Rightarrow> bool" where
  "IsError socketError = (if socketError = 4 \<or> socketError = 11 \<or> socketError = 115 then False else True)"

definition recv_reserve :: "net_buffer \<Rightarrow> net_buffer option" where
  "recv_reserve b =
     (if GetEmptySize b < of_nat (sizeof_PacketHeadS2S + sizeof_TotalSizeType * 2)
      then NetworkBuffer_ReAllocBuffer b else Some b)"

fun recv_loop :: "recv_answer list \<Rightarrow> bool \<Rightarrow> net_buffer \<Rightarrow> (bool \<times> recv_answer list \<times> net_buffer) option" where
  "recv_loop [] isRs b = None"
| "recv_loop (ans # answers) isRs b = do {
     b \<leftarrow> recv_reserve b;
     let (pBuffer, emptySize) = Recv_GetBuffer b;
     (case ans of
        RecvData xs \<Rightarrow>
          if xs = [] \<or> unat emptySize < length xs then None
          else do {
            m \<leftarrow> mem_write (b_buffer b) pBuffer xs;
            recv_loop answers True (FillData (of_nat (length xs)) (b\<lparr>b_buffer := m\<rparr>))
          }
      | RecvZero \<Rightarrow> Some (isRs, answers, b)
      | RecvError socketError \<Rightarrow>
          (let isRs = (socketError \<noteq> 0); isRs = (if \<not> IsError socketError then True else isRs)
           in Some (isRs, answers, b)))
   }"

text \<open>
  \<open>RecvNetworkBuffer::GetPacket\<close>. The parser works on the object the pool would hand out next; it is taken
  from the pool when there is a packet.
\<close>

definition GetPacket :: "mongoose \<Rightarrow> codec \<Rightarrow> nat \<Rightarrow> nat \<Rightarrow> 'h server \<Rightarrow> (nat option \<times> 'h server) option" where
  "GetPacket mg cd n a s =
     (let c = conn n a s; t = nw_networkType (sv_networks s n);
          (p, s1) = CreatePacket MsgId_None (Some (co_identify c)) s in do {
        (r, b) \<leftarrow> (if \<not> IsTcp t then GetHttpPacket mg (cd_http cd) t (co_identify c) (sv_store s p) (co_recvBuffer c)
                  else GetTcpPacket (co_identify c) (sv_store s p) (co_recvBuffer c));
        let c = c\<lparr>co_recvBuffer := b\<rparr>;
        (case r of
           NoPacket \<Rightarrow> Some (None, set_conn n a c s)
         | InvalidMsg \<Rightarrow> Some (None, Close n a (set_conn n a c s))
         | Received q \<Rightarrow> Some (Some p, set_conn n a c (s1\<lparr>sv_store := (sv_store s1)(p := q)\<rparr>)))
      })"

text \<open>What is done with one received packet.\<close>

definition tag_target :: "nat \<Rightarrow> nat \<Rightarrow> nat \<Rightarrow> 'h server \<Rightarrow> 'h server" where
  "tag_target n a pPacket s =
     (case GetTagValue (ni_tags (conn n a s)) TagAccount of
        None \<Rightarrow> s
      | Some _ \<Rightarrow>
          (case sv_socketLocator s of
             None \<Rightarrow> s
           | Some pSocketLocator \<Rightarrow>
               (let p = sv_store s pPacket; targetEntitySn = GetTargetEntitySn (Socket (p_socketKey p)) pSocketLocator
                in if targetEntitySn > 0
                   then s\<lparr>sv_store := (sv_store s)(pPacket := p\<lparr>p_tagKey := AddTagInt TagEntity targetEntitySn (p_tagKey p)\<rparr>)\<rparr>
                   else s)))"

definition recv_packet :: "mongoose \<Rightarrow> nat \<Rightarrow> nat \<Rightarrow> nat \<Rightarrow> 'h server \<Rightarrow> 'h server option" where
  "recv_packet mg n a pPacket s =
     (let iNetworkType = nw_networkType (sv_networks s n);
          s = tag_target n a pPacket s;
          msgId = p_msgId (sv_store s pPacket);
          isTcp = IsTcp iNetworkType
      in if \<not> isTcp \<and> msgId = MI_HttpRequestBad then do {
           s \<leftarrow> SendHttpResponse404 mg (packet_identify (sv_store s pPacket)) s;
           Some (free_packet pPacket s)
         }
         else if isTcp \<and> msgId = MI_Ping then Some s
         else if \<not> isTcp \<and> (msgId \<le> MI_HttpBegin \<or> msgId \<ge> MI_HttpEnd) \<and> msgId \<noteq> MI_HttpOuterResponse
         then Some (free_packet pPacket s)
         else Some (dispatch pPacket s))"

partial_function (option) packet_loop :: "mongoose \<Rightarrow> codec \<Rightarrow> nat \<Rightarrow> nat \<Rightarrow> 'h server \<Rightarrow> 'h server option" where
  "packet_loop mg cd n a s = do {
     (pPacket, s) \<leftarrow> GetPacket mg cd n a s;
     (case pPacket of
        None \<Rightarrow> Some s
      | Some p \<Rightarrow> Option.bind (recv_packet mg n a p s) (packet_loop mg cd n a))
   }"

definition Recv :: "mongoose \<Rightarrow> codec \<Rightarrow> nat \<Rightarrow> nat \<Rightarrow> recv_answer list \<Rightarrow> 'h server \<Rightarrow>
    (bool \<times> recv_answer list \<times> 'h server) option" where
  "Recv mg cd n a answers s =
     (let c = conn n a s in
      if co_state c = Connecting then do {
        s \<leftarrow> ChangeStateToConnected cd n a s;
        Some (True, answers, s)
      }
      else do {
        (isRs, answers, b) \<leftarrow> recv_loop answers False (co_recvBuffer c);
        let s = set_conn n a (c\<lparr>co_recvBuffer := b\<rparr>) s;
        s \<leftarrow> (if isRs then packet_loop mg cd n a s else Some s);
        Some (isRs, answers, s)
      })"

subsection \<open>Sending\<close>

definition ConnectObj_SendPacket :: "nat \<Rightarrow> nat \<Rightarrow> nat \<Rightarrow> 'h server \<Rightarrow> 'h server option" where
  "ConnectObj_SendPacket n a pPacket s = do {
     let c = conn n a s;
     b \<leftarrow> AddPacket (sv_store s pPacket) (co_sendBuffer c);
     Some (free_packet pPacket (set_conn n a (c\<lparr>co_sendBuffer := b\<rparr>) s))
   }"

text \<open>The loop of \<open>Send\<close> returns, besides its result, the bytes it has given to the operating system.\<close>

fun send_loop :: "int list \<Rightarrow> u8 list \<Rightarrow> net_buffer \<Rightarrow> (bool \<times> u8 list \<times> int list \<times> net_buffer) option" where
  "send_loop [] sent b = (if Send_GetBuffer b = None then Some (True, sent, [], b) else None)"
| "send_loop (sz # answers) sent b =
     (case Send_GetBuffer b of
        None \<Rightarrow> Some (True, sent, sz # answers, b)
      | Some (pBuffer, needSendSize) \<Rightarrow>
          if uint needSendSize < sz then None
          else if sz > 0 then do {
            xs \<leftarrow> mem_read (b_buffer b) pBuffer (nat sz);
            let b = RemoveData (word_of_int sz) b;
            if sz < uint needSendSize then Some (True, sent @ xs, answers, b)
            else send_loop answers (sent @ xs) b
          }
          else Some (False, sent, answers, b))"

definition Send :: "codec \<Rightarrow> nat \<Rightarrow> nat \<Rightarrow> int list \<Rightarrow> 'h server \<Rightarrow> (bool \<times> u8 list \<times> int list \<times> 'h server) option" where
  "Send cd n a answers s =
     (let c = conn n a s in
      if co_state c = Connecting then do {
        s \<leftarrow> ChangeStateToConnected cd n a s;
        Some (True, [], answers, s)
      }
      else do {
        (rs, sent, answers, b) \<leftarrow> send_loop answers [] (co_sendBuffer c);
        Some (rs, sent, answers, set_conn n a (c\<lparr>co_sendBuffer := b\<rparr>) s)
      })"

subsection \<open>The receiving loop fills the ring\<close>

lemma recv_reserve_ok:
  assumes "nb_ok b" "length (contents b) < 2147000000"
  shows "\<exists>b'. recv_reserve b = Some b' \<and> nb_ok b' \<and> contents b' = contents b \<and> 24 \<le> free_room b'"
proof (cases "GetEmptySize b < 24")
  case True
  then have "free_room b < 24" using GetEmptySize_unat [OF assms(1)] by (simp add: word_less_nat_alt)
  then have "unat (b_size b) < 2147352576"
    using assms length_contents [OF assms(1)] nb_okD(4) [OF assms(1)] by (simp add: free_room_def)
  then obtain b' where b': "NetworkBuffer_ReAllocBuffer b = Some b'" "nb_ok b'" "contents b' = contents b"
      "unat (b_size b') = unat (b_size b) + 131072" "b_data b' = b_data b"
    using Buffer_ReAllocBuffer_contents [OF assms(1)] by blast
  then have "24 \<le> free_room b'" using nb_okD(4) [OF assms(1)] by (simp add: free_room_def)
  then show ?thesis using True b' by (simp add: recv_reserve_def sizeof_defs)
next
  case False
  then have "24 \<le> free_room b" using GetEmptySize_unat [OF assms(1)] by (simp add: word_less_nat_alt)
  then show ?thesis using False assms(1) by (simp add: recv_reserve_def sizeof_defs)
qed

fun answered :: "recv_answer list \<Rightarrow> u8 list" where
  "answered (RecvData xs # answers) = xs @ answered answers"
| "answered answers = []"

text \<open>Writing into the window that \<open>GetBuffer\<close> returns is writing to the ring.\<close>

lemma window_write:
  assumes ok: "nb_ok b" and room: "24 \<le> free_room b" and n: "length xs \<le> unat (GetWriteSize b)"
  shows "\<exists>m. mem_write (b_buffer b) (unat (b_end b)) xs = Some m
    \<and> nb_ok (FillData (of_nat (length xs)) (b\<lparr>b_buffer := m\<rparr>))
    \<and> contents (FillData (of_nat (length xs)) (b\<lparr>b_buffer := m\<rparr>)) = contents b @ xs"
proof -
  have "unat (b_data b) < unat (b_size b)" using room by (simp add: free_room_def)
  then have w: "unat (GetWriteSize b) \<le> free_room b" by (rule GetWriteSize_room(1) [OF ok])
  have "unat (of_nat (length xs) :: u32) = length xs"
    using n unat_u32_lt [of "GetWriteSize b"] by (simp add: unat_of_nat)
  then have nw: "\<not> GetWriteSize b < of_nat (length xs)" using n by (simp add: word_less_nat_alt)
  obtain b' where b': "MemcpyToBuffer xs b = Some b'" "nb_ok b'" "contents b' = contents b @ xs"
    using MemcpyToBuffer_contents [OF ok, of xs] w n by auto
  then show ?thesis using nw
    by (auto simp: MemcpyToBuffer_def Let_def split: bind_splits)
qed

lemma recv_loop_contents:
  assumes "nb_ok b" "length (contents b) + length (answered answers) < 2147000000"
    "recv_loop answers isRs b = Some (rs, rest, b')"
  shows "nb_ok b' \<and> contents b' = contents b @ answered answers"
  using assms
proof (induction answers isRs b rule: recv_loop.induct)
  case (2 ans answers isRs b)
  obtain b1 where b1: "recv_reserve b = Some b1" "nb_ok b1" "contents b1 = contents b" "24 \<le> free_room b1"
    using recv_reserve_ok [OF 2(2)] 2(3) by auto
  show ?case
  proof (cases ans)
    case (RecvData xs)
    then have n: "xs \<noteq> []" "length xs \<le> unat (GetWriteSize b1)"
      using 2(4) b1(1) by (auto simp: Recv_GetBuffer_def split: if_splits)
    obtain m where m: "mem_write (b_buffer b1) (unat (b_end b1)) xs = Some m"
        "nb_ok (FillData (of_nat (length xs)) (b1\<lparr>b_buffer := m\<rparr>))"
        "contents (FillData (of_nat (length xs)) (b1\<lparr>b_buffer := m\<rparr>)) = contents b @ xs"
      using window_write [OF b1(2,4) n(2)] b1(3) by auto
    then have "recv_loop answers True (FillData (of_nat (length xs)) (b1\<lparr>b_buffer := m\<rparr>)) = Some (rs, rest, b')"
      using 2(4) RecvData b1(1) n by (simp add: Recv_GetBuffer_def)
    from 2(1) [OF b1(1) refl _ RecvData _ m(1) m(2) _ this] n m(3) 2(3) show ?thesis
      by (simp add: RecvData Recv_GetBuffer_def)
  qed (use 2(4) b1 in \<open>simp_all add: Recv_GetBuffer_def\<close>)
qed simp

lemma recv_loop_result:
  "recv_loop (map RecvData xss @ RecvError e # rest') isRs b = Some (rs, rest, b') \<Longrightarrow> e \<noteq> 0 \<Longrightarrow>
     rs \<and> rest = rest'"
  by (induction xss arbitrary: isRs b)
    (auto simp: Recv_GetBuffer_def Let_def split: if_splits bind_splits)

lemma answered_map [simp]: "answered (map RecvData xss @ RecvError e # rest) = concat xss"
  by (induction xss) auto

subsection \<open>Frames in the ring become packets\<close>

definition sent_ok :: "packet \<Rightarrow> bool" where
  "sent_ok p = (pk_ok p \<and> msg_id_known (p_msgId p) \<and> \<not> IsHttpMsg (p_msgId p) \<and> frame_size p < 65536)"

text \<open>The beginning of a frame whose rest has not arrived.\<close>

definition partial_frame :: "u8 list \<Rightarrow> bool" where
  "partial_frame xs = (xs = [] \<or> (\<exists>p rest. sent_ok p \<and> rest \<noteq> [] \<and> frame p = xs @ rest))"

lemma frame_front:
  assumes "sent_ok p"
  shows "\<exists>zs. frame p = bytes_of_nat 2 (frame_size p) @ zs" "length (frame p) = frame_size p"
  using assms
  by (auto simp: sent_ok_def frame_def plain_frame_def s2s_frame_def frame_size_def add.commute simp del: append_assoc)

lemma GetTcpPacket_partial:
  assumes nb: "nb_ok b" and p: "partial_frame (contents b)"
  shows "GetTcpPacket ident fresh b = Some (NoPacket, b)"
proof (cases "unat (b_data b) < 2")
  case True
  then show ?thesis by (simp add: GetTcpPacket_def sizeof_defs word_less_nat_alt)
next
  case False
  then obtain p rest where p: "sent_ok p" "rest \<noteq> []" "frame p = contents b @ rest"
    using assms length_contents [OF nb] by (auto simp: partial_frame_def)
  obtain zs where z: "frame p = bytes_of_nat 2 (frame_size p) @ zs" using frame_front(1) [OF p(1)] by blast
  have l: "2 \<le> length (contents b)" using False length_contents [OF nb] by simp
  have "take 2 (contents b) = take 2 (frame p)" using p(3) l by simp
  also have "\<dots> = bytes_of_nat 2 (frame_size p)" unfolding z by simp
  finally have m: "MemcpyFromBuffer 2 b = Some (bytes_of_nat 2 (frame_size p))"
    using MemcpyFromBuffer_contents [OF nb, of 2] False by simp
  have u: "unat (of_nat (frame_size p) :: u16) = frame_size p" "frame_size p < 65536"
    using p(1) by (simp_all add: sent_ok_def unat_of_nat)
  have "length (contents b) < frame_size p"
    using frame_front(2) [OF p(1)] p(2,3) by (metis length_append length_greater_0_conv less_add_same_cancel1)
  then have "b_data b < ucast (of_nat (frame_size p) :: u16)"
    using u length_contents [OF nb] by (simp add: word_less_nat_alt)
  then show ?thesis using False m u by (simp add: GetTcpPacket_def sizeof_defs word_less_nat_alt Let_def)
qed

lemma upd_net_simps [simp]:
  "sv_networks (upd_net n f s) = (sv_networks s)(n := f (sv_networks s n))"
  "sv_store (upd_net n f s) = sv_store s" "sv_mgr (upd_net n f s) = sv_mgr s" "sv_pool (upd_net n f s) = sv_pool s"
  "sv_global (upd_net n f s) = sv_global s" "sv_netLocator (upd_net n f s) = sv_netLocator s"
  "sv_socketLocator (upd_net n f s) = sv_socketLocator s" "sv_sn (upd_net n f s) = sv_sn s"
  by (simp_all add: upd_net_def)

lemma set_conn_simps [simp]:
  "conn n a (set_conn n a c s) = c" "a' \<noteq> a \<Longrightarrow> conn n a' (set_conn n a c s) = conn n a' s"
  "sv_store (set_conn n a c s) = sv_store s" "sv_mgr (set_conn n a c s) = sv_mgr s" "sv_pool (set_conn n a c s) = sv_pool s"
  "sv_global (set_conn n a c s) = sv_global s" "sv_netLocator (set_conn n a c s) = sv_netLocator s"
  "sv_socketLocator (set_conn n a c s) = sv_socketLocator s"
  "nw_networkType (sv_networks (set_conn n a c s) m) = nw_networkType (sv_networks s m)"
  "nw_sendMsgList (sv_networks (set_conn n a c s) m) = nw_sendMsgList (sv_networks s m)"
  "nw_closed (sv_networks (set_conn n a c s) m) = nw_closed (sv_networks s m)"
  "in_use (set_conn n a c s) = in_use s" "inbox (set_conn n a c s) = inbox s"
  "fresh_sns k (set_conn n a c s) = fresh_sns k s" "store_ok (set_conn n a c s) = store_ok s"
  by (auto simp: set_conn_def conn_def in_use_def inbox_def fresh_sns_def store_ok_def)

text \<open>What has become of a packet that was sent: an equal packet on the socket of this connection.\<close>

definition arrived :: "socket_key \<Rightarrow> packet \<Rightarrow> packet \<Rightarrow> bool" where
  "arrived k p q = (pk_ok q \<and> p_msgId q = p_msgId p \<and> body q = body p \<and> p_socketKey q = k \<and> p_ref q = 0 \<and> \<not> p_isRefOpen q)"

definition tcp_conn :: "nat \<Rightarrow> nat \<Rightarrow> 'h server \<Rightarrow> bool" where
  "tcp_conn n a s = (IsTcp (nw_networkType (sv_networks s n)) \<and> nb_ok (co_recvBuffer (conn n a s)))"

lemma GetPacket_frame:
  assumes tcp: "tcp_conn n a s" and c: "contents (co_recvBuffer (conn n a s)) = frame p @ rest" and p: "sent_ok p"
    and ok: "store_ok s" "fresh_sns (Suc k) s"
  shows "\<exists>pk s' b q. GetPacket mg cd n a s = Some (Some pk, s') \<and> arrived (ni_socket (conn n a s)) p q
    \<and> sv_store s' = (sv_store s)(pk := q) \<and> conn n a s' = (conn n a s)\<lparr>co_recvBuffer := b\<rparr>
    \<and> contents b = rest \<and> tcp_conn n a s' \<and> store_ok s' \<and> fresh_sns k s' \<and> in_use s' = insert pk (in_use s)
    \<and> pk \<notin> in_use s \<and> inbox s' = inbox s \<and> sv_socketLocator s' = sv_socketLocator s"
proof -
  let ?c = "conn n a s"
  obtain pk s1 where cp: "CreatePacket MsgId_None (Some (co_identify ?c)) s = (pk, s1)" by force
  note f = CreatePacket_fields [OF cp] and g = CreatePacket_pool [OF cp ok(2)]
  have nb: "nb_ok (co_recvBuffer ?c)" and t: "IsTcp (nw_networkType (sv_networks s n))" using tcp by (simp_all add: tcp_conn_def)
  have fr: "pk_ok (sv_store s pk)" using ok(1) by (simp add: store_ok_def)
  obtain q b tags where q: "GetTcpPacket (co_identify ?c) (sv_store s pk) (co_recvBuffer ?c) = Some (Received q, b)"
      "frame_result q b (p_msgId p) tags (ni_socket (co_identify ?c)) (body p) rest"
    using GetTcpPacket_frame [OF nb c _ _ _ fr] p unfolding sent_ok_def by blast
  let ?s = "set_conn n a (?c\<lparr>co_recvBuffer := b\<rparr>) (s1\<lparr>sv_store := (sv_store s1)(pk := q)\<rparr>)"
  have "GetPacket mg cd n a s = Some (Some pk, ?s)" using cp q(1) t by (simp add: GetPacket_def Let_def del: IsTcp.simps)
  moreover have "arrived (ni_socket ?c) p q" "nb_ok b" "contents b = rest"
    using q(2) by (simp_all add: frame_result_def arrived_def co_identify_def)
  moreover have "tcp_conn n a ?s" using \<open>nb_ok b\<close> t f(4) by (simp add: tcp_conn_def)
  moreover have "store_ok ?s" using ok(1) f(1) \<open>arrived (ni_socket ?c) p q\<close> by (simp add: store_ok_def arrived_def)
  moreover have "fresh_sns k ?s" using g(1) by (simp add: fresh_sns_def)
  moreover have "in_use ?s = insert pk (in_use s)" using g(2) by (simp add: in_use_def)
  moreover have "inbox ?s = inbox s" using f(6) by (simp add: inbox_def)
  ultimately show ?thesis using g(3) f(1,5)
    by (intro exI [of _ pk] exI [of _ ?s] exI [of _ b] exI [of _ q]) simp
qed

lemma set_conn_same [simp]: "set_conn n a (conn n a s) s = s"
  by (simp add: set_conn_def upd_net_def conn_def)

lemma GetPacket_partial:
  assumes "tcp_conn n a s" "partial_frame (contents (co_recvBuffer (conn n a s)))"
  shows "GetPacket mg cd n a s = Some (None, s)"
proof -
  obtain pk s1 where cp: "CreatePacket MsgId_None (Some (co_identify (conn n a s))) s = (pk, s1)" by force
  have nb: "nb_ok (co_recvBuffer (conn n a s))" and t: "IsTcp (nw_networkType (sv_networks s n))"
    using assms(1) by (simp_all add: tcp_conn_def)
  show ?thesis using cp t GetTcpPacket_partial [OF nb assms(2)] by (simp add: GetPacket_def Let_def del: IsTcp.simps)
qed

lemma tag_target_fields [simp]:
  "sv_networks (tag_target n a pk s) = sv_networks s" "inbox (tag_target n a pk s) = inbox s"
  "in_use (tag_target n a pk s) = in_use s" "fresh_sns k (tag_target n a pk s) = fresh_sns k s"
  "sv_socketLocator (tag_target n a pk s) = sv_socketLocator s" "conn m b (tag_target n a pk s) = conn m b s"
  "sv_mgr (tag_target n a pk s) = sv_mgr s" "tcp_conn m b (tag_target n a pk s) = tcp_conn m b s"
  by (auto simp: tag_target_def Let_def inbox_def in_use_def fresh_sns_def conn_def tcp_conn_def split: option.split)

lemma tag_target_store:
  "\<exists>tags. sv_store (tag_target n a pk s) = (sv_store s)(pk := (sv_store s pk)\<lparr>p_tagKey := tags\<rparr>)"
proof -
  have "tag_target n a pk s = s
      \<or> (\<exists>tags. tag_target n a pk s = s\<lparr>sv_store := (sv_store s)(pk := (sv_store s pk)\<lparr>p_tagKey := tags\<rparr>)\<rparr>)"
    by (auto simp: tag_target_def Let_def split: option.split)
  then show ?thesis
  proof
    assume "tag_target n a pk s = s"
    then show ?thesis by (intro exI [of _ "p_tagKey (sv_store s pk)"]) simp
  qed auto
qed

lemma arrived_tags [simp]: "arrived k p (q\<lparr>p_tagKey := tags\<rparr>) = arrived k p q"
  by (simp add: arrived_def pk_ok_def body_def)

lemma recv_packet_tcp:
  assumes "tcp_conn n a s" "arrived k p (sv_store s pk)" "store_ok s"
  shows "\<exists>s' q. recv_packet mg n a pk s = Some s' \<and> sv_store s' = (sv_store s)(pk := q) \<and> arrived k p q
    \<and> inbox s' = inbox s @ (if p_msgId p = MI_Ping then [] else [pk])
    \<and> conn n a s' = conn n a s \<and> tcp_conn n a s' \<and> store_ok s' \<and> in_use s' = in_use s
    \<and> (fresh_sns j s \<longrightarrow> fresh_sns j s')"
proof -
  obtain tags where t: "sv_store (tag_target n a pk s) = (sv_store s)(pk := (sv_store s pk)\<lparr>p_tagKey := tags\<rparr>)"
    using tag_target_store by blast
  have tcp: "IsTcp (nw_networkType (sv_networks s n))" using assms(1) by (simp add: tcp_conn_def)
  have m: "p_msgId (sv_store (tag_target n a pk s) pk) = p_msgId p" using assms(2) t by (simp add: arrived_def)
  let ?s = "tag_target n a pk s"
  have so: "store_ok ?s" using assms(3) t by (simp add: store_ok_def pk_ok_def)
  have d: "conn n a (dispatch pk ?s) = conn n a s" "tcp_conn n a (dispatch pk ?s) = tcp_conn n a s"
    "in_use (dispatch pk ?s) = in_use s" "fresh_sns j (dispatch pk ?s) = fresh_sns j ?s"
    by (simp_all add: conn_def tcp_conn_def in_use_def fresh_sns_def) (simp add: in_use_def tag_target_def Let_def split: option.split)
  have "recv_packet mg n a pk s = Some (if p_msgId p = MI_Ping then ?s else dispatch pk ?s)"
    using tcp m by (simp add: recv_packet_def Let_def del: IsTcp.simps)
  then show ?thesis using assms t so d
    by (intro exI [of _ "if p_msgId p = MI_Ping then ?s else dispatch pk ?s"] exI [of _ "(sv_store s pk)\<lparr>p_tagKey := tags\<rparr>"]) simp
qed

text \<open>All frames in the ring: the packets that are not pings are dispatched, in order.\<close>

definition handed_on :: "packet list \<Rightarrow> packet list" where
  "handed_on ps = filter (\<lambda>p. p_msgId p \<noteq> MI_Ping) ps"

lemma packet_loop_frames:
  assumes "tcp_conn n a s" "contents (co_recvBuffer (conn n a s)) = concat (map frame ps) @ part"
    "partial_frame part" "\<forall>p \<in> set ps. sent_ok p" "store_ok s" "fresh_sns (length ps) s"
  shows "\<exists>s' qs b. packet_loop mg cd n a s = Some s' \<and> inbox s' = inbox s @ qs
    \<and> list_all2 (\<lambda>p q. arrived (ni_socket (conn n a s)) p (sv_store s' q)) (handed_on ps) qs
    \<and> distinct qs \<and> set qs \<inter> in_use s = {} \<and> (\<forall>q \<in> in_use s. sv_store s' q = sv_store s q)
    \<and> conn n a s' = (conn n a s)\<lparr>co_recvBuffer := b\<rparr> \<and> nb_ok b \<and> contents b = part \<and> in_use s \<subseteq> in_use s'"
  using assms
proof (induction ps arbitrary: s)
  case Nil
  then have "GetPacket mg cd n a s = Some (None, s)" by (intro GetPacket_partial) simp_all
  then have "packet_loop mg cd n a s = Some s" by (simp add: packet_loop.simps [of mg cd n a s])
  moreover have "conn n a s = (conn n a s)\<lparr>co_recvBuffer := co_recvBuffer (conn n a s)\<rparr>" by simp
  ultimately show ?case using Nil(1,2)
    by (intro exI [of _ s] exI [of _ "[]"] exI [of _ "co_recvBuffer (conn n a s)"])
      (simp add: handed_on_def tcp_conn_def)
next
  case (Cons p ps)
  let ?k = "ni_socket (conn n a s)" and ?rest = "concat (map frame ps) @ part"
  have c: "contents (co_recvBuffer (conn n a s)) = frame p @ ?rest" and p: "sent_ok p"
    and f: "fresh_sns (Suc (length ps)) s" using Cons.prems by simp_all
  obtain pk s1 b1 q1 where g: "GetPacket mg cd n a s = Some (Some pk, s1)" "arrived ?k p q1"
      "sv_store s1 = (sv_store s)(pk := q1)" "conn n a s1 = (conn n a s)\<lparr>co_recvBuffer := b1\<rparr>"
      "contents b1 = ?rest" "tcp_conn n a s1" "store_ok s1" "fresh_sns (length ps) s1"
      "in_use s1 = insert pk (in_use s)" "pk \<notin> in_use s" "inbox s1 = inbox s"
    using GetPacket_frame [OF Cons.prems(1) c p Cons.prems(5) f] by blast
  have "arrived ?k p (sv_store s1 pk)" using g(2,3) by simp
  then obtain s2 q2 where r: "recv_packet mg n a pk s1 = Some s2" "sv_store s2 = (sv_store s1)(pk := q2)"
      "arrived ?k p q2" "inbox s2 = inbox s1 @ (if p_msgId p = MI_Ping then [] else [pk])"
      "conn n a s2 = conn n a s1" "tcp_conn n a s2" "store_ok s2" "in_use s2 = in_use s1" "fresh_sns (length ps) s2"
    using recv_packet_tcp [OF g(6) _ g(7)] g(8) by blast
  have "contents (co_recvBuffer (conn n a s2)) = ?rest" using r(5) g(4,5) by simp
  then obtain s' qs b where IH: "packet_loop mg cd n a s2 = Some s'" "inbox s' = inbox s2 @ qs"
      "list_all2 (\<lambda>p q. arrived (ni_socket (conn n a s2)) p (sv_store s' q)) (handed_on ps) qs"
      "distinct qs" "set qs \<inter> in_use s2 = {}" "\<forall>q \<in> in_use s2. sv_store s' q = sv_store s2 q"
      "conn n a s' = (conn n a s2)\<lparr>co_recvBuffer := b\<rparr>" "nb_ok b" "contents b = part" "in_use s2 \<subseteq> in_use s'"
    using Cons.IH [of s2] Cons.prems(3,4) r(6,7,9) by auto
  let ?qs = "(if p_msgId p = MI_Ping then [] else [pk]) @ qs"
  have k: "ni_socket (conn n a s2) = ?k" using r(5) g(4) by simp
  have pk: "sv_store s' pk = q2" "pk \<notin> set qs" using IH(5,6) r(2,8) g(9) by auto
  have "packet_loop mg cd n a s = Some s'"
    using g(1) r(1) IH(1) by (simp add: packet_loop.simps [of mg cd n a s])
  moreover have "inbox s' = inbox s @ ?qs" using IH(2) r(4) g(11) by simp
  moreover have "list_all2 (\<lambda>p q. arrived ?k p (sv_store s' q)) (handed_on (p # ps)) ?qs"
    using IH(3) pk(1) r(3) unfolding k by (simp add: handed_on_def)
  moreover have "distinct ?qs" using IH(4) pk(2) by simp
  moreover have "set ?qs \<inter> in_use s = {}" using IH(5) r(8) g(9,10) by auto
  moreover have "\<forall>q \<in> in_use s. sv_store s' q = sv_store s q" using IH(6) r(2,8) g(3,9,10) by auto
  moreover have "conn n a s' = (conn n a s)\<lparr>co_recvBuffer := b\<rparr>" using IH(7) r(5) g(4) by simp
  moreover have "in_use s \<subseteq> in_use s'" using IH(10) r(8) g(9) by auto
  ultimately show ?case using IH(8,9) by (intro exI [of _ s'] exI [of _ ?qs] exI [of _ b]) simp
qed

subsection \<open>Sending empties the ring in order\<close>

lemma Send_GetBuffer_bytes:
  assumes "nb_ok b" "Send_GetBuffer b = Some (off, need)"
  shows "0 < unat need" "unat need \<le> unat (b_data b)"
    "k \<le> unat need \<Longrightarrow> mem_read (b_buffer b) off k = Some (take k (contents b))"
proof -
  note d = nb_okD(1-5) [OF assms(1)]
  have pos: "0 < unat (b_data b)"
    using assms(2) by (auto simp: Send_GetBuffer_def unat_gt_0 split: if_splits)
  then have r: "need = GetReadSize b" "off = unat (b_begin b)"
    using assms(2) by (auto simp: Send_GetBuffer_def GetReadSize_def split: if_splits)
  have u: "unat need = min (unat (b_data b)) (unat (b_size b) - unat (b_begin b))"
    using GetReadSize_unat [OF assms(1)] r(1) by simp
  show "0 < unat need" "unat need \<le> unat (b_data b)" using u pos d(2) by simp_all
  show "mem_read (b_buffer b) off k = Some (take k (contents b))" if "k \<le> unat need"
  proof -
    have k: "k \<le> unat (b_data b)" "k \<le> unat (b_size b) - unat (b_begin b)" using that u by simp_all
    then have "unat (b_begin b) + k \<le> length (b_buffer b)" using d(1,2) by linarith
    then show ?thesis using k r(2) d(1) by (simp add: contents_def)
  qed
qed

lemma small_size:
  assumes "0 < sz" "sz \<le> uint (need :: u32)"
  shows "unat (word_of_int sz :: u32) = nat sz" "nat sz \<le> unat need"
proof -
  have "uint need < 4294967296" using uint_bounded [of need] by simp
  then have "uint (word_of_int sz :: u32) = sz" using assms by (simp add: uint_word_of_int)
  then show "unat (word_of_int sz :: u32) = nat sz" by (metis nat_uint_eq)
  show "nat sz \<le> unat need" using nat_mono [OF assms(2)] by simp
qed

lemma send_loop_bytes:
  assumes "nb_ok b" "send_loop answers sent b = Some (rs, sent', rest, b')"
  shows "nb_ok b' \<and> sent' @ contents b' = sent @ contents b"
  using assms
proof (induction answers sent b rule: send_loop.induct)
  case (2 sz answers sent b)
  show ?case
  proof (cases "Send_GetBuffer b")
    case (Some w)
    obtain off need where w: "Send_GetBuffer b = Some (off, need)" using Some by (cases w) auto
    show ?thesis
    proof (cases "0 < sz")
      case True
      have nlt: "\<not> uint need < sz"
      proof
        assume "uint need < sz"
        then show False using 2(3) w by simp
      qed
      then have le: "sz \<le> uint need" by simp
      note u = small_size(1) [OF True le] and n = small_size(2) [OF True le]
      let ?b = "RemoveData (word_of_int sz) b"
      have m: "mem_read (b_buffer b) off (nat sz) = Some (take (nat sz) (contents b))"
        using Send_GetBuffer_bytes(3) [OF 2(2) w n] .
      have d: "unat (word_of_int sz :: u32) \<le> unat (b_data b)"
        using n Send_GetBuffer_bytes(2) [OF 2(2) w] unfolding u by simp
      have b: "nb_ok ?b" "contents ?b = drop (nat sz) (contents b)"
        using nb_ok_RemoveData [OF 2(2) d] contents_RemoveData [OF 2(2) d] u by simp_all
      show ?thesis
      proof (cases "sz < uint need")
        case True
        then have "rs = True \<and> sent' = sent @ take (nat sz) (contents b) \<and> b' = ?b"
          using 2(3) w m \<open>0 < sz\<close> nlt by simp
        then show ?thesis using b by simp
      next
        case False
        then have "send_loop answers (sent @ take (nat sz) (contents b)) ?b = Some (rs, sent', rest, b')"
          using 2(3) w m \<open>0 < sz\<close> nlt by simp
        from 2(1) [OF w refl nlt \<open>0 < sz\<close> m refl False b(1) this] b(2) show ?thesis by simp
      qed
    next
      case False
      then have "sent' = sent \<and> b' = b" using 2(3) w by (simp split: if_splits)
      then show ?thesis using 2(2) by simp
    qed
  next
    case None
    then have "sent' = sent \<and> b' = b" using 2(3) by simp
    then show ?thesis using 2(2) by simp
  qed
next
  case (1 sent b)
  then show ?case by (simp split: if_splits)
qed

subsection \<open>Properties\<close>

text \<open>
  C11. However the stream of frames is cut into pieces by the network, one call of \<open>Recv\<close> on a TCP connection
  hands on exactly the packets whose frames are complete, in the order they were sent, each once and each in a
  packet of its own, and keeps the beginning of an incomplete frame for the next call. Pings are not handed on.
\<close>

theorem recv_reassembles_stream:
  assumes "tcp_conn n a s" "co_state (conn n a s) \<noteq> Connecting" "store_ok s" "fresh_sns (length ps) s"
    and stream: "contents (co_recvBuffer (conn n a s)) @ concat chunks = concat (map frame ps) @ part"
    and ps: "\<forall>p \<in> set ps. sent_ok p" "partial_frame part" "length (concat (map frame ps) @ part) < 2147000000"
    and os: "recv_loop (map RecvData chunks @ RecvError 11 # rest) False (co_recvBuffer (conn n a s)) \<noteq> None"
  shows "\<exists>s' qs b. Recv mg cd n a (map RecvData chunks @ RecvError 11 # rest) s = Some (True, rest, s')
    \<and> inbox s' = inbox s @ qs \<and> distinct qs \<and> set qs \<inter> in_use s = {}
    \<and> list_all2 (\<lambda>p q. arrived (ni_socket (conn n a s)) p (sv_store s' q)) (handed_on ps) qs
    \<and> contents (co_recvBuffer (conn n a s')) = part \<and> nb_ok (co_recvBuffer (conn n a s'))"
proof -
  let ?c = "conn n a s" and ?as = "map RecvData chunks @ RecvError 11 # rest"
  have nb: "nb_ok (co_recvBuffer ?c)" using assms(1) by (simp add: tcp_conn_def)
  obtain rs rest' b where l: "recv_loop ?as False (co_recvBuffer ?c) = Some (rs, rest', b)" using os by auto
  have r: "rs" "rest' = rest" using recv_loop_result [OF l] by simp_all
  have "length (contents (co_recvBuffer ?c)) + length (concat chunks) < 2147000000"
    using ps(3) unfolding stream [symmetric] by simp
  then have b: "nb_ok b" "contents b = concat (map frame ps) @ part"
    using recv_loop_contents [OF nb _ l] stream by simp_all
  let ?s = "set_conn n a (?c\<lparr>co_recvBuffer := b\<rparr>) s"
  have "tcp_conn n a ?s" using assms(1) b(1) by (simp add: tcp_conn_def)
  then obtain s' qs b' where p: "packet_loop mg cd n a ?s = Some s'" "inbox s' = inbox ?s @ qs"
      "list_all2 (\<lambda>p q. arrived (ni_socket (conn n a ?s)) p (sv_store s' q)) (handed_on ps) qs"
      "distinct qs" "set qs \<inter> in_use ?s = {}" "conn n a s' = (conn n a ?s)\<lparr>co_recvBuffer := b'\<rparr>" "nb_ok b'" "contents b' = part"
    using packet_loop_frames [of n a ?s ps part mg cd] b(2) ps(1,2) assms(3,4) by auto
  have "Recv mg cd n a ?as s = Some (True, rest, s')"
    using l r p(1) assms(2) by (simp add: Recv_def Let_def)
  then show ?thesis using p by (intro exI [of _ s'] exI [of _ qs] exI [of _ b']) simp
qed

text \<open>
  C12. What \<open>Send\<close> gives to the operating system is the beginning of what was queued, in order and without
  loss or repetition: the bytes sent followed by the bytes that remain are the bytes that were in the ring.
\<close>

theorem send_keeps_order:
  assumes "nb_ok (co_sendBuffer (conn n a s))" "co_state (conn n a s) \<noteq> Connecting"
    "Send cd n a answers s = Some (rs, sent, rest, s')"
  shows "sent @ contents (co_sendBuffer (conn n a s')) = contents (co_sendBuffer (conn n a s))
    \<and> nb_ok (co_sendBuffer (conn n a s')) \<and> inbox s' = inbox s"
proof -
  obtain b where b: "send_loop answers [] (co_sendBuffer (conn n a s)) = Some (rs, sent, rest, b)"
      "s' = set_conn n a ((conn n a s)\<lparr>co_sendBuffer := b\<rparr>) s"
    using assms(2,3) by (auto simp: Send_def Let_def split: bind_splits)
  then show ?thesis using send_loop_bytes [OF assms(1) b(1)] by simp
qed

text \<open>
  A read that fails with a real error, such as a connection reset, is reported as success: \<open>Recv\<close>
  returns true for every error number but zero, so its caller keeps the dead connection.
\<close>

theorem recv_error_is_success:
  assumes "co_state (conn n a s) \<noteq> Connecting" "e \<noteq> 0"
    "Recv mg cd n a (map RecvData chunks @ RecvError e # rest) s = Some (rs, rest', s')"
  shows "rs"
  using assms recv_loop_result [where e = e]
  by (fastforce simp: Recv_def Let_def split: bind_splits)

text \<open>A process with one connection, for the concrete instances.\<close>

definition server_conn :: "net_buffer \<Rightarrow> net_buffer \<Rightarrow> unit server" where
  "server_conn r w = set_conn 0 0
     \<lparr>ni_socket = \<lparr>Socket = 5, NetType = TcpConnector\<rparr>, ni_tags = [], co_state = Connected, co_recvBuffer = r, co_sendBuffer = w\<rparr>
     (server_new APP_SPACE 3)"

lemma server_conn_simps [simp]:
  "co_recvBuffer (conn 0 0 (server_conn r w)) = r" "co_sendBuffer (conn 0 0 (server_conn r w)) = w"
  "co_state (conn 0 0 (server_conn r w)) = Connected" "store_ok (server_conn r w)"
  "ni_socket (conn 0 0 (server_conn r w)) = \<lparr>Socket = 5, NetType = TcpConnector\<rparr>"
  "tcp_conn 0 0 (server_conn r w) = nb_ok r" "inbox (server_conn r w) = []"
  by (simp_all add: server_conn_def tcp_conn_def) (simp add: server_new_def inbox_def)

lemma server_conn_fresh [simp]: "k \<le> 65536 \<Longrightarrow> fresh_sns k (server_conn r w)"
  by (simp add: server_conn_def fresh_sns_def)
    (simp add: server_new_def sn_in_use_def DynamicObjectPool_def CacheRefresh_empty_def)

definition sample_packet :: packet where
  "sample_packet = Packet\<lparr>b_buffer := [7, 8, 9], b_end := 3, b_size := 3, p_msgId := MI_AppRegister\<rparr>"

definition sample_ring :: net_buffer where
  "sample_ring = \<lparr>b_buffer = replicate 64 0, b_begin = 0, b_end = 0, b_size = 64, b_data = 0\<rparr>"

lemma sample_ok: "sent_ok sample_packet" "frame sample_packet = [9, 0, 2, 0, 102, 0, 7, 8, 9]" "nb_ok sample_ring"
  "contents sample_ring = []"
  by (simp_all add: sent_ok_def sample_packet_def pk_ok_def msg_id_known_def msg_ids_def IsHttpMsg_def frame_size_def
      body_def Packet_def GetTagValue_def frame_def plain_frame_def PacketHead_bytes_def sample_ring_def nb_ok_def
      contents_def bytes_of_nat_2)

definition sample_codec :: codec where
  "sample_codec = \<lparr>cd_http = hp_body, cd_register = \<lambda>_. []\<rparr>"

theorem recv_reassembles_stream_witness:
  "\<exists>s' q. Recv sample_mongoose sample_codec 0 0
      [RecvData [9, 0, 2], RecvData [0, 102, 0, 7, 8, 9, 9], RecvError 11] (server_conn sample_ring sample_ring) = Some (True, [], s')
    \<and> inbox s' = [q] \<and> body (sv_store s' q) = [7, 8, 9] \<and> contents (co_recvBuffer (conn 0 0 s')) = [9]"
proof -
  let ?s = "server_conn sample_ring sample_ring" and ?ch = "[[9, 0, 2], [0, 102, 0, 7, 8, 9, 9]] :: u8 list list"
  have part: "partial_frame [9]"
    unfolding partial_frame_def using sample_ok(1,2) by (intro disjI2 exI [of _ sample_packet] exI [of _ "[0, 2, 0, 102, 0, 7, 8, 9]"]) simp
  have l: "recv_loop (map RecvData ?ch @ RecvError 11 # []) False sample_ring \<noteq> None"
    by (simp add: sample_ring_def recv_reserve_def sizeof_defs GetEmptySize_def Recv_GetBuffer_def GetWriteSize_def
        FillData_def Let_def)
  have "body sample_packet = [7, 8, 9]" "p_msgId sample_packet \<noteq> MI_Ping" by (simp_all add: sample_packet_def body_def)
  then show ?thesis
    using recv_reassembles_stream [of 0 0 ?s "[sample_packet]" ?ch "[9]" "[]" sample_mongoose sample_codec]
      sample_ok part l
    by (auto simp: handed_on_def arrived_def list_all2_Cons1)
qed

theorem send_keeps_order_witness:
  "\<exists>s'. Send sample_codec 0 0 [2] (server_conn sample_ring \<lparr>b_buffer = [1, 2, 3, 4], b_begin = 0, b_end = 3, b_size = 4, b_data = 3\<rparr>)
       = Some (True, [1, 2], [], s') \<and> [1, 2] @ contents (co_sendBuffer (conn 0 0 s')) = [1, 2, 3]"
proof -
  let ?b = "\<lparr>b_buffer = [1, 2, 3, 4], b_begin = 0, b_end = 3, b_size = 4, b_data = 3\<rparr> :: net_buffer"
  let ?s = "server_conn sample_ring ?b"
  have ok: "nb_ok ?b" "contents ?b = [1, 2, 3]" by (simp_all add: nb_ok_def contents_def)
  obtain s' where s': "Send sample_codec 0 0 [2] ?s = Some (True, [1, 2], [], s')"
    by (simp add: Send_def Let_def Send_GetBuffer_def)
  from send_keeps_order [OF _ _ s'] ok s' show ?thesis by simp
qed

theorem recv_error_is_success_witness:
  "\<exists>s'. Recv sample_mongoose sample_codec 0 0 [RecvError 104] (server_conn sample_ring sample_ring) = Some (True, [], s')"
proof -
  have "partial_frame (contents sample_ring)" using sample_ok(4) by (simp add: partial_frame_def)
  then have p: "packet_loop sample_mongoose sample_codec 0 0 (server_conn sample_ring sample_ring) = Some (server_conn sample_ring sample_ring)"
    using GetPacket_partial [of 0 0 "server_conn sample_ring sample_ring"] sample_ok(3)
    by (simp add: packet_loop.simps [of sample_mongoose sample_codec 0 0])
  have "recv_reserve sample_ring = Some sample_ring"
    by (simp add: sample_ring_def recv_reserve_def sizeof_defs GetEmptySize_def)
  moreover have "set_conn 0 0 ((conn 0 0 (server_conn sample_ring sample_ring))\<lparr>co_recvBuffer := sample_ring\<rparr>)
      (server_conn sample_ring sample_ring) = server_conn sample_ring sample_ring"
    using set_conn_same [of 0 0 "server_conn sample_ring sample_ring"]
    by (simp add: set_conn_def upd_net_def server_conn_def conn_def)
  ultimately obtain rs s' where r: "Recv sample_mongoose sample_codec 0 0 (map RecvData [] @ RecvError 104 # []) (server_conn sample_ring sample_ring) = Some (rs, [], s')"
    using p by (simp add: Recv_def Let_def Recv_GetBuffer_def IsError_def)
  from recv_error_is_success [OF _ _ r] r show ?thesis by simp
qed

end
