(* ===== verification/Networks.thy ===== *)
theory Networks
  imports Connections
begin

text \<open>
  \<open>Network\<close>, \<open>NetworkListen\<close> and \<open>NetworkConnector\<close> (\<open>network.cpp\<close>, \<open>network_listen.cpp\<close>,
  \<open>network_connector.cpp\<close>) in the epoll build: the table of connections, the events of one frame, and the packets
  waiting to be sent. A socket number outside the table of \<open>MAX_CLIENT\<close> pointers is an access outside the array:
  \<open>None\<close>.
\<close>

definition MAX_CLIENT :: nat where "MAX_CLIENT = 5120"

abbreviation (input) EPOLLIN :: u32 where "EPOLLIN \<equiv> 1"
abbreviation (input) EPOLLOUT :: u32 where "EPOLLOUT \<equiv> 4"
abbreviation (input) EPOLLERR :: u32 where "EPOLLERR \<equiv> 8"
abbreviation (input) EPOLLHUP :: u32 where "EPOLLHUP \<equiv> 16"
abbreviation (input) EPOLLRDHUP :: u32 where "EPOLLRDHUP \<equiv> 8192"
abbreviation (input) EPOLLET :: u32 where "EPOLLET \<equiv> 2147483648"

subsection \<open>The table of connections\<close>

text \<open>\<open>_connects[socket]\<close>; the outer \<open>None\<close> is an index outside the array.\<close>

definition connect_at :: "int \<Rightarrow> 'h network \<Rightarrow> nat option option" where
  "connect_at socket nw =
     (if 0 \<le> socket \<and> socket < int (length (nw_connects nw)) then Some (nw_connects nw ! nat socket) else None)"

definition set_connect :: "int \<Rightarrow> nat option \<Rightarrow> 'h network \<Rightarrow> 'h network" where
  "set_connect socket pObj nw = nw\<lparr>nw_connects := (nw_connects nw)[nat socket := pObj]\<rparr>"

text \<open>\<open>epoll_ctl\<close>: adding a watched socket, changing and removing one that is not watched have no effect.\<close>

definition AddEvent :: "int \<Rightarrow> u32 \<Rightarrow> 'h network \<Rightarrow> 'h network" where
  "AddEvent fd flag nw = nw\<lparr>nw_epoll := smap_emplace fd flag (nw_epoll nw)\<rparr>"

definition ModifyEvent :: "int \<Rightarrow> u32 \<Rightarrow> 'h network \<Rightarrow> 'h network" where
  "ModifyEvent fd flag nw =
     (if map_of (nw_epoll nw) fd = None then nw else nw\<lparr>nw_epoll := smap_assign fd flag (nw_epoll nw)\<rparr>)"

definition DeleteEvent :: "int \<Rightarrow> 'h network \<Rightarrow> 'h network" where
  "DeleteEvent fd nw = nw\<lparr>nw_epoll := smap_erase fd (nw_epoll nw)\<rparr>"

text \<open>\<open>IComponent::ComponentBackToPool\<close> of a connection: its own part, the pool, the message system.\<close>

definition conn_back_to_pool :: "nat \<Rightarrow> nat \<Rightarrow> 'h server \<Rightarrow> 'h server" where
  "conn_back_to_pool n a s =
     (let s = ConnectObj_BackToPool n a s in
      upd_net n (\<lambda>nw. nw\<lparr>nw_pool := FreeObject (nw_objSn nw a) (nw_pool nw),
                         nw_ms := RemoveFunction (nw_objSn nw a) (nw_ms nw),
                         nw_objSn := (nw_objSn nw)(a := 0)\<rparr>) s)"

definition RemoveConnectObj :: "nat \<Rightarrow> int \<Rightarrow> 'h server \<Rightarrow> 'h server option" where
  "RemoveConnectObj n socket s =
     (case connect_at socket (sv_networks s n) of
        Some (Some a) \<Rightarrow>
          Some (upd_net n (\<lambda>nw. (DeleteEvent socket (set_connect socket None nw))
                  \<lparr>nw_sockets := smap_erase socket (nw_sockets nw)\<rparr>)
                (conn_back_to_pool n a s))
      | _ \<Rightarrow> None)"

text \<open>\<open>opt\<close> is the answer of \<open>getsockopt(SO_ERROR)\<close>: \<open>None\<close> when it fails.\<close>

definition CheckSocket :: "nat \<Rightarrow> int \<Rightarrow> int option \<Rightarrow> 'h server \<Rightarrow> bool \<times> 'h server" where
  "CheckSocket n socket opt s =
     (let err = (case opt of None \<Rightarrow> 9 | Some e \<Rightarrow> if \<not> IsError e then 0 else e)
      in if err \<noteq> 0 then (False, sock_close n socket s) else (True, s))"

definition CreateConnectObj :: "nat \<Rightarrow> int \<Rightarrow> int option \<Rightarrow> tag_type \<Rightarrow> tag_value \<Rightarrow> connect_state \<Rightarrow> 'h server \<Rightarrow>
    (bool \<times> 'h server) option" where
  "CreateConnectObj n socket opt tagType tagValue iState s =
     (case CheckSocket n socket opt s of (ok, s) \<Rightarrow>
        if \<not> ok then Some (False, s)
        else (case connect_at socket (sv_networks s n) of
                None \<Rightarrow> None
              | Some (Some _) \<Rightarrow> map_option (Pair False) (RemoveConnectObj n socket s)
              | Some None \<Rightarrow>
                  (let nw = sv_networks s n;
                       (obj, g, pool) = MallocObject () False id 0 (sv_global s) (nw_pool nw);
                       a = o_addr obj;
                       c = ConnectObj_Awake socket (nw_networkType nw) tagType tagValue iState (nw_objs nw a);
                       s = upd_net n (\<lambda>nw. AddEvent socket (EPOLLIN OR EPOLLOUT OR EPOLLET OR EPOLLRDHUP)
                             ((set_connect socket (Some a) nw)
                                \<lparr>nw_pool := pool, nw_objs := (nw_objs nw)(a := c), nw_objSn := (nw_objSn nw)(a := o_sn obj),
                                 nw_sockets := smap_emplace socket () (nw_sockets nw)\<rparr>)) (s\<lparr>sv_global := g\<rparr>)
                   in Some (True, s))))"

definition HandleDisconnect :: "nat \<Rightarrow> nat \<Rightarrow> 'h server \<Rightarrow> 'h server option" where
  "HandleDisconnect n pPacket s =
     (let socketKey = p_socketKey (sv_store s pPacket) in
      if NetType socketKey \<noteq> nw_networkType (sv_networks s n) then Some s
      else (case connect_at (Socket socketKey) (sv_networks s n) of
              None \<Rightarrow> None
            | Some None \<Rightarrow> Some s
            | Some (Some _) \<Rightarrow> RemoveConnectObj n (Socket socketKey) s))"

subsection \<open>The events of one frame\<close>

text \<open>An event with what the operating system answers to the calls it leads to.\<close>

record epoll_event =
  ev_fd :: int
  ev_events :: u32
  ev_recv :: "recv_answer list"
  ev_send :: "int list"

definition OnEpoll :: "nat \<Rightarrow> int \<Rightarrow> int \<Rightarrow> 'h server \<Rightarrow> 'h server" where
  "OnEpoll n fd index s =
     (if fd = nw_masterSocket (sv_networks s n)
      then upd_net n (\<lambda>nw. nw\<lparr>nw_mainSocketEventIndex := index\<rparr>) s else s)"

definition epoll_one :: "mongoose \<Rightarrow> codec \<Rightarrow> nat \<Rightarrow> int \<times> epoll_event \<Rightarrow> 'h server \<Rightarrow> 'h server option" where
  "epoll_one mg cd n ie s =
     (case ie of (index, ev) \<Rightarrow>
        let socket = ev_fd ev; s = OnEpoll n socket index s in
        case connect_at socket (sv_networks s n) of
          None \<Rightarrow> None
        | Some None \<Rightarrow> Some s
        | Some (Some a) \<Rightarrow>
            if ev_events ev AND EPOLLRDHUP \<noteq> 0 \<or> ev_events ev AND EPOLLERR \<noteq> 0 \<or> ev_events ev AND EPOLLHUP \<noteq> 0
            then RemoveConnectObj n socket s
            else do {
              (ok, s) \<leftarrow> (if ev_events ev AND EPOLLIN \<noteq> 0
                         then map_option (\<lambda>(rs, answers, s). (rs, s)) (Recv mg cd n a (ev_recv ev) s)
                         else Some (True, s));
              if \<not> ok then RemoveConnectObj n socket s
              else if ev_events ev AND EPOLLOUT \<noteq> 0
              then do {
                (ok, sent, answers, s) \<leftarrow> Send cd n a (ev_send ev) s;
                if \<not> ok then RemoveConnectObj n socket s
                else Some (upd_net n (ModifyEvent socket (EPOLLIN OR EPOLLRDHUP)) s)
              }
              else Some s
            })"

definition Epoll :: "mongoose \<Rightarrow> codec \<Rightarrow> nat \<Rightarrow> epoll_event list \<Rightarrow> 'h server \<Rightarrow> 'h server option" where
  "Epoll mg cd n events s = foldM (epoll_one mg cd n) (zip (map int [0..<length events]) events) s"

subsection \<open>Packets to be sent\<close>

definition send_one :: "nat \<Rightarrow> nat \<Rightarrow> 'h server \<Rightarrow> 'h server option" where
  "send_one n pPacket s =
     (let p = sv_store s pPacket; socket = Socket (p_socketKey p) in
      case connect_at socket (sv_networks s n) of
        None \<Rightarrow> None
      | Some None \<Rightarrow> Some (free_packet pPacket s)
      | Some (Some pObj) \<Rightarrow>
          if \<not> CompareTags (ni_tags (conn n pObj s)) (p_tagKey p) then Some (free_packet pPacket s)
          else do {
            s \<leftarrow> ConnectObj_SendPacket n pObj pPacket s;
            Some (upd_net n (ModifyEvent socket (EPOLLIN OR EPOLLOUT OR EPOLLRDHUP)) s)
          })"

definition OnNetworkUpdate :: "nat \<Rightarrow> 'h server \<Rightarrow> 'h server option" where
  "OnNetworkUpdate n s = do {
     let s = (if CS_CanSwap (nw_sendMsgList (sv_networks s n))
              then upd_net n (\<lambda>nw. nw\<lparr>nw_sendMsgList := CS_Swap (nw_sendMsgList nw)\<rparr>) s else s);
     s \<leftarrow> foldM (send_one n) (CS_GetReaderCache (nw_sendMsgList (sv_networks s n))) s;
     Some (upd_net n (\<lambda>nw. nw\<lparr>nw_sendMsgList := CS_clear_reader (nw_sendMsgList nw)\<rparr>) s)
   }"

text \<open>
  \<open>CacheSwap::BackToPool\<close> calls \<open>Packet::BackToPool\<close>, which clears the packet; nothing gives it back to the pool.
\<close>

definition packet_back_to_pool :: "nat \<Rightarrow> 'h server \<Rightarrow> 'h server" where
  "packet_back_to_pool p s = s\<lparr>sv_store := (sv_store s)(p := Packet_BackToPool (sv_store s p))\<rparr>"

fun close_all :: "nat \<Rightarrow> int list \<Rightarrow> 'h server \<Rightarrow> 'h server option" where
  "close_all n [] s = Some s"
| "close_all n (socket # sockets) s =
     (case connect_at socket (sv_networks s n) of
        Some (Some a) \<Rightarrow> close_all n sockets (upd_net n (set_connect socket None) (conn_back_to_pool n a s))
      | _ \<Rightarrow> None)"

definition Network_BackToPool :: "nat \<Rightarrow> 'h server \<Rightarrow> 'h server option" where
  "Network_BackToPool n s = do {
     let (c, ps) = CS_BackToPool (nw_sendMsgList (sv_networks s n));
     let s = fold packet_back_to_pool ps (upd_net n (\<lambda>nw. nw\<lparr>nw_sendMsgList := c\<rparr>) s);
     s \<leftarrow> close_all n (map fst (nw_sockets (sv_networks s n))) s;
     Some (upd_net n (\<lambda>nw. nw\<lparr>nw_sockets := [], nw_epoll := []\<rparr>) s)
   }"

subsection \<open>\<open>NetworkListen\<close>\<close>

text \<open>\<open>bound\<close> and \<open>listening\<close> say whether \<open>bind\<close> and \<open>listen\<close> succeed.\<close>

definition NetworkListen_Awake :: "nat \<Rightarrow> network_type \<Rightarrow> int \<Rightarrow> bool \<Rightarrow> bool \<Rightarrow> 'h server \<Rightarrow> 'h server" where
  "NetworkListen_Awake n iType socket bound listening s =
     (let s = upd_net n (\<lambda>nw. nw\<lparr>nw_networkType := iType\<rparr>) s;
          s = s\<lparr>sv_netLocator := AddListenLocator n iType (sv_netLocator s)\<rparr>;
          s = upd_net n (\<lambda>nw. nw\<lparr>nw_masterSocket := socket\<rparr>) s
      in if socket = INVALID_SOCKET then s
         else if \<not> bound then s
         else if \<not> listening then s
         else upd_net n (\<lambda>nw. AddEvent socket (EPOLLIN OR EPOLLET OR EPOLLOUT OR EPOLLRDHUP) (nw\<lparr>nw_epoll := []\<rparr>)) s)"

definition NetworkListen_BackToPool :: "nat \<Rightarrow> 'h server \<Rightarrow> 'h server option" where
  "NetworkListen_BackToPool n s =
     (let s = upd_net n (\<lambda>nw. nw\<lparr>nw_mainSocketEventIndex := - 1\<rparr>) s;
          s = sock_close n (nw_masterSocket (sv_networks s n)) s;
          s = upd_net n (\<lambda>nw. nw\<lparr>nw_masterSocket := INVALID_SOCKET\<rparr>) s
      in Network_BackToPool n s)"

text \<open>The sockets \<open>accept\<close> returns, each with the answer of \<open>getsockopt\<close>, up to the first that is invalid.\<close>

fun Accept :: "nat \<Rightarrow> (int \<times> int option) list \<Rightarrow> 'h server \<Rightarrow> (int \<times> 'h server) option" where
  "Accept n [] s = Some (0, s)"
| "Accept n ((socket, opt) # accepted) s =
     (if socket = INVALID_SOCKET then Some (0, s)
      else do {
        (ok, s) \<leftarrow> CreateConnectObj n socket opt TagNone \<lparr>KeyStr = [], KeyInt64 = 0\<rparr> Connected s;
        if \<not> ok then Accept n accepted (sock_close n socket s)
        else map_option (\<lambda>(rs, s). (rs + 1, s)) (Accept n accepted s)
      })"

definition NetworkListen_Update :: "mongoose \<Rightarrow> codec \<Rightarrow> nat \<Rightarrow> epoll_event list \<Rightarrow> (int \<times> int option) list \<Rightarrow>
    'h server \<Rightarrow> 'h server option" where
  "NetworkListen_Update mg cd n events accepted s = do {
     s \<leftarrow> Epoll mg cd n events (upd_net n (\<lambda>nw. nw\<lparr>nw_mainSocketEventIndex := - 1\<rparr>) s);
     s \<leftarrow> (if nw_mainSocketEventIndex (sv_networks s n) \<ge> 0 then map_option snd (Accept n accepted s) else Some s);
     OnNetworkUpdate n s
   }"

definition HandleListenKey :: "nat \<Rightarrow> nat \<Rightarrow> 'h server \<Rightarrow> 'h server option" where
  "HandleListenKey n pPacket s =
     (let p = sv_store s pPacket; socketKey = p_socketKey p in
      if NetType socketKey \<noteq> nw_networkType (sv_networks s n) then Some s
      else if map_of (nw_sockets (sv_networks s n)) (Socket socketKey) = None then Some s
      else (case connect_at (Socket socketKey) (sv_networks s n) of
              Some (Some a) \<Rightarrow>
                (let c = conn n a s in Some (set_conn n a (c\<lparr>ni_tags := TagKey_CopyFrom (p_tagKey p) (ni_tags c)\<rparr>) s))
            | _ \<Rightarrow> None))"

subsection \<open>\<open>NetworkConnector\<close>\<close>

text \<open>What \<open>socket\<close> and \<open>connect\<close> answer for one request.\<close>

datatype connect_answer = NoSocket | ConnectOk int "int option" | ConnectError int int "int option"

definition connecting_add :: "nat \<Rightarrow> connect_detail \<Rightarrow> 'h server \<Rightarrow> 'h server" where
  "connecting_add n d s =
     (let (sn, g) = GenerateSN (sv_global s) in
      upd_net n (\<lambda>nw. nw\<lparr>nw_connecting := CR_AddObj \<lparr>o_addr = nw_details nw, o_sn = sn, o_data = d\<rparr> (nw_connecting nw),
                         nw_details := nw_details nw + 1\<rparr>) (s\<lparr>sv_global := g\<rparr>))"

definition CreateConnector :: "nat \<Rightarrow> int \<Rightarrow> int \<Rightarrow> string \<Rightarrow> int \<Rightarrow> 'h server \<Rightarrow> 'h server" where
  "CreateConnector n appType appId ip port s =
     connecting_add n \<lparr>cd_Ip = ip, cd_Port = port, cd_TType = TagApp,
        cd_TValue = \<lparr>KeyStr = [], KeyInt64 = GetAppKey appType appId\<rparr>\<rparr> s"

definition Connect :: "nat \<Rightarrow> connect_answer \<Rightarrow> connect_detail \<Rightarrow> 'h server \<Rightarrow> (bool \<times> 'h server) option" where
  "Connect n answer pDetail s =
     (case answer of
        NoSocket \<Rightarrow> Some (False, s)
      | ConnectOk socket opt \<Rightarrow> CreateConnectObj n socket opt (cd_TType pDetail) (cd_TValue pDetail) Connected s
      | ConnectError socket socketError opt \<Rightarrow>
          if \<not> IsError socketError
          then CreateConnectObj n socket opt (cd_TType pDetail) (cd_TValue pDetail) Connecting s
          else Some (False, sock_close n socket s))"

definition tag_of_number :: "nat \<Rightarrow> tag_type" where
  "tag_of_number k = (if k = 1 then TagAccount else if k = 2 then TagApp else if k = 3 then TagEntity
     else if k = 4 then TagToWorld else if k = 5 then TagPlayer else if k = 6 then TagSocket else TagNone)"

definition HandleNetworkConnect :: "(packet \<Rightarrow> network_connect) \<Rightarrow> nat \<Rightarrow> nat \<Rightarrow> 'h server \<Rightarrow> 'h server" where
  "HandleNetworkConnect parse n pPacket s =
     (let proto = parse (sv_store s pPacket) in
      if nc_network_type proto \<noteq> int (network_type_number (nw_networkType (sv_networks s n))) then s
      else connecting_add n \<lparr>cd_Ip = nc_ip proto, cd_Port = nc_port proto, cd_TType = tag_of_number (nc_tag_type proto),
             cd_TValue = \<lparr>KeyStr = nc_value_str proto, KeyInt64 = nc_value_int64 proto\<rparr>\<rparr> s)"

fun connect_all :: "nat \<Rightarrow> (connect_detail \<Rightarrow> connect_answer) \<Rightarrow> (u64 \<times> connect_detail pobj) list \<Rightarrow> 'h server \<Rightarrow>
    'h server option" where
  "connect_all n os [] s = Some s"
| "connect_all n os ((sn, obj) # pReader) s = do {
     (ok, s) \<leftarrow> Connect n (os (o_data obj)) (o_data obj) s;
     let s = (if ok then upd_net n (\<lambda>nw. nw\<lparr>nw_connecting := CR_RemoveObj sn (nw_connecting nw)\<rparr>) s else s);
     connect_all n os pReader s
   }"

definition NetworkConnector_Update :: "mongoose \<Rightarrow> codec \<Rightarrow> nat \<Rightarrow> (connect_detail \<Rightarrow> connect_answer) \<Rightarrow> epoll_event list \<Rightarrow>
    'h server \<Rightarrow> 'h server option" where
  "NetworkConnector_Update mg cd n os events s = do {
     let s = (if CR_CanSwap (nw_connecting (sv_networks s n))
              then upd_net n (\<lambda>nw. nw\<lparr>nw_connecting := fst (CR_Swap False [] (nw_connecting nw))\<rparr>) s else s);
     s \<leftarrow> connect_all n os (GetReaderCache (nw_connecting (sv_networks s n))) s;
     s \<leftarrow> Epoll mg cd n events s;
     OnNetworkUpdate n s
   }"

fun connectors_to :: "nat \<Rightarrow> int \<Rightarrow> one_config list \<Rightarrow> 'h server \<Rightarrow> 'h server" where
  "connectors_to n appType [] s = s"
| "connectors_to n appType (one # apps) s =
     connectors_to n appType apps (CreateConnector n appType (Id one) (IntraIp one) (Port one) s)"

definition connector_to :: "yaml \<Rightarrow> nat \<Rightarrow> int \<Rightarrow> 'h server \<Rightarrow> 'h server option" where
  "connector_to pYaml n appType s = do {
     pCommonConfig \<leftarrow> GetIPEndPoint appType 0 pYaml;
     Some (CreateConnector n appType 0 (IntraIp pCommonConfig) (Port pCommonConfig) s)
   }"

definition connector_list :: "yaml \<Rightarrow> nat \<Rightarrow> int \<Rightarrow> 'h server \<Rightarrow> 'h server option" where
  "connector_list pYaml n appType s = do {
     pConfig \<leftarrow> GetConfig appType pYaml;
     apps \<leftarrow> as_app_list pConfig;
     Some (connectors_to n appType apps s)
   }"

definition NetworkConnector_Awake :: "yaml \<Rightarrow> nat \<Rightarrow> network_type \<Rightarrow> int \<Rightarrow> 'h server \<Rightarrow> 'h server option" where
  "NetworkConnector_Awake pYaml n iType mixConnectAppType s =
     (let s = upd_net n (\<lambda>nw. nw\<lparr>nw_networkType := iType\<rparr>) s;
          s = s\<lparr>sv_netLocator := AddConnectorLocator n iType (sv_netLocator s)\<rparr>;
          s = upd_net n (\<lambda>nw. nw\<lparr>nw_epoll := []\<rparr>) s
      in if iType = TcpConnector \<and> mixConnectAppType > 0
         then do {
           s \<leftarrow> (if mixConnectAppType AND APP_APPMGR \<noteq> 0 then connector_to pYaml n APP_APPMGR s else Some s);
           s \<leftarrow> (if mixConnectAppType AND APP_DB_MGR \<noteq> 0 then connector_to pYaml n APP_DB_MGR s else Some s);
           s \<leftarrow> (if mixConnectAppType AND APP_LOGIN \<noteq> 0 then connector_list pYaml n APP_LOGIN s else Some s);
           (if mixConnectAppType AND APP_SPACE \<noteq> 0 then connector_list pYaml n APP_SPACE s else Some s)
         }
         else Some s)"

subsection \<open>What sending and receiving leave alone\<close>

text \<open>The table of a network, without the contents of its connections and its queues.\<close>

definition same_table :: "'h server \<Rightarrow> 'h server \<Rightarrow> bool" where
  "same_table s s' = (\<forall>m. let a = sv_networks s m; b = sv_networks s' m in
     nw_connects b = nw_connects a \<and> nw_sockets b = nw_sockets a \<and> nw_networkType b = nw_networkType a
     \<and> nw_pool b = nw_pool a \<and> nw_objSn b = nw_objSn a \<and> nw_closed b = nw_closed a
     \<and> (\<forall>x. ni_socket (nw_objs b x) = ni_socket (nw_objs a x)))"

lemma same_table_refl [simp]: "same_table s s"
  by (simp add: same_table_def)

lemma same_table_trans: "same_table s t \<Longrightarrow> same_table t u \<Longrightarrow> same_table s u"
  unfolding same_table_def Let_def by metis

lemma same_table_networks: "sv_networks s' = sv_networks s \<Longrightarrow> same_table s s'"
  by (simp add: same_table_def)

lemma same_table_set_conn [simp]:
  "ni_socket c = ni_socket (conn n a s) \<Longrightarrow> same_table s (set_conn n a c s)"
  by (simp add: same_table_def set_conn_def conn_def Let_def)

lemma same_table_Network_SendPacket [simp]: "same_table s (Network_SendPacket m p s)"
  by (simp add: same_table_def Network_SendPacket_def Let_def)

lemma same_table_Help_SendPacket [simp]: "same_table s (Help_SendPacket p s)"
  by (auto simp: Help_SendPacket_def Let_def intro: same_table_networks split: option.split)

lemma same_table_serialize: "serialize xs p s = Some s' \<Longrightarrow> same_table s s'"
  by (auto simp: serialize_def intro: same_table_networks split: bind_splits)

lemma same_table_append_bytes: "append_bytes xs p s = Some s' \<Longrightarrow> same_table s s'"
  by (auto simp: append_bytes_def intro: same_table_networks split: bind_splits)

lemma same_table_CreatePacket: "CreatePacket m i s = (p, s') \<Longrightarrow> same_table s s'"
  by (rule same_table_networks) (rule CreatePacket_fields(4))

lemma same_table_dispatch [simp]: "same_table s (dispatch p s)"
  by (intro same_table_networks) simp

lemma same_table_DispatchMsg [simp]: "same_table s (Help_DispatchMsg m i s)"
proof -
  obtain p s1 where c: "CreatePacket m i s = (p, s1)" by force
  from same_table_trans [OF same_table_CreatePacket [OF this] same_table_dispatch] show ?thesis
    by (simp add: Help_DispatchMsg_def c)
qed

lemma same_table_Help_SendProto: "Help_SendProto m xs i s = Some s' \<Longrightarrow> same_table s s'"
proof -
  assume h: "Help_SendProto m xs i s = Some s'"
  obtain p s1 where c: "CreatePacket m i s = (p, s1)" by force
  then obtain s2 where s2: "serialize xs p s1 = Some s2" "s' = Help_SendPacket p s2"
    using h by (auto simp: Help_SendProto_def split: bind_splits)
  show ?thesis unfolding s2(2)
    using same_table_CreatePacket [OF c] same_table_serialize [OF s2(1)] same_table_Help_SendPacket
    by (blast intro: same_table_trans)
qed

lemma same_table_DispatchProto: "Help_DispatchProto m xs i s = Some s' \<Longrightarrow> same_table s s'"
proof -
  assume h: "Help_DispatchProto m xs i s = Some s'"
  obtain p s1 where c: "CreatePacket m i s = (p, s1)" by force
  then obtain s2 where s2: "serialize xs p s1 = Some s2" "s' = dispatch p s2"
    using h by (auto simp: Help_DispatchProto_def split: bind_splits)
  show ?thesis unfolding s2(2)
    using same_table_CreatePacket [OF c] same_table_serialize [OF s2(1)] same_table_dispatch
    by (blast intro: same_table_trans)
qed

lemma same_table_Help_SendProtoApp: "Help_SendProtoApp m xs t i s = Some s' \<Longrightarrow> same_table s s'"
  by (auto simp: Help_SendProtoApp_def Let_def intro: same_table_DispatchProto same_table_Help_SendProto split: if_splits)

lemma same_table_AddNetworkIdentify: "AddNetworkIdentify w k a s = Some s' \<Longrightarrow> same_table s s'"
proof -
  let ?s = "s\<lparr>sv_netLocator := insert_identify k a (sv_netLocator s)\<rparr>"
  assume "AddNetworkIdentify w k a s = Some s'"
  then have "same_table ?s s'"
    by (auto simp: AddNetworkIdentify_def Let_def intro: same_table_Help_SendProtoApp split: if_splits)
  then show ?thesis using same_table_networks [of ?s s] same_table_trans by fastforce
qed

lemma same_table_Change: "ChangeStateToConnected cd n a s = Some s' \<Longrightarrow> same_table s s'"
proof -
  let ?s = "set_conn n a ((conn n a s)\<lparr>co_state := Connected\<rparr>) s"
  assume "ChangeStateToConnected cd n a s = Some s'"
  then have "same_table ?s s'"
    by (auto simp: ChangeStateToConnected_def Let_def intro: same_table_AddNetworkIdentify split: option.splits)
  moreover have "same_table s ?s" by simp
  ultimately show ?thesis using same_table_trans by blast
qed

lemma same_table_upd_ms: "same_table s (upd_net n (\<lambda>nw. nw\<lparr>nw_ms := ms\<rparr>) s)"
  by (simp add: same_table_def Let_def)

lemma same_table_Close: "same_table s (Close n a s)"
proof -
  obtain p s1 where c: "CreatePacket MI_NetworkRequestDisconnect (Some (co_identify (conn n a s))) s = (p, s1)" by force
  obtain st ms where a: "AddPacketToList p (sv_store s1, nw_ms (sv_networks s1 n)) = (st, ms)" by force
  have "same_table s1 (s1\<lparr>sv_store := st\<rparr>)" by (simp add: same_table_networks)
  then have "same_table s (upd_net n (\<lambda>nw. nw\<lparr>nw_ms := ms\<rparr>) (s1\<lparr>sv_store := st\<rparr>))"
    using same_table_CreatePacket [OF c] same_table_upd_ms by (blast intro: same_table_trans)
  moreover have "same_table t (t\<lparr>sv_store := x\<rparr>)" for t :: "'a server" and x by (simp add: same_table_networks)
  ultimately show ?thesis by (simp add: Close_def c a) (blast intro: same_table_trans)
qed

lemma same_table_GetPacket: "GetPacket mg cd n a s = Some (r, s') \<Longrightarrow> same_table s s'"
proof -
  assume g: "GetPacket mg cd n a s = Some (r, s')"
  let ?c = "conn n a s" and ?t = "nw_networkType (sv_networks s n)"
  obtain p s1 where cp: "CreatePacket MsgId_None (Some (co_identify ?c)) s = (p, s1)" by force
  obtain res b where res: "(if \<not> IsTcp ?t then GetHttpPacket mg (cd_http cd) ?t (co_identify ?c) (sv_store s p) (co_recvBuffer ?c)
      else GetTcpPacket (co_identify ?c) (sv_store s p) (co_recvBuffer ?c)) = Some (res, b)"
    using g cp unfolding GetPacket_def Let_def by (auto simp del: IsTcp.simps split: bind_splits prod.splits)
  let ?c' = "?c\<lparr>co_recvBuffer := b\<rparr>"
  have t: "same_table s (set_conn n a ?c' s)" by simp
  have e: "(case res of NoPacket \<Rightarrow> Some (None, set_conn n a ?c' s)
      | InvalidMsg \<Rightarrow> Some (None, Close n a (set_conn n a ?c' s))
      | Received q \<Rightarrow> Some (Some p, set_conn n a ?c' (s1\<lparr>sv_store := (sv_store s1)(p := q)\<rparr>))) = Some (r, s')"
    using g cp res unfolding GetPacket_def Let_def by simp
  show ?thesis
  proof (cases res)
    case (Received q)
    have "conn n a (s1\<lparr>sv_store := (sv_store s1)(p := q)\<rparr>) = ?c" using CreatePacket_fields(4) [OF cp] by (simp add: conn_def)
    then have "same_table (s1\<lparr>sv_store := (sv_store s1)(p := q)\<rparr>) s'" using e Received by auto
    moreover have "same_table s (s1\<lparr>sv_store := (sv_store s1)(p := q)\<rparr>)"
      using CreatePacket_fields(4) [OF cp] by (simp add: same_table_networks)
    ultimately show ?thesis using same_table_trans by blast
  qed (use e t same_table_Close same_table_trans in fastforce)+
qed

lemma same_table_404: "SendHttpResponse404 mg i s = Some s' \<Longrightarrow> same_table s s'"
proof -
  assume h: "SendHttpResponse404 mg i s = Some s'"
  obtain p s1 where c: "CreatePacket MI_HttpInnerResponse (Some i) s = (p, s1)" by force
  show ?thesis
  proof (cases "GetNetwork HttpListen (sv_netLocator s)")
    case (Some m)
    then obtain s2 where "append_bytes (http_response mg 404 []) p s1 = Some s2" "s' = Network_SendPacket m p s2"
      using h c by (auto simp: SendHttpResponse404_def SendHttpResponseBase_def split: bind_splits)
    then show ?thesis using same_table_CreatePacket [OF c] same_table_append_bytes same_table_Network_SendPacket same_table_trans by metis
  qed (use h in \<open>simp add: SendHttpResponse404_def SendHttpResponseBase_def\<close>)
qed

lemma same_table_free [simp]: "same_table s (free_packet p s)"
  by (rule same_table_networks) (simp add: free_packet_def)

lemma same_table_recv_packet: "recv_packet mg n a p s = Some s' \<Longrightarrow> same_table s s'"
proof -
  assume r: "recv_packet mg n a p s = Some s'"
  let ?s = "tag_target n a p s" and ?t = "nw_networkType (sv_networks s n)"
  have t: "same_table s ?s" by (rule same_table_networks) simp
  have "same_table ?s s'"
  proof (cases "\<not> IsTcp ?t \<and> p_msgId (sv_store ?s p) = MI_HttpRequestBad")
    case True
    then obtain u where "SendHttpResponse404 mg (packet_identify (sv_store ?s p)) ?s = Some u" "s' = free_packet p u"
      using r by (auto simp: recv_packet_def Let_def simp del: IsTcp.simps split: bind_splits)
    then show ?thesis using same_table_404 same_table_trans same_table_free by blast
  next
    case False
    then have "s' = ?s \<or> s' = free_packet p ?s \<or> s' = dispatch p ?s"
      using r unfolding recv_packet_def Let_def by (simp only: if_False split: if_splits) auto
    then show ?thesis by auto
  qed
  then show ?thesis using t same_table_trans by blast
qed

lemma same_table_packet_loop: "packet_loop mg cd n a s = Some s' \<Longrightarrow> same_table s s'"
proof (induction rule: packet_loop.raw_induct [rotated 1, consumes 1])
  case (1 loop mg cd n a s s')
  then obtain r s1 where g: "GetPacket mg cd n a s = Some (r, s1)" by (auto split: bind_splits)
  note t = same_table_GetPacket [OF g]
  show ?case
  proof (cases r)
    case (Some p)
    then obtain s2 where "recv_packet mg n a p s1 = Some s2" "loop mg cd n a s2 = Some s'"
      using 1(2) g by (auto split: bind_splits)
    then show ?thesis using t same_table_recv_packet 1(1) same_table_trans by metis
  qed (use 1(2) g t in simp)
qed

end
