(* ===== verification/NetworkTable.thy ===== *)
theory NetworkTable
  imports Networks
begin

text \<open>
  What keeps a network consistent: the table of connections, the set of sockets and the pool of connection
  objects agree after every operation of \<open>Network\<close>, \<open>NetworkListen\<close> and \<open>NetworkConnector\<close>, whatever the operating
  system answers. \<open>table_ok\<close> is the invariant, \<open>net_step\<close> the steps the thread of a network makes, and the
  properties about sending, accepting and closing follow.
\<close>

subsection \<open>Sending and receiving keep the table\<close>

lemma same_table_Recv: "Recv mg cd n a answers s = Some (rs, rest, s') \<Longrightarrow> same_table s s'"
proof -
  assume r: "Recv mg cd n a answers s = Some (rs, rest, s')"
  show ?thesis
  proof (cases "co_state (conn n a s) = Connecting")
    case True
    then show ?thesis using r same_table_Change by (fastforce simp: Recv_def Let_def split: bind_splits)
  next
    case False
    then obtain b where "(if rs then packet_loop mg cd n a (set_conn n a ((conn n a s)\<lparr>co_recvBuffer := b\<rparr>) s)
        else Some (set_conn n a ((conn n a s)\<lparr>co_recvBuffer := b\<rparr>) s)) = Some s'"
      using r by (auto simp: Recv_def Let_def split: bind_splits)
    then have "same_table (set_conn n a ((conn n a s)\<lparr>co_recvBuffer := b\<rparr>) s) s'"
      using same_table_packet_loop by (auto split: if_splits)
    moreover have "same_table s (set_conn n a ((conn n a s)\<lparr>co_recvBuffer := b\<rparr>) s)" by simp
    ultimately show ?thesis using same_table_trans by blast
  qed
qed

lemma same_table_Send: "Send cd n a answers s = Some (rs, sent, rest, s') \<Longrightarrow> same_table s s'"
proof -
  assume r: "Send cd n a answers s = Some (rs, sent, rest, s')"
  show ?thesis
  proof (cases "co_state (conn n a s) = Connecting")
    case True
    then show ?thesis using r same_table_Change by (fastforce simp: Send_def Let_def split: bind_splits)
  next
    case False
    then obtain b where "s' = set_conn n a ((conn n a s)\<lparr>co_sendBuffer := b\<rparr>) s"
      using r by (auto simp: Send_def Let_def split: bind_splits)
    then show ?thesis by simp
  qed
qed

lemma same_table_upd_events:
  "same_table s (upd_net n (ModifyEvent fd flag) s)" "same_table s (upd_net n (DeleteEvent fd) s)"
  "same_table s (upd_net n (\<lambda>nw. nw\<lparr>nw_sendMsgList := c\<rparr>) s)"
  "same_table s (upd_net n (\<lambda>nw. nw\<lparr>nw_mainSocketEventIndex := i\<rparr>) s)"
  by (simp_all add: same_table_def ModifyEvent_def DeleteEvent_def Let_def)

lemma same_table_ConnectObj_SendPacket: "ConnectObj_SendPacket n a p s = Some s' \<Longrightarrow> same_table s s'"
proof -
  assume "ConnectObj_SendPacket n a p s = Some s'"
  then obtain b where "s' = free_packet p (set_conn n a ((conn n a s)\<lparr>co_sendBuffer := b\<rparr>) s)"
    by (auto simp: ConnectObj_SendPacket_def Let_def split: bind_splits)
  moreover have "same_table s (set_conn n a ((conn n a s)\<lparr>co_sendBuffer := b\<rparr>) s)" by simp
  ultimately show ?thesis using same_table_trans same_table_free by blast
qed

lemma same_table_send_one: "send_one n p s = Some s' \<Longrightarrow> same_table s s'"
proof -
  assume r: "send_one n p s = Some s'"
  have "s' = free_packet p s \<or> (\<exists>a t. ConnectObj_SendPacket n a p s = Some t
      \<and> s' = upd_net n (ModifyEvent (Socket (p_socketKey (sv_store s p))) (EPOLLIN OR EPOLLOUT OR EPOLLRDHUP)) t)"
    using r by (auto simp: send_one_def Let_def split: option.splits if_splits bind_splits)
  then show ?thesis using same_table_ConnectObj_SendPacket same_table_upd_events(1) same_table_trans by auto blast
qed

lemma same_table_foldM: "foldM (send_one n) ps s = Some s' \<Longrightarrow> same_table s s'"
proof (induction ps arbitrary: s)
  case (Cons p ps)
  then obtain t where "send_one n p s = Some t" "foldM (send_one n) ps t = Some s'" by (auto split: bind_splits)
  then show ?case using Cons.IH same_table_send_one same_table_trans by blast
qed simp

definition swapped :: "nat \<Rightarrow> 'h server \<Rightarrow> 'h server" where
  "swapped n s = (if CS_CanSwap (nw_sendMsgList (sv_networks s n))
      then upd_net n (\<lambda>nw. nw\<lparr>nw_sendMsgList := CS_Swap (nw_sendMsgList nw)\<rparr>) s else s)"

definition cleared :: "nat \<Rightarrow> 'h server \<Rightarrow> 'h server" where
  "cleared n s = upd_net n (\<lambda>nw. nw\<lparr>nw_sendMsgList := CS_clear_reader (nw_sendMsgList nw)\<rparr>) s"

lemma OnNetworkUpdate_steps:
  "OnNetworkUpdate n s = map_option (cleared n)
     (foldM (send_one n) (CS_GetReaderCache (nw_sendMsgList (sv_networks (swapped n s) n))) (swapped n s))"
  unfolding OnNetworkUpdate_def Let_def swapped_def [symmetric] cleared_def [symmetric]
  by (simp add: bind_map_option [symmetric] map_conv_bind_option comp_def)

lemma same_table_queue: "same_table s (swapped n s)" "same_table s (cleared n s)"
  by (simp_all add: swapped_def cleared_def same_table_def Let_def)

lemma same_table_OnNetworkUpdate: "OnNetworkUpdate n s = Some s' \<Longrightarrow> same_table s s'"
proof -
  assume "OnNetworkUpdate n s = Some s'"
  then obtain t where t: "foldM (send_one n) (CS_GetReaderCache (nw_sendMsgList (sv_networks (swapped n s) n))) (swapped n s) = Some t"
      "s' = cleared n t" unfolding OnNetworkUpdate_steps by blast
  from same_table_trans [OF same_table_trans [OF same_table_queue(1) same_table_foldM [OF t(1)]] same_table_queue(2)]
  show ?thesis by (simp add: t(2))
qed

subsection \<open>The invariant of the table\<close>

text \<open>
  A serial number whose object is at an address, and whose release has not been asked for.
\<close>

definition pool_obj :: "u64 \<Rightarrow> unit pool \<Rightarrow> unit pobj option" where
  "pool_obj sn p = (map_of (cr_objs (pl_inUse p)) ++ map_of (cr_adds (pl_inUse p))) sn"

definition held :: "u64 \<Rightarrow> nat \<Rightarrow> unit pool \<Rightarrow> bool" where
  "held sn a p = (sn_in_use sn p \<and> sn \<notin> set (cr_removes (pl_inUse p))
     \<and> map_option o_addr (pool_obj sn p) = Some a)"

definition pool_tidy :: "unit pool \<Rightarrow> bool" where
  "pool_tidy p = (pool_ok p \<and> distinct (cr_removes (pl_inUse p)) \<and> (\<forall>sn \<in> set (cr_removes (pl_inUse p)). sn_in_use sn p))"

definition slots_ok :: "'h network \<Rightarrow> bool" where
  "slots_ok nw = (pool_tidy (nw_pool nw) \<and> (\<forall>x a. connect_at x nw = Some (Some a) \<longrightarrow>
     Socket (ni_socket (nw_objs nw a)) = x \<and> held (nw_objSn nw a) a (nw_pool nw)))"

definition table_ok :: "'h network \<Rightarrow> bool" where
  "table_ok nw = (slots_ok nw \<and> smap_ok (nw_sockets nw)
     \<and> (\<forall>x. (map_of (nw_sockets nw) x \<noteq> None) = (\<exists>a. connect_at x nw = Some (Some a))))"

lemma pool_maps_disjoint:
  "pool_ok p \<Longrightarrow> map_of (cr_objs (pl_inUse p)) sn = None \<or> map_of (cr_adds (pl_inUse p)) sn = None"
  by (auto simp: pool_ok_def map_of_eq_None_iff)

lemma sn_in_use_map: "sn_in_use sn p = (pool_obj sn p \<noteq> None)"
  by (auto simp: sn_in_use_def pool_obj_def map_add_def split: option.split)

lemma held_addr: "held sn a p \<Longrightarrow> a \<in> set (cr_addrs (pl_inUse p))"
proof -
  assume "held sn a p"
  then obtain x where x: "pool_obj sn p = Some x" "o_addr x = a" by (auto simp: held_def)
  then have "x \<in> snd ` (set (cr_objs (pl_inUse p)) \<union> set (cr_adds (pl_inUse p)))"
    unfolding pool_obj_def by (force simp: map_add_Some_iff dest: map_of_SomeD)
  then show ?thesis using x(2) by (force simp: cr_addrs_def addrs_def)
qed

lemma held_same: "held sn a p \<Longrightarrow> held sn b p \<Longrightarrow> a = b"
  by (auto simp: held_def)

lemma held_Free [simp]: "held sn a (FreeObject sn' p) = (held sn a p \<and> (sn' \<noteq> sn \<or> sn = 0))"
  by (auto simp: held_def sn_in_use_def FreeObject_def CR_RemoveObj_def pool_obj_def [of _ "p\<lparr>pl_inUse := _\<rparr>"]
      pool_obj_def [symmetric])

lemma pool_tidy_Free: "pool_tidy p \<Longrightarrow> held sn a p \<Longrightarrow> pool_tidy (FreeObject sn p)"
  using pool_ok_Free [of p sn]
  by (auto simp: pool_tidy_def held_def FreeObject_def CR_RemoveObj_def sn_in_use_def)

lemma pool_tidy_Update:
  assumes p: "pool_tidy p"
  shows "pool_tidy (Pool_Update p)" "held sn a p \<Longrightarrow> held sn a (Pool_Update p)"
proof -
  let ?c = "pl_inUse p"
  have c: "cr_ok ?c" "fst ` set (cr_adds ?c) \<inter> fst ` set (cr_objs ?c) = {}"
    using p by (simp_all add: pool_tidy_def pool_ok_def)
  note l = CR_Swap_lookup [OF c, of True "pl_free p"]
  have u: "pl_inUse (Pool_Update p) = (if CR_CanSwap ?c then fst (CR_Swap True (pl_free p) ?c) else ?c)"
    by (simp add: Pool_Update_def split: prod.split)
  show "pool_tidy (Pool_Update p)"
    using p l pool_ok_Update [of p] u by (auto simp: pool_tidy_def Pool_Update_def split: if_splits)
  show "held sn a (Pool_Update p)" if "held sn a p"
    using that l by (auto simp: held_def u sn_in_use_map pool_obj_def GetReaderCache_def simp del: not_None_eq)
qed

lemma pool_tidy_Malloc:
  assumes p: "pool_tidy p" and m: "MallocObject () single awake sn0 g p = (obj, g', p')" and f: "\<not> sn_in_use (o_sn obj) p"
  shows "pool_tidy p'" "held (o_sn obj) (o_addr obj) p'" "held sn a p \<Longrightarrow> held sn a p'" "held sn a p \<Longrightarrow> o_addr obj \<noteq> a"
proof -
  have ok: "pool_ok p" using p by (simp add: pool_tidy_def)
  obtain p1 :: "unit pool" and x :: "unit pobj" and xs where
    p1: "p1 = (if pl_free p = [] then new_objects () (if single then 1 else 50) p else p)"
    and p': "p' = p1\<lparr>pl_free := xs, pl_inUse := CR_AddObj obj (pl_inUse p1)\<rparr>"
    by (rule MallocObject_spec [OF m])
  have u: "pl_inUse p1 = pl_inUse p" using p1 by (simp add: new_objects_def)
  have n: "map_of (cr_objs (pl_inUse p)) (o_sn obj) = None" "map_of (cr_adds (pl_inUse p)) (o_sn obj) = None"
    using f by (simp_all add: sn_in_use_def)
  have i: "cr_objs (pl_inUse p') = cr_objs (pl_inUse p)" "map_of (cr_adds (pl_inUse p')) = (map_of (cr_adds (pl_inUse p)))(o_sn obj \<mapsto> obj)"
      "cr_removes (pl_inUse p') = cr_removes (pl_inUse p)"
    using n by (simp_all add: p' u CR_AddObj_def smap_emplace_def)
  have s: "sn_in_use y p' = (y = o_sn obj \<or> sn_in_use y p)" for y by (simp add: sn_in_use_def i)
  have r: "o_sn obj \<notin> set (cr_removes (pl_inUse p))" using p f by (auto simp: pool_tidy_def)
  show "pool_tidy p'" using p pool_ok_Malloc [OF ok m f] by (auto simp: pool_tidy_def s i)
  show "held (o_sn obj) (o_addr obj) p'" using r by (simp add: held_def s pool_obj_def i)
  show "held sn a p'" if "held sn a p"
    using that f by (cases "sn = o_sn obj") (auto simp: held_def s pool_obj_def i map_add_def)
  show "o_addr obj \<noteq> a" if "held sn a p" using MallocObject_fresh [OF ok m] held_addr [OF that] by blast
qed

subsection \<open>Closing and opening connections\<close>

lemma connect_at_set [simp]:
  "connect_at x nw \<noteq> None \<Longrightarrow> connect_at y (set_connect x v nw) = (if y = x then Some v else connect_at y nw)"
  by (auto simp: connect_at_def set_connect_def nth_list_update)

lemma connect_at_fields [simp]:
  "connect_at x (nw\<lparr>nw_sockets := a\<rparr>) = connect_at x nw" "connect_at x (nw\<lparr>nw_pool := b\<rparr>) = connect_at x nw"
  "connect_at x (nw\<lparr>nw_objs := c\<rparr>) = connect_at x nw" "connect_at x (nw\<lparr>nw_objSn := d\<rparr>) = connect_at x nw"
  "connect_at x (nw\<lparr>nw_ms := e\<rparr>) = connect_at x nw" "connect_at x (nw\<lparr>nw_closed := f\<rparr>) = connect_at x nw"
  "connect_at x (nw\<lparr>nw_sendMsgList := g\<rparr>) = connect_at x nw" "connect_at x (nw\<lparr>nw_epoll := h\<rparr>) = connect_at x nw"
  "connect_at x (nw\<lparr>nw_mainSocketEventIndex := i\<rparr>) = connect_at x nw"
  "connect_at x (AddEvent fd fl nw) = connect_at x nw" "connect_at x (DeleteEvent fd nw) = connect_at x nw"
  "connect_at x (ModifyEvent fd fl nw) = connect_at x nw"
  by (simp_all add: connect_at_def AddEvent_def DeleteEvent_def ModifyEvent_def)

lemma set_connect_fields [simp]:
  "nw_sockets (set_connect x v nw) = nw_sockets nw" "nw_pool (set_connect x v nw) = nw_pool nw"
  "nw_objs (set_connect x v nw) = nw_objs nw" "nw_objSn (set_connect x v nw) = nw_objSn nw"
  "nw_closed (set_connect x v nw) = nw_closed nw" "nw_networkType (set_connect x v nw) = nw_networkType nw"
  "nw_sendMsgList (set_connect x v nw) = nw_sendMsgList nw"
  by (simp_all add: set_connect_def)

lemma event_fields [simp]:
  "nw_connects (AddEvent fd f nw) = nw_connects nw" "nw_sockets (AddEvent fd f nw) = nw_sockets nw"
  "nw_pool (AddEvent fd f nw) = nw_pool nw" "nw_objs (AddEvent fd f nw) = nw_objs nw"
  "nw_objSn (AddEvent fd f nw) = nw_objSn nw" "nw_connects (DeleteEvent fd nw) = nw_connects nw"
  "nw_sockets (DeleteEvent fd nw) = nw_sockets nw" "nw_pool (DeleteEvent fd nw) = nw_pool nw"
  "nw_objs (DeleteEvent fd nw) = nw_objs nw" "nw_objSn (DeleteEvent fd nw) = nw_objSn nw"
  "nw_closed (DeleteEvent fd nw) = nw_closed nw" "nw_sendMsgList (DeleteEvent fd nw) = nw_sendMsgList nw"
  "nw_connects (ModifyEvent fd f nw) = nw_connects nw" "nw_objs (ModifyEvent fd f nw) = nw_objs nw"
  "nw_sendMsgList (ModifyEvent fd f nw) = nw_sendMsgList nw" "nw_closed (AddEvent fd f nw) = nw_closed nw"
  by (simp_all add: AddEvent_def DeleteEvent_def ModifyEvent_def)

lemma Help_DispatchMsg_networks [simp]: "sv_networks (Help_DispatchMsg m i s) = sv_networks s"
proof -
  obtain p s1 where c: "CreatePacket m i s = (p, s1)" by force
  show ?thesis using CreatePacket_fields(4) [OF c] by (simp add: Help_DispatchMsg_def c)
qed

text \<open>A connection object after \<open>BackToPool\<close>, and what its network is then.\<close>

definition reset_conn :: "connect_obj \<Rightarrow> connect_obj" where
  "reset_conn c = c\<lparr>co_state := StateNone, ni_socket := SocketKey_Clear (ni_socket c), ni_tags := [],
     co_recvBuffer := NetworkBuffer_BackToPool (co_recvBuffer c), co_sendBuffer := NetworkBuffer_BackToPool (co_sendBuffer c)\<rparr>"

definition without_conn :: "nat \<Rightarrow> 'h network \<Rightarrow> 'h network" where
  "without_conn a nw = nw\<lparr>nw_objs := (nw_objs nw)(a := reset_conn (nw_objs nw a)),
     nw_closed := nw_closed nw @ filter (\<lambda>x. x \<noteq> INVALID_SOCKET) [Socket (ni_socket (nw_objs nw a))],
     nw_pool := FreeObject (nw_objSn nw a) (nw_pool nw), nw_ms := RemoveFunction (nw_objSn nw a) (nw_ms nw),
     nw_objSn := (nw_objSn nw)(a := 0)\<rparr>"

lemma without_conn_fields [simp]:
  "connect_at x (without_conn a nw) = connect_at x nw" "nw_sockets (without_conn a nw) = nw_sockets nw"
  "nw_pool (without_conn a nw) = FreeObject (nw_objSn nw a) (nw_pool nw)"
  "nw_objSn (without_conn a nw) = (nw_objSn nw)(a := 0)"
  "nw_objs (without_conn a nw) = (nw_objs nw)(a := reset_conn (nw_objs nw a))"
  "nw_networkType (without_conn a nw) = nw_networkType nw" "nw_sendMsgList (without_conn a nw) = nw_sendMsgList nw"
  "nw_closed (without_conn a nw) = nw_closed nw @ filter (\<lambda>x. x \<noteq> INVALID_SOCKET) [Socket (ni_socket (nw_objs nw a))]"
  by (simp_all add: without_conn_def)

lemma conn_back_to_pool_networks:
  "sv_networks (conn_back_to_pool n a s) = (sv_networks s)(n := without_conn a (sv_networks s n))"
  by (simp add: conn_back_to_pool_def ConnectObj_BackToPool_def Let_def without_conn_def reset_conn_def
      set_conn_def sock_close_def conn_def fun_eq_iff)

lemma slots_ok_without:
  assumes ok: "slots_ok nw" and x: "connect_at x nw = Some (Some a)"
  shows "slots_ok (set_connect x None (without_conn a nw))"
proof -
  have h: "Socket (ni_socket (nw_objs nw a)) = x" "held (nw_objSn nw a) a (nw_pool nw)" "pool_tidy (nw_pool nw)"
    using ok x by (simp_all add: slots_ok_def)
  have "held (nw_objSn nw b) b (nw_pool nw) \<and> b \<noteq> a \<and> nw_objSn nw b \<noteq> nw_objSn nw a"
    if "y \<noteq> x" "connect_at y nw = Some (Some b)" for y b
  proof -
    have b: "Socket (ni_socket (nw_objs nw b)) = y" "held (nw_objSn nw b) b (nw_pool nw)"
      using ok that(2) by (simp_all add: slots_ok_def)
    then have "b \<noteq> a" using h(1) that(1) by blast
    moreover have "nw_objSn nw b \<noteq> nw_objSn nw a"
      using held_same b(2) h(2) \<open>b \<noteq> a\<close> by metis
    ultimately show ?thesis using b(2) by simp
  qed
  then show ?thesis using ok x pool_tidy_Free [OF h(3,2)]
    by (auto simp: slots_ok_def split: if_splits) metis
qed

lemma RemoveConnectObj_steps:
  assumes "RemoveConnectObj n x s = Some s'"
  obtains a where "connect_at x (sv_networks s n) = Some (Some a)"
    "sv_networks s' = (sv_networks s)(n := (DeleteEvent x (set_connect x None (without_conn a (sv_networks s n))))
        \<lparr>nw_sockets := smap_erase x (nw_sockets (sv_networks s n))\<rparr>)"
    "s' = upd_net n (\<lambda>nw. (DeleteEvent x (set_connect x None nw))\<lparr>nw_sockets := smap_erase x (nw_sockets nw)\<rparr>)
        (conn_back_to_pool n a s)"
proof -
  obtain a where a: "connect_at x (sv_networks s n) = Some (Some a)"
    using assms by (auto simp: RemoveConnectObj_def split: option.splits)
  have s': "s' = upd_net n (\<lambda>nw. (DeleteEvent x (set_connect x None nw))\<lparr>nw_sockets := smap_erase x (nw_sockets nw)\<rparr>)
        (conn_back_to_pool n a s)" using assms a by (simp add: RemoveConnectObj_def)
  show thesis using a by (intro that [of a]) (simp_all add: s' conn_back_to_pool_networks)
qed

lemma slots_ok_cong:
  "nw_connects nw' = nw_connects nw \<Longrightarrow> nw_objs nw' = nw_objs nw \<Longrightarrow> nw_objSn nw' = nw_objSn nw \<Longrightarrow> nw_pool nw' = nw_pool nw
     \<Longrightarrow> slots_ok nw' = slots_ok nw"
  by (simp add: slots_ok_def connect_at_def)

lemma table_ok_Remove: "table_ok (sv_networks s n) \<Longrightarrow> RemoveConnectObj n x s = Some s' \<Longrightarrow> table_ok (sv_networks s' n)"
proof -
  assume ok: "table_ok (sv_networks s n)" and "RemoveConnectObj n x s = Some s'"
  from this(2) obtain a where x: "connect_at x (sv_networks s n) = Some (Some a)"
    "sv_networks s' = (sv_networks s)(n := (DeleteEvent x (set_connect x None (without_conn a (sv_networks s n))))
        \<lparr>nw_sockets := smap_erase x (nw_sockets (sv_networks s n))\<rparr>)"
    by (rule RemoveConnectObj_steps)
  have a: "connect_at x (sv_networks s n) = Some (Some a)"
    "sv_networks s' n = (DeleteEvent x (set_connect x None (without_conn a (sv_networks s n))))
        \<lparr>nw_sockets := smap_erase x (nw_sockets (sv_networks s n))\<rparr>" using x(1) by (simp_all add: x(2))
  let ?nw = "sv_networks s n"
  have "slots_ok (sv_networks s' n)"
    using slots_ok_without [OF _ a(1)] ok unfolding a(2) table_ok_def by (subst slots_ok_cong) simp_all
  moreover have "connect_at y (sv_networks s' n) = (if y = x then Some None else connect_at y ?nw)" for y
    using a(1) unfolding a(2) by simp
  ultimately show ?thesis using ok unfolding table_ok_def a(2) by (auto split: if_splits)
qed

lemma table_ok_cong:
  assumes "nw_connects nw' = nw_connects nw" "\<And>a. Socket (ni_socket (nw_objs nw' a)) = Socket (ni_socket (nw_objs nw a))"
    "nw_objSn nw' = nw_objSn nw" "nw_pool nw' = nw_pool nw" "nw_sockets nw' = nw_sockets nw"
  shows "table_ok nw' = table_ok nw"
proof -
  have "connect_at x nw' = connect_at x nw" for x using assms(1) by (simp add: connect_at_def)
  then show ?thesis using assms(2-) by (simp add: table_ok_def slots_ok_def)
qed

lemma same_table_ok: "same_table s s' \<Longrightarrow> table_ok (sv_networks s n) \<Longrightarrow> table_ok (sv_networks s' n)"
  using table_ok_cong [of "sv_networks s' n" "sv_networks s n"] by (simp add: same_table_def Let_def)

lemma table_ok_other [simp]:
  "table_ok (nw\<lparr>nw_closed := c\<rparr>) = table_ok nw" "table_ok (AddEvent fd f nw) = table_ok nw"
  "table_ok (nw\<lparr>nw_epoll := e\<rparr>) = table_ok nw" "table_ok (nw\<lparr>nw_mainSocketEventIndex := i\<rparr>) = table_ok nw"
  by (rule table_ok_cong; simp add: AddEvent_def)+

lemma table_ok_sock_close [simp]: "table_ok (sv_networks (sock_close n x s) m) = table_ok (sv_networks s m)"
  by (simp add: sock_close_def)

text \<open>A serial number the generator has not given to a connection in use.\<close>

definition fresh_conn :: "nat \<Rightarrow> 'h server \<Rightarrow> bool" where
  "fresh_conn n s = (\<not> sn_in_use (fst (GenerateSN (sv_global s))) (nw_pool (sv_networks s n)))"

lemma table_ok_new:
  assumes ok: "table_ok nw" and x: "connect_at x nw = Some None"
    and m: "MallocObject () False id 0 g (nw_pool nw) = (obj, g', pool)" and f: "\<not> sn_in_use (o_sn obj) (nw_pool nw)"
    and c: "Socket (ni_socket c) = x"
  shows "table_ok ((set_connect x (Some (o_addr obj)) nw)
      \<lparr>nw_pool := pool, nw_objs := (nw_objs nw)(o_addr obj := c), nw_objSn := (nw_objSn nw)(o_addr obj := o_sn obj),
       nw_sockets := smap_emplace x () (nw_sockets nw)\<rparr>)"
proof -
  have t: "pool_tidy (nw_pool nw)" using ok by (simp add: table_ok_def slots_ok_def)
  note m = pool_tidy_Malloc [OF t m f]
  have "held (nw_objSn nw b) b pool \<and> o_addr obj \<noteq> b \<and> Socket (ni_socket (nw_objs nw b)) = y"
    if "connect_at y nw = Some (Some b)" for y b
  proof -
    have h: "held (nw_objSn nw b) b (nw_pool nw)" "Socket (ni_socket (nw_objs nw b)) = y"
      using ok that by (simp_all add: table_ok_def slots_ok_def)
    show ?thesis using m(3) [OF h(1)] m(4) [OF h(1)] h(2) by simp
  qed
  then show ?thesis using ok x m(1,2) c
    by (auto simp: table_ok_def slots_ok_def map_of_emplace split: if_splits)
qed

lemma MallocObject_sn: "MallocObject T single awake 0 g p = (obj, g', p') \<Longrightarrow> o_sn obj = fst (GenerateSN g)"
  by (auto simp: MallocObject_def Let_def split: prod.splits)

lemma table_ok_Create:
  assumes ok: "table_ok (sv_networks s n)" and f: "fresh_conn n s"
    and c: "CreateConnectObj n x opt tt tv st s = Some (r, s')"
  shows "table_ok (sv_networks s' n)"
proof -
  obtain b s1 where k: "CheckSocket n x opt s = (b, s1)" by force
  have s1: "table_ok (sv_networks s1 n)" using ok k by (auto simp: CheckSocket_def Let_def split: if_splits)
  show ?thesis
  proof (cases b)
    case True
    then have e: "s1 = s" using k by (auto simp: CheckSocket_def Let_def split: if_splits)
    consider a where "connect_at x (sv_networks s n) = Some (Some a)" | "connect_at x (sv_networks s n) = Some None"
      using c True k e by (auto simp: CreateConnectObj_def split: option.splits)
    then show ?thesis
    proof cases
      case 1
      then obtain t where "RemoveConnectObj n x s = Some t" "s' = t"
        using c True k e by (auto simp: CreateConnectObj_def)
      then show ?thesis using table_ok_Remove [OF ok] by simp
    next
      case 2
      obtain obj g pool where m: "MallocObject () False id 0 (sv_global s) (nw_pool (sv_networks s n)) = (obj, g, pool)"
        by (metis prod_cases3)
      have f: "\<not> sn_in_use (o_sn obj) (nw_pool (sv_networks s n))" using f MallocObject_sn [OF m] by (simp add: fresh_conn_def)
      let ?c = "ConnectObj_Awake x (nw_networkType (sv_networks s n)) tt tv st (nw_objs (sv_networks s n) (o_addr obj))"
      have "Socket (ni_socket ?c) = x" by (simp add: ConnectObj_Awake_def)
      from table_ok_new [OF ok 2 m f this] have "table_ok (sv_networks (upd_net n (\<lambda>nw. AddEvent x (EPOLLIN OR EPOLLOUT OR EPOLLET OR EPOLLRDHUP)
          ((set_connect x (Some (o_addr obj)) nw)
             \<lparr>nw_pool := pool, nw_objs := (nw_objs nw)(o_addr obj := ?c), nw_objSn := (nw_objSn nw)(o_addr obj := o_sn obj),
              nw_sockets := smap_emplace x () (nw_sockets nw)\<rparr>)) (s\<lparr>sv_global := g\<rparr>)) n)" by simp
      then show ?thesis using c True k e 2 m by (simp only: CreateConnectObj_def Let_def) auto
    qed
  qed (use c k s1 in \<open>simp add: CreateConnectObj_def\<close>)
qed

lemma epoll_one_shape:
  assumes e: "epoll_one mg cd n (i, ev) s = Some s'"
  shows "\<exists>t. same_table s t \<and> (s' = t \<or> RemoveConnectObj n (ev_fd ev) t = Some s')"
proof -
  let ?s = "OnEpoll n (ev_fd ev) i s" and ?x = "ev_fd ev"
  have s: "same_table s ?s" by (simp add: OnEpoll_def same_table_upd_events)
  consider (none) "s' = ?s" | (conn) a where "connect_at ?x (sv_networks ?s n) = Some (Some a)"
    using e by (auto simp: epoll_one_def Let_def split: option.splits)
  then show ?thesis
  proof cases
    case none
    then show ?thesis using s by blast
  next
    case (conn a)
    show ?thesis
    proof (cases "ev_events ev AND EPOLLRDHUP \<noteq> 0 \<or> ev_events ev AND EPOLLERR \<noteq> 0 \<or> ev_events ev AND EPOLLHUP \<noteq> 0")
      case True
      then have "RemoveConnectObj n ?x ?s = Some s'" using e conn unfolding epoll_one_def Let_def by (simp split: if_splits)
      then show ?thesis using s by blast
    next
      case False
      then obtain ok t where t: "(if ev_events ev AND EPOLLIN \<noteq> 0
            then map_option (\<lambda>(rs, answers, s). (rs, s)) (Recv mg cd n a (ev_recv ev) ?s) else Some (True, ?s)) = Some (ok, t)"
          "(if \<not> ok then RemoveConnectObj n ?x t
            else if ev_events ev AND EPOLLOUT \<noteq> 0
            then do {
              (ok, sent, answers, s) \<leftarrow> Send cd n a (ev_send ev) t;
              if \<not> ok then RemoveConnectObj n ?x s else Some (upd_net n (ModifyEvent ?x (EPOLLIN OR EPOLLRDHUP)) s)
            } else Some t) = Some s'"
        using e conn unfolding epoll_one_def Let_def prod.case by (simp only: option.case if_False bind_eq_Some_conv) auto
      have "same_table ?s t" using t(1) by (auto split: if_splits dest: same_table_Recv)
      then have st: "same_table s t" using same_table_trans [OF s] by blast
      show ?thesis
      proof (cases "ok \<and> ev_events ev AND EPOLLOUT \<noteq> 0")
        case True
        then obtain r sent rest u where u: "Send cd n a (ev_send ev) t = Some (r, sent, rest, u)"
            "(if \<not> r then RemoveConnectObj n ?x u else Some (upd_net n (ModifyEvent ?x (EPOLLIN OR EPOLLRDHUP)) u)) = Some s'"
          using t(2) by (auto simp: bind_eq_Some_conv)
        have su: "same_table s u" using same_table_Send [OF u(1)] st same_table_trans by blast
        then have "same_table s (upd_net n (ModifyEvent ?x (EPOLLIN OR EPOLLRDHUP)) u)"
          by (rule same_table_trans [OF _ same_table_upd_events(1)])
        then show ?thesis using u(2) su by (cases r) auto
      qed (use t(2) st in \<open>cases ok; auto\<close>)
    qed
  qed
qed

lemma table_ok_epoll_one:
  "table_ok (sv_networks s n) \<Longrightarrow> epoll_one mg cd n (i, ev) s = Some s' \<Longrightarrow> table_ok (sv_networks s' n)"
  using epoll_one_shape same_table_ok table_ok_Remove by blast

lemma table_ok_Disconnect:
  "table_ok (sv_networks s n) \<Longrightarrow> HandleDisconnect n p s = Some s' \<Longrightarrow> table_ok (sv_networks s' n)"
  using table_ok_Remove by (auto simp: HandleDisconnect_def Let_def split: if_splits option.splits)

lemma table_ok_Pool_Update:
  "table_ok nw \<Longrightarrow> table_ok (nw\<lparr>nw_pool := Pool_Update (nw_pool nw)\<rparr>)"
  using pool_tidy_Update by (simp add: table_ok_def slots_ok_def)

subsection \<open>Closing a network\<close>

lemma connect_at_nonneg: "connect_at x nw = Some v \<Longrightarrow> 0 \<le> x"
  by (auto simp: connect_at_def split: if_splits)

lemma Help_DispatchMsg_inbox:
  "\<exists>p. inbox (Help_DispatchMsg m i s) = inbox s @ [p]" "pending n (Help_DispatchMsg m i s) = pending n s"
proof -
  obtain p s1 where c: "CreatePacket m i s = (p, s1)" by force
  note f = CreatePacket_fields(6,7) [OF c]
  show "\<exists>p. inbox (Help_DispatchMsg m i s) = inbox s @ [p]" "pending n (Help_DispatchMsg m i s) = pending n s"
    using f by (simp_all add: Help_DispatchMsg_def c)
qed

lemma upd_net_inbox [simp]: "inbox (upd_net n f s) = inbox s" "inbox (sock_close n x s) = inbox s"
  by (simp_all add: inbox_def sock_close_def)

lemma conn_back_to_pool_inbox: "\<exists>p. inbox (conn_back_to_pool n a s) = inbox s @ [p]"
  using Help_DispatchMsg_inbox(1) [of MI_NetworkDisconnect "Some (co_identify (conn n a s))" s]
  by (simp add: conn_back_to_pool_def ConnectObj_BackToPool_def Let_def)

lemma close_all_ok:
  assumes "slots_ok (sv_networks s n)" "distinct xs" "\<forall>x \<in> set xs. \<exists>a. connect_at x (sv_networks s n) = Some (Some a)"
  shows "\<exists>s' qs. close_all n xs s = Some s' \<and> slots_ok (sv_networks s' n)
    \<and> (\<forall>y. connect_at y (sv_networks s' n) = (if y \<in> set xs then Some None else connect_at y (sv_networks s n)))
    \<and> nw_closed (sv_networks s' n) = nw_closed (sv_networks s n) @ xs
    \<and> nw_sendMsgList (sv_networks s' n) = nw_sendMsgList (sv_networks s n)
    \<and> (\<forall>m. m \<noteq> n \<longrightarrow> sv_networks s' m = sv_networks s m) \<and> inbox s' = inbox s @ qs \<and> length qs = length xs"
  using assms
proof (induction xs arbitrary: s)
  case (Cons x xs)
  let ?nw = "sv_networks s n"
  obtain a where a: "connect_at x ?nw = Some (Some a)" using Cons.prems(3) by auto
  let ?t = "upd_net n (set_connect x None) (conn_back_to_pool n a s)"
  have n: "sv_networks ?t = (sv_networks s)(n := set_connect x None (without_conn a ?nw))"
    by (simp add: conn_back_to_pool_networks)
  have "slots_ok (sv_networks ?t n)" using slots_ok_without [OF Cons.prems(1) a] n by simp
  moreover have at: "connect_at y (sv_networks ?t n) = (if y = x then Some None else connect_at y ?nw)" for y
    using a n by simp
  then have "\<forall>y \<in> set xs. \<exists>b. connect_at y (sv_networks ?t n) = Some (Some b)" using Cons.prems(2,3) by auto
  ultimately obtain s' qs where IH: "close_all n xs ?t = Some s'" "slots_ok (sv_networks s' n)"
      "\<forall>y. connect_at y (sv_networks s' n) = (if y \<in> set xs then Some None else connect_at y (sv_networks ?t n))"
      "nw_closed (sv_networks s' n) = nw_closed (sv_networks ?t n) @ xs"
      "nw_sendMsgList (sv_networks s' n) = nw_sendMsgList (sv_networks ?t n)"
      "\<forall>m. m \<noteq> n \<longrightarrow> sv_networks s' m = sv_networks ?t m" "inbox s' = inbox ?t @ qs" "length qs = length xs"
    using Cons.IH [of ?t] Cons.prems(2) by auto
  have "Socket (ni_socket (nw_objs ?nw a)) = x" "x \<noteq> INVALID_SOCKET"
    using Cons.prems(1) a connect_at_nonneg [OF a] by (auto simp: slots_ok_def)
  then have c: "nw_closed (sv_networks ?t n) = nw_closed ?nw @ [x]"
    "nw_sendMsgList (sv_networks ?t n) = nw_sendMsgList ?nw" using n by simp_all
  obtain p where p: "inbox ?t = inbox s @ [p]" using conn_back_to_pool_inbox [of n a s] by auto
  have "close_all n (x # xs) s = Some s'" using a IH(1) by simp
  moreover have "\<forall>y. connect_at y (sv_networks s' n) = (if y \<in> set (x # xs) then Some None else connect_at y ?nw)"
    using IH(3) at by simp
  moreover have "\<forall>m. m \<noteq> n \<longrightarrow> sv_networks s' m = sv_networks s m" using IH(6) unfolding n by simp
  ultimately show ?case using IH(2,4,5,7,8) c p by (intro exI [of _ s'] exI [of _ "p # qs"]) simp
qed simp

lemma fold_packet_back:
  "sv_networks (fold packet_back_to_pool ps s) = sv_networks s" "inbox (fold packet_back_to_pool ps s) = inbox s"
  by (induction ps arbitrary: s) (simp_all add: packet_back_to_pool_def inbox_def)

lemma Network_BackToPool_ok:
  assumes ok: "table_ok (sv_networks s n)"
  shows "\<exists>s' qs. Network_BackToPool n s = Some s'
    \<and> nw_closed (sv_networks s' n) = nw_closed (sv_networks s n) @ map fst (nw_sockets (sv_networks s n))
    \<and> inbox s' = inbox s @ qs \<and> length qs = length (nw_sockets (sv_networks s n))
    \<and> (\<forall>x a. connect_at x (sv_networks s' n) \<noteq> Some (Some a)) \<and> nw_sockets (sv_networks s' n) = []
    \<and> nw_epoll (sv_networks s' n) = [] \<and> pending n s' = [] \<and> table_ok (sv_networks s' n)
    \<and> (\<forall>m. m \<noteq> n \<longrightarrow> sv_networks s' m = sv_networks s m)"
proof -
  let ?nw = "sv_networks s n" and ?xs = "map fst (nw_sockets (sv_networks s n))"
  obtain c ps where c: "CS_BackToPool (nw_sendMsgList ?nw) = (c, ps)" by force
  let ?t = "fold packet_back_to_pool ps (upd_net n (\<lambda>nw. nw\<lparr>nw_sendMsgList := c\<rparr>) s)"
  have t: "sv_networks ?t = (sv_networks s)(n := ?nw\<lparr>nw_sendMsgList := c\<rparr>)" "inbox ?t = inbox s"
    by (simp_all add: fold_packet_back)
  have "slots_ok (sv_networks ?t n)" using ok t(1) slots_ok_cong [of "?nw\<lparr>nw_sendMsgList := c\<rparr>" ?nw] by (simp add: table_ok_def)
  moreover have "distinct ?xs" using ok smap_ok_distinct by (auto simp: table_ok_def)
  moreover have x: "(x \<in> set ?xs) = (\<exists>a. connect_at x ?nw = Some (Some a))" for x
  proof -
    have "(x \<in> set ?xs) = (map_of (nw_sockets ?nw) x \<noteq> None)" by (simp add: map_of_eq_None_iff)
    then show ?thesis using ok by (simp add: table_ok_def)
  qed
  then have "\<forall>x \<in> set ?xs. \<exists>a. connect_at x (sv_networks ?t n) = Some (Some a)" using t(1) by simp
  ultimately obtain u qs where u: "close_all n ?xs ?t = Some u" "slots_ok (sv_networks u n)"
      "\<forall>y. connect_at y (sv_networks u n) = (if y \<in> set ?xs then Some None else connect_at y (sv_networks ?t n))"
      "nw_closed (sv_networks u n) = nw_closed (sv_networks ?t n) @ ?xs"
      "nw_sendMsgList (sv_networks u n) = nw_sendMsgList (sv_networks ?t n)"
      "\<forall>m. m \<noteq> n \<longrightarrow> sv_networks u m = sv_networks ?t m" "inbox u = inbox ?t @ qs" "length qs = length ?xs"
    using close_all_ok [of ?t n ?xs] by blast
  let ?s = "upd_net n (\<lambda>nw. nw\<lparr>nw_sockets := [], nw_epoll := []\<rparr>) u"
  have "Network_BackToPool n s = Some ?s" using c u(1) t(1) by (simp add: Network_BackToPool_def Let_def)
  moreover have free: "\<forall>x a. connect_at x (sv_networks ?s n) \<noteq> Some (Some a)" using u(3) x t(1) by (simp del: set_map)
  moreover have "table_ok (sv_networks ?s n)"
    using free u(2) slots_ok_cong [of "sv_networks ?s n" "sv_networks u n"] by (simp add: table_ok_def)
  moreover have "pending n ?s = []"
  proof -
    have "CS_GetWriterCache c = []" using c by (auto simp: CS_BackToPool_def CS_GetWriterCache_def)
    moreover have "nw_sendMsgList (sv_networks u n) = c" using u(5) unfolding t(1) by simp
    ultimately show ?thesis by (simp add: pending_def)
  qed
  ultimately show ?thesis using u(4,6,7,8) t by (intro exI [of _ ?s] exI [of _ qs]) simp
qed

lemma table_ok_shutdown:
  "table_ok (sv_networks s n) \<Longrightarrow> Network_BackToPool n s = Some s' \<Longrightarrow> table_ok (sv_networks s' n)"
  using Network_BackToPool_ok [of s n] by auto

subsection \<open>Every step keeps the table\<close>

text \<open>
  The states of network \<open>n\<close>. Its own thread takes the events of a frame, sends, opens, closes and updates the
  pool; everything else a process does leaves the table alone (\<open>same_table\<close>).
\<close>

inductive net_reach :: "nat \<Rightarrow> 'h server \<Rightarrow> bool" for n where
  net_start: "nw_connects (sv_networks s n) = replicate MAX_CLIENT None \<Longrightarrow> nw_sockets (sv_networks s n) = [] \<Longrightarrow>
    nw_pool (sv_networks s n) = DynamicObjectPool \<Longrightarrow> net_reach n s"
| net_event: "net_reach n s \<Longrightarrow> epoll_one mg cd n (i, ev) s = Some s' \<Longrightarrow> net_reach n s'"
| net_send: "net_reach n s \<Longrightarrow> OnNetworkUpdate n s = Some s' \<Longrightarrow> net_reach n s'"
| net_open: "net_reach n s \<Longrightarrow> fresh_conn n s \<Longrightarrow> CreateConnectObj n socket opt tt tv st s = Some (ok, s') \<Longrightarrow> net_reach n s'"
| net_disconnect: "net_reach n s \<Longrightarrow> HandleDisconnect n p s = Some s' \<Longrightarrow> net_reach n s'"
| net_listen_key: "net_reach n s \<Longrightarrow> HandleListenKey n p s = Some s' \<Longrightarrow> net_reach n s'"
| net_shutdown: "net_reach n s \<Longrightarrow> Network_BackToPool n s = Some s' \<Longrightarrow> net_reach n s'"
| net_pool: "net_reach n s \<Longrightarrow> net_reach n (upd_net n (\<lambda>nw. nw\<lparr>nw_pool := Pool_Update (nw_pool nw)\<rparr>) s)"
| net_other: "net_reach n s \<Longrightarrow> same_table s s' \<Longrightarrow> net_reach n s'"

lemma table_ok_start:
  assumes "nw_connects nw = replicate MAX_CLIENT None" "nw_sockets nw = []" "nw_pool nw = DynamicObjectPool"
  shows "table_ok nw"
proof -
  have "connect_at x nw \<noteq> Some (Some a)" for x a using assms(1) by (auto simp: connect_at_def nth_replicate)
  moreover have "pool_tidy (nw_pool nw)"
    using pool_ok_init by (simp add: assms(3) pool_tidy_def) (simp add: DynamicObjectPool_def CacheRefresh_empty_def)
  ultimately show ?thesis using assms(2) by (simp add: table_ok_def slots_ok_def)
qed

lemma same_table_ListenKey: "HandleListenKey n p s = Some s' \<Longrightarrow> same_table s s'"
  by (auto simp: HandleListenKey_def Let_def split: if_splits option.splits)

lemma net_reach_table: "net_reach n s \<Longrightarrow> table_ok (sv_networks s n)"
proof (induction rule: net_reach.induct)
  case (net_start s)
  then show ?case by (rule table_ok_start)
next
  case (net_shutdown s s')
  from table_ok_shutdown [OF net_shutdown.IH net_shutdown.hyps(2)] show ?case .
next
  case (net_pool s)
  then show ?case using table_ok_Pool_Update by simp
qed (auto intro: table_ok_epoll_one table_ok_Create table_ok_Disconnect same_table_ok
    dest: same_table_OnNetworkUpdate same_table_ListenKey)

lemma connection_state:
  assumes "net_reach n s" "connect_at x (sv_networks s n) = Some (Some a)"
  shows "Socket (ni_socket (nw_objs (sv_networks s n) a)) = x"
  using net_reach_table [OF assms(1)] assms(2) by (auto simp: table_ok_def slots_ok_def)

text \<open>
  C16. In every reachable state of a network, a slot of the table is in use exactly when its number is in the set
  of sockets, the connection in a slot has the slot's number as its socket, two slots never hold the same
  connection, and the object of a connection in the table is in use in the pool and has not been given back.
\<close>

theorem connection_table_consistent:
  assumes r: "net_reach n s"
  shows "(\<forall>x. (map_of (nw_sockets (sv_networks s n)) x \<noteq> None) = (\<exists>a. connect_at x (sv_networks s n) = Some (Some a)))
    \<and> (\<forall>x a. connect_at x (sv_networks s n) = Some (Some a) \<longrightarrow>
         Socket (ni_socket (conn n a s)) = x \<and> held (nw_objSn (sv_networks s n) a) a (nw_pool (sv_networks s n))
         \<and> (\<forall>y. connect_at y (sv_networks s n) = Some (Some a) \<longrightarrow> y = x))"
proof -
  have "table_ok (sv_networks s n)" by (rule net_reach_table [OF r])
  then show ?thesis unfolding table_ok_def slots_ok_def conn_def by metis
qed

text \<open>
  C19. Shutting a network down never touches a connection that is not there: for every socket in use, one
  connection is closed once, in the order of the sockets, and one message about it is put in the inbox; then the
  table, the set of sockets and the queue of packets are empty.
\<close>

theorem network_closes_every_connection:
  assumes "net_reach n s"
  shows "\<exists>s' qs. Network_BackToPool n s = Some s'
    \<and> nw_closed (sv_networks s' n) = nw_closed (sv_networks s n) @ map fst (nw_sockets (sv_networks s n))
    \<and> inbox s' = inbox s @ qs \<and> length qs = length (nw_sockets (sv_networks s n))
    \<and> (\<forall>x a. connect_at x (sv_networks s' n) \<noteq> Some (Some a)) \<and> nw_sockets (sv_networks s' n) = []
    \<and> nw_epoll (sv_networks s' n) = [] \<and> pending n s' = [] \<and> table_ok (sv_networks s' n)
    \<and> (\<forall>m. m \<noteq> n \<longrightarrow> sv_networks s' m = sv_networks s m)"
  by (rule Network_BackToPool_ok [OF net_reach_table [OF assms]])

subsection \<open>Packets reach their connections\<close>

definition rings_ok :: "nat \<Rightarrow> nat \<Rightarrow> 'h server \<Rightarrow> bool" where
  "rings_ok n k s = (\<forall>x a. connect_at x (sv_networks s n) = Some (Some a) \<longrightarrow>
     nb_ok (co_sendBuffer (conn n a s)) \<and> length (contents (co_sendBuffer (conn n a s))) + k < 2147000000)"

definition packet_slot :: "nat \<Rightarrow> 'h server \<Rightarrow> nat \<Rightarrow> nat option option" where
  "packet_slot n s p = connect_at (Socket (p_socketKey (sv_store s p))) (sv_networks s n)"

definition goes_to :: "nat \<Rightarrow> 'h server \<Rightarrow> nat \<Rightarrow> nat \<Rightarrow> bool" where
  "goes_to n s a p = (packet_slot n s p = Some (Some a) \<and> CompareTags (ni_tags (conn n a s)) (p_tagKey (sv_store s p)))"

definition frames_to :: "nat \<Rightarrow> 'h server \<Rightarrow> nat \<Rightarrow> nat list \<Rightarrow> u8 list" where
  "frames_to n s a ps = concat (map (\<lambda>p. frame (sv_store s p)) (filter (goes_to n s a) ps))"

definition frames_size :: "'h server \<Rightarrow> nat list \<Rightarrow> nat" where
  "frames_size s ps = sum_list (map (\<lambda>p. length (frame (sv_store s p))) ps)"

definition released :: "'h server \<Rightarrow> u64 list" where
  "released s = cr_removes (pl_inUse (sv_pool s))"

text \<open>The state after one packet, seen from the connections.\<close>

definition sent_step :: "nat \<Rightarrow> nat \<Rightarrow> 'h server \<Rightarrow> 'h server \<Rightarrow> bool" where
  "sent_step n p s s' =
     (sv_store s' = sv_store s \<and> sv_sn s' = sv_sn s \<and> inbox s' = inbox s
      \<and> nw_connects (sv_networks s' n) = nw_connects (sv_networks s n)
      \<and> nw_sendMsgList (sv_networks s' n) = nw_sendMsgList (sv_networks s n)
      \<and> released s' = released s @ filter (\<lambda>sn. sn \<noteq> 0) [sv_sn s p]
      \<and> (\<forall>a. ni_tags (conn n a s') = ni_tags (conn n a s))
      \<and> (\<forall>x a. connect_at x (sv_networks s n) = Some (Some a) \<longrightarrow>
           nb_ok (co_sendBuffer (conn n a s'))
           \<and> contents (co_sendBuffer (conn n a s')) = contents (co_sendBuffer (conn n a s)) @ frames_to n s a [p]))"

lemma free_packet_fields [simp]:
  "sv_store (free_packet p s) = sv_store s" "sv_sn (free_packet p s) = sv_sn s" "inbox (free_packet p s) = inbox s"
  "sv_networks (free_packet p s) = sv_networks s" "conn n a (free_packet p s) = conn n a s"
  "released (free_packet p s) = released s @ filter (\<lambda>sn. sn \<noteq> 0) [sv_sn s p]"
  by (simp_all add: free_packet_def inbox_def conn_def released_def FreeObject_def CR_RemoveObj_def)

lemma set_conn_more [simp]:
  "sv_sn (set_conn n a c s) = sv_sn s" "released (set_conn n a c s) = released s" "released (upd_net n f s) = released s"
  "conn n d (upd_net n (ModifyEvent x fl) s) = conn n d s"
  "nw_connects (sv_networks (set_conn n a c s) m) = nw_connects (sv_networks s m)"
  by (simp_all add: set_conn_def released_def conn_def)

lemma conn_set_conn: "conn n d (set_conn n a c s) = (if d = a then c else conn n d s)"
  by simp

lemma send_one_step:
  assumes slot: "packet_slot n s p \<noteq> None" and p: "sent_ok (sv_store s p)" and r: "rings_ok n k s"
  shows "\<exists>s'. send_one n p s = Some s' \<and> sent_step n p s s'"
proof (cases "\<exists>a. goes_to n s a p")
  case True
  then obtain a where a: "goes_to n s a p" by blast
  then have x: "connect_at (Socket (p_socketKey (sv_store s p))) (sv_networks s n) = Some (Some a)"
    and t: "CompareTags (ni_tags (conn n a s)) (p_tagKey (sv_store s p))" by (simp_all add: goes_to_def packet_slot_def)
  have "nb_ok (co_sendBuffer (conn n a s))" "length (contents (co_sendBuffer (conn n a s))) + k < 2147000000"
    using r x unfolding rings_ok_def by blast+
  then have "nb_ok (co_sendBuffer (conn n a s))" "length (contents (co_sendBuffer (conn n a s))) < 2147000000" by simp_all
  then obtain b where b: "AddPacket (sv_store s p) (co_sendBuffer (conn n a s)) = Some b" "nb_ok b"
      "contents b = contents (co_sendBuffer (conn n a s)) @ frame (sv_store s p)"
    using AddPacket_frame p unfolding sent_ok_def by blast
  let ?t = "free_packet p (set_conn n a ((conn n a s)\<lparr>co_sendBuffer := b\<rparr>) s)"
  let ?s = "upd_net n (ModifyEvent (Socket (p_socketKey (sv_store s p))) (EPOLLIN OR EPOLLOUT OR EPOLLRDHUP)) ?t"
  have e: "send_one n p s = Some ?s" using x t b(1) by (simp add: send_one_def ConnectObj_SendPacket_def Let_def)
  have g: "goes_to n s d p = (d = a)" for d using a by (auto simp: goes_to_def)
  have "sent_step n p s ?s"
    using b r by (simp add: sent_step_def conn_set_conn g frames_to_def rings_ok_def)
  then show ?thesis using e by blast
next
  case False
  then have "send_one n p s = Some (free_packet p s)"
    using slot by (auto simp: send_one_def packet_slot_def goes_to_def Let_def split: option.split)
  moreover have "sent_step n p s (free_packet p s)"
    using False r by (auto simp: sent_step_def frames_to_def rings_ok_def)
  ultimately show ?thesis by blast
qed

lemma sent_step_later:
  assumes "sent_step n p s s'"
  shows "packet_slot n s' = packet_slot n s" "goes_to n s' = goes_to n s" "frames_to n s' = frames_to n s" "frames_size s' = frames_size s"
proof -
  have "connect_at x (sv_networks s' n) = connect_at x (sv_networks s n)" for x
    using assms by (simp add: sent_step_def connect_at_def)
  then show slot: "packet_slot n s' = packet_slot n s" using assms by (simp add: sent_step_def packet_slot_def fun_eq_iff)
  then show g: "goes_to n s' = goes_to n s" using assms by (simp add: sent_step_def goes_to_def fun_eq_iff)
  have "sv_store s' = sv_store s" using assms by (simp add: sent_step_def)
  then show "frames_to n s' = frames_to n s" "frames_size s' = frames_size s"
    by (intro ext; simp add: frames_to_def frames_size_def g)+
qed

lemma frames_to_Cons: "frames_to n s a (p # ps) = frames_to n s a [p] @ frames_to n s a ps"
  by (simp add: frames_to_def)

lemma send_all:
  assumes "\<forall>p \<in> set ps. packet_slot n s p \<noteq> None \<and> sent_ok (sv_store s p)" "rings_ok n (frames_size s ps) s"
  shows "\<exists>s'. foldM (send_one n) ps s = Some s' \<and> inbox s' = inbox s
    \<and> nw_connects (sv_networks s' n) = nw_connects (sv_networks s n)
    \<and> nw_sendMsgList (sv_networks s' n) = nw_sendMsgList (sv_networks s n)
    \<and> released s' = released s @ filter (\<lambda>sn. sn \<noteq> 0) (map (sv_sn s) ps)
    \<and> (\<forall>x a. connect_at x (sv_networks s n) = Some (Some a) \<longrightarrow>
         nb_ok (co_sendBuffer (conn n a s'))
         \<and> contents (co_sendBuffer (conn n a s')) = contents (co_sendBuffer (conn n a s)) @ frames_to n s a ps)"
  using assms
proof (induction ps arbitrary: s)
  case (Cons p ps)
  obtain t where t: "send_one n p s = Some t" "sent_step n p s t" using send_one_step Cons.prems by (metis list.set_intros(1))
  note l = sent_step_later [OF t(2)]
  have eq: "sv_store t = sv_store s" "sv_sn t = sv_sn s" "inbox t = inbox s"
      "nw_connects (sv_networks t n) = nw_connects (sv_networks s n)"
      "nw_sendMsgList (sv_networks t n) = nw_sendMsgList (sv_networks s n)"
      "released t = released s @ filter (\<lambda>sn. sn \<noteq> 0) [sv_sn s p]"
    using t(2) by (simp_all add: sent_step_def)
  have at: "connect_at x (sv_networks t n) = connect_at x (sv_networks s n)" for x using eq(4) by (simp add: connect_at_def)
  have c: "nb_ok (co_sendBuffer (conn n a t))"
      "contents (co_sendBuffer (conn n a t)) = contents (co_sendBuffer (conn n a s)) @ frames_to n s a [p]"
    if "connect_at x (sv_networks s n) = Some (Some a)" for x a using t(2) that by (auto simp: sent_step_def)
  have "nb_ok (co_sendBuffer (conn n a t)) \<and> length (contents (co_sendBuffer (conn n a t))) + frames_size t ps < 2147000000"
    if x: "connect_at x (sv_networks s n) = Some (Some a)" for x a
  proof -
    have "length (contents (co_sendBuffer (conn n a s))) + frames_size s (p # ps) < 2147000000"
      using Cons.prems(2) x unfolding rings_ok_def by blast
    moreover have "length (frames_to n s a [p]) + frames_size s ps \<le> frames_size s (p # ps)"
      by (simp add: frames_to_def frames_size_def)
    ultimately show ?thesis using c [OF x] l(4) by simp
  qed
  then have "rings_ok n (frames_size t ps) t" by (simp add: rings_ok_def at)
  moreover have "\<forall>q \<in> set ps. packet_slot n t q \<noteq> None \<and> sent_ok (sv_store t q)" using Cons.prems(1) l(1) eq(1) by simp
  ultimately obtain s' where IH: "foldM (send_one n) ps t = Some s'" "inbox s' = inbox t"
      "nw_connects (sv_networks s' n) = nw_connects (sv_networks t n)"
      "nw_sendMsgList (sv_networks s' n) = nw_sendMsgList (sv_networks t n)"
      "released s' = released t @ filter (\<lambda>sn. sn \<noteq> 0) (map (sv_sn t) ps)"
      "\<forall>x a. connect_at x (sv_networks t n) = Some (Some a) \<longrightarrow>
         nb_ok (co_sendBuffer (conn n a s'))
         \<and> contents (co_sendBuffer (conn n a s')) = contents (co_sendBuffer (conn n a t)) @ frames_to n t a ps"
    using Cons.IH [of t] by blast
  have "foldM (send_one n) (p # ps) s = Some s'" using t(1) IH(1) by simp
  moreover have "contents (co_sendBuffer (conn n a s')) = contents (co_sendBuffer (conn n a s)) @ frames_to n s a (p # ps)"
    if "connect_at x (sv_networks s n) = Some (Some a)" for x a
  proof -
    have "contents (co_sendBuffer (conn n a s')) = contents (co_sendBuffer (conn n a t)) @ frames_to n s a ps"
      using IH(6) that unfolding at l(3) by blast
    then show ?thesis using c(2) [OF that] frames_to_Cons [of n s a p ps] by simp
  qed
  ultimately show ?case using IH(2-6) eq at by (intro exI [of _ s']) simp
qed (simp add: rings_ok_def frames_to_def)

text \<open>
  C17. Each frame, a network takes the packets other threads gave it, in their order: every packet whose socket
  has a connection with matching tags is appended to that connection's output as one frame, the others are
  dropped, and every packet is given back to the pool exactly once. Nothing is left in the queue.
\<close>

theorem packets_reach_their_connections:
  assumes "CS_GetReaderCache (nw_sendMsgList (sv_networks s n)) = []"
    and "\<forall>p \<in> set (pending n s). packet_slot n s p \<noteq> None \<and> sent_ok (sv_store s p)"
    and "rings_ok n (frames_size s (pending n s)) s"
  shows "\<exists>s'. OnNetworkUpdate n s = Some s' \<and> pending n s' = [] \<and> inbox s' = inbox s
    \<and> CS_GetReaderCache (nw_sendMsgList (sv_networks s' n)) = []
    \<and> released s' = released s @ filter (\<lambda>sn. sn \<noteq> 0) (map (sv_sn s) (pending n s))
    \<and> (\<forall>x a. connect_at x (sv_networks s n) = Some (Some a) \<longrightarrow>
         nb_ok (co_sendBuffer (conn n a s'))
         \<and> contents (co_sendBuffer (conn n a s')) = contents (co_sendBuffer (conn n a s)) @ frames_to n s a (pending n s))"
proof -
  let ?t = "swapped n s"
  have t: "sv_store ?t = sv_store s" "sv_sn ?t = sv_sn s" "inbox ?t = inbox s" "released ?t = released s"
      "nw_connects (sv_networks ?t n) = nw_connects (sv_networks s n)" "conn n a ?t = conn n a s" for a
    by (simp_all add: swapped_def conn_def released_def)
  have at: "connect_at x (sv_networks ?t n) = connect_at x (sv_networks s n)" for x using t(5) by (simp add: connect_at_def)
  have q: "CS_GetReaderCache (nw_sendMsgList (sv_networks ?t n)) = pending n s"
      "CS_GetWriterCache (nw_sendMsgList (sv_networks ?t n)) = []"
    using assms(1) by (auto simp: swapped_def pending_def CS_CanSwap_def)
  have same: "packet_slot n ?t = packet_slot n s" "frames_size ?t = frames_size s"
    by (simp_all add: packet_slot_def frames_size_def t at fun_eq_iff)
  have "goes_to n ?t = goes_to n s" by (simp add: goes_to_def same t fun_eq_iff)
  then have f: "frames_to n ?t = frames_to n s" by (intro ext) (simp add: frames_to_def t)
  have "rings_ok n (frames_size ?t (pending n s)) ?t" using assms(3) by (simp add: rings_ok_def at t same)
  moreover have "\<forall>p \<in> set (pending n s). packet_slot n ?t p \<noteq> None \<and> sent_ok (sv_store ?t p)" using assms(2) by (simp add: same t)
  ultimately obtain u where u: "foldM (send_one n) (pending n s) ?t = Some u" "inbox u = inbox ?t"
      "nw_sendMsgList (sv_networks u n) = nw_sendMsgList (sv_networks ?t n)"
      "released u = released ?t @ filter (\<lambda>sn. sn \<noteq> 0) (map (sv_sn ?t) (pending n s))"
      "\<forall>x a. connect_at x (sv_networks ?t n) = Some (Some a) \<longrightarrow>
         nb_ok (co_sendBuffer (conn n a u))
         \<and> contents (co_sendBuffer (conn n a u)) = contents (co_sendBuffer (conn n a ?t)) @ frames_to n ?t a (pending n s)"
    using send_all [of "pending n s" n ?t] by blast
  have "OnNetworkUpdate n s = Some (cleared n u)" using u(1) by (simp add: OnNetworkUpdate_steps q(1))
  moreover have "pending n (cleared n u) = []" "CS_GetReaderCache (nw_sendMsgList (sv_networks (cleared n u) n)) = []"
    using q(2) u(3) by (simp_all add: cleared_def pending_def)
  moreover have "released (cleared n u) = released u" "inbox (cleared n u) = inbox u" "conn n a (cleared n u) = conn n a u" for a
    by (simp_all add: cleared_def released_def conn_def)
  ultimately show ?thesis using u(2,4,5) f at t by (intro exI [of _ "cleared n u"]) simp
qed

subsection \<open>Losing and refusing connections\<close>

text \<open>
  C18. A lost connection is closed once and announced once: its socket is closed, its slot and its number are free
  again while every other slot is as before, and one disconnect message with the identity the connection had is
  put in the inbox of the threads.
\<close>

theorem lost_connection_is_announced:
  assumes r: "net_reach n s" and x: "connect_at x (sv_networks s n) = Some (Some a)"
    and ok: "store_ok s" "tags_ok (ni_tags (conn n a s))"
  shows "\<exists>s' q. RemoveConnectObj n x s = Some s' \<and> inbox s' = inbox s @ [q]
    \<and> carries MI_NetworkDisconnect [] (Some (co_identify (conn n a s))) (sv_store s' q)
    \<and> nw_closed (sv_networks s' n) = nw_closed (sv_networks s n) @ [x]
    \<and> map_of (nw_sockets (sv_networks s' n)) x = None \<and> map_of (nw_epoll (sv_networks s' n)) x = None
    \<and> (\<forall>y. connect_at y (sv_networks s' n) = (if y = x then Some None else connect_at y (sv_networks s n)))"
proof -
  let ?i = "Some (co_identify (conn n a s))"
  obtain q s1 where c: "CreatePacket MI_NetworkDisconnect ?i s = (q, s1)" by force
  note f = CreatePacket_fields [OF c]
  have q: "carries MI_NetworkDisconnect [] ?i (Packet_Awake MI_NetworkDisconnect ?i (sv_store s q))"
    using ok by (intro Awake_carries) (simp_all add: store_ok_def ident_ok_def co_identify_def)
  let ?t = "conn_back_to_pool n a s"
  have t: "sv_store ?t = sv_store s1" "inbox ?t = inbox s @ [q]"
    using f(6) by (simp_all add: conn_back_to_pool_def ConnectObj_BackToPool_def Help_DispatchMsg_def c Let_def sock_close_def)
  obtain s' where s': "RemoveConnectObj n x s = Some s'" using x by (simp add: RemoveConnectObj_def)
  obtain b where b: "connect_at x (sv_networks s n) = Some (Some b)"
    "sv_networks s' = (sv_networks s)(n := (DeleteEvent x (set_connect x None (without_conn b (sv_networks s n))))
        \<lparr>nw_sockets := smap_erase x (nw_sockets (sv_networks s n))\<rparr>)"
    "s' = upd_net n (\<lambda>nw. (DeleteEvent x (set_connect x None nw))\<lparr>nw_sockets := smap_erase x (nw_sockets nw)\<rparr>)
        (conn_back_to_pool n b s)" by (rule RemoveConnectObj_steps [OF s'])
  have ab: "b = a" using b(1) x by simp
  have nb: "sv_networks s' n = (DeleteEvent x (set_connect x None (without_conn a (sv_networks s n))))
        \<lparr>nw_sockets := smap_erase x (nw_sockets (sv_networks s n))\<rparr>" unfolding b(2) ab by simp
  have "Socket (ni_socket (nw_objs (sv_networks s n) a)) = x" "x \<noteq> INVALID_SOCKET"
    using connection_state [OF r x] connect_at_nonneg [OF x] by simp_all
  then have cl: "nw_closed (sv_networks s' n) = nw_closed (sv_networks s n) @ [x]" unfolding nb by simp
  have at: "connect_at y (sv_networks s' n) = (if y = x then Some None else connect_at y (sv_networks s n))" for y
    unfolding nb using x by simp
  have "map_of (nw_sockets (sv_networks s' n)) x = None" "map_of (nw_epoll (sv_networks s' n)) x = None"
    unfolding nb by (simp_all add: DeleteEvent_def)
  moreover have "sv_store s' = sv_store s1" "inbox s' = inbox s @ [q]" unfolding b(3) ab using t by simp_all
  ultimately show ?thesis using s' cl at q f(1) by (intro exI [of _ s'] exI [of _ q]) simp
qed

text \<open>
  A connection the operating system reports as broken while it is being accepted is closed twice:
  \<open>CreateConnectObj\<close> closes the socket before it fails, and \<open>Accept\<close> closes the same number again, which by then
  may belong to another descriptor of the process.
\<close>

theorem refused_connection_is_closed_twice:
  assumes "socket \<noteq> INVALID_SOCKET" "opt = None \<or> opt = Some e \<and> e \<noteq> 0 \<and> IsError e"
  shows "\<exists>s'. Accept n [(socket, opt)] s = Some (0, s') \<and> connect_at y (sv_networks s' n) = connect_at y (sv_networks s n)
    \<and> nw_closed (sv_networks s' n) = nw_closed (sv_networks s n) @ [socket, socket]"
proof -
  have "CheckSocket n socket opt s = (False, sock_close n socket s)"
    using assms(2) by (auto simp: CheckSocket_def Let_def)
  then show ?thesis using assms(1) by (simp add: CreateConnectObj_def sock_close_def)
qed

text \<open>
  Output that the operating system takes only in part gets stuck: after a partial \<open>send\<close> the connection keeps
  the rest in its ring, but \<open>Epoll\<close> stops watching the socket for being writable, so nothing is sent until another
  packet for this connection is queued.
\<close>

theorem partial_send_is_not_resumed:
  assumes "connect_at socket (sv_networks s n) = Some (Some a)" "socket \<noteq> nw_masterSocket (sv_networks s n)"
    and "map_of (nw_epoll (sv_networks s n)) socket \<noteq> None" "co_state (conn n a s) \<noteq> Connecting"
    and nb: "nb_ok (co_sendBuffer (conn n a s))" and need: "Send_GetBuffer (co_sendBuffer (conn n a s)) = Some (off, need)"
    and sz: "0 < sz" "sz < uint need" and ev: "ev_fd ev = socket" "ev_events ev = EPOLLOUT" "ev_send ev = sz # answers"
  shows "\<exists>s'. epoll_one mg cd n (i, ev) s = Some s' \<and> contents (co_sendBuffer (conn n a s')) \<noteq> []
    \<and> (\<exists>flags. map_of (nw_epoll (sv_networks s' n)) socket = Some flags \<and> flags AND EPOLLOUT = 0)"
proof -
  let ?b = "co_sendBuffer (conn n a s)"
  have u: "unat (word_of_int sz :: u32) = nat sz" "nat sz \<le> unat need" using small_size [of sz need] sz by simp_all
  have "nat sz < nat (uint need)" using sz nat_less_eq_zless [of sz "uint need"] by linarith
  then have lt: "nat sz < unat need" by (simp only: nat_uint_eq)
  have d: "unat need \<le> unat (b_data ?b)" using Send_GetBuffer_bytes(2) [OF nb need] .
  have le: "unat (word_of_int sz :: u32) \<le> unat (b_data ?b)" using u d by simp
  note m = Send_GetBuffer_bytes(3) [OF nb need u(2)]
  let ?b' = "RemoveData (word_of_int sz) ?b"
  let ?u = "set_conn n a ((conn n a s)\<lparr>co_sendBuffer := ?b'\<rparr>) s"
  have "send_loop (sz # answers) [] ?b = Some (True, take (nat sz) (contents ?b), answers, ?b')"
    using need sz m by simp
  then have sd: "Send cd n a (ev_send ev) s = Some (True, take (nat sz) (contents ?b), answers, ?u)"
    using assms(4) ev(3) by (simp add: Send_def Let_def)
  let ?w = "upd_net n (ModifyEvent socket (EPOLLIN OR EPOLLRDHUP)) ?u"
  have e: "epoll_one mg cd n (i, ev) s = Some ?w"
    using assms(1,2) ev(1,2) sd by (simp add: epoll_one_def OnEpoll_def Let_def)
  have "length (contents ?b') = unat (b_data ?b) - nat sz"
    using contents_RemoveData [OF nb le] length_contents [OF nb] u by simp
  then have "contents ?b' \<noteq> []" using lt d by auto
  moreover have "nw_epoll (sv_networks ?u n) = nw_epoll (sv_networks s n)" by (simp add: set_conn_def)
  ultimately have "contents (co_sendBuffer (conn n a ?w)) \<noteq> []"
    "map_of (nw_epoll (sv_networks ?w n)) socket = Some (EPOLLIN OR EPOLLRDHUP)"
    using assms(3) by (simp_all add: ModifyEvent_def conn_set_conn)
  then show ?thesis using e by (intro exI [of _ ?w]) simp
qed

subsection \<open>Concrete instances\<close>

text \<open>A process whose connector has opened socket 7.\<close>

definition server_open :: "unit server" where
  "server_open = (case CreateConnectObj 0 7 (Some 0) TagNone \<lparr>KeyStr = [], KeyInt64 = 0\<rparr> Connected (server_new APP_SPACE 3) of
     Some (ok, s) \<Rightarrow> s | None \<Rightarrow> server_new APP_SPACE 3)"

lemma Network_new_free: "connect_at x (Network_new t) = (if 0 \<le> x \<and> x < 5120 then Some None else None)"
proof -
  have "replicate 5120 None ! nat x = (None :: nat option)" if "0 \<le> x" "x < 5120" using that by (intro nth_replicate) linarith
  then show ?thesis by (auto simp: connect_at_def Network_new_def)
qed

lemma server_new_net: "net_reach 0 (server_new t i)" "fresh_conn 0 (server_new t i)"
  "connect_at x (sv_networks (server_new t i) 0) = (if 0 \<le> x \<and> x < 5120 then Some None else None)"
  "nw_pool (sv_networks (server_new t i) 0) = DynamicObjectPool"
  by (rule net_start) (simp_all add: server_new_def Network_new_free, simp_all add: Network_new_def MAX_CLIENT_def
      fresh_conn_def sn_in_use_def DynamicObjectPool_def CacheRefresh_empty_def)

lemma server_open_eq:
  "CreateConnectObj 0 7 (Some 0) TagNone \<lparr>KeyStr = [], KeyInt64 = 0\<rparr> Connected (server_new APP_SPACE 3) = Some (True, server_open)"
  "connect_at 7 (sv_networks server_open 0) = Some (Some 0)" "connect_at y (sv_networks server_open 0) = Some (Some a) \<Longrightarrow> a = 0"
  "nw_sockets (sv_networks server_open 0) = [(7, ())]" "nw_closed (sv_networks server_open 0) = []"
  "store_ok server_open" "inbox server_open = []" "conn 0 0 server_open =
     \<lparr>ni_socket = \<lparr>Socket = 7, NetType = TcpConnector\<rparr>, ni_tags = [], co_state = Connected,
      co_recvBuffer = NetworkBuffer 10240, co_sendBuffer = NetworkBuffer 10240\<rparr>"
  "map_of (nw_epoll (sv_networks server_open 0)) 7 \<noteq> None" "nw_masterSocket (sv_networks server_open 0) = - 1"
  "nw_sendMsgList (sv_networks server_open 0) = CacheSwap_empty" "nw_networkType (sv_networks server_open 0) = TcpConnector"
proof -
  let ?s = "server_new APP_SPACE 3"
  obtain obj g pool where m: "MallocObject () False id 0 (sv_global ?s) DynamicObjectPool = (obj, g, pool)"
    by (metis prod_cases3)
  have a: "o_addr obj = 0"
    using m by (auto simp: MallocObject_def DynamicObjectPool_def new_objects_def upt_rec [of 0] Let_def split: prod.splits)
  have k: "CheckSocket 0 7 (Some 0) ?s = (True, ?s)" by (simp add: CheckSocket_def IsError_def)
  let ?c = "ConnectObj_Awake 7 TcpConnector TagNone \<lparr>KeyStr = [], KeyInt64 = 0\<rparr> Connected (nw_objs (sv_networks ?s 0) 0)"
  let ?t = "upd_net 0 (\<lambda>nw. AddEvent 7 (EPOLLIN OR EPOLLOUT OR EPOLLET OR EPOLLRDHUP) ((set_connect 7 (Some 0) nw)
      \<lparr>nw_pool := pool, nw_objs := (nw_objs nw)(0 := ?c), nw_objSn := (nw_objSn nw)(0 := o_sn obj),
       nw_sockets := smap_emplace 7 () (nw_sockets nw)\<rparr>)) (?s\<lparr>sv_global := g\<rparr>)"
  have e: "CreateConnectObj 0 7 (Some 0) TagNone \<lparr>KeyStr = [], KeyInt64 = 0\<rparr> Connected ?s = Some (True, ?t)"
    using k m a by (simp add: CreateConnectObj_def server_new_net Let_def)
  then have t: "server_open = ?t" by (simp add: server_open_def)
  show "CreateConnectObj 0 7 (Some 0) TagNone \<lparr>KeyStr = [], KeyInt64 = 0\<rparr> Connected ?s = Some (True, server_open)"
    using e t by simp
  have at: "connect_at y (sv_networks server_open 0) = (if y = 7 then Some (Some 0) else connect_at y (sv_networks ?s 0))" for y
    by (simp add: t server_new_net)
  show "connect_at 7 (sv_networks server_open 0) = Some (Some 0)" by (simp add: at)
  show "a = 0" if "connect_at y (sv_networks server_open 0) = Some (Some a)" for y a
    using that by (auto simp: at server_new_net split: if_splits)
  show "nw_sockets (sv_networks server_open 0) = [(7, ())]" "nw_closed (sv_networks server_open 0) = []"
    "map_of (nw_epoll (sv_networks server_open 0)) 7 \<noteq> None" "nw_masterSocket (sv_networks server_open 0) = - 1"
    "nw_sendMsgList (sv_networks server_open 0) = CacheSwap_empty" "nw_networkType (sv_networks server_open 0) = TcpConnector"
    by (simp_all add: t server_new_def Network_new_def set_connect_def AddEvent_def smap_emplace_def)
  have "store_ok ?s" by simp
  then show "store_ok server_open" by (simp add: t store_ok_def)
  show "inbox server_open = []" by (simp add: t inbox_def server_new_def)
  show "conn 0 0 server_open = \<lparr>ni_socket = \<lparr>Socket = 7, NetType = TcpConnector\<rparr>, ni_tags = [], co_state = Connected,
      co_recvBuffer = NetworkBuffer 10240, co_sendBuffer = NetworkBuffer 10240\<rparr>"
    by (simp add: t conn_def ConnectObj_Awake_def server_new_def Network_new_def)
qed

lemma server_open_reach: "net_reach 0 server_open"
  using net_open [OF server_new_net(1,2) server_open_eq(1)] .

text \<open>The concrete instances of the properties.\<close>

theorem network_closes_every_connection_witness:
  "\<exists>s'. Network_BackToPool 0 server_open = Some s' \<and> nw_closed (sv_networks s' 0) = [7]
    \<and> connect_at 7 (sv_networks s' 0) \<noteq> Some (Some 0)"
  using network_closes_every_connection [OF server_open_reach] server_open_eq(4,5) by auto

theorem connection_table_consistent_witness:
  "map_of (nw_sockets (sv_networks server_open 0)) 7 = Some () \<and> Socket (ni_socket (conn 0 0 server_open)) = 7
    \<and> map_of (nw_sockets (sv_networks server_open 0)) 8 = None"
  using connection_table_consistent [OF server_open_reach] server_open_eq(2,4) by auto

theorem lost_connection_is_announced_witness:
  "\<exists>s' q. RemoveConnectObj 0 7 server_open = Some s' \<and> inbox s' = [q] \<and> p_msgId (sv_store s' q) = MI_NetworkDisconnect
    \<and> Socket (p_socketKey (sv_store s' q)) = 7 \<and> nw_closed (sv_networks s' 0) = [7]"
  using lost_connection_is_announced [OF server_open_reach server_open_eq(2,6)] server_open_eq(5,7,8)
  by (auto simp: carries_def co_identify_def tags_ok_def)

theorem refused_connection_is_closed_twice_witness:
  "\<exists>s'. Accept 1 [(9, Some 104)] (server_new APP_SPACE 3) = Some (0, s') \<and> nw_closed (sv_networks s' 1) = [9, 9]"
proof -
  have "nw_closed (sv_networks (server_new APP_SPACE 3) 1) = []" by (simp add: server_new_def Network_new_def)
  then show ?thesis
    using refused_connection_is_closed_twice [of 9 "Some 104" 104 1 "server_new APP_SPACE 3" 9] by (auto simp: IsError_def)
qed

theorem partial_send_is_not_resumed_witness:
  "\<exists>(s :: unit server) s'. contents (co_sendBuffer (conn 0 0 s)) = [1, 2, 3]
    \<and> epoll_one sample_mongoose sample_codec 0 (0, \<lparr>ev_fd = 7, ev_events = EPOLLOUT, ev_recv = [], ev_send = [2]\<rparr>) s = Some s'
    \<and> contents (co_sendBuffer (conn 0 0 s')) \<noteq> [] \<and> (\<exists>flags. map_of (nw_epoll (sv_networks s' 0)) 7 = Some flags \<and> flags AND EPOLLOUT = 0)"
proof -
  let ?b = "\<lparr>b_buffer = [1, 2, 3, 4], b_begin = 0, b_end = 3, b_size = 4, b_data = 3\<rparr> :: net_buffer"
  let ?s = "set_conn 0 0 ((conn 0 0 server_open)\<lparr>co_sendBuffer := ?b\<rparr>) server_open"
  have b: "nb_ok ?b" "contents ?b = [1, 2, 3]" "Send_GetBuffer ?b = Some (0, 3)"
    by (simp_all add: nb_ok_def contents_def Send_GetBuffer_def)
  have n: "connect_at 7 (sv_networks ?s 0) = Some (Some 0)" "7 \<noteq> nw_masterSocket (sv_networks ?s 0)"
    "map_of (nw_epoll (sv_networks ?s 0)) 7 \<noteq> None" "co_state (conn 0 0 ?s) \<noteq> Connecting" "co_sendBuffer (conn 0 0 ?s) = ?b"
    using server_open_eq(2,8,9,10) by (simp_all add: set_conn_def conn_def)
  let ?ev = "\<lparr>ev_fd = 7, ev_events = EPOLLOUT, ev_recv = [], ev_send = [2]\<rparr>"
  have "\<exists>s'. epoll_one sample_mongoose sample_codec 0 (0, ?ev) ?s = Some s' \<and> contents (co_sendBuffer (conn 0 0 s')) \<noteq> []
    \<and> (\<exists>flags. map_of (nw_epoll (sv_networks s' 0)) 7 = Some flags \<and> flags AND EPOLLOUT = 0)"
    by (rule partial_send_is_not_resumed [OF n(1-4), where off = 0 and need = 3 and sz = 2 and answers = "[]"])
      (simp_all only: n(5) b(1,3), simp_all)
  moreover have "contents (co_sendBuffer (conn 0 0 ?s)) = [1, 2, 3]" by (simp only: n(5) b(2))
  ultimately show ?thesis by blast
qed

theorem packets_reach_their_connections_witness:
  "\<exists>(s :: unit server) s'. pending 0 s = [3] \<and> OnNetworkUpdate 0 s = Some s' \<and> pending 0 s' = []
    \<and> contents (co_sendBuffer (conn 0 0 s')) = [9, 0, 2, 0, 102, 0, 7, 8, 9]"
proof -
  let ?p = "sample_packet\<lparr>p_socketKey := \<lparr>Socket = 7, NetType = TcpConnector\<rparr>\<rparr>"
  let ?t = "server_open\<lparr>sv_store := (sv_store server_open)(3 := ?p)\<rparr>"
  let ?s = "Network_SendPacket 0 3 ?t"
  have "sent_ok ?p = sent_ok sample_packet" "frame ?p = frame sample_packet"
    by (simp_all add: sent_ok_def pk_ok_def frame_size_def frame_def body_def)
  then have pk: "sent_ok ?p" "frame ?p = [9, 0, 2, 0, 102, 0, 7, 8, 9]" using sample_ok(1,2) by simp_all
  have tags: "p_tagKey ?p = []" by (simp add: sample_packet_def Packet_def)
  have n: "sv_networks ?s 0 = (sv_networks server_open 0)\<lparr>nw_sendMsgList := CS_write 3 CacheSwap_empty\<rparr>"
    using server_open_eq(11,12) by (simp add: Network_SendPacket_def)
  have q: "pending 0 ?s = [3]" "CS_GetReaderCache (nw_sendMsgList (sv_networks ?s 0)) = []"
    "conn 0 0 ?s = conn 0 0 server_open" "packet_slot 0 ?s 3 = Some (Some 0)" "goes_to 0 ?s 0 3"
    "connect_at x (sv_networks ?s 0) = connect_at x (sv_networks server_open 0)" "sv_store ?s 3 = ?p" for x
    using server_open_eq(2,8) tags
    by (simp_all add: pending_def conn_def packet_slot_def goes_to_def n CompareTags_def CompareTag_def GetTagValue_def)
  have ring: "nb_ok (NetworkBuffer 10240)" "contents (NetworkBuffer 10240) = []" using nb_ok_NetworkBuffer [of 10240] by simp_all
  have "nb_ok (co_sendBuffer (conn 0 a ?s)) \<and> length (contents (co_sendBuffer (conn 0 a ?s))) + frames_size ?s [3] < 2147000000"
    if "connect_at x (sv_networks server_open 0) = Some (Some a)" for x a
  proof -
    have a: "a = 0" by (rule server_open_eq(3) [OF that])
    have "co_sendBuffer (conn 0 0 ?s) = NetworkBuffer 10240" unfolding q(3) server_open_eq(8) by simp
    moreover have "frames_size ?s [3] = 9" using pk(2) unfolding frames_size_def by (simp add: q(7))
    ultimately show ?thesis unfolding a using ring by simp
  qed
  then have "rings_ok 0 (frames_size ?s (pending 0 ?s)) ?s" unfolding rings_ok_def q(1,6) by blast
  moreover have "\<forall>p \<in> set (pending 0 ?s). packet_slot 0 ?s p \<noteq> None \<and> sent_ok (sv_store ?s p)"
    unfolding q(1) using q(4,7) pk(1) by simp
  ultimately obtain s' where s': "OnNetworkUpdate 0 ?s = Some s'" "pending 0 s' = []"
      "contents (co_sendBuffer (conn 0 0 s')) = contents (co_sendBuffer (conn 0 0 ?s)) @ frames_to 0 ?s 0 (pending 0 ?s)"
    using packets_reach_their_connections [OF q(2)] q(6) server_open_eq(2) by (metis (no_types, lifting))
  have "frames_to 0 ?s 0 [3] = [9, 0, 2, 0, 102, 0, 7, 8, 9]" using q(5,7) pk(2) by (simp add: frames_to_def)
  then have "contents (co_sendBuffer (conn 0 0 s')) = [9, 0, 2, 0, 102, 0, 7, 8, 9]"
    using s'(3) q(1,3) ring(2) server_open_eq(8) by simp
  then show ?thesis using q(1) s'(1,2) by blast
qed

end
