(* ===== verification/Applications.thy ===== *)
theory Applications
  imports Connections
begin

text \<open>
  What the components of the applications (\<open>apps/\<close>, \<open>libplayer\<close>) share. A handler is a function of its message,
  already parsed, and of the state of its component. It returns the new state and the calls of
  \<open>MessageSystemHelp\<close> it makes, in order: no handler reads what those calls change, so \<open>perform\<close>, which makes
  them on the state of the process, can follow. \<open>None\<close> is a null pointer that is dereferenced.

  Messages are protocol buffers, generated code: a constructor of \<open>proto\<close> stands for a message with its fields, and
  its bytes are a parameter. Floating-point numbers are only copied; a position is three 32-bit words.
\<close>

subsection \<open>Messages\<close>

type_synonym vector3 = "u32 \<times> u32 \<times> u32"

record last_world =
  lw_WorldId :: int
  lw_WorldSn :: u64
  lw_Position :: vector3

text \<open>The enumerations of an item (its kind and the bag it is in) are numbers, as they are on the wire.\<close>

record item_proto =
  it_sn :: u64
  it_itemType :: int
  it_id :: int
  it_knapType :: int
  it_index :: int

record player_proto =
  pp_sn :: u64
  pp_name :: string
  pp_gender :: int
  pp_level :: int
  pp_xp :: int
  pp_hp :: int
  pp_mp :: int
  pp_atk :: int
  pp_def :: int
  pp_gold :: int
  pp_items :: "item_proto list"
  pp_last_world :: last_world
  pp_last_dungeon :: last_world
  pp_online_version :: int

text \<open>A message as it is after \<open>Clear\<close>: every field has its default value.\<close>

definition LastWorld_empty :: last_world where
  "LastWorld_empty = \<lparr>lw_WorldId = 0, lw_WorldSn = 0, lw_Position = (0, 0, 0)\<rparr>"

definition Player_empty :: player_proto where
  "Player_empty = \<lparr>pp_sn = 0, pp_name = [], pp_gender = 0, pp_level = 0, pp_xp = 0, pp_hp = 0, pp_mp = 0, pp_atk = 0,
     pp_def = 0, pp_gold = 0, pp_items = [], pp_last_world = LastWorld_empty, pp_last_dungeon = LastWorld_empty, pp_online_version = 0\<rparr>"

record app_info_sync =
  as_app_id :: int
  as_app_type :: int
  as_online :: int

record player_little =
  pt_sn :: u64
  pt_name :: string
  pt_gender :: int
  pt_level :: int
  pt_last_world :: last_world
  pt_last_dungeon :: last_world

record role =
  ro_name :: string
  ro_sn :: u64
  ro_gender :: int
  ro_position :: vector3
  ro_level :: int
  ro_xp :: int
  ro_hp :: int
  ro_mp :: int
  ro_atk :: int
  ro_def :: int

datatype proto =
    AppInfoSync app_info_sync
  | AppInfoListSync "app_info_sync list"
  | CreateWorld int u64 int
  | BroadcastCreateWorld int u64 u64
  | RequestWorld int
  | QueryWorld u64 u64
  | QueryWorldRs u64 int
  | AccountCheckRs int
  | AccountQueryOnlineToRedis string
  | AccountQueryOnlineToRedisRs string int
  | AccountSyncOnlineToRedis string
  | AccountDeleteOnlineToRedis string
  | QueryPlayerList string
  | PlayerList string "player_little list"
  | CreatePlayerToDB string player_proto
  | CreatePlayerRs int
  | SelectPlayerRs int
  | LoginTokenToRedis string u64
  | LoginTokenToRedisRs string string
  | GameToken int string string int
  | GameTokenToRedis string
  | GameTokenToRedisRs string string u64
  | LoginByTokenRs int
  | QueryPlayer u64
  | SyncPlayer string player_proto
  | Teleport u64 u64 string player_proto
  | PlayerSyncOnlineToRedis string int
  | PlayerDeleteOnlineToRedis string int
  | TeleportAfter u64
  | RequestSyncPlayer u64
  | RemovePlayer u64
  | WorldProxySyncToGather u64 bool int int
  | BroadcastCreateWorldProxy int u64
  | EnterDungeon int u64 bool string
  | CreateTeam u64 "u64 list"
  | PlayerReq u64 u64 bool
  | ChatMsg u64 string string
  | TradeOpen u64 u64
  | TradeClose bool
  | UpdateTradeItem u64 u64 item_proto int bool
  | S2CEnterWorld int vector3
  | AllRoleAppear "role list"
  | RoleDisappear u64
  | EntityMove u64 bool "vector3 list"
  | SyncPlayerProps u64 int
  | SyncNpcProps u64 int
  | ReqNpcInfo int u64 vector3
  | SyncFsmState int int u64 u64
  | SyncBtAction int int u64 u64
  | SyncPlayerCmd int vector3 u64 u64
  | ReqLinkPlayer int u64 bool
  | DropItemList u64 int int "item_proto list"
  | PlayerKnap int "item_proto list"
  | SavePlayer u64 player_proto
  | WorldSyncToGather u64 int int
  | DungeonDisapper u64
  | QueryPlayerRs string player_proto
  | CreatePlayerToDBRs string int

subsection \<open>Calls of \<open>MessageSystemHelp\<close>\<close>

text \<open>
  \<open>ForwardClient\<close> and \<open>ForwardApp\<close> send a copy of the packet a handler was given, to a connection or, with more
  tags, to an application.
\<close>

datatype help_call =
    SendPacket int proto net_identify
  | SendPacketApp int proto int int
  | SendPacketToAllApp int proto int
  | SendProtoTags int proto tag_key int int
  | SendTags int tag_key int int
  | ForwardClient nat net_identify
  | ForwardApp nat "(tag_type \<times> u64) list" int int
  | DispatchProto int proto "net_identify option"
  | DispatchIdent int "net_identify option"
  | SendHttpResponse int "u8 list" net_identify
  | SendHttpRequest net_identify string int string "(string \<times> string) list"
  | CreateConnect network_type tag_type tag_value string int

record wires =
  wr_proto :: "proto \<Rightarrow> u8 list"
  wr_connect :: "network_connect \<Rightarrow> u8 list"

fun add_tags :: "(tag_type \<times> u64) list \<Rightarrow> tag_key \<Rightarrow> tag_key" where
  "add_tags [] tags = tags"
| "add_tags ((t, n) # ts) tags = add_tags ts (AddTagInt t n tags)"

definition copy_packet :: "nat \<Rightarrow> net_identify option \<Rightarrow> 'h server \<Rightarrow> (nat \<times> 'h server) option" where
  "copy_packet pPacket pIdentify s =
     (let (c, s) = CreatePacket (p_msgId (sv_store s pPacket)) pIdentify s in do {
        q \<leftarrow> Packet_CopyFrom (sv_store s pPacket) (sv_store s c);
        Some (c, s\<lparr>sv_store := (sv_store s)(c := q)\<rparr>)
      })"

definition forward_app :: "nat \<Rightarrow> (tag_type \<times> u64) list \<Rightarrow> int \<Rightarrow> int \<Rightarrow> 'h server \<Rightarrow> 'h server option" where
  "forward_app pPacket tags appType appId s = do {
     (c, s) \<leftarrow> copy_packet pPacket None s;
     let q = sv_store s c;
     Some (Help_SendPacketApp c appType appId
       (s\<lparr>sv_store := (sv_store s)(c := q\<lparr>p_tagKey := add_tags tags (p_tagKey q)\<rparr>)\<rparr>))
   }"

fun perform_one :: "wires \<Rightarrow> mongoose \<Rightarrow> help_call \<Rightarrow> 'h server \<Rightarrow> 'h server option" where
  "perform_one w mg (SendPacket msgId proto pIdentify) s = Help_SendProto msgId (wr_proto w proto) (Some pIdentify) s"
| "perform_one w mg (SendPacketApp msgId proto appType appId) s = Help_SendProtoApp msgId (wr_proto w proto) appType appId s"
| "perform_one w mg (SendPacketToAllApp msgId proto appType) s = Help_SendPacketToAllApp msgId (wr_proto w proto) appType s"
| "perform_one w mg (SendProtoTags msgId proto pTagKey appType appId) s =
     Help_SendProtoTags msgId (wr_proto w proto) pTagKey appType appId s"
| "perform_one w mg (SendTags msgId pTagKey appType appId) s = Some (Help_SendTags msgId pTagKey appType appId s)"
| "perform_one w mg (ForwardClient pPacket pIdentify) s =
     map_option (\<lambda>(c, s). Help_SendPacket c s) (copy_packet pPacket (Some pIdentify) s)"
| "perform_one w mg (ForwardApp pPacket tags appType appId) s = forward_app pPacket tags appType appId s"
| "perform_one w mg (DispatchProto msgId proto pIdentify) s = Help_DispatchProto msgId (wr_proto w proto) pIdentify s"
| "perform_one w mg (DispatchIdent msgId pIdentify) s = Some (Help_DispatchMsg msgId pIdentify s)"
| "perform_one w mg (SendHttpResponse status content pIdentify) s = SendHttpResponseBase mg pIdentify status content s"
| "perform_one w mg (SendHttpRequest pIdentify ip port meth params) s =
     Http.SendHttpRequest (Some pIdentify) ip port meth (Some params) s"
| "perform_one w mg (CreateConnect iType tagType tagValue ip port) s =
     Help_CreateConnect (wr_connect w) iType tagType tagValue ip port s"

definition perform :: "wires \<Rightarrow> mongoose \<Rightarrow> help_call list \<Rightarrow> 'h server \<Rightarrow> 'h server option" where
  "perform w mg calls s = foldM (perform_one w mg) calls s"

lemma foldM_append [simp]: "foldM f (xs @ ys) s = Option.bind (foldM f xs s) (foldM f ys)"
  by (induction xs arbitrary: s) (auto split: bind_splits)

lemma perform_foldM: "perform w mg calls = foldM (perform_one w mg) calls"
  by (simp add: perform_def fun_eq_iff)

lemma perform_append: "perform w mg (xs @ ys) s = Option.bind (perform w mg xs s) (perform w mg ys)"
  by (simp add: perform_foldM)

lemma perform_Nil [simp]: "perform w mg [] s = Some s"
  by (simp add: perform_def)

lemma perform_Cons [simp]: "perform w mg (c # cs) s = Option.bind (perform_one w mg c s) (perform w mg cs)"
  by (simp add: perform_foldM)

end
