(* ===== verification/Resources.thy ===== *)
theory Resources
  imports Applications
begin

text \<open>
  The tables of \<open>libresource\<close>: lines of comma-separated values (\<open>resource_base.cpp\<close>), the manager of a table
  (\<open>resource_mgr_template.h\<close>) and the worlds (\<open>resource_world.cpp\<close>). A file is the list of its lines, \<open>None\<close> when it
  cannot be opened; \<open>stof\<close> is a parameter, for floating-point numbers are not computed with. \<open>None\<close> as a result is an
  exception that nobody catches (a number that cannot be converted, \<open>at\<close> or \<open>substr\<close> out of range) or an access
  outside a vector.
\<close>

subsection \<open>Strings\<close>

definition isspace :: "char \<Rightarrow> bool" where
  "isspace c = (c = CHR 0x20 \<or> 9 \<le> (of_char c :: nat) \<and> (of_char c :: nat) \<le> 13)"

definition trim :: "string \<Rightarrow> string" where
  "trim s = rev (dropWhile isspace (rev (dropWhile isspace s)))"

text \<open>\<open>std::string::find\<close> of a character, cast to \<open>int\<close>.\<close>

fun find_char :: "char \<Rightarrow> string \<Rightarrow> int" where
  "find_char c [] = - 1"
| "find_char c (d # s) = (if d = c then 0 else (let i = find_char c s in if i < 0 then - 1 else i + 1))"

fun digits_value :: "int \<Rightarrow> string \<Rightarrow> int" where
  "digits_value n [] = n"
| "digits_value n (c # cs) =
     (if CHR ''0'' \<le> c \<and> c \<le> CHR ''9'' then digits_value (n * 10 + (of_char c - 48)) cs else n)"

definition in_int :: "int \<Rightarrow> int option" where
  "in_int n = (if - 2147483648 \<le> n \<and> n \<le> 2147483647 then Some n else None)"

fun starts_digit :: "string \<Rightarrow> bool" where
  "starts_digit [] = False"
| "starts_digit (c # cs) = (CHR ''0'' \<le> c \<and> c \<le> CHR ''9'')"

definition stoi :: "string \<Rightarrow> int option" where
  "stoi s =
     (let s = dropWhile isspace s in
      case s of
        [] \<Rightarrow> None
      | c # cs \<Rightarrow>
          (if c = CHR ''-'' then (if starts_digit cs then in_int (- digits_value 0 cs) else None)
           else if c = CHR ''+'' then (if starts_digit cs then in_int (digits_value 0 cs) else None)
           else if starts_digit s then in_int (digits_value 0 s) else None))"

text \<open>\<open>strutil::split\<close>: the parts that are not empty.\<close>

fun split_go :: "char \<Rightarrow> string \<Rightarrow> string \<Rightarrow> string list" where
  "split_go c buf [] = (if buf = [] then [] else [buf])"
| "split_go c buf (d # s) =
     (if d = c then (if buf = [] then split_go c [] s else buf # split_go c [] s) else split_go c (buf @ [d]) s)"

definition split :: "char \<Rightarrow> string \<Rightarrow> string list" where
  "split c s = split_go c [] s"

subsection \<open>A line of comma-separated values\<close>

lemma find_char_bounds: "find_char c s < int (length s) \<and> - 1 \<le> find_char c s"
  by (induction c s rule: find_char.induct) (auto simp: Let_def)

function parse_fields :: "string \<Rightarrow> string list" where
  "parse_fields [] = []"
| "parse_fields (c # cs) =
     (let isQuoted = (c = CHR 0x22);
          line = (if isQuoted then cs else c # cs);
          index = (if isQuoted then find_char (CHR 0x22) line else find_char (CHR '','') line)
      in if index > 0
         then (let prop = take (nat index) line; line = drop (nat index + 1) line
               in if line = [] then [prop] else prop # parse_fields line)
         else [line])"
  by pat_completeness auto
termination by (relation "measure length") (auto simp: Let_def)

definition ParserLine :: "string \<Rightarrow> string list option" where
  "ParserLine line = (let line = trim line in if line = [] then None else Some (parse_fields line))"

text \<open>The \<open>;\<close>-separated parts of a position without its parentheses.\<close>

function semi_parts :: "string \<Rightarrow> string list" where
  "semi_parts line =
     (let pos = find_char (CHR '';'') line in
      if pos < 0 then [line] else take (nat pos) line # semi_parts (drop (nat pos + 1) line))"
  by pat_completeness auto
termination
proof (relation "measure length", simp, goal_cases)
  case (1 line pos)
  then show ?case using find_char_bounds [of "CHR '';''" line] by simp
qed

declare semi_parts.simps [simp del]

definition GetVector :: "(string \<Rightarrow> u32 option) \<Rightarrow> string \<Rightarrow> vector3 option" where
  "GetVector stof line =
     (if length line < 1 then None
      else (let line = take (length line - 2) (drop 1 line); res = semi_parts line in
        if length res < 3 then None
        else do {
          x \<leftarrow> stof (res ! 0);
          y \<leftarrow> stof (res ! 1);
          z \<leftarrow> stof (res ! 2);
          Some (x, y, z)
        }))"

subsection \<open>The worlds\<close>

record resource_npc =
  rn_id :: int
  rn_level :: int
  rn_initHp :: int
  rn_initAtk :: int
  rn_initPos :: vector3

datatype world_type = LoginWorld | RolesWorld | PublicWorld | DungeonWorld

fun world_type_number :: "world_type \<Rightarrow> int" where
  "world_type_number LoginWorld = 1"
| "world_type_number RolesWorld = 2"
| "world_type_number PublicWorld = 3"
| "world_type_number DungeonWorld = 4"

record resource_base =
  rb_id :: int
  rb_props :: "string list"

record resource_world = resource_base +
  rw_name :: string
  rw_enemyPath :: string
  rw_isInit :: bool
  rw_worldType :: int
  rw_initPosition :: vector3
  rw_npcCfgs :: "resource_npc list"
  rw_potionCfgs :: "int list"
  rw_weaponCfgs :: "int list"

definition ResourceWorld :: resource_world where
  "ResourceWorld = \<lparr>rb_id = 0, rb_props = [], rw_name = [], rw_enemyPath = [], rw_isInit = False,
     rw_worldType = world_type_number DungeonWorld, rw_initPosition = (0, 0, 0), rw_npcCfgs = [], rw_potionCfgs = [], rw_weaponCfgs = []\<rparr>"

definition IsType :: "world_type \<Rightarrow> resource_world \<Rightarrow> bool" where
  "IsType iType r = (rw_worldType r = world_type_number iType)"

type_synonym csv_head = "(string, nat) smap"

definition nth_prop :: "string list \<Rightarrow> nat \<Rightarrow> string option" where
  "nth_prop xs i = (if i < length xs then Some (xs ! i) else None)"

definition GetString :: "csv_head \<Rightarrow> string \<Rightarrow> resource_world \<Rightarrow> string option" where
  "GetString head name r = (case map_of head name of None \<Rightarrow> Some [] | Some i \<Rightarrow> nth_prop (rb_props r) i)"

definition GetInt :: "csv_head \<Rightarrow> string \<Rightarrow> resource_world \<Rightarrow> int option" where
  "GetInt head name r = (case map_of head name of None \<Rightarrow> Some 0 | Some i \<Rightarrow> Option.bind (nth_prop (rb_props r) i) stoi)"

definition GetBool :: "csv_head \<Rightarrow> string \<Rightarrow> resource_world \<Rightarrow> bool option" where
  "GetBool head name r =
     (case map_of head name of
        None \<Rightarrow> Some False
      | Some i \<Rightarrow> map_option (\<lambda>n. n = 1) (Option.bind (nth_prop (rb_props r) i) stoi))"

text \<open>The file system and \<open>stof\<close>.\<close>

record resource_env =
  re_file :: "string \<Rightarrow> string list option"
  re_stof :: "string \<Rightarrow> u32 option"

definition npc_line :: "resource_env \<Rightarrow> string \<Rightarrow> resource_npc option" where
  "npc_line env line = do {
     properties \<leftarrow> ParserLine line;
     i \<leftarrow> Option.bind (nth_prop properties 0) stoi;
     level \<leftarrow> Option.bind (nth_prop properties 2) stoi;
     hp \<leftarrow> Option.bind (nth_prop properties 3) stoi;
     atk \<leftarrow> Option.bind (nth_prop properties 4) stoi;
     pos \<leftarrow> Option.bind (nth_prop properties 5) (GetVector (re_stof env));
     Some \<lparr>rn_id = i, rn_level = level, rn_initHp = hp, rn_initAtk = atk, rn_initPos = pos\<rparr>
   }"

definition data_lines :: "string list \<Rightarrow> string list" where
  "data_lines reader = filter (\<lambda>line. line \<noteq> []) (tl reader)"

definition ParseEnemyCSV :: "resource_env \<Rightarrow> resource_world \<Rightarrow> resource_world option" where
  "ParseEnemyCSV env r =
     (case re_file env (rw_enemyPath r) of
        None \<Rightarrow> Some r
      | Some reader \<Rightarrow>
          map_option (\<lambda>npcs. r\<lparr>rw_npcCfgs := rw_npcCfgs r @ npcs\<rparr>) (mapM (npc_line env) (data_lines reader)))"

definition item_line :: "string \<Rightarrow> int option" where
  "item_line line = Option.bind (ParserLine line) (\<lambda>properties. Option.bind (nth_prop properties 0) stoi)"

definition ParseItemsCSV :: "resource_env \<Rightarrow> resource_world \<Rightarrow> resource_world option" where
  "ParseItemsCSV env r =
     (case re_file env ''item_potions'' of
        None \<Rightarrow> Some r
      | Some reader \<Rightarrow> do {
          potions \<leftarrow> mapM item_line (data_lines reader);
          let r = r\<lparr>rw_potionCfgs := rw_potionCfgs r @ potions\<rparr>;
          (case re_file env ''item_weapons'' of
             None \<Rightarrow> Some r
           | Some reader \<Rightarrow> do {
               weapons \<leftarrow> mapM item_line (data_lines reader);
               Some (r\<lparr>rw_weaponCfgs := rw_weaponCfgs r @ weapons\<rparr>)
             })
        })"

definition init_position :: "resource_env \<Rightarrow> string list \<Rightarrow> vector3 \<Rightarrow> vector3 option" where
  "init_position env params old =
     (if length params = 3 then do {
        x \<leftarrow> re_stof env (params ! 0);
        y \<leftarrow> re_stof env (params ! 1);
        z \<leftarrow> re_stof env (params ! 2);
        Some (x, y, z)
      } else Some old)"

definition GenStruct :: "resource_env \<Rightarrow> csv_head \<Rightarrow> resource_world \<Rightarrow> resource_world option" where
  "GenStruct env head r = do {
     name \<leftarrow> GetString head ''name'' r;
     isInit \<leftarrow> GetBool head ''init'' r;
     enemyPath \<leftarrow> GetString head ''enemycsv'' r;
     worldType \<leftarrow> GetInt head ''type'' r;
     val \<leftarrow> GetString head ''playerinitpos'' r;
     pos \<leftarrow> init_position env (split (CHR '','') val) (rw_initPosition r);
     let r = r\<lparr>rw_name := name, rw_isInit := isInit, rw_enemyPath := enemyPath, rw_worldType := worldType, rw_initPosition := pos\<rparr>;
     r \<leftarrow> (if enemyPath \<noteq> ''null'' then ParseEnemyCSV env r else Some r);
     ParseItemsCSV env r
   }"

definition LoadProperty :: "resource_env \<Rightarrow> csv_head \<Rightarrow> string \<Rightarrow> resource_world \<Rightarrow> (bool \<times> resource_world) option" where
  "LoadProperty env head line r = do {
     propertyList \<leftarrow> ParserLine line;
     if length propertyList < length head then Some (False, r)
     else do {
       let r = r\<lparr>rb_props := rb_props r @ map trim propertyList\<rparr>;
       i \<leftarrow> Option.bind (nth_prop (rb_props r) 0) stoi;
       r \<leftarrow> GenStruct env head (r\<lparr>rb_id := i\<rparr>);
       Some (True, r)
     }
   }"

subsection \<open>The table of worlds\<close>

record world_table =
  wt_head :: csv_head
  wt_refs :: "(int, resource_world) smap"
  wt_initMapId :: int
  wt_rolesMapId :: int

definition ResourceWorldMgr :: world_table where
  "ResourceWorldMgr = \<lparr>wt_head = [], wt_refs = [], wt_initMapId = - 2, wt_rolesMapId = - 1\<rparr>"

definition GetResource :: "world_table \<Rightarrow> int \<Rightarrow> resource_world option" where
  "GetResource t i = map_of (wt_refs t) i"

fun insert_head :: "nat \<Rightarrow> string list \<Rightarrow> csv_head \<Rightarrow> csv_head" where
  "insert_head i [] head = head"
| "insert_head i (p # ps) head = insert_head (i + 1) ps (smap_emplace p i head)"

definition ParserHead :: "string \<Rightarrow> world_table \<Rightarrow> (bool \<times> world_table) option" where
  "ParserHead line t =
     (if line = [] then Some (False, t)
      else map_option (\<lambda>propertyList. (True, t\<lparr>wt_head := insert_head 0 propertyList (wt_head t)\<rparr>)) (ParserLine line))"

definition LoadReference :: "resource_env \<Rightarrow> string \<Rightarrow> world_table \<Rightarrow> world_table option" where
  "LoadReference env line t = do {
     (ok, pT) \<leftarrow> LoadProperty env (wt_head t) line ResourceWorld;
     Some (if ok then t\<lparr>wt_refs := smap_emplace (rb_id pT) pT (wt_refs t)\<rparr> else t)
   }"

fun load_lines :: "resource_env \<Rightarrow> string list \<Rightarrow> world_table \<Rightarrow> world_table option" where
  "load_lines env [] t = Some t"
| "load_lines env (line # lines) t =
     (if line = [] then load_lines env lines t
      else Option.bind (LoadReference env (map tolower line) t) (load_lines env lines))"

fun after_init :: "(int, resource_world) smap \<Rightarrow> world_table \<Rightarrow> world_table" where
  "after_init [] t = t"
| "after_init ((i, pRef) # refs) t =
     (let t = (if rw_isInit pRef then t\<lparr>wt_initMapId := rb_id pRef\<rparr> else t);
          t = (if IsType RolesWorld pRef then t\<lparr>wt_rolesMapId := rb_id pRef\<rparr> else t)
      in after_init refs t)"

definition AfterInit :: "world_table \<Rightarrow> world_table" where
  "AfterInit t = after_init (wt_refs t) t"

definition Initialize :: "resource_env \<Rightarrow> string \<Rightarrow> world_table \<Rightarrow> (bool \<times> world_table) option" where
  "Initialize env tab t =
     (case re_file env tab of
        None \<Rightarrow> Some (False, t)
      | Some [] \<Rightarrow> Some (False, t)
      | Some (line # lines) \<Rightarrow> do {
          (ok, t) \<leftarrow> ParserHead (map tolower line) t;
          if \<not> ok then Some (False, t)
          else do { t \<leftarrow> load_lines env lines t; Some (True, AfterInit t) }
        })"

definition GetInitMap :: "world_table \<Rightarrow> resource_world option" where
  "GetInitMap t = GetResource t (wt_initMapId t)"

definition GetRolesMap :: "world_table \<Rightarrow> resource_world option" where
  "GetRolesMap t = GetResource t (wt_rolesMapId t)"

subsection \<open>Lines written and read back\<close>

fun csv_join :: "string list \<Rightarrow> string" where
  "csv_join [] = []"
| "csv_join [f] = f"
| "csv_join (f # g # fs) = f @ CHR '','' # csv_join (g # fs)"

definition csv_field :: "string \<Rightarrow> bool" where
  "csv_field f = (f \<noteq> [] \<and> CHR '','' \<notin> set f \<and> hd f \<noteq> CHR 0x22)"

lemma find_char_append: "c \<notin> set f \<Longrightarrow> find_char c (f @ c # s) = int (length f)"
  by (induction f) (auto simp: Let_def)

lemma find_char_absent: "c \<notin> set f \<Longrightarrow> find_char c f = - 1"
  by (induction f) (auto simp: Let_def)

lemma parse_field:
  assumes "csv_field f" "s \<noteq> []"
  shows "parse_fields (f @ CHR '','' # s) = f # parse_fields s"
proof -
  obtain a l where f: "f = a # l" "a \<noteq> CHR 0x22" "CHR '','' \<notin> set f" using assms(1) by (cases f) (auto simp: csv_field_def)
  have "find_char (CHR '','') (a # l @ CHR '','' # s) = int (length f)"
    using find_char_append [OF f(3), of s] f(1) by simp
  moreover have "nat (int (length f)) = Suc (length l)" using f(1) by simp
  ultimately show ?thesis using f assms(2) by (simp add: Let_def del: find_char.simps)
qed

lemma parse_last_field: "csv_field f \<Longrightarrow> parse_fields f = [f]"
  by (cases f) (auto simp: csv_field_def Let_def find_char_absent simp del: find_char.simps)

lemma csv_join_ne: "fs \<noteq> [] \<Longrightarrow> list_all csv_field fs \<Longrightarrow> csv_join fs \<noteq> []"
  by (induction fs rule: csv_join.induct) (auto simp: csv_field_def)

lemma parse_join: "fs \<noteq> [] \<Longrightarrow> list_all csv_field fs \<Longrightarrow> parse_fields (csv_join fs) = fs"
  by (induction fs rule: csv_join.induct) (auto simp: parse_field parse_last_field csv_join_ne simp del: parse_fields.simps)

lemma dropWhile_hd: "s = [] \<or> \<not> isspace (hd s) \<Longrightarrow> dropWhile isspace s = s"
  by (cases s) auto

lemma trim_id: "s \<noteq> [] \<Longrightarrow> \<not> isspace (hd s) \<Longrightarrow> \<not> isspace (last s) \<Longrightarrow> trim s = s"
  using dropWhile_hd [of s] dropWhile_hd [of "rev s"] by (simp add: trim_def hd_rev)

lemma hd_csv_join: "list_all csv_field (f # fs) \<Longrightarrow> hd (csv_join (f # fs)) = hd f"
  by (cases fs) (auto simp: csv_field_def)

lemma last_csv_join: "fs \<noteq> [] \<Longrightarrow> list_all csv_field fs \<Longrightarrow> last (csv_join fs) = last (last fs)"
  by (induction fs rule: csv_join.induct) (auto simp: csv_join_ne)

text \<open>
  A line of fields that are not empty, hold no comma and do not start with a quotation mark is read back as it was
  written, if the line neither starts nor ends with white space.
\<close>

theorem csv_roundtrip:
  assumes "fs \<noteq> []" "list_all csv_field fs" "\<not> isspace (hd (hd fs))" "\<not> isspace (last (last fs))"
  shows "ParserLine (csv_join fs) = Some fs"
proof -
  have "trim (csv_join fs) = csv_join fs"
    using assms hd_csv_join [of "hd fs" "tl fs"] by (intro trim_id) (simp_all add: csv_join_ne last_csv_join)
  then show ?thesis using assms by (simp add: ParserLine_def csv_join_ne parse_join del: parse_fields.simps)
qed

text \<open>Quotation marks do not work: what follows the closing one starts with the comma and is not taken apart.\<close>

theorem quoted_field_swallows_line:
  assumes "q \<noteq> []" "CHR 0x22 \<notin> set q" "\<not> isspace (last (CHR '','' # s))"
  shows "ParserLine (CHR 0x22 # q @ CHR 0x22 # CHR '','' # s) = Some [q, CHR '','' # s]"
proof -
  let ?l = "CHR 0x22 # q @ CHR 0x22 # CHR '','' # s"
  have "trim ?l = ?l" using assms(3) by (intro trim_id) (simp_all add: isspace_def)
  moreover have "parse_fields ?l = [q, CHR '','' # s]" using assms(1,2) by (simp add: Let_def find_char_append)
  ultimately show ?thesis by (simp add: ParserLine_def del: parse_fields.simps)
qed

theorem csv_roundtrip_witness: "ParserLine ''101,main street,3'' = Some [''101'', ''main street'', ''3'']"
  using csv_roundtrip [of "[''101'', ''main street'', ''3'']"] by (simp add: csv_field_def isspace_def)

end
