(* ===== verification/AppSync.thy ===== *)
theory AppSync
  imports Resources
begin

text \<open>
  \<open>SyncComponent\<close> (\<open>sync_component.cpp\<close>), the list of applications with their loads, and the two components of the
  application manager built on it: \<open>AppSyncComponent\<close>, which answers the HTTP request for a login server, and
  \<open>CreateWorldComponent\<close>, which decides which application creates a world.
\<close>

subsection \<open>\<open>SyncComponent\<close>\<close>

record app_info =
  ai_AppType :: int
  ai_AppId :: int
  ai_intraIp :: string
  ai_extraIp :: string
  ai_Port :: int
  ai_Online :: int
  ai_Socket :: int

type_synonym apps = "(int, app_info) smap"

definition AppInfo_Parse :: "yaml \<Rightarrow> app_info_sync \<Rightarrow> int \<Rightarrow> app_info option" where
  "AppInfo_Parse pYaml proto socket =
     (case GetIPEndPoint (as_app_type proto) (as_app_id proto) pYaml of
        None \<Rightarrow> None
      | Some pConfig \<Rightarrow>
          Some \<lparr>ai_AppType = as_app_type proto, ai_AppId = as_app_id proto, ai_intraIp = IntraIp pConfig,
                ai_extraIp = ExtraIp pConfig, ai_Port = Port pConfig, ai_Online = as_online proto, ai_Socket = socket\<rparr>)"

definition Sync_Parse :: "yaml \<Rightarrow> app_info_sync \<Rightarrow> int \<Rightarrow> apps \<Rightarrow> apps" where
  "Sync_Parse pYaml proto socket apps =
     (case map_of apps (as_app_id proto) of
        None \<Rightarrow>
          (case AppInfo_Parse pYaml proto socket of
             Some syncAppInfo \<Rightarrow> smap_assign (ai_AppId syncAppInfo) syncAppInfo apps
           | None \<Rightarrow> apps)
      | Some info \<Rightarrow> smap_assign (as_app_id proto) (info\<lparr>ai_Online := as_online proto, ai_Socket := socket\<rparr>) apps)"

definition AppInfoSyncHandle :: "yaml \<Rightarrow> net_identify \<Rightarrow> app_info_sync \<Rightarrow> apps \<Rightarrow> apps" where
  "AppInfoSyncHandle pYaml pPacket proto apps = Sync_Parse pYaml proto (Socket (ni_socket pPacket)) apps"

definition Sync_HandleNetworkDisconnect :: "net_identify \<Rightarrow> apps \<Rightarrow> apps" where
  "Sync_HandleNetworkDisconnect pPacket apps =
     (case smap_first (\<lambda>p. ai_Socket (snd p) = Socket (ni_socket pPacket)) apps of
        None \<Rightarrow> apps
      | Some (k, _) \<Rightarrow> smap_erase k apps)"

definition app_matches :: "int \<Rightarrow> app_info \<Rightarrow> bool" where
  "app_matches appType info = (ai_AppType info AND appType \<noteq> 0)"

text \<open>The loop over the entries from the first match on: \<open>min\<close> and \<open>appId\<close> are the best so far.\<close>

fun min_app :: "int \<Rightarrow> int \<Rightarrow> int \<Rightarrow> apps \<Rightarrow> int" where
  "min_app appType mn appId [] = appId"
| "min_app appType mn appId ((k, info) # rest) =
     (if mn = 0 then appId
      else if \<not> app_matches appType info then min_app appType mn appId rest
      else if ai_Online info < mn then min_app appType (ai_Online info) k rest
      else min_app appType mn appId rest)"

definition GetOneApp :: "int \<Rightarrow> apps \<Rightarrow> (app_info \<times> apps) option" where
  "GetOneApp appType apps =
     (case dropWhile (\<lambda>p. \<not> app_matches appType (snd p)) apps of
        [] \<Rightarrow> None
      | (k, info) # rest \<Rightarrow>
          (let appId = min_app appType (ai_Online info) k ((k, info) # rest) in
           case map_of apps appId of
             None \<Rightarrow> None
           | Some pInfo \<Rightarrow>
               (let pInfo = pInfo\<lparr>ai_Online := ai_Online pInfo + 1\<rparr>
                in Some (pInfo, smap_assign appId pInfo apps))))"

subsection \<open>\<open>AppSyncComponent\<close>\<close>

text \<open>\<open>json\<close> writes the three fields of the answer, the return code, the address and the port.\<close>

definition HandleHttpRequestLogin :: "(int \<Rightarrow> string \<Rightarrow> int \<Rightarrow> u8 list) \<Rightarrow> net_identify \<Rightarrow> apps \<Rightarrow> apps \<times> help_call list" where
  "HandleHttpRequestLogin json pPacket apps =
     (case GetOneApp APP_LOGIN apps of
        None \<Rightarrow> (apps, [SendHttpResponse 200 (json 2 [] 0) pPacket])
      | Some (info, apps) \<Rightarrow> (apps, [SendHttpResponse 200 (json 0 (ai_extraIp info) (ai_Port info)) pPacket]))"

definition SyncGameInfoToLogin :: "apps \<Rightarrow> help_call list" where
  "SyncGameInfoToLogin apps =
     (let infos = map snd (filter (\<lambda>p. app_matches APP_GAME (snd p)) apps);
          protos = map (\<lambda>info. \<lparr>as_app_id = ai_AppId info, as_app_type = ai_AppType info, as_online = ai_Online info\<rparr>) infos
      in if length protos > 0 then [SendPacketToAllApp MI_AppInfoListSync (AppInfoListSync protos) APP_LOGIN] else [])"

definition AppSync_HandleNetworkDisconnect :: "net_identify \<Rightarrow> apps \<Rightarrow> apps \<times> help_call list" where
  "AppSync_HandleNetworkDisconnect pPacket apps =
     (if \<not> IsTcp (NetType (ni_socket pPacket)) then (apps, [])
      else (let apps = Sync_HandleNetworkDisconnect pPacket apps in (apps, SyncGameInfoToLogin apps)))"

subsection \<open>\<open>CreateWorldComponent\<close>\<close>

text \<open>The table of worlds; \<open>ResourceWorldMgr::GetResource\<close> is the look-up.\<close>

type_synonym worlds = "int \<Rightarrow> resource_world option"

record create_world =
  cw_apps :: apps
  cw_creating :: "(int, int) smap"
  cw_created :: "(int, u64) smap"
  cw_dungeons :: "(u64, int) smap"

definition INVALID_ID :: int where "INVALID_ID = - 1"

definition ReqCreateWorld :: "int \<Rightarrow> create_world \<Rightarrow> int \<times> create_world \<times> help_call list" where
  "ReqCreateWorld worldId c =
     (case GetOneApp APP_SPACE (cw_apps c) of
        None \<Rightarrow> (INVALID_ID, c, [])
      | Some (appInfo, apps) \<Rightarrow>
          (ai_AppId appInfo, c\<lparr>cw_apps := apps\<rparr>,
           [SendPacketApp G2S_CreateWorld (CreateWorld worldId 0 0) APP_SPACE (ai_AppId appInfo)]))"

text \<open>\<open>find_if\<close> and \<open>erase\<close> until nothing is found.\<close>

function erase_all :: "('k \<times> 'v \<Rightarrow> bool) \<Rightarrow> ('k, 'v) smap \<Rightarrow> ('k, 'v) smap" where
  "erase_all p m = (case smap_first p m of None \<Rightarrow> m | Some (k, v) \<Rightarrow> erase_all p (smap_erase k m))"
  by pat_completeness auto
termination
  by (relation "measure (\<lambda>(p, m). length m)")
    (auto dest!: smap_first_Some intro!: length_erase_less simp: image_iff, metis fst_conv)

declare erase_all.simps [simp del]

function recreate_all :: "int \<Rightarrow> create_world \<Rightarrow> create_world \<times> help_call list" where
  "recreate_all appId c =
     (case smap_first (\<lambda>p. snd p = appId) (cw_creating c) of
        None \<Rightarrow> (c, [])
      | Some (worldId, v) \<Rightarrow>
          (let (rs, c, calls) = ReqCreateWorld worldId (c\<lparr>cw_creating := smap_erase worldId (cw_creating c)\<rparr>);
               (c, calls') = recreate_all appId c
           in (c, calls @ calls')))"
  by pat_completeness auto

lemma ReqCreateWorld_maps:
  "ReqCreateWorld worldId c = (rs, c', calls) \<Longrightarrow>
     cw_creating c' = cw_creating c \<and> cw_created c' = cw_created c \<and> cw_dungeons c' = cw_dungeons c"
  by (auto simp: ReqCreateWorld_def split: option.splits)

termination recreate_all
proof (relation "measure (\<lambda>(appId, c). length (cw_creating c))", goal_cases)
  case (2 appId c a worldId v t rs x c' calls)
  have "cw_creating c' = smap_erase worldId (cw_creating c)"
    using ReqCreateWorld_maps [of worldId "c\<lparr>cw_creating := smap_erase worldId (cw_creating c)\<rparr>" rs c' calls] 2 by simp
  moreover have "worldId \<in> fst ` set (cw_creating c)" using 2 by (force dest!: smap_first_Some)
  ultimately show ?case using length_erase_less by simp
qed simp

declare recreate_all.simps [simp del]

definition CreateWorld_HandleNetworkDisconnect :: "net_identify \<Rightarrow> create_world \<Rightarrow> create_world \<times> help_call list" where
  "CreateWorld_HandleNetworkDisconnect pPacket c =
     (if \<not> IsTcp (NetType (ni_socket pPacket)) then (c, [])
      else (let c = c\<lparr>cw_apps := Sync_HandleNetworkDisconnect pPacket (cw_apps c)\<rparr> in
            case GetTagValue (ni_tags pPacket) TagApp of
              None \<Rightarrow> (c, [])
            | Some pTagApp \<Rightarrow>
                (let appId = GetIdFromAppKey (KeyInt64 pTagApp);
                     (c, calls) = recreate_all appId c;
                     c = c\<lparr>cw_created := erase_all (\<lambda>p. GetAppIdFromSN (snd p) = appId) (cw_created c)\<rparr>;
                     c = c\<lparr>cw_dungeons := erase_all (\<lambda>p. GetAppIdFromSN (fst p) = appId) (cw_dungeons c)\<rparr>
                 in (c, calls))))"

definition HandleRequestWorld :: "worlds \<Rightarrow> net_identify \<Rightarrow> int \<Rightarrow> create_world \<Rightarrow> create_world \<times> help_call list" where
  "HandleRequestWorld ws pPacket worldId c =
     (case ws worldId of
        None \<Rightarrow> (c, [])
      | Some mapConfig \<Rightarrow>
          if \<not> IsType PublicWorld mapConfig then (c, [])
          else if map_of (cw_creating c) worldId \<noteq> None then (c, [])
          else (case map_of (cw_created c) worldId of
                  Some sn \<Rightarrow> (c, [SendPacket MI_BroadcastCreateWorld (BroadcastCreateWorld worldId sn 0) pPacket])
                | None \<Rightarrow>
                    (let (appId, c, calls) = ReqCreateWorld worldId c
                     in if appId \<noteq> INVALID_ID
                        then (c\<lparr>cw_creating := smap_assign worldId appId (cw_creating c)\<rparr>, calls) else (c, calls))))"

definition HandleQueryWorld :: "net_identify \<Rightarrow> u64 \<Rightarrow> u64 \<Rightarrow> create_world \<Rightarrow> help_call list" where
  "HandleQueryWorld pPacket worldSn lastWorldSn c =
     (case map_of (cw_dungeons c) worldSn of
        None \<Rightarrow> [SendPacket G2M_QueryWorldRs (QueryWorldRs worldSn 1) pPacket]
      | Some worldId \<Rightarrow> [SendPacket MI_BroadcastCreateWorld (BroadcastCreateWorld worldId worldSn lastWorldSn) pPacket])"

definition CreateWorld_HandleBroadcast :: "worlds \<Rightarrow> int \<Rightarrow> u64 \<Rightarrow> create_world \<Rightarrow> create_world option" where
  "CreateWorld_HandleBroadcast ws worldId worldSn c =
     (case ws worldId of
        None \<Rightarrow> None
      | Some pWorldRes \<Rightarrow>
          Some (if IsType PublicWorld pWorldRes
                then c\<lparr>cw_created := smap_assign worldId worldSn (cw_created c), cw_creating := smap_erase worldId (cw_creating c)\<rparr>
                else c\<lparr>cw_dungeons := smap_assign worldSn worldId (cw_dungeons c)\<rparr>))"

definition CreateWorld_BackToPool :: "create_world \<Rightarrow> create_world" where
  "CreateWorld_BackToPool c = c\<lparr>cw_creating := [], cw_created := []\<rparr>"

subsection \<open>The least loaded application\<close>

definition least :: "int \<Rightarrow> int \<Rightarrow> app_info \<Rightarrow> apps \<Rightarrow> bool" where
  "least t r i l = (\<forall>p \<in> set l. app_matches t (snd p) \<longrightarrow>
     ai_Online i < ai_Online (snd p) \<or> ai_Online i = ai_Online (snd p) \<and> r \<le> fst p)"

lemma min_app_best:
  assumes "smap_ok l" "\<forall>p \<in> set l. app_matches t (snd p) \<longrightarrow> 0 \<le> ai_Online (snd p)" "0 \<le> mn"
  shows "(min_app t mn a l = a \<and> (\<forall>p \<in> set l. app_matches t (snd p) \<longrightarrow> mn \<le> ai_Online (snd p)))
    \<or> (\<exists>i. (min_app t mn a l, i) \<in> set l \<and> app_matches t i \<and> ai_Online i < mn \<and> least t (min_app t mn a l) i l)"
  using assms
proof (induction t mn a l rule: min_app.induct)
  case (2 t mn a k info rest)
  let ?l = "(k, info) # rest"
  have rest: "smap_ok rest" "\<forall>p \<in> set rest. app_matches t (snd p) \<longrightarrow> 0 \<le> ai_Online (snd p)" "\<forall>p \<in> set rest. k < fst p"
    using 2(4,5) by simp_all
  consider (zero) "mn = 0" | (skip) "mn \<noteq> 0" "\<not> (app_matches t info \<and> ai_Online info < mn)"
    | (better) "mn \<noteq> 0" "app_matches t info" "ai_Online info < mn" by blast
  then show ?case
  proof cases
    case zero
    then show ?thesis using 2(5) by simp
  next
    case skip
    then have e: "min_app t mn a ?l = min_app t mn a rest" by auto
    have "(min_app t mn a rest = a \<and> (\<forall>p \<in> set rest. app_matches t (snd p) \<longrightarrow> mn \<le> ai_Online (snd p)))
      \<or> (\<exists>i. (min_app t mn a rest, i) \<in> set rest \<and> app_matches t i \<and> ai_Online i < mn \<and> least t (min_app t mn a rest) i rest)"
    proof (cases "app_matches t info")
      case True
      then have "\<not> ai_Online info < mn" "\<not> \<not> app_matches t info" using skip(2) by simp_all
      from 2(3) [OF skip(1) this(2,1) rest(1,2) 2(6)] show ?thesis .
    next
      case False
      from 2(1) [OF skip(1) False rest(1,2) 2(6)] show ?thesis .
    qed
    then show ?thesis
    proof
      assume "min_app t mn a rest = a \<and> (\<forall>p \<in> set rest. app_matches t (snd p) \<longrightarrow> mn \<le> ai_Online (snd p))"
      moreover from this have "\<forall>p \<in> set ?l. app_matches t (snd p) \<longrightarrow> mn \<le> ai_Online (snd p)" using skip(2) by force
      ultimately show ?thesis unfolding e by blast
    next
      assume "\<exists>i. (min_app t mn a rest, i) \<in> set rest \<and> app_matches t i \<and> ai_Online i < mn \<and> least t (min_app t mn a rest) i rest"
      then obtain i where "(min_app t mn a rest, i) \<in> set rest" "app_matches t i" "ai_Online i < mn" "least t (min_app t mn a rest) i rest" by blast
      moreover from this have "least t (min_app t mn a rest) i ?l" using skip(2) unfolding least_def by force
      ultimately show ?thesis unfolding e by (meson list.set_intros(2))
    qed
  next
    case better
    then have e: "min_app t mn a ?l = min_app t (ai_Online info) k rest" by simp
    have n: "0 \<le> ai_Online info" "\<not> \<not> app_matches t info" using 2(5) better by simp_all
    have "(min_app t (ai_Online info) k rest = k \<and> (\<forall>p \<in> set rest. app_matches t (snd p) \<longrightarrow> ai_Online info \<le> ai_Online (snd p)))
      \<or> (\<exists>i. (min_app t (ai_Online info) k rest, i) \<in> set rest \<and> app_matches t i \<and> ai_Online i < ai_Online info
            \<and> least t (min_app t (ai_Online info) k rest) i rest)"
      by (rule 2(2) [OF better(1) n(2) better(3) rest(1,2) n(1)])
    then show ?thesis
    proof
      assume "min_app t (ai_Online info) k rest = k \<and> (\<forall>p \<in> set rest. app_matches t (snd p) \<longrightarrow> ai_Online info \<le> ai_Online (snd p))"
      moreover from this have "least t k info ?l" using rest(3) unfolding least_def by force
      ultimately show ?thesis unfolding e using better by (metis list.set_intros(1))
    next
      assume "\<exists>i. (min_app t (ai_Online info) k rest, i) \<in> set rest \<and> app_matches t i \<and> ai_Online i < ai_Online info
            \<and> least t (min_app t (ai_Online info) k rest) i rest"
      then obtain i where "(min_app t (ai_Online info) k rest, i) \<in> set rest" "app_matches t i" "ai_Online i < ai_Online info"
          "least t (min_app t (ai_Online info) k rest) i rest" by blast
      moreover from this have "least t (min_app t (ai_Online info) k rest) i ?l" unfolding least_def by simp
      moreover have "ai_Online i < mn" using calculation better(3) by linarith
      ultimately show ?thesis unfolding e by (meson list.set_intros(2))
    qed
  qed
qed simp

lemma dropWhile_head: "dropWhile (\<lambda>x. \<not> P x) xs = y # ys \<Longrightarrow> P y \<and> (\<forall>x \<in> set xs. P x \<longrightarrow> x \<in> set (y # ys)) \<and> set (y # ys) \<subseteq> set xs"
  by (induction xs) (auto split: if_splits)

lemma smap_ok_dropWhile: "smap_ok m \<Longrightarrow> smap_ok (dropWhile p m)"
  by (induction m) auto

definition has_app :: "int \<Rightarrow> apps \<Rightarrow> bool" where
  "has_app appType apps = (\<exists>p \<in> set apps. app_matches appType (snd p))"

lemma GetOneApp_spec:
  assumes ok: "smap_ok apps" and pos: "\<forall>p \<in> set apps. app_matches t (snd p) \<longrightarrow> 0 \<le> ai_Online (snd p)"
  shows "if has_app t apps
    then (\<exists>k i. GetOneApp t apps = Some (i\<lparr>ai_Online := ai_Online i + 1\<rparr>, smap_assign k (i\<lparr>ai_Online := ai_Online i + 1\<rparr>) apps)
      \<and> map_of apps k = Some i \<and> app_matches t i
      \<and> (\<forall>k' j. map_of apps k' = Some j \<and> app_matches t j \<longrightarrow>
           ai_Online i < ai_Online j \<or> ai_Online i = ai_Online j \<and> k \<le> k'))
    else GetOneApp t apps = None"
proof (cases "dropWhile (\<lambda>p. \<not> app_matches t (snd p)) apps")
  case Nil
  then have "\<not> has_app t apps" by (auto simp: has_app_def dropWhile_eq_Nil_conv)
  moreover have "GetOneApp t apps = None" unfolding GetOneApp_def Nil by simp
  ultimately show ?thesis by simp
next
  case (Cons q rest)
  obtain k0 i0 where q: "q = (k0, i0)" by force
  have "P q \<and> (\<forall>x \<in> set apps. P x \<longrightarrow> x \<in> set (q # rest)) \<and> set (q # rest) \<subseteq> set apps"
    if "P = (\<lambda>p. app_matches t (snd p))" for P using dropWhile_head [of P apps q rest] Cons that by simp
  then have d: "app_matches t i0" "\<forall>x \<in> set apps. app_matches t (snd x) \<longrightarrow> x \<in> set (q # rest)" "set (q # rest) \<subseteq> set apps"
    unfolding q by auto
  then have has: "has_app t apps" unfolding q by (auto simp: has_app_def intro!: bexI [of _ "(k0, i0)"])
  let ?l = "q # rest" and ?a = "min_app t (ai_Online i0) k0 (q # rest)"
  have l: "smap_ok ?l" using smap_ok_dropWhile [OF ok] Cons by metis
  have pl: "\<forall>p \<in> set ?l. app_matches t (snd p) \<longrightarrow> 0 \<le> ai_Online (snd p)" using pos d(3) by blast
  then have p0: "0 \<le> ai_Online i0" using d(1) unfolding q by simp
  have first: "\<forall>p \<in> set ?l. k0 \<le> fst p" using l unfolding q by auto
  have "\<exists>i. (?a, i) \<in> set ?l \<and> app_matches t i \<and> (\<forall>p \<in> set ?l. app_matches t (snd p) \<longrightarrow>
      ai_Online i < ai_Online (snd p) \<or> ai_Online i = ai_Online (snd p) \<and> ?a \<le> fst p)"
    using min_app_best [OF l pl p0, of k0] unfolding least_def
  proof
    assume h: "?a = k0 \<and> (\<forall>p \<in> set ?l. app_matches t (snd p) \<longrightarrow> ai_Online i0 \<le> ai_Online (snd p))"
    then show ?thesis using first d(1) unfolding q by (intro exI [of _ i0]) fastforce
  qed blast
  then obtain i where i: "(?a, i) \<in> set ?l" "app_matches t i" "\<forall>p \<in> set ?l. app_matches t (snd p) \<longrightarrow>
      ai_Online i < ai_Online (snd p) \<or> ai_Online i = ai_Online (snd p) \<and> ?a \<le> fst p" by blast
  have m: "map_of apps ?a = Some i" using i(1) d(3) smap_ok_mem [OF ok] by blast
  have "GetOneApp t apps = Some (i\<lparr>ai_Online := ai_Online i + 1\<rparr>, smap_assign ?a (i\<lparr>ai_Online := ai_Online i + 1\<rparr>) apps)"
    using Cons m unfolding q by (simp add: GetOneApp_def Let_def del: min_app.simps)
  moreover have "ai_Online i < ai_Online j \<or> ai_Online i = ai_Online j \<and> ?a \<le> k'"
    if "map_of apps k' = Some j" "app_matches t j" for k' j
    using i(3) d(2) that smap_ok_mem [OF ok, of k' j] by force
  ultimately show ?thesis using has m i(2) by auto
qed

text \<open>
  \<open>GetOneApp\<close> finds an application exactly when one of the type is known. It is one with the fewest players,
  the one with the smallest number among those, and its load is counted up at once, so that requests that come
  before the next report are spread; the other entries do not change.
\<close>

theorem least_loaded_application:
  assumes "smap_ok apps" "\<forall>p \<in> set apps. app_matches appType (snd p) \<longrightarrow> 0 \<le> ai_Online (snd p)"
  shows "if has_app appType apps
    then (\<exists>k i. GetOneApp appType apps
           = Some (i\<lparr>ai_Online := ai_Online i + 1\<rparr>, smap_assign k (i\<lparr>ai_Online := ai_Online i + 1\<rparr>) apps)
      \<and> map_of apps k = Some i \<and> app_matches appType i
      \<and> (\<forall>k' j. map_of apps k' = Some j \<and> app_matches appType j \<longrightarrow>
           ai_Online i < ai_Online j \<or> ai_Online i = ai_Online j \<and> k \<le> k'))
    else GetOneApp appType apps = None"
  by (rule GetOneApp_spec [OF assms])

subsection \<open>Worlds that are lost while they are being created\<close>

lemma has_app_map: "smap_ok apps \<Longrightarrow> has_app t apps = (\<exists>k i. map_of apps k = Some i \<and> app_matches t i)"
  unfolding has_app_def by (metis (no_types, lifting) fst_conv prod.collapse smap_ok_mem snd_conv)

definition loads_ok :: "int \<Rightarrow> apps \<Rightarrow> bool" where
  "loads_ok t apps = (smap_ok apps \<and> (\<forall>p \<in> set apps. app_matches t (snd p) \<longrightarrow> 0 \<le> ai_Online (snd p)))"

lemma loads_ok_step:
  assumes "loads_ok t apps" "has_app t apps"
  obtains info apps' where "GetOneApp t apps = Some (info, apps')" "loads_ok t apps'" "has_app t apps'"
proof -
  have l: "smap_ok apps" "\<forall>p \<in> set apps. app_matches t (snd p) \<longrightarrow> 0 \<le> ai_Online (snd p)"
    using assms(1) by (simp_all add: loads_ok_def)
  obtain k i where i: "GetOneApp t apps = Some (i\<lparr>ai_Online := ai_Online i + 1\<rparr>, smap_assign k (i\<lparr>ai_Online := ai_Online i + 1\<rparr>) apps)"
      "map_of apps k = Some i" "app_matches t i"
    using GetOneApp_spec [OF l] assms(2) by auto
  let ?i = "i\<lparr>ai_Online := ai_Online i + 1\<rparr>"
  have m: "app_matches t ?i" "0 \<le> ai_Online ?i" using i(2,3) l(2) map_of_SomeD [OF i(2)] by (fastforce simp: app_matches_def)+
  have "loads_ok t (smap_assign k ?i apps)"
    using l m set_assign_subset [of k ?i apps] unfolding loads_ok_def by fastforce
  moreover have "map_of (smap_assign k ?i apps) k = Some ?i" by simp
  then have "has_app t (smap_assign k ?i apps)" using m(1) l(1) has_app_map [of "smap_assign k ?i apps" t] by auto
  ultimately show thesis using i(1) that by blast
qed

definition create_request :: "int \<Rightarrow> help_call list \<Rightarrow> bool" where
  "create_request worldId calls = (\<exists>appId. SendPacketApp G2S_CreateWorld (CreateWorld worldId 0 0) APP_SPACE appId \<in> set calls)"

lemma recreate_all_spec:
  assumes "loads_ok APP_SPACE (cw_apps c)" "has_app APP_SPACE (cw_apps c)" "smap_ok (cw_creating c)"
  shows "\<exists>c' calls. recreate_all appId c = (c', calls) \<and> loads_ok APP_SPACE (cw_apps c') \<and> has_app APP_SPACE (cw_apps c')
    \<and> cw_created c' = cw_created c
    \<and> map_of (cw_creating c') = (\<lambda>w. if map_of (cw_creating c) w = Some appId then None else map_of (cw_creating c) w)
    \<and> (\<forall>w. map_of (cw_creating c) w = Some appId \<longrightarrow> create_request w calls)"
  using assms
proof (induction "length (cw_creating c)" arbitrary: c rule: less_induct)
  case less
  show ?case
  proof (cases "smap_first (\<lambda>p. snd p = appId) (cw_creating c)")
    case None
    then have "map_of (cw_creating c) w \<noteq> Some appId" for w
      using smap_first_None [of "\<lambda>p. snd p = appId" "cw_creating c"] by (force dest: map_of_SomeD)
    then show ?thesis using None less.prems by (simp add: recreate_all.simps fun_eq_iff)
  next
    case (Some q)
    obtain w v where q: "q = (w, v)" by force
    have w: "(w, appId) \<in> set (cw_creating c)" "map_of (cw_creating c) w = Some appId"
      using smap_first_Some [OF Some] smap_ok_mem [OF less.prems(3)] unfolding q by auto
    let ?c = "c\<lparr>cw_creating := smap_erase w (cw_creating c)\<rparr>"
    obtain info apps where a: "GetOneApp APP_SPACE (cw_apps c) = Some (info, apps)" "loads_ok APP_SPACE apps" "has_app APP_SPACE apps"
      using loads_ok_step [OF less.prems(1,2)] by blast
    let ?d = "?c\<lparr>cw_apps := apps\<rparr>"
    have r: "ReqCreateWorld w ?c = (ai_AppId info, ?d, [SendPacketApp G2S_CreateWorld (CreateWorld w 0 0) APP_SPACE (ai_AppId info)])"
      using a(1) by (simp add: ReqCreateWorld_def)
    have "w \<in> fst ` set (cw_creating c)" using w(1) by force
    then have "length (cw_creating ?d) < length (cw_creating c)" using length_erase_less by simp
    from less.hyps [OF this] obtain c' calls where IH: "recreate_all appId ?d = (c', calls)"
        "loads_ok APP_SPACE (cw_apps c')" "has_app APP_SPACE (cw_apps c')" "cw_created c' = cw_created c"
        "map_of (cw_creating c') = (\<lambda>x. if map_of (cw_creating ?d) x = Some appId then None else map_of (cw_creating ?d) x)"
        "\<forall>x. map_of (cw_creating ?d) x = Some appId \<longrightarrow> create_request x calls"
      using a(2,3) less.prems(3) by auto
    let ?calls = "SendPacketApp G2S_CreateWorld (CreateWorld w 0 0) APP_SPACE (ai_AppId info) # calls"
    have "recreate_all appId c = (c', ?calls)"
      using Some r IH(1) unfolding q by (subst recreate_all.simps) (simp add: Let_def)
    moreover have "create_request x ?calls" if "map_of (cw_creating c) x = Some appId" for x
      using that IH(6) by (cases "x = w") (auto simp: create_request_def)
    moreover have "map_of (cw_creating c') = (\<lambda>x. if map_of (cw_creating c) x = Some appId then None else map_of (cw_creating c) x)"
      using IH(5) w(2) by (auto simp: fun_eq_iff)
    ultimately show ?thesis using IH(2-4) by (intro exI [of _ c'] exI [of _ ?calls]) simp
  qed
qed

lemma erase_all_absent: "map_of m k = None \<Longrightarrow> map_of (erase_all p m) k = None"
proof (induction p m rule: erase_all.induct)
  case (1 p m)
  then show ?case by (subst erase_all.simps) (auto split: option.split)
qed

text \<open>
  C20. A public world whose application is lost while it is being created is asked for again at another
  application, but the second request is not recorded: the world is neither created nor being created, so the next
  request for it makes a third application, or the same one, create it once more.
\<close>

theorem recreated_world_is_forgotten:
  assumes tcp: "IsTcp (NetType (ni_socket pPacket))" and tag: "GetTagValue (ni_tags pPacket) TagApp = Some v"
    and lost: "map_of (cw_creating c) worldId = Some (GetIdFromAppKey (KeyInt64 v))" "map_of (cw_created c) worldId = None"
    and ok: "smap_ok (cw_creating c)" "loads_ok APP_SPACE (Sync_HandleNetworkDisconnect pPacket (cw_apps c))"
    and other: "has_app APP_SPACE (Sync_HandleNetworkDisconnect pPacket (cw_apps c))"
    and ws: "ws worldId = Some r" "IsType PublicWorld r"
  shows "\<exists>c1 calls1 c2 calls2. CreateWorld_HandleNetworkDisconnect pPacket c = (c1, calls1) \<and> create_request worldId calls1
    \<and> map_of (cw_creating c1) worldId = None
    \<and> HandleRequestWorld ws pAsker worldId c1 = (c2, calls2) \<and> create_request worldId calls2"
proof -
  let ?c = "c\<lparr>cw_apps := Sync_HandleNetworkDisconnect pPacket (cw_apps c)\<rparr>" and ?app = "GetIdFromAppKey (KeyInt64 v)"
  have cc: "cw_creating ?c = cw_creating c" "cw_created ?c = cw_created c"
    "cw_apps ?c = Sync_HandleNetworkDisconnect pPacket (cw_apps c)" by simp_all
  obtain d calls where d: "recreate_all ?app ?c = (d, calls)" "loads_ok APP_SPACE (cw_apps d)" "has_app APP_SPACE (cw_apps d)"
      "cw_created d = cw_created c"
      "map_of (cw_creating d) = (\<lambda>w. if map_of (cw_creating c) w = Some ?app then None else map_of (cw_creating c) w)"
      "\<forall>w. map_of (cw_creating c) w = Some ?app \<longrightarrow> create_request w calls"
    using recreate_all_spec [of ?c ?app] ok other unfolding cc by blast
  let ?d = "d\<lparr>cw_created := erase_all (\<lambda>p. GetAppIdFromSN (snd p) = ?app) (cw_created d),
      cw_dungeons := erase_all (\<lambda>p. GetAppIdFromSN (fst p) = ?app) (cw_dungeons d)\<rparr>"
  have e: "CreateWorld_HandleNetworkDisconnect pPacket c = (?d, calls)"
    using tcp tag d(1) by (simp add: CreateWorld_HandleNetworkDisconnect_def Let_def del: IsTcp.simps)
  have gone: "map_of (cw_creating ?d) worldId = None" using d(5) lost(1) by simp
  have new: "map_of (cw_created ?d) worldId = None" using d(4) lost(2) erase_all_absent by simp
  obtain info apps where a: "GetOneApp APP_SPACE (cw_apps d) = Some (info, apps)" using loads_ok_step [OF d(2,3)] by blast
  obtain c2 calls2 where r: "HandleRequestWorld ws pAsker worldId ?d = (c2, calls2)" by force
  have "create_request worldId calls2"
    using r ws gone new a by (auto simp: HandleRequestWorld_def ReqCreateWorld_def create_request_def split: if_splits)
  then show ?thesis using e d(6) lost(1) gone r by blast
qed

text \<open>Two space servers; the first is lost while it creates world 3.\<close>

definition space_info :: "int \<Rightarrow> int \<Rightarrow> int \<Rightarrow> app_info" where
  "space_info appId socket online = \<lparr>ai_AppType = APP_SPACE, ai_AppId = appId, ai_intraIp = [], ai_extraIp = [],
     ai_Port = 5000 + appId, ai_Online = online, ai_Socket = socket\<rparr>"

theorem least_loaded_application_witness:
  "\<exists>i apps'. GetOneApp APP_SPACE [(1, space_info 1 11 4), (2, space_info 2 12 3)] = Some (i, apps') \<and> ai_AppId i = 2 \<and> ai_Online i = 4"
proof -
  let ?apps = "[(1, space_info 1 11 4), (2, space_info 2 12 3)] :: apps"
  have l: "smap_ok ?apps" "\<forall>p \<in> set ?apps. app_matches APP_SPACE (snd p) \<longrightarrow> 0 \<le> ai_Online (snd p)" "has_app APP_SPACE ?apps"
    by (simp_all add: has_app_def app_matches_def space_info_def APP_SPACE_def)
  obtain k i where i: "GetOneApp APP_SPACE ?apps = Some (i\<lparr>ai_Online := ai_Online i + 1\<rparr>, smap_assign k (i\<lparr>ai_Online := ai_Online i + 1\<rparr>) ?apps)"
      "map_of ?apps k = Some i" "\<forall>k' j. map_of ?apps k' = Some j \<and> app_matches APP_SPACE j \<longrightarrow>
           ai_Online i < ai_Online j \<or> ai_Online i = ai_Online j \<and> k \<le> k'"
    using least_loaded_application [OF l(1,2)] l(3) by auto
  have "app_matches APP_SPACE (space_info 2 12 3)" by (simp add: app_matches_def space_info_def APP_SPACE_def)
  then have "ai_Online i \<le> 3" using i(3) [rule_format, of 2 "space_info 2 12 3"] by (auto simp: space_info_def)
  then have "i = space_info 2 12 3" using i(2) by (auto simp: space_info_def split: if_splits)
  then show ?thesis using i(1) by (simp add: space_info_def)
qed

theorem recreated_world_is_forgotten_witness:
  "\<exists>c1 calls1 c2 calls2. CreateWorld_HandleNetworkDisconnect
      \<lparr>ni_socket = \<lparr>Socket = 11, NetType = TcpListen\<rparr>, ni_tags = AddTagInt TagApp (GetAppKey APP_SPACE 1) []\<rparr>
      \<lparr>cw_apps = [(1, space_info 1 11 4), (2, space_info 2 12 3)], cw_creating = [(3, 1)], cw_created = [], cw_dungeons = []\<rparr> = (c1, calls1)
    \<and> create_request 3 calls1 \<and> map_of (cw_creating c1) 3 = None
    \<and> HandleRequestWorld (\<lambda>i. Some (ResourceWorld\<lparr>rb_id := i, rw_worldType := 3\<rparr>)) NetIdentify_empty 3 c1 = (c2, calls2)
    \<and> create_request 3 calls2"
proof -
  let ?p = "\<lparr>ni_socket = \<lparr>Socket = 11, NetType = TcpListen\<rparr>, ni_tags = AddTagInt TagApp (GetAppKey APP_SPACE 1) []\<rparr>"
  let ?c = "\<lparr>cw_apps = [(1, space_info 1 11 4), (2, space_info 2 12 3)], cw_creating = [(3, 1)], cw_created = [], cw_dungeons = []\<rparr>"
  have s: "Sync_HandleNetworkDisconnect ?p (cw_apps ?c) = [(2, space_info 2 12 3)]"
    by (simp add: Sync_HandleNetworkDisconnect_def smap_first_def space_info_def smap_erase_def)
  have l: "loads_ok APP_SPACE (Sync_HandleNetworkDisconnect ?p (cw_apps ?c))" "has_app APP_SPACE (Sync_HandleNetworkDisconnect ?p (cw_apps ?c))"
    unfolding s by (simp_all add: loads_ok_def has_app_def app_matches_def space_info_def APP_SPACE_def)
  have t: "GetTagValue (ni_tags ?p) TagApp = Some \<lparr>KeyStr = [], KeyInt64 = GetAppKey APP_SPACE 1\<rparr>" by simp
  have k: "GetIdFromAppKey (GetAppKey APP_SPACE 1) = 1" by (rule GetIdFromAppKey_key) (simp_all add: APP_SPACE_def)
  show ?thesis
    using recreated_world_is_forgotten [of ?p "\<lparr>KeyStr = [], KeyInt64 = GetAppKey APP_SPACE 1\<rparr>" ?c 3
        "\<lambda>i. Some (ResourceWorld\<lparr>rb_id := i, rw_worldType := 3\<rparr>)", OF _ t _ _ _ l] k
    by (simp add: IsType_def)
qed

end
