(* ===== verification/Players.thy ===== *)
theory Players
  imports Resources
begin

text \<open>
  \<open>libplayer\<close>: a player with the components the login and the game servers give it, and
  \<open>PlayerCollectorComponent\<close> (\<open>player_collector_component.cpp\<close>), the table of the players of one world, lobby or
  account manager. A player is known by its socket: a pointer to it is its entry in the table. Components are
  released at the end of a frame (\<open>EntitySystem::RemoveComponent\<close> only makes a note), so a player that is removed goes
  to \<open>pc_removed\<close> and can still be read; \<open>Player_dispose\<close> is what its components send when they are released.
\<close>

subsection \<open>The components of a player\<close>

record last_map =
  lm_pPublic :: "last_world option"
  lm_pDungeon :: "last_world option"
  lm_curWorldId :: int

definition LastMap_new :: last_map where
  "LastMap_new = \<lparr>lm_pPublic = None, lm_pDungeon = None, lm_curWorldId = 0\<rparr>"

text \<open>\<open>None\<close>: there is no initial map in the table of worlds.\<close>

definition LastMap_ParserFromProto :: "world_table \<Rightarrow> player_proto \<Rightarrow> last_map \<Rightarrow> last_map option" where
  "LastMap_ParserFromProto t proto lm =
     (let protoMap = pp_last_world proto in do {
        pPublic \<leftarrow> (case GetResource t (lw_WorldId protoMap) of
                      Some pMap \<Rightarrow> Some protoMap
                    | None \<Rightarrow>
                        (case GetInitMap t of
                           None \<Rightarrow> None
                         | Some pMap \<Rightarrow> Some \<lparr>lw_WorldId = rb_id pMap, lw_WorldSn = 0, lw_Position = rw_initPosition pMap\<rparr>));
        let lm = lm\<lparr>lm_pPublic := Some pPublic\<rparr>;
        let protoDungeon = pp_last_dungeon proto;
        Some (case GetResource t (lw_WorldId protoDungeon) of
                Some pMap \<Rightarrow> lm\<lparr>lm_pDungeon := Some protoDungeon\<rparr>
              | None \<Rightarrow> lm)
      })"

definition LastMap_SerializeToProto :: "last_map \<Rightarrow> player_proto \<Rightarrow> player_proto" where
  "LastMap_SerializeToProto lm pProto =
     (let pProto = (case lm_pPublic lm of Some w \<Rightarrow> pProto\<lparr>pp_last_world := w\<rparr> | None \<Rightarrow> pProto)
      in case lm_pDungeon lm of Some w \<Rightarrow> pProto\<lparr>pp_last_dungeon := w\<rparr> | None \<Rightarrow> pProto)"

definition GetCur :: "last_map \<Rightarrow> last_world option" where
  "GetCur lm =
     (case lm_pPublic lm of
        None \<Rightarrow> None
      | Some w \<Rightarrow> if lw_WorldId w = lm_curWorldId lm then Some w else lm_pDungeon lm)"

definition EnterDungeon_map :: "int \<Rightarrow> u64 \<Rightarrow> vector3 \<Rightarrow> last_map \<Rightarrow> last_map" where
  "EnterDungeon_map worldId worldSn position lm =
     (let new = \<lparr>lw_WorldId = worldId, lw_WorldSn = worldSn, lw_Position = position\<rparr>;
          d = (case lm_pDungeon lm of None \<Rightarrow> new | Some d \<Rightarrow> d)
      in lm\<lparr>lm_pDungeon := Some (if lw_WorldSn d \<noteq> worldSn then new else d)\<rparr>)"

text \<open>\<open>None\<close>: the world is not in the table, or a public world is entered without a public map.\<close>

definition EnterWorld :: "world_table \<Rightarrow> int \<Rightarrow> u64 \<Rightarrow> last_map \<Rightarrow> last_map option" where
  "EnterWorld t worldId worldSn lm = do {
     pWorldRes \<leftarrow> GetResource t worldId;
     let lm = lm\<lparr>lm_curWorldId := worldId\<rparr>;
     if IsType PublicWorld pWorldRes then do {
       pLastMap \<leftarrow> lm_pPublic lm;
       Some (lm\<lparr>lm_pPublic := Some
         (if lw_WorldId pLastMap = worldId then pLastMap\<lparr>lw_WorldId := worldId, lw_WorldSn := worldSn\<rparr>
          else pLastMap\<lparr>lw_WorldId := worldId, lw_WorldSn := worldSn, lw_Position := rw_initPosition pWorldRes\<rparr>)\<rparr>)
     } else Some (EnterDungeon_map worldId worldSn (rw_initPosition pWorldRes) lm)
   }"

definition LastMap_BackToPool :: "last_map \<Rightarrow> last_map" where
  "LastMap_BackToPool lm = lm\<lparr>lm_pPublic := None, lm_pDungeon := None\<rparr>"

record online_in_game =
  og_account :: string
  og_onlineVersion :: int
  og_isReadFromeDB :: bool

definition Online_ParserFromProto :: "player_proto \<Rightarrow> online_in_game \<Rightarrow> online_in_game" where
  "Online_ParserFromProto proto c =
     (if \<not> og_isReadFromeDB c then c
      else (let version = pp_online_version proto in
            if og_onlineVersion c < version then c\<lparr>og_onlineVersion := version\<rparr> else c))"

definition Online_Awake_version :: "string \<Rightarrow> int \<Rightarrow> online_in_game" where
  "Online_Awake_version acc version = \<lparr>og_account = acc, og_onlineVersion = version, og_isReadFromeDB = False\<rparr>"

definition Online_Awake :: "string \<Rightarrow> player_proto \<Rightarrow> online_in_game" where
  "Online_Awake acc proto =
     (let c = Online_ParserFromProto proto \<lparr>og_account = acc, og_onlineVersion = 0, og_isReadFromeDB = True\<rparr>
      in c\<lparr>og_onlineVersion := og_onlineVersion c + 1\<rparr>)"

definition Online_SetOnlineFlag :: "online_in_game \<Rightarrow> help_call list" where
  "Online_SetOnlineFlag c =
     [DispatchProto MI_PlayerSyncOnlineToRedis (PlayerSyncOnlineToRedis (og_account c) (og_onlineVersion c)) None]"

definition Online_BackToPool :: "online_in_game \<Rightarrow> help_call list" where
  "Online_BackToPool c =
     [DispatchProto MI_PlayerDeleteOnlineToRedis (PlayerDeleteOnlineToRedis (og_account c) (og_onlineVersion c)) None]"

definition Online_SerializeToProto :: "online_in_game \<Rightarrow> player_proto \<Rightarrow> player_proto" where
  "Online_SerializeToProto c pProto = pProto\<lparr>pp_online_version := og_onlineVersion c\<rparr>"

text \<open>\<open>PlayerComponentOnlineInLogin\<close> is the account it was given.\<close>

definition OnlineInLogin_SetOnlineFlag :: "string \<Rightarrow> help_call list" where
  "OnlineInLogin_SetOnlineFlag acc = [DispatchProto MI_AccountSyncOnlineToRedis (AccountSyncOnlineToRedis acc) None]"

definition OnlineInLogin_BackToPool :: "string \<Rightarrow> help_call list" where
  "OnlineInLogin_BackToPool acc = [DispatchProto MI_AccountDeleteOnlineToRedis (AccountDeleteOnlineToRedis acc) None]"

record player_account =
  pa_password :: string
  pa_selectPlayerSn :: u64
  pa_lastGameId :: int

definition Account_Awake :: "string \<Rightarrow> player_account" where
  "Account_Awake password = \<lparr>pa_password = password, pa_selectPlayerSn = 0, pa_lastGameId = - 1\<rparr>"

text \<open>
  \<open>PlayerComponentProtoList\<close>: one stream per character, \<open>None\<close> when it has been read to its end.
\<close>

type_synonym proto_list = "(u64, player_little option) smap"

fun ProtoList_Parse :: "player_little list \<Rightarrow> proto_list \<Rightarrow> proto_list" where
  "ProtoList_Parse [] protos = protos"
| "ProtoList_Parse (p # ps) protos = ProtoList_Parse ps (smap_assign (pt_sn p) (Some p) protos)"

text \<open>\<open>strncmp(a, b, n) == 0\<close>; a C string ends at its first 0 character or after its last one.\<close>

fun strncmp_eq :: "string \<Rightarrow> string \<Rightarrow> nat \<Rightarrow> bool" where
  "strncmp_eq a b 0 = True"
| "strncmp_eq [] [] (Suc n) = True"
| "strncmp_eq [] (d # b) (Suc n) = (d = CHR 0x00)"
| "strncmp_eq (c # a) [] (Suc n) = (c = CHR 0x00)"
| "strncmp_eq (c # a) (d # b) (Suc n) =
     (if c \<noteq> d then False else if c = CHR 0x00 then True else strncmp_eq a b n)"

definition IsTokenValid :: "string \<Rightarrow> string \<Rightarrow> bool" where
  "IsTokenValid tok other = strncmp_eq tok other (length tok)"

subsection \<open>Players\<close>

record player =
  pl_account :: string
  pl_name :: string
  pl_playerSn :: u64
  pl_player :: player_proto
  pl_ident :: net_identify
  pl_Account :: "player_account option"
  pl_ProtoList :: "proto_list option"
  pl_OnlineInLogin :: "string option"
  pl_Token :: "string option"
  pl_OnlineInGame :: "online_in_game option"
  pl_LastMap :: "last_map option"

abbreviation "player_socket p \<equiv> Socket (ni_socket (pl_ident p))"

definition Player_Awake :: "net_identify \<Rightarrow> string \<Rightarrow> player" where
  "Player_Awake pIdentify acc =
     \<lparr>pl_account = acc, pl_name = [], pl_playerSn = 0, pl_player = Player_empty,
      pl_ident = \<lparr>ni_socket = SocketKey_CopyFrom (ni_socket pIdentify) SocketKey_None, ni_tags = AddTagStr TagAccount acc []\<rparr>,
      pl_Account = None, pl_ProtoList = None, pl_OnlineInLogin = None, pl_Token = None, pl_OnlineInGame = None, pl_LastMap = None\<rparr>"

definition Player_ParserFromProto :: "world_table \<Rightarrow> u64 \<Rightarrow> player_proto \<Rightarrow> player \<Rightarrow> player option" where
  "Player_ParserFromProto t playerSn proto p =
     (let p = p\<lparr>pl_playerSn := playerSn, pl_player := proto, pl_name := pp_name proto,
                pl_OnlineInGame := map_option (Online_ParserFromProto proto) (pl_OnlineInGame p)\<rparr>
      in case pl_LastMap p of
           None \<Rightarrow> Some p
         | Some lm \<Rightarrow> map_option (\<lambda>lm. p\<lparr>pl_LastMap := Some lm\<rparr>) (LastMap_ParserFromProto t proto lm))"

definition Player_SerializeToProto :: "player \<Rightarrow> player_proto" where
  "Player_SerializeToProto p =
     (let pProto = pl_player p;
          pProto = (case pl_LastMap p of Some lm \<Rightarrow> LastMap_SerializeToProto lm pProto | None \<Rightarrow> pProto)
      in case pl_OnlineInGame p of Some c \<Rightarrow> Online_SerializeToProto c pProto | None \<Rightarrow> pProto)"

definition Player_dispose :: "player \<Rightarrow> help_call list" where
  "Player_dispose p =
     (case pl_OnlineInLogin p of Some acc \<Rightarrow> OnlineInLogin_BackToPool acc | None \<Rightarrow> [])
       @ (case pl_OnlineInGame p of Some c \<Rightarrow> Online_BackToPool c | None \<Rightarrow> [])"

subsection \<open>The table of players\<close>

record player_collector =
  pc_players :: "(int, player) smap"
  pc_accounts :: "(string, int) smap"
  pc_removed :: "player list"

definition Collector_new :: player_collector where
  "Collector_new = \<lparr>pc_players = [], pc_accounts = [], pc_removed = []\<rparr>"

definition Collector_BackToPool :: "player_collector \<Rightarrow> player_collector" where
  "Collector_BackToPool pc =
     pc\<lparr>pc_removed := pc_removed pc @ map snd (pc_players pc), pc_accounts := [], pc_players := []\<rparr>"

definition AddPlayer :: "net_identify \<Rightarrow> string \<Rightarrow> player_collector \<Rightarrow> (player \<times> player_collector \<times> help_call list) option" where
  "AddPlayer pIdentify acc pc =
     (let socket = Socket (ni_socket pIdentify) in
      if map_of (pc_players pc) socket \<noteq> None then None
      else (let pPlayer = Player_Awake pIdentify acc in
            Some (pPlayer,
                  pc\<lparr>pc_accounts := smap_assign acc socket (pc_accounts pc),
                     pc_players := smap_assign socket pPlayer (pc_players pc)\<rparr>,
                  [DispatchIdent MI_NetworkListenKey (Some (pl_ident pPlayer))])))"

definition RemovePlayer_of :: "player \<Rightarrow> player_collector \<Rightarrow> player_collector" where
  "RemovePlayer_of pPlayer pc =
     pc\<lparr>pc_players := smap_erase (player_socket pPlayer) (pc_players pc),
        pc_accounts := smap_erase (pl_account pPlayer) (pc_accounts pc),
        pc_removed := pc_removed pc @ [pPlayer]\<rparr>"

definition RemovePlayerBySocket :: "int \<Rightarrow> player_collector \<Rightarrow> player_collector" where
  "RemovePlayerBySocket socket pc =
     (case map_of (pc_players pc) socket of None \<Rightarrow> pc | Some p \<Rightarrow> RemovePlayer_of p pc)"

definition RemovePlayerBySn :: "u64 \<Rightarrow> player_collector \<Rightarrow> player_collector" where
  "RemovePlayerBySn playerSn pc =
     (case smap_first (\<lambda>q. pl_playerSn (snd q) = playerSn) (pc_players pc) of
        None \<Rightarrow> pc
      | Some (k, p) \<Rightarrow> RemovePlayer_of p pc)"

text \<open>The loop takes the first player and removes it by its socket; \<open>None\<close>: it does not end.\<close>

partial_function (option) RemoveAllPlayerAndCloseConnect ::
  "player_collector \<Rightarrow> (player_collector \<times> help_call list) option" where
  "RemoveAllPlayerAndCloseConnect pc =
     (case pc_players pc of
        [] \<Rightarrow> Some (pc, [])
      | (k, pPlayer) # ps \<Rightarrow>
          Option.bind (RemoveAllPlayerAndCloseConnect (RemovePlayer_of pPlayer pc))
            (\<lambda>(pc, calls). Some (pc, DispatchIdent MI_NetworkRequestDisconnect (Some (pl_ident pPlayer)) # calls)))"

definition GetPlayerBySocket :: "int \<Rightarrow> player_collector \<Rightarrow> player option" where
  "GetPlayerBySocket socket pc = map_of (pc_players pc) socket"

definition GetPlayerByAccount :: "string \<Rightarrow> player_collector \<Rightarrow> player option \<times> player_collector" where
  "GetPlayerByAccount acc pc =
     (case map_of (pc_accounts pc) acc of
        None \<Rightarrow> (None, pc)
      | Some socket \<Rightarrow>
          (case map_of (pc_players pc) socket of
             None \<Rightarrow> (None, pc\<lparr>pc_accounts := smap_erase acc (pc_accounts pc)\<rparr>)
           | Some p \<Rightarrow> (Some p, pc)))"

definition GetPlayerByName :: "string \<Rightarrow> player_collector \<Rightarrow> player option" where
  "GetPlayerByName name pc = map_option snd (smap_first (\<lambda>q. pl_name (snd q) = name) (pc_players pc))"

definition GetPlayerBySn :: "u64 \<Rightarrow> player_collector \<Rightarrow> player option" where
  "GetPlayerBySn playerSn pc = map_option snd (smap_first (\<lambda>q. pl_playerSn (snd q) = playerSn) (pc_players pc))"

definition OnlineSize :: "player_collector \<Rightarrow> int" where
  "OnlineSize pc = int (length (pc_players pc))"

text \<open>Writing through a pointer to a player.\<close>

definition set_player :: "player \<Rightarrow> player_collector \<Rightarrow> player_collector" where
  "set_player p pc = pc\<lparr>pc_players := smap_assign (player_socket p) p (pc_players pc)\<rparr>"

subsection \<open>The table as a table of sessions\<close>

text \<open>
  What the account manager, the lobby, the world proxies and their gatherer rely on: a session is entered for a
  socket that has none, left, or changed in place.
\<close>

datatype session_op = Enter net_identify string | Leave int | Change player

fun session_open :: "int \<Rightarrow> session_op list \<Rightarrow> bool \<Rightarrow> bool" where
  "session_open k [] b = b"
| "session_open k (Enter i a # ops) b = session_open k ops (b \<or> Socket (ni_socket i) = k)"
| "session_open k (Leave k' # ops) b = session_open k ops (b \<and> k' \<noteq> k)"
| "session_open k (Change p # ops) b = session_open k ops b"

locale session_table =
  fixes inv :: "'s \<Rightarrow> bool" and who :: "int \<Rightarrow> 's \<Rightarrow> player option"
    and enter :: "net_identify \<Rightarrow> string \<Rightarrow> 's \<Rightarrow> 's" and leave :: "int \<Rightarrow> 's \<Rightarrow> 's" and change :: "player \<Rightarrow> 's \<Rightarrow> 's"
  assumes enter_inv: "inv s \<Longrightarrow> inv (enter i a s)"
    and leave_inv: "inv s \<Longrightarrow> inv (leave k s)"
    and change_inv: "inv s \<Longrightarrow> who (player_socket p) s = Some q \<Longrightarrow> pl_account p = pl_account q \<Longrightarrow> inv (change p s)"
    and who_enter: "inv s \<Longrightarrow>
      who k (enter i a s) = (if who k s = None \<and> k = Socket (ni_socket i) then Some (Player_Awake i a) else who k s)"
    and who_leave: "inv s \<Longrightarrow> who k' (leave k s) = (if k' = k then None else who k' s)"
    and who_change: "inv s \<Longrightarrow> who k (change p s) = (if k = player_socket p then Some p else who k s)"
begin

definition may_change :: "player \<Rightarrow> 's \<Rightarrow> bool" where
  "may_change p s = (\<exists>q. who (player_socket p) s = Some q \<and> pl_account p = pl_account q)"

fun srun :: "session_op list \<Rightarrow> 's \<Rightarrow> 's" where
  "srun [] s = s"
| "srun (Enter i a # ops) s = srun ops (enter i a s)"
| "srun (Leave k # ops) s = srun ops (leave k s)"
| "srun (Change p # ops) s = srun ops (if may_change p s then change p s else s)"

lemma run_inv: "inv s \<Longrightarrow> inv (srun ops s)"
proof (induction ops s rule: srun.induct)
  case (4 p ops s)
  then have "inv (if may_change p s then change p s else s)" using change_inv by (auto simp: may_change_def)
  then show ?case using 4(1) by simp
qed (simp_all add: enter_inv leave_inv)

lemma run_open: "inv s \<Longrightarrow> (who k (srun ops s) \<noteq> None) = session_open k ops (who k s \<noteq> None)"
proof (induction ops s rule: srun.induct)
  case (2 i a ops s)
  have "(who k (enter i a s) \<noteq> None) = (who k s \<noteq> None \<or> Socket (ni_socket i) = k)"
    using who_enter [OF 2(2), of k i a] by auto
  then show ?case using 2(1) [OF enter_inv [OF 2(2)]] by simp
next
  case (3 k' ops s)
  have "(who k (leave k' s) \<noteq> None) = (who k s \<noteq> None \<and> k' \<noteq> k)" using who_leave [OF 3(2), of k k'] by auto
  then show ?case using 3(1) [OF leave_inv [OF 3(2)]] by simp
next
  case (4 p ops s)
  show ?case
  proof (cases "may_change p s")
    case True
    then have "(who k (change p s) \<noteq> None) = (who k s \<noteq> None)" "inv (change p s)"
      using who_change [OF 4(2), of k p] change_inv [OF 4(2)] by (auto simp: may_change_def)
    then show ?thesis using True 4(1) by simp
  qed (use 4 in simp)
qed simp

lemma run_append: "srun (xs @ ys) s = srun ys (srun xs s)"
  by (induction xs s rule: srun.induct) simp_all

end

definition enter :: "net_identify \<Rightarrow> string \<Rightarrow> player_collector \<Rightarrow> player_collector" where
  "enter i a pc = (case AddPlayer i a pc of None \<Rightarrow> pc | Some (p, pc', calls) \<Rightarrow> pc')"

definition collector_ok :: "player_collector \<Rightarrow> bool" where
  "collector_ok pc = (smap_ok (pc_players pc) \<and> smap_ok (pc_accounts pc)
     \<and> (\<forall>s p. map_of (pc_players pc) s = Some p \<longrightarrow> player_socket p = s)
     \<and> (\<forall>a s. map_of (pc_accounts pc) a = Some s \<longrightarrow> (\<exists>p. map_of (pc_players pc) s = Some p \<and> pl_account p = a)))"

lemma collector_okD:
  assumes "collector_ok pc"
  shows "smap_ok (pc_players pc)" "smap_ok (pc_accounts pc)"
    and "map_of (pc_players pc) s = Some p \<Longrightarrow> player_socket p = s"
    and "map_of (pc_accounts pc) a = Some s \<Longrightarrow> \<exists>p. map_of (pc_players pc) s = Some p \<and> pl_account p = a"
  using assms by (simp_all add: collector_ok_def)

lemma Player_Awake_fields [simp]:
  "player_socket (Player_Awake i a) = Socket (ni_socket i)" "pl_account (Player_Awake i a) = a"
  by (simp_all add: Player_Awake_def SocketKey_CopyFrom_def)

lemma collector_ok_new: "collector_ok Collector_new"
  by (simp add: collector_ok_def Collector_new_def)

lemma AddPlayer_cases:
  "AddPlayer i a pc = (if map_of (pc_players pc) (Socket (ni_socket i)) \<noteq> None then None
     else Some (Player_Awake i a,
       pc\<lparr>pc_accounts := smap_assign a (Socket (ni_socket i)) (pc_accounts pc),
          pc_players := smap_assign (Socket (ni_socket i)) (Player_Awake i a) (pc_players pc)\<rparr>,
       [DispatchIdent MI_NetworkListenKey (Some (pl_ident (Player_Awake i a)))]))"
  by (simp add: AddPlayer_def Let_def)

lemma enter_ok:
  assumes "collector_ok pc"
  shows "collector_ok (enter i a pc)"
proof (cases "map_of (pc_players pc) (Socket (ni_socket i))")
  case None
  have "map_of (pc_accounts pc) b \<noteq> Some (Socket (ni_socket i))" for b
    using collector_okD(4) [OF assms, of b "Socket (ni_socket i)"] None by auto
  then show ?thesis using None assms by (simp add: enter_def AddPlayer_cases collector_ok_def)
qed (simp add: enter_def AddPlayer_cases assms)

lemma collector_okI:
  assumes "smap_ok (pc_players pc)" "smap_ok (pc_accounts pc)"
    and "\<And>s p. map_of (pc_players pc) s = Some p \<Longrightarrow> player_socket p = s"
    and "\<And>a s. map_of (pc_accounts pc) a = Some s \<Longrightarrow> \<exists>p. map_of (pc_players pc) s = Some p \<and> pl_account p = a"
  shows "collector_ok pc"
  using assms unfolding collector_ok_def by blast

lemma RemovePlayer_of_fields [simp]:
  "pc_players (RemovePlayer_of p pc) = smap_erase (player_socket p) (pc_players pc)"
  "pc_accounts (RemovePlayer_of p pc) = smap_erase (pl_account p) (pc_accounts pc)"
  "pc_removed (RemovePlayer_of p pc) = pc_removed pc @ [p]"
  by (simp_all add: RemovePlayer_of_def)

lemma RemovePlayer_of_ok:
  assumes ok: "collector_ok pc" and m: "map_of (pc_players pc) s = Some p"
  shows "collector_ok (RemovePlayer_of p pc)"
proof (rule collector_okI)
  have s: "player_socket p = s" by (rule collector_okD(3) [OF ok m])
  fix k
  show "player_socket q = k" if "map_of (pc_players (RemovePlayer_of p pc)) k = Some q" for q
    using that collector_okD(3) [OF ok, of k q] by (simp split: if_splits)
  fix b
  assume h: "map_of (pc_accounts (RemovePlayer_of p pc)) b = Some k"
  then have b: "b \<noteq> pl_account p" "map_of (pc_accounts pc) b = Some k" by (simp_all split: if_splits)
  obtain q where q: "map_of (pc_players pc) k = Some q" "pl_account q = b" using collector_okD(4) [OF ok b(2)] by blast
  have "k \<noteq> s" using q m b(1) by force
  then show "\<exists>q. map_of (pc_players (RemovePlayer_of p pc)) k = Some q \<and> pl_account q = b" using q s by simp
qed (use collector_okD(1,2) [OF ok] in simp_all)

lemma RemovePlayerBySocket_ok: "collector_ok pc \<Longrightarrow> collector_ok (RemovePlayerBySocket k pc)"
  by (auto simp: RemovePlayerBySocket_def RemovePlayer_of_ok split: option.splits)

lemma set_player_fields [simp]:
  "pc_players (set_player p pc) = smap_assign (player_socket p) p (pc_players pc)"
  "pc_accounts (set_player p pc) = pc_accounts pc" "pc_removed (set_player p pc) = pc_removed pc"
  by (simp_all add: set_player_def)

lemma set_player_ok:
  assumes ok: "collector_ok pc" and q: "map_of (pc_players pc) (player_socket p) = Some q" "pl_account p = pl_account q"
  shows "collector_ok (set_player p pc)"
proof (rule collector_okI)
  fix k
  show "player_socket r = k" if "map_of (pc_players (set_player p pc)) k = Some r" for r
    using that collector_okD(3) [OF ok, of k r] by (simp split: if_splits)
  fix b
  assume h: "map_of (pc_accounts (set_player p pc)) b = Some k"
  then have "map_of (pc_accounts pc) b = Some k" by simp
  from collector_okD(4) [OF ok this] obtain r where r: "map_of (pc_players pc) k = Some r" "pl_account r = b" by blast
  show "\<exists>r. map_of (pc_players (set_player p pc)) k = Some r \<and> pl_account r = b"
  proof (cases "k = player_socket p")
    case True
    then show ?thesis using r q by simp
  qed (use r in simp)
qed (use collector_okD(1,2) [OF ok] in simp_all)

interpretation collector: session_table collector_ok GetPlayerBySocket enter RemovePlayerBySocket set_player
proof unfold_locales
  fix pc :: player_collector and i a p q and k k' :: int
  assume ok: "collector_ok pc"
  show "collector_ok (enter i a pc)" by (rule enter_ok [OF ok])
  show "collector_ok (RemovePlayerBySocket k pc)" by (rule RemovePlayerBySocket_ok [OF ok])
  show "collector_ok (set_player p pc)"
    if "GetPlayerBySocket (player_socket p) pc = Some q" "pl_account p = pl_account q"
    using set_player_ok [OF ok] that by (simp add: GetPlayerBySocket_def)
  show "GetPlayerBySocket k (enter i a pc)
      = (if GetPlayerBySocket k pc = None \<and> k = Socket (ni_socket i) then Some (Player_Awake i a) else GetPlayerBySocket k pc)"
    by (simp add: GetPlayerBySocket_def enter_def AddPlayer_cases)
  show "GetPlayerBySocket k' (RemovePlayerBySocket k pc) = (if k' = k then None else GetPlayerBySocket k' pc)"
    using collector_okD(3) [OF ok, of k]
    by (simp add: GetPlayerBySocket_def RemovePlayerBySocket_def RemovePlayer_of_def split: option.split)
  show "GetPlayerBySocket k (set_player p pc) = (if k = player_socket p then Some p else GetPlayerBySocket k pc)"
    by (simp add: GetPlayerBySocket_def set_player_def)
qed

lemma GetPlayerByAccount_ok:
  "collector_ok pc \<Longrightarrow>
     GetPlayerByAccount acc pc = (Option.bind (map_of (pc_accounts pc) acc) (map_of (pc_players pc)), pc)"
  using collector_okD(4) [of pc acc] by (auto simp: GetPlayerByAccount_def split: option.split)

lemma GetPlayerByAccount_Some:
  assumes "collector_ok pc" "fst (GetPlayerByAccount acc pc) = Some p"
  shows "map_of (pc_accounts pc) acc = Some (player_socket p)" "map_of (pc_players pc) (player_socket p) = Some p" "pl_account p = acc"
proof -
  obtain s where s: "map_of (pc_accounts pc) acc = Some s" "map_of (pc_players pc) s = Some p"
    using assms(2) by (auto simp: GetPlayerByAccount_ok [OF assms(1)] bind_eq_Some_conv)
  then have "player_socket p = s" "pl_account p = acc"
    using collector_okD(3) [OF assms(1) s(2)] collector_okD(4) [OF assms(1) s(1)] s(2) by auto
  then show "map_of (pc_accounts pc) acc = Some (player_socket p)" "map_of (pc_players pc) (player_socket p) = Some p" "pl_account p = acc"
    using s by simp_all
qed

subsection \<open>One session for an account\<close>

text \<open>Where every account is checked before a player is added, the two maps are inverse to each other.\<close>

definition one_per_account :: "player_collector \<Rightarrow> bool" where
  "one_per_account pc = (\<forall>s p. map_of (pc_players pc) s = Some p \<longrightarrow> map_of (pc_accounts pc) (pl_account p) = Some s)"

lemma one_per_account_enter:
  "one_per_account pc \<Longrightarrow> map_of (pc_accounts pc) a = None \<Longrightarrow> one_per_account (enter i a pc)"
  by (auto simp: one_per_account_def enter_def AddPlayer_cases)

lemma one_per_account_leave:
  assumes "collector_ok pc" "one_per_account pc"
  shows "one_per_account (RemovePlayerBySocket k pc)"
proof (cases "map_of (pc_players pc) k")
  case (Some p)
  have "pl_account q \<noteq> pl_account p" if "map_of (pc_players pc) s = Some q" "s \<noteq> k" for s q
    using assms(2) Some that unfolding one_per_account_def by (metis option.inject)
  moreover have "player_socket p = k" by (rule collector_okD(3) [OF assms(1) Some])
  ultimately show ?thesis using assms(2) Some
    by (auto simp: RemovePlayerBySocket_def RemovePlayer_of_def one_per_account_def)
qed (simp add: assms RemovePlayerBySocket_def)

lemma one_per_account_change:
  "one_per_account pc \<Longrightarrow> map_of (pc_players pc) (player_socket p) = Some q \<Longrightarrow> pl_account p = pl_account q \<Longrightarrow>
     one_per_account (set_player p pc)"
  by (auto simp: one_per_account_def set_player_def)

subsection \<open>Closing every connection\<close>

lemma RemoveAll_ok:
  assumes "collector_ok pc"
  shows "\<exists>pc'. RemoveAllPlayerAndCloseConnect pc
      = Some (pc', map (\<lambda>q. DispatchIdent MI_NetworkRequestDisconnect (Some (pl_ident (snd q)))) (pc_players pc))
    \<and> pc_players pc' = [] \<and> pc_removed pc' = pc_removed pc @ map snd (pc_players pc) \<and> collector_ok pc'"
  using assms
proof (induction "length (pc_players pc)" arbitrary: pc rule: less_induct)
  case less
  show ?case
  proof (cases "pc_players pc")
    case Nil
    then show ?thesis using less.prems by (subst RemoveAllPlayerAndCloseConnect.simps) simp
  next
    case (Cons q ps)
    obtain k p where q: "q = (k, p)" by force
    let ?pc = "RemovePlayer_of p pc"
    have k: "player_socket p = k" and ok: "smap_ok (pc_players pc)"
      using collector_okD(1) [OF less.prems] collector_okD(3) [OF less.prems, of k p] unfolding Cons q by simp_all
    have ps: "pc_players ?pc = ps"
      using ok unfolding RemovePlayer_of_def Cons q by (auto simp: smap_erase_def k filter_id_conv)
    have "length (pc_players ?pc) < length (pc_players pc)" "collector_ok ?pc"
      using Cons ps RemovePlayer_of_ok [OF less.prems, of k p] q by simp_all
    from less.hyps [OF this] obtain pc' where "RemoveAllPlayerAndCloseConnect ?pc
        = Some (pc', map (\<lambda>q. DispatchIdent MI_NetworkRequestDisconnect (Some (pl_ident (snd q)))) ps)"
        "pc_players pc' = []" "pc_removed pc' = pc_removed ?pc @ map snd ps" "collector_ok pc'" unfolding ps by blast
    then show ?thesis using Cons q
      by (subst RemoveAllPlayerAndCloseConnect.simps) (simp add: RemovePlayer_of_def)
  qed
qed

end
