(* ===== verification/Redis.thy ===== *)
theory Redis
  imports Players Http
begin

text \<open>
  \<open>RedisConnector\<close> (\<open>redis_connector.cpp\<close>) and the two components built on it, \<open>RedisLogin\<close> and \<open>RedisGame\<close>, which
  keep the online flags and the login tokens. The client library and the server behind it are a parameter: a command
  line goes in, a reply or a null pointer comes out, and the state \<open>'r\<close> of the server changes. \<open>None\<close> as a result is a
  null pointer that is dereferenced, or an exception of \<open>std::stoi\<close>. Command lines are made with \<open>strutil::format\<close>,
  which puts C strings together.
\<close>

datatype redis_reply = ReplyStatus string | ReplyInteger int | ReplyString string | ReplyNil | ReplyError string

record 'r redis_api =
  ra_command :: "string \<Rightarrow> 'r \<Rightarrow> redis_reply option \<times> 'r"
  ra_connect :: "string \<Rightarrow> int \<Rightarrow> 'r \<Rightarrow> bool \<times> 'r"

text \<open>\<open>rc_context\<close>: the context is not null.\<close>

record redis_connector =
  rc_context :: bool
  rc_ip :: string
  rc_port :: int

definition c_str :: "string \<Rightarrow> string" where
  "c_str s = takeWhile (\<lambda>c. c \<noteq> CHR 0x00) s"

definition redisCommand :: "'r redis_api \<Rightarrow> redis_connector \<Rightarrow> string \<Rightarrow> 'r \<Rightarrow> (redis_reply \<times> 'r) option" where
  "redisCommand api rc cmd r =
     (if \<not> rc_context rc then None
      else case ra_command api cmd r of (None, r) \<Rightarrow> None | (Some pRedisReply, r) \<Rightarrow> Some (pRedisReply, r))"

definition is_status :: "string \<Rightarrow> redis_reply \<Rightarrow> bool" where
  "is_status s rep = (case rep of ReplyStatus str \<Rightarrow> strncmp_eq str s (length s) | _ \<Rightarrow> False)"

definition Ping :: "'r redis_api \<Rightarrow> redis_connector \<Rightarrow> 'r \<Rightarrow> bool \<times> 'r" where
  "Ping api rc r =
     (if \<not> rc_context rc then (False, r)
      else case ra_command api ''PING'' r of
             (None, r) \<Rightarrow> (False, r)
           | (Some pRedisReply, r) \<Rightarrow> (is_status ''PONG'' pRedisReply, r))"

definition Redis_Connect :: "'r redis_api \<Rightarrow> redis_connector \<Rightarrow> 'r \<Rightarrow> bool \<times> redis_connector \<times> 'r" where
  "Redis_Connect api rc r =
     (case ra_connect api (rc_ip rc) (rc_port rc) r of
        (False, r) \<Rightarrow> (False, rc, r)
      | (True, r) \<Rightarrow>
          (case ra_command api ''select 1'' r of
             (None, r) \<Rightarrow> (False, rc, r)
           | (Some pRedisReply, r) \<Rightarrow>
               if \<not> is_status ''OK'' pRedisReply then (False, rc, r)
               else (let rc = rc\<lparr>rc_context := True\<rparr>; (ok, r) = Ping api rc r in (ok, rc, r))))"

definition Redis_Disconnect :: "redis_connector \<Rightarrow> redis_connector" where
  "Redis_Disconnect rc = rc\<lparr>rc_context := False\<rparr>"

definition CheckPing :: "'r redis_api \<Rightarrow> redis_connector \<Rightarrow> 'r \<Rightarrow> redis_connector \<times> 'r" where
  "CheckPing api rc r =
     (let (ok, r) = Ping api rc r in
      if ok then (rc, r)
      else (let (ok, rc, r) = Redis_Connect api (Redis_Disconnect rc) r in (rc, r)))"

text \<open>\<open>dbs\<close> is the configuration of the databases. The truth value tells whether the timer of \<open>CheckPing\<close> was set.\<close>

definition DBTypeRedis :: string where "DBTypeRedis = ''redis''"

definition Redis_Awake :: "'r redis_api \<Rightarrow> db_config list \<Rightarrow> redis_connector \<Rightarrow> 'r \<Rightarrow> redis_connector \<times> bool \<times> 'r" where
  "Redis_Awake api dbs rc r =
     (case GetDBConfig DBTypeRedis dbs of
        None \<Rightarrow> (rc, False, r)
      | Some pRedisConfig \<Rightarrow>
          (let (ok, rc, r) = Redis_Connect api (rc\<lparr>rc_ip := Db_Ip pRedisConfig, rc_port := Db_Port pRedisConfig\<rparr>) r
           in (rc, True, r)))"

definition Setex_command :: "'r redis_api \<Rightarrow> redis_connector \<Rightarrow> string \<Rightarrow> 'r \<Rightarrow> (bool \<times> 'r) option" where
  "Setex_command api rc cmd r = do {
     (pRedisReply, r) \<leftarrow> redisCommand api rc cmd r;
     Some (is_status ''OK'' pRedisReply, r)
   }"

definition Redis_Setex :: "'r redis_api \<Rightarrow> redis_connector \<Rightarrow> string \<Rightarrow> string \<Rightarrow> int \<Rightarrow> 'r \<Rightarrow> (bool \<times> 'r) option" where
  "Redis_Setex api rc key val tmo r =
     Setex_command api rc (''SETEX '' @ c_str key @ '' '' @ dec tmo @ '' '' @ c_str val) r"

definition Setex_uint :: "'r redis_api \<Rightarrow> redis_connector \<Rightarrow> string \<Rightarrow> u64 \<Rightarrow> int \<Rightarrow> 'r \<Rightarrow> (bool \<times> 'r) option" where
  "Setex_uint api rc key val tmo r =
     Setex_command api rc (''SETEX '' @ c_str key @ '' '' @ dec tmo @ '' '' @ dec (uint val)) r"

definition SetnxExpire :: "'r redis_api \<Rightarrow> redis_connector \<Rightarrow> string \<Rightarrow> int \<Rightarrow> int \<Rightarrow> 'r \<Rightarrow> (bool \<times> 'r) option" where
  "SetnxExpire api rc key val tmo r =
     (if \<not> rc_context rc then Some (False, r)
      else do {
        (pRedisReply, r) \<leftarrow> redisCommand api rc (''SETNX '' @ c_str key @ '' '' @ dec val) r;
        if pRedisReply \<noteq> ReplyInteger 1 then Some (False, r)
        else do {
          (pRedisReply, r) \<leftarrow> redisCommand api rc (''EXPIRE '' @ c_str key @ '' '' @ dec tmo) r;
          Some (pRedisReply = ReplyInteger 1, r)
        }
      })"

definition Redis_Delete :: "'r redis_api \<Rightarrow> redis_connector \<Rightarrow> string \<Rightarrow> 'r \<Rightarrow> 'r option" where
  "Redis_Delete api rc key r = map_option snd (redisCommand api rc (''del '' @ c_str key) r)"

text \<open>An integer reply is cast to \<open>int\<close>: 32 bits are kept.\<close>

definition Redis_GetInt :: "'r redis_api \<Rightarrow> redis_connector \<Rightarrow> string \<Rightarrow> 'r \<Rightarrow> (int \<times> 'r) option" where
  "Redis_GetInt api rc key r = do {
     (pRedisReply, r) \<leftarrow> redisCommand api rc (''get '' @ c_str key) r;
     (case pRedisReply of
        ReplyInteger n \<Rightarrow> Some (sint (word_of_int n :: u32), r)
      | ReplyString str \<Rightarrow> map_option (\<lambda>n. (n, r)) (stoi str)
      | _ \<Rightarrow> Some (0, r))
   }"

definition Redis_GetString :: "'r redis_api \<Rightarrow> redis_connector \<Rightarrow> string \<Rightarrow> 'r \<Rightarrow> (string \<times> 'r) option" where
  "Redis_GetString api rc key r = do {
     (pRedisReply, r) \<leftarrow> redisCommand api rc (''get '' @ c_str key) r;
     Some (case pRedisReply of ReplyString str \<Rightarrow> c_str str | _ \<Rightarrow> [], r)
   }"

subsection \<open>\<open>redis_constants.h\<close>\<close>

definition RedisKeyAccountTokey :: string where "RedisKeyAccountTokey = ''engine::token::''"
definition RedisKeyAccountTokeyTimeout :: int where "RedisKeyAccountTokeyTimeout = 2 * 60"
definition RedisKeyAccountOnlineLogin :: string where "RedisKeyAccountOnlineLogin = ''engine::online::login::''"
definition RedisKeyAccountOnlineLoginTimeout :: int where "RedisKeyAccountOnlineLoginTimeout = 6 * 60"
definition RedisKeyAccountOnlineGame :: string where "RedisKeyAccountOnlineGame = ''engine::online::game::''"
definition RedisKeyAccountOnlineGameTimeout :: int where "RedisKeyAccountOnlineGameTimeout = 6 * 60"

subsection \<open>\<open>RedisLogin\<close>\<close>

definition HandleAccountSyncOnlineToRedis :: "'r redis_api \<Rightarrow> redis_connector \<Rightarrow> global \<Rightarrow> string \<Rightarrow> 'r \<Rightarrow> 'r option" where
  "HandleAccountSyncOnlineToRedis api rc g acc r =
     map_option snd (Redis_Setex api rc (RedisKeyAccountOnlineLogin @ acc) (dec (g_appId g)) RedisKeyAccountOnlineLoginTimeout r)"

definition HandleAccountDeleteOnlineToRedis :: "'r redis_api \<Rightarrow> redis_connector \<Rightarrow> string \<Rightarrow> 'r \<Rightarrow> 'r option" where
  "HandleAccountDeleteOnlineToRedis api rc acc r = Redis_Delete api rc (RedisKeyAccountOnlineLogin @ acc) r"

text \<open>\<open>uuid\<close> is the identifier the operating system makes, \<open>wire\<close> the encoding of \<open>TokenInfo\<close>.\<close>

definition HandleLoginTokenToRedis ::
  "'r redis_api \<Rightarrow> redis_connector \<Rightarrow> (string \<Rightarrow> u64 \<Rightarrow> string) \<Rightarrow> string \<Rightarrow> string \<Rightarrow> u64 \<Rightarrow> 'r \<Rightarrow> ('r \<times> help_call list) option" where
  "HandleLoginTokenToRedis api rc wire uuid acc playerSn r = do {
     (ok, r) \<leftarrow> Redis_Setex api rc (RedisKeyAccountTokey @ acc) (wire uuid playerSn) RedisKeyAccountTokeyTimeout r;
     let tok = (if \<not> ok then [] else uuid);
     Some (r, [DispatchProto MI_LoginTokenToRedisRs (LoginTokenToRedisRs (c_str acc) (c_str tok)) None])
   }"

abbreviation (input) "SOTR_Offline \<equiv> 0 :: int"
abbreviation (input) "SOTR_Online \<equiv> 1 :: int"

definition HandleAccountQueryOnline ::
  "'r redis_api \<Rightarrow> redis_connector \<Rightarrow> global \<Rightarrow> string \<Rightarrow> 'r \<Rightarrow> ('r \<times> help_call list) option" where
  "HandleAccountQueryOnline api rc g acc r = do {
     (ok, r) \<leftarrow> SetnxExpire api rc (RedisKeyAccountOnlineLogin @ acc) (g_appId g) RedisKeyAccountOnlineLoginTimeout r;
     (game, r) \<leftarrow> Redis_GetInt api rc (RedisKeyAccountOnlineGame @ acc) r;
     let code = (if \<not> ok then SOTR_Online else SOTR_Offline);
     let code = (if game \<noteq> 0 then SOTR_Online else code);
     Some (r, [DispatchProto MI_AccountQueryOnlineToRedisRs (AccountQueryOnlineToRedisRs (c_str acc) code) None])
   }"

subsection \<open>\<open>RedisGame\<close>\<close>

definition HandlePlayerSyncOnlineToRedis :: "'r redis_api \<Rightarrow> redis_connector \<Rightarrow> string \<Rightarrow> int \<Rightarrow> 'r \<Rightarrow> 'r option" where
  "HandlePlayerSyncOnlineToRedis api rc acc curValue r = do {
     let key = RedisKeyAccountOnlineGame @ acc;
     (onlineVersion, r) \<leftarrow> Redis_GetInt api rc key r;
     if curValue < onlineVersion then Some r
     else map_option snd (Setex_uint api rc key (word_of_int curValue) RedisKeyAccountOnlineGameTimeout r)
   }"

definition HandlePlayerDeleteOnlineToRedis :: "'r redis_api \<Rightarrow> redis_connector \<Rightarrow> string \<Rightarrow> int \<Rightarrow> 'r \<Rightarrow> 'r option" where
  "HandlePlayerDeleteOnlineToRedis api rc acc curValue r = do {
     let key = RedisKeyAccountOnlineGame @ acc;
     (onlineVersion, r) \<leftarrow> Redis_GetInt api rc key r;
     if curValue < onlineVersion then Some r else Redis_Delete api rc key r
   }"

text \<open>\<open>parse\<close> decodes a \<open>TokenInfo\<close>; an answer that cannot be decoded leaves the fields as they are, empty and 0.\<close>

definition HandleGameTokenToRedis ::
  "'r redis_api \<Rightarrow> redis_connector \<Rightarrow> (string \<Rightarrow> string \<times> u64) \<Rightarrow> string \<Rightarrow> 'r \<Rightarrow> ('r \<times> help_call list) option" where
  "HandleGameTokenToRedis api rc parse acc r = do {
     (tokenValue, r) \<leftarrow> Redis_GetString api rc (RedisKeyAccountTokey @ acc) r;
     r \<leftarrow> Redis_Delete api rc (RedisKeyAccountTokey @ acc) r;
     Some (r, [DispatchProto MI_GameTokenToRedisRs
                 (GameTokenToRedisRs (c_str acc) (fst (parse tokenValue)) (snd (parse tokenValue))) None])
   }"

subsection \<open>What the components rely on in Redis\<close>

text \<open>
  The documented behaviour of the five commands on a server that keeps strings by key, for arguments without
  separators. A value may have a lifetime, in milliseconds: \<open>EXPIRE\<close> and \<open>SETEX\<close> give it one, in seconds, \<open>SETNX\<close> does
  not. A command takes no time; between the commands any time may pass, and a value whose lifetime is over is gone.
\<close>

definition word_ok :: "string \<Rightarrow> bool" where
  "word_ok s = (s \<noteq> [] \<and> (\<forall>c \<in> set s. c \<noteq> CHR '' '' \<and> c \<noteq> CHR ''%'' \<and> c \<noteq> CHR 0x00))"

type_synonym lifetime = "nat option"
type_synonym store = "string \<Rightarrow> (string \<times> lifetime) option"

definition seconds :: "int \<Rightarrow> lifetime" where
  "seconds t = Some (nat t * 1000)"

definition lifetime_ok :: "int \<Rightarrow> bool" where
  "lifetime_ok t = (0 < t \<and> t \<le> 2147483647)"

definition outlives :: "nat \<Rightarrow> lifetime \<Rightarrow> bool" where
  "outlives n left = (case left of None \<Rightarrow> True | Some k \<Rightarrow> n < k)"

definition older :: "nat \<Rightarrow> lifetime \<Rightarrow> lifetime" where
  "older n left = map_option (\<lambda>k. k - n) left"

definition aged :: "nat \<Rightarrow> store \<Rightarrow> store" where
  "aged n m key = (case m key of None \<Rightarrow> None | Some (v, left) \<Rightarrow> if outlives n left then Some (v, older n left) else None)"

definition redis_answers :: "'r redis_api \<Rightarrow> ('r \<Rightarrow> store) \<Rightarrow> 'r \<Rightarrow> string \<Rightarrow> redis_reply \<Rightarrow> store \<Rightarrow> bool" where
  "redis_answers api store r cmd reply m = (\<exists>r1. ra_command api cmd r = (Some reply, r1) \<and> store r1 = m)"

definition redis_ok :: "'r redis_api \<Rightarrow> ('r \<Rightarrow> store) \<Rightarrow> bool" where
  "redis_ok api store = (\<forall>r key val t. word_ok key \<and> word_ok val \<and> lifetime_ok t \<longrightarrow>
     redis_answers api store r (''SETNX '' @ key @ '' '' @ val) (ReplyInteger (if store r key = None then 1 else 0))
       (if store r key = None then (store r)(key \<mapsto> (val, None)) else store r)
   \<and> redis_answers api store r (''EXPIRE '' @ key @ '' '' @ dec t) (ReplyInteger (if store r key = None then 0 else 1))
       (case store r key of None \<Rightarrow> store r | Some (v, left) \<Rightarrow> (store r)(key \<mapsto> (v, seconds t)))
   \<and> redis_answers api store r (''SETEX '' @ key @ '' '' @ dec t @ '' '' @ val) (ReplyStatus ''OK'') ((store r)(key \<mapsto> (val, seconds t)))
   \<and> redis_answers api store r (''get '' @ key) (case store r key of None \<Rightarrow> ReplyNil | Some (v, left) \<Rightarrow> ReplyString v) (store r)
   \<and> redis_answers api store r (''del '' @ key) (ReplyInteger (if store r key = None then 0 else 1)) ((store r)(key := None)))"

definition time_ok :: "(nat \<Rightarrow> 'r \<Rightarrow> 'r) \<Rightarrow> ('r \<Rightarrow> store) \<Rightarrow> bool" where
  "time_ok elapse store = (\<forall>n r. store (elapse n r) = aged n (store r))"

lemma strncmp_eq_same: "strncmp_eq s s n"
proof (induction n arbitrary: s)
  case (Suc n)
  then show ?case by (cases s) auto
qed simp

lemma c_str_word: "word_ok s \<Longrightarrow> c_str s = s"
  by (auto simp: word_ok_def c_str_def takeWhile_eq_all_conv)

lemma c_str_prefix: "\<forall>c \<in> set p. c \<noteq> CHR 0x00 \<Longrightarrow> c_str (p @ s) = p @ c_str s"
  by (simp add: c_str_def takeWhile_append2)

lemma word_ok_append: "word_ok p \<Longrightarrow> word_ok s \<Longrightarrow> word_ok (p @ s)"
  by (auto simp: word_ok_def)

lemma key_prefix_words [simp]:
  "word_ok RedisKeyAccountOnlineLogin" "word_ok RedisKeyAccountOnlineGame" "word_ok RedisKeyAccountTokey"
  by (simp_all add: word_ok_def RedisKeyAccountOnlineLogin_def RedisKeyAccountOnlineGame_def RedisKeyAccountTokey_def)

lemma digit_char: "n < 10 \<Longrightarrow> CHR ''0'' \<le> (char_of (48 + n) :: char) \<and> (char_of (48 + n) :: char) \<le> CHR ''9''
    \<and> (of_char (char_of (48 + n) :: char) :: int) = 48 + int n"
proof -
  assume n: "n < 10"
  have o: "(of_char (char_of (48 + n) :: char) :: nat) = 48 + n" using n by simp
  have "(of_char (char_of (48 + n) :: char) :: int) = int (of_char (char_of (48 + n) :: char))" by (rule of_nat_of_char [symmetric])
  then show ?thesis using n o by (simp add: less_eq_char_def)
qed

lemma digits_value_append_digit:
  "(\<forall>c \<in> set s. CHR ''0'' \<le> c \<and> c \<le> CHR ''9'') \<Longrightarrow> digits_value n (s @ [c]) =
     (if CHR ''0'' \<le> c \<and> c \<le> CHR ''9'' then digits_value n s * 10 + (of_char c - 48) else digits_value n s)"
  by (induction n s rule: digits_value.induct) auto

lemma dec_nat_digits: "dec_nat n \<noteq> [] \<and> (\<forall>c \<in> set (dec_nat n). CHR ''0'' \<le> c \<and> c \<le> CHR ''9'')
    \<and> digits_value 0 (dec_nat n) = int n"
proof (induction n rule: dec_nat.induct)
  case (1 n)
  show ?case
  proof (cases "n < 10")
    case True
    then show ?thesis using digit_char [OF True] by (subst (1 2 3) dec_nat.simps) simp
  next
    case False
    note IH = 1 [OF False]
    have m: "n mod 10 < 10" by simp
    have "int n = int (n div 10) * 10 + int (n mod 10)" by presburger
    then show ?thesis using IH False digit_char [OF m]
      by (subst (1 2 3) dec_nat.simps) (auto simp: digits_value_append_digit)
  qed
qed

lemma digit_word: "CHR ''0'' \<le> c \<Longrightarrow> c \<noteq> CHR '' '' \<and> c \<noteq> CHR ''%'' \<and> c \<noteq> CHR 0x00 \<and> \<not> isspace c \<and> c \<noteq> CHR ''-'' \<and> c \<noteq> CHR ''+''"
  by (auto simp: less_eq_char_def isspace_def)

lemma word_ok_dec: "word_ok (dec i)"
proof -
  have "word_ok (dec_nat n)" for n using dec_nat_digits [of n] digit_word unfolding word_ok_def by blast
  moreover have "word_ok (CHR ''-'' # s)" if "word_ok s" for s using that by (auto simp: word_ok_def)
  ultimately show ?thesis by (simp add: dec_def)
qed

lemma stoi_dec: "0 \<le> i \<Longrightarrow> i \<le> 2147483647 \<Longrightarrow> stoi (dec i) = Some i"
proof -
  assume i: "0 \<le> i" "i \<le> 2147483647"
  obtain c cs where c: "dec_nat (nat i) = c # cs" using dec_nat_digits [of "nat i"] by (cases "dec_nat (nat i)") auto
  have d: "CHR ''0'' \<le> c" "c \<le> CHR ''9''" "digits_value 0 (c # cs) = i" using dec_nat_digits [of "nat i"] i(1) unfolding c by auto
  have "dropWhile isspace (c # cs) = c # cs" using digit_word [OF d(1)] by simp
  then show ?thesis using d i c digit_word [OF d(1)]
    by (simp add: stoi_def dec_def Let_def in_int_def del: digits_value.simps dropWhile.simps)
qed

lemma redis_okD:
  assumes "redis_ok api store" "word_ok key"
  shows "word_ok val \<Longrightarrow> redis_answers api store r (''SETNX '' @ key @ '' '' @ val) (ReplyInteger (if store r key = None then 1 else 0))
       (if store r key = None then (store r)(key \<mapsto> (val, None)) else store r)"
    and "lifetime_ok t \<Longrightarrow> redis_answers api store r (''EXPIRE '' @ key @ '' '' @ dec t) (ReplyInteger (if store r key = None then 0 else 1))
       (case store r key of None \<Rightarrow> store r | Some (v, left) \<Rightarrow> (store r)(key \<mapsto> (v, seconds t)))"
    and "word_ok val \<Longrightarrow> lifetime_ok t \<Longrightarrow> redis_answers api store r (''SETEX '' @ key @ '' '' @ dec t @ '' '' @ val) (ReplyStatus ''OK'')
       ((store r)(key \<mapsto> (val, seconds t)))"
    and "redis_answers api store r (''get '' @ key) (case store r key of None \<Rightarrow> ReplyNil | Some (v, left) \<Rightarrow> ReplyString v) (store r)"
    and "redis_answers api store r (''del '' @ key) (ReplyInteger (if store r key = None then 0 else 1)) ((store r)(key := None))"
proof -
  have w: "word_ok ''1''" "lifetime_ok 1" by (simp_all add: word_ok_def lifetime_ok_def)
  note all = assms(1) [unfolded redis_ok_def, rule_format]
  show "word_ok val \<Longrightarrow> redis_answers api store r (''SETNX '' @ key @ '' '' @ val) (ReplyInteger (if store r key = None then 1 else 0))
       (if store r key = None then (store r)(key \<mapsto> (val, None)) else store r)"
    using all [of key val 1 r] assms(2) w by simp
  show "lifetime_ok t \<Longrightarrow> redis_answers api store r (''EXPIRE '' @ key @ '' '' @ dec t) (ReplyInteger (if store r key = None then 0 else 1))
       (case store r key of None \<Rightarrow> store r | Some (v, left) \<Rightarrow> (store r)(key \<mapsto> (v, seconds t)))"
    using all [of key "''1''" t r] assms(2) w by simp
  show "word_ok val \<Longrightarrow> lifetime_ok t \<Longrightarrow> redis_answers api store r (''SETEX '' @ key @ '' '' @ dec t @ '' '' @ val) (ReplyStatus ''OK'')
       ((store r)(key \<mapsto> (val, seconds t)))"
    using all [of key val t r] assms(2) by simp
  show "redis_answers api store r (''get '' @ key) (case store r key of None \<Rightarrow> ReplyNil | Some (v, left) \<Rightarrow> ReplyString v) (store r)"
    "redis_answers api store r (''del '' @ key) (ReplyInteger (if store r key = None then 0 else 1)) ((store r)(key := None))"
    using all [of key "''1''" 1 r] assms(2) w by simp_all
qed

lemma redisCommand_answers:
  "rc_context rc \<Longrightarrow> redis_answers api store r cmd reply m \<Longrightarrow> \<exists>r1. redisCommand api rc cmd r = Some (reply, r1) \<and> store r1 = m"
  by (auto simp: redis_answers_def redisCommand_def)

lemma SetnxExpire_ok:
  assumes ok: "redis_ok api store" "rc_context rc" "word_ok key" "lifetime_ok t"
  shows "\<exists>r1. SetnxExpire api rc key v t r = Some (store r key = None, r1)
    \<and> store r1 = (if store r key = None then (store r)(key \<mapsto> (dec v, seconds t)) else store r)"
proof -
  note c = c_str_word [OF ok(3)]
  obtain r1 where r1: "redisCommand api rc (''SETNX '' @ key @ '' '' @ dec v) r = Some (ReplyInteger (if store r key = None then 1 else 0), r1)"
      "store r1 = (if store r key = None then (store r)(key \<mapsto> (dec v, None)) else store r)"
    using redisCommand_answers [OF ok(2) redis_okD(1) [OF ok(1,3) word_ok_dec]] by blast
  obtain r2 where r2: "redisCommand api rc (''EXPIRE '' @ key @ '' '' @ dec t) r1 = Some (ReplyInteger (if store r1 key = None then 0 else 1), r2)"
      "store r2 = (case store r1 key of None \<Rightarrow> store r1 | Some (v, left) \<Rightarrow> (store r1)(key \<mapsto> (v, seconds t)))"
    using redisCommand_answers [OF ok(2) redis_okD(2) [OF ok(1,3,4)]] by blast
  show ?thesis using r1 r2 ok(2) c by (cases "store r key") (simp_all add: SetnxExpire_def)
qed

lemma Redis_GetInt_ok:
  assumes ok: "redis_ok api store" "rc_context rc" "word_ok key"
    and v: "case store r key of None \<Rightarrow> n = 0 | Some (v, left) \<Rightarrow> stoi v = Some n"
  shows "\<exists>r1. Redis_GetInt api rc key r = Some (n, r1) \<and> store r1 = store r"
proof -
  obtain r1 where "redisCommand api rc (''get '' @ key) r = Some (case store r key of None \<Rightarrow> ReplyNil | Some (v, left) \<Rightarrow> ReplyString v, r1)"
      "store r1 = store r"
    using redisCommand_answers [OF ok(2) redis_okD(4) [OF ok(1,3)]] by blast
  then show ?thesis using v c_str_word [OF ok(3)] by (cases "store r key") (auto simp: Redis_GetInt_def)
qed

lemma Redis_Delete_ok:
  assumes ok: "redis_ok api store" "rc_context rc" "word_ok key"
  shows "\<exists>r1. Redis_Delete api rc key r = Some r1 \<and> store r1 = (store r)(key := None)"
  using redisCommand_answers [OF ok(2) redis_okD(5) [OF ok(1,3)]] c_str_word [OF ok(3)] by (fastforce simp: Redis_Delete_def)

lemma Setex_command_ok:
  assumes ok: "redis_ok api store" "rc_context rc" "word_ok key" "word_ok val" "lifetime_ok t"
  shows "\<exists>r1. Setex_command api rc (''SETEX '' @ key @ '' '' @ dec t @ '' '' @ val) r = Some (True, r1)
    \<and> store r1 = (store r)(key \<mapsto> (val, seconds t))"
proof -
  obtain r1 where "redisCommand api rc (''SETEX '' @ key @ '' '' @ dec t @ '' '' @ val) r = Some (ReplyStatus ''OK'', r1)"
      "store r1 = (store r)(key \<mapsto> (val, seconds t))"
    using redisCommand_answers [OF ok(2) redis_okD(3) [OF ok(1,3,4,5)]] by blast
  then show ?thesis by (simp add: Setex_command_def is_status_def strncmp_eq_same)
qed

subsection \<open>Who is online\<close>

lemma online_keys_differ [simp]:
  "RedisKeyAccountOnlineLogin @ a \<noteq> RedisKeyAccountOnlineGame @ b" "RedisKeyAccountOnlineGame @ b \<noteq> RedisKeyAccountOnlineLogin @ a"
  "RedisKeyAccountOnlineLogin \<noteq> RedisKeyAccountOnlineGame" "RedisKeyAccountOnlineGame \<noteq> RedisKeyAccountOnlineLogin"
  by (simp_all add: RedisKeyAccountOnlineLogin_def RedisKeyAccountOnlineGame_def)

definition game_flag :: "('r \<Rightarrow> store) \<Rightarrow> 'r \<Rightarrow> string \<Rightarrow> int option" where
  "game_flag store r acc = (case store r (RedisKeyAccountOnlineGame @ acc) of None \<Rightarrow> Some 0 | Some (v, left) \<Rightarrow> stoi v)"

definition flags_ok :: "('r \<Rightarrow> store) \<Rightarrow> 'r \<Rightarrow> bool" where
  "flags_ok store r = (\<forall>acc. game_flag store r acc \<noteq> None)"

lemma game_flag_GetInt:
  assumes "redis_ok api store" "rc_context rc" "word_ok acc" "game_flag store r acc = Some n"
  shows "\<exists>r1. Redis_GetInt api rc (RedisKeyAccountOnlineGame @ acc) r = Some (n, r1) \<and> store r1 = store r"
  using assms by (intro Redis_GetInt_ok word_ok_append) (auto simp: game_flag_def split: option.splits)

definition offline :: "string \<Rightarrow> help_call" where
  "offline acc = DispatchProto MI_AccountQueryOnlineToRedisRs (AccountQueryOnlineToRedisRs acc SOTR_Offline) None"

lemma query_ok:
  assumes ok: "redis_ok api store" "rc_context rc" "word_ok acc" and f: "game_flag store r acc = Some n"
  shows "\<exists>r1 code. HandleAccountQueryOnline api rc g acc r
      = Some (r1, [DispatchProto MI_AccountQueryOnlineToRedisRs (AccountQueryOnlineToRedisRs acc code) None])
    \<and> code = (if store r (RedisKeyAccountOnlineLogin @ acc) = None \<and> n = 0 then SOTR_Offline else SOTR_Online)
    \<and> store r1 = (if store r (RedisKeyAccountOnlineLogin @ acc) = None
                  then (store r)(RedisKeyAccountOnlineLogin @ acc \<mapsto> (dec (g_appId g), seconds RedisKeyAccountOnlineLoginTimeout)) else store r)"
proof -
  have w: "word_ok (RedisKeyAccountOnlineLogin @ acc)" "lifetime_ok RedisKeyAccountOnlineLoginTimeout"
    using ok(3) by (simp_all add: word_ok_append RedisKeyAccountOnlineLoginTimeout_def lifetime_ok_def)
  obtain r1 where r1: "SetnxExpire api rc (RedisKeyAccountOnlineLogin @ acc) (g_appId g) RedisKeyAccountOnlineLoginTimeout r
        = Some (store r (RedisKeyAccountOnlineLogin @ acc) = None, r1)"
      "store r1 = (if store r (RedisKeyAccountOnlineLogin @ acc) = None
                   then (store r)(RedisKeyAccountOnlineLogin @ acc \<mapsto> (dec (g_appId g), seconds RedisKeyAccountOnlineLoginTimeout)) else store r)"
    using SetnxExpire_ok [OF ok(1,2) w] by blast
  have "game_flag store r1 acc = Some n" using f r1(2) by (auto simp: game_flag_def)
  then obtain r2 where "Redis_GetInt api rc (RedisKeyAccountOnlineGame @ acc) r1 = Some (n, r2)" "store r2 = store r1"
    using game_flag_GetInt [OF ok] by blast
  then show ?thesis using r1 c_str_word [OF ok(3)] by (simp add: HandleAccountQueryOnline_def)
qed

lemma sync_game_ok:
  assumes ok: "redis_ok api store" "rc_context rc" "word_ok acc" and f: "game_flag store r acc = Some n" and v: "0 \<le> v" "v \<le> 2147483647"
  shows "\<exists>r1. HandlePlayerSyncOnlineToRedis api rc acc v r = Some r1
    \<and> store r1 = (if v < n then store r else (store r)(RedisKeyAccountOnlineGame @ acc \<mapsto> (dec v, seconds RedisKeyAccountOnlineGameTimeout)))"
proof -
  obtain r1 where r1: "Redis_GetInt api rc (RedisKeyAccountOnlineGame @ acc) r = Some (n, r1)" "store r1 = store r"
    using game_flag_GetInt [OF ok f] by blast
  have w: "word_ok (RedisKeyAccountOnlineGame @ acc)" "lifetime_ok RedisKeyAccountOnlineGameTimeout"
    using ok(3) by (simp_all add: word_ok_append RedisKeyAccountOnlineGameTimeout_def lifetime_ok_def)
  have u: "uint (word_of_int v :: u64) = v" using v by (simp add: word_of_int_inverse uint_word_of_int)
  obtain r2 where "Setex_command api rc (''SETEX '' @ (RedisKeyAccountOnlineGame @ acc) @ '' '' @ dec RedisKeyAccountOnlineGameTimeout @ '' '' @ dec v) r1
        = Some (True, r2)" "store r2 = (store r1)(RedisKeyAccountOnlineGame @ acc \<mapsto> (dec v, seconds RedisKeyAccountOnlineGameTimeout))"
    using Setex_command_ok [OF ok(1,2) w(1) word_ok_dec w(2)] by blast
  then show ?thesis using r1 u c_str_word [OF w(1)] by (auto simp: HandlePlayerSyncOnlineToRedis_def Setex_uint_def)
qed

lemma delete_game_ok:
  assumes ok: "redis_ok api store" "rc_context rc" "word_ok acc" and f: "game_flag store r acc = Some n"
  shows "\<exists>r1. HandlePlayerDeleteOnlineToRedis api rc acc v r = Some r1
    \<and> store r1 = (if v < n then store r else (store r)(RedisKeyAccountOnlineGame @ acc := None))"
proof -
  obtain r1 where r1: "Redis_GetInt api rc (RedisKeyAccountOnlineGame @ acc) r = Some (n, r1)" "store r1 = store r"
    using game_flag_GetInt [OF ok f] by blast
  have "word_ok (RedisKeyAccountOnlineGame @ acc)" using ok(3) by (simp add: word_ok_append)
  from Redis_Delete_ok [OF ok(1,2) this, of r1] obtain r2 where "Redis_Delete api rc (RedisKeyAccountOnlineGame @ acc) r1 = Some r2"
      "store r2 = (store r1)(RedisKeyAccountOnlineGame @ acc := None)" by blast
  then show ?thesis using r1 by (auto simp: HandlePlayerDeleteOnlineToRedis_def)
qed

text \<open>The events of all login and game servers that share one Redis, and the time that passes between them.\<close>

datatype redis_event =
    EvQuery redis_connector global string
  | EvSyncLogin redis_connector global string
  | EvDeleteLogin redis_connector string
  | EvSyncGame redis_connector string int
  | EvDeleteGame redis_connector string int
  | EvElapse nat

fun redis_step :: "'r redis_api \<Rightarrow> (nat \<Rightarrow> 'r \<Rightarrow> 'r) \<Rightarrow> redis_event \<Rightarrow> 'r \<Rightarrow> ('r \<times> help_call list) option" where
  "redis_step api elapse (EvQuery rc g acc) r = HandleAccountQueryOnline api rc g acc r"
| "redis_step api elapse (EvSyncLogin rc g acc) r = map_option (\<lambda>r. (r, [])) (HandleAccountSyncOnlineToRedis api rc g acc r)"
| "redis_step api elapse (EvDeleteLogin rc acc) r = map_option (\<lambda>r. (r, [])) (HandleAccountDeleteOnlineToRedis api rc acc r)"
| "redis_step api elapse (EvSyncGame rc acc v) r = map_option (\<lambda>r. (r, [])) (HandlePlayerSyncOnlineToRedis api rc acc v r)"
| "redis_step api elapse (EvDeleteGame rc acc v) r = map_option (\<lambda>r. (r, [])) (HandlePlayerDeleteOnlineToRedis api rc acc v r)"
| "redis_step api elapse (EvElapse n) r = Some (elapse n r, [])"

fun redis_run :: "'r redis_api \<Rightarrow> (nat \<Rightarrow> 'r \<Rightarrow> 'r) \<Rightarrow> redis_event list \<Rightarrow> 'r \<Rightarrow> ('r \<times> help_call list) option" where
  "redis_run api elapse [] r = Some (r, [])"
| "redis_run api elapse (ev # evs) r = do {
     (r, calls) \<leftarrow> redis_step api elapse ev r;
     (r, calls') \<leftarrow> redis_run api elapse evs r;
     Some (r, calls @ calls')
   }"

fun event_ok :: "redis_event \<Rightarrow> bool" where
  "event_ok (EvQuery rc g acc) = (rc_context rc \<and> word_ok acc)"
| "event_ok (EvSyncLogin rc g acc) = (rc_context rc \<and> word_ok acc)"
| "event_ok (EvDeleteLogin rc acc) = (rc_context rc \<and> word_ok acc)"
| "event_ok (EvSyncGame rc acc v) = (rc_context rc \<and> word_ok acc \<and> 0 \<le> v \<and> v \<le> 2147483647)"
| "event_ok (EvDeleteGame rc acc v) = (rc_context rc \<and> word_ok acc)"
| "event_ok (EvElapse n) = True"

text \<open>
  Whether the login flag of an account, with \<open>left\<close> of its lifetime to go, is held through the events: it is never
  deleted, and whenever time passes its lifetime is long enough. A login server that syncs the account starts the
  lifetime again; a query does not.
\<close>

fun holds_through :: "string \<Rightarrow> lifetime \<Rightarrow> redis_event list \<Rightarrow> bool" where
  "holds_through acc left [] = True"
| "holds_through acc left (EvElapse n # evs) = (outlives n left \<and> holds_through acc (older n left) evs)"
| "holds_through acc left (EvDeleteLogin rc a # evs) = (a \<noteq> acc \<and> holds_through acc left evs)"
| "holds_through acc left (EvSyncLogin rc g a # evs) =
     holds_through acc (if a = acc then seconds RedisKeyAccountOnlineLoginTimeout else left) evs"
| "holds_through acc left (ev # evs) = holds_through acc left evs"

definition login_left :: "('r \<Rightarrow> store) \<Rightarrow> 'r \<Rightarrow> string \<Rightarrow> lifetime option" where
  "login_left store r acc = map_option snd (store r (RedisKeyAccountOnlineLogin @ acc))"

lemma flags_ok_aged: "time_ok elapse store \<Longrightarrow> flags_ok store r \<Longrightarrow> flags_ok store (elapse n r)"
proof -
  assume t: "time_ok elapse store" and f: "flags_ok store r"
  have "game_flag store (elapse n r) acc \<noteq> None" for acc
  proof (cases "store r (RedisKeyAccountOnlineGame @ acc)")
    case (Some q)
    obtain v left where "q = (v, left)" by force
    moreover have "game_flag store r acc \<noteq> None" using f unfolding flags_ok_def by blast
    ultimately show ?thesis using t Some by (simp add: time_ok_def game_flag_def aged_def)
  qed (use t in \<open>simp add: time_ok_def game_flag_def aged_def\<close>)
  then show ?thesis by (simp add: flags_ok_def)
qed

lemma login_left_aged:
  "time_ok elapse store \<Longrightarrow> login_left store r acc = Some left \<Longrightarrow> outlives n left \<Longrightarrow>
     login_left store (elapse n r) acc = Some (older n left)"
  by (auto simp: time_ok_def login_left_def aged_def)

lemma redis_step_ok:
  assumes ok: "redis_ok api store" "time_ok elapse store" and f: "flags_ok store r"
    and ev: "event_ok ev" "holds_through acc left (ev # evs)" and held: "login_left store r acc = Some left"
  shows "\<exists>r1 calls left'. redis_step api elapse ev r = Some (r1, calls) \<and> flags_ok store r1
    \<and> login_left store r1 acc = Some left' \<and> holds_through acc left' evs \<and> offline acc \<notin> set calls"
proof (cases ev)
  case (EvQuery rc g a)
  obtain n where n: "game_flag store r a = Some n" using f by (auto simp: flags_ok_def)
  show ?thesis using query_ok [OF ok(1), of rc a r n g] ev held f n unfolding EvQuery
    by (auto simp: flags_ok_def game_flag_def offline_def login_left_def)
next
  case (EvSyncLogin rc g a)
  have w: "rc_context rc" "word_ok (RedisKeyAccountOnlineLogin @ a)" "lifetime_ok RedisKeyAccountOnlineLoginTimeout"
    using ev unfolding EvSyncLogin by (simp_all add: word_ok_append RedisKeyAccountOnlineLoginTimeout_def lifetime_ok_def)
  have d: "c_str (dec (g_appId g)) = dec (g_appId g)" by (rule c_str_word [OF word_ok_dec])
  obtain r1 where "Setex_command api rc (''SETEX '' @ (RedisKeyAccountOnlineLogin @ a) @ '' '' @ dec RedisKeyAccountOnlineLoginTimeout @ '' '' @ dec (g_appId g)) r
        = Some (True, r1)"
      "store r1 = (store r)(RedisKeyAccountOnlineLogin @ a \<mapsto> (dec (g_appId g), seconds RedisKeyAccountOnlineLoginTimeout))"
    using Setex_command_ok [OF ok(1) w(1,2) word_ok_dec w(3)] by blast
  then show ?thesis using EvSyncLogin held f d c_str_word [OF w(2)] ev
    by (auto simp: HandleAccountSyncOnlineToRedis_def Redis_Setex_def flags_ok_def game_flag_def login_left_def)
next
  case (EvDeleteLogin rc a)
  have w: "rc_context rc" "word_ok (RedisKeyAccountOnlineLogin @ a)" "a \<noteq> acc" using ev unfolding EvDeleteLogin by (simp_all add: word_ok_append)
  show ?thesis using Redis_Delete_ok [OF ok(1) w(1,2), of r] w(3) held f ev unfolding EvDeleteLogin
    by (auto simp: HandleAccountDeleteOnlineToRedis_def flags_ok_def game_flag_def login_left_def)
next
  case (EvSyncGame rc a v)
  obtain n where n: "game_flag store r a = Some n" using f by (auto simp: flags_ok_def)
  have e: "rc_context rc" "word_ok a" "0 \<le> v" "v \<le> 2147483647" using ev unfolding EvSyncGame by simp_all
  obtain r1 where "HandlePlayerSyncOnlineToRedis api rc a v r = Some r1"
      "store r1 = (if v < n then store r else (store r)(RedisKeyAccountOnlineGame @ a \<mapsto> (dec v, seconds RedisKeyAccountOnlineGameTimeout)))"
    using sync_game_ok [OF ok(1) e(1,2) n e(3,4)] by blast
  then show ?thesis using EvSyncGame held f ev stoi_dec [OF e(3,4)] by (auto simp: flags_ok_def game_flag_def login_left_def)
next
  case (EvDeleteGame rc a v)
  obtain n where n: "game_flag store r a = Some n" using f by (auto simp: flags_ok_def)
  have e: "rc_context rc" "word_ok a" using ev unfolding EvDeleteGame by simp_all
  show ?thesis using delete_game_ok [OF ok(1) e n, of v] held f ev unfolding EvDeleteGame
    by (auto simp: flags_ok_def game_flag_def login_left_def)
next
  case (EvElapse n)
  then show ?thesis using flags_ok_aged [OF ok(2) f, of n] login_left_aged [OF ok(2) held, of n] ev(2) by auto
qed

lemma redis_run_ok:
  assumes ok: "redis_ok api store" "time_ok elapse store" and "flags_ok store r" "\<forall>ev \<in> set evs. event_ok ev"
    and "login_left store r acc = Some left" "holds_through acc left evs"
  shows "\<exists>r1 calls. redis_run api elapse evs r = Some (r1, calls) \<and> offline acc \<notin> set calls"
  using assms(3-)
proof (induction evs arbitrary: r left)
  case (Cons ev evs)
  have e: "event_ok ev" using Cons.prems(2) by simp
  obtain r1 calls left' where r1: "redis_step api elapse ev r = Some (r1, calls)" "flags_ok store r1"
      "login_left store r1 acc = Some left'" "holds_through acc left' evs" "offline acc \<notin> set calls"
    using redis_step_ok [OF ok Cons.prems(1) e Cons.prems(4,3)] by blast
  then show ?case using Cons.IH [OF r1(2) _ r1(3,4)] Cons.prems(2) by fastforce
qed simp

text \<open>A flag whose lifetime has passed is gone, and the next server that asks is told that the account is offline.\<close>

lemma expired_login_is_offline:
  assumes ok: "redis_ok api store" "time_ok elapse store" "rc_context rc" "word_ok acc"
    and f: "game_flag store r acc = Some 0" "login_left store r acc = Some left" "\<not> outlives n left"
  shows "\<exists>r1 calls. HandleAccountQueryOnline api rc g acc (elapse n r) = Some (r1, calls) \<and> offline acc \<in> set calls"
proof -
  have s: "store (elapse n r) (RedisKeyAccountOnlineLogin @ acc) = None"
    using ok(2) f(2,3) by (auto simp: time_ok_def aged_def login_left_def)
  have "game_flag store (elapse n r) acc = Some 0"
    using ok(2) f(1) by (auto simp: time_ok_def aged_def game_flag_def split: option.splits)
  from query_ok [OF ok(1,3,4) this, of g] s show ?thesis by (auto simp: offline_def)
qed

text \<open>
  C24. Whichever login server asks first is told that the account is offline (if no game server has it online), and
  sets a flag with a lifetime of six minutes; a flag that was there already keeps the rest of its own. From then on no
  server is told so again, whatever the servers do and whatever time passes, until the flag of the account is deleted
  or a lifetime of it has passed without a login server syncing the account (\<open>holds_through\<close>).
\<close>

theorem one_login_at_a_time:
  assumes ok: "redis_ok api store" "time_ok elapse store" and f: "flags_ok store r" "game_flag store r acc = Some n"
    and q: "rc_context rc" "word_ok acc" and evs: "\<forall>ev \<in> set evs. event_ok ev"
    and held: "holds_through acc (case store r (RedisKeyAccountOnlineLogin @ acc) of
        None \<Rightarrow> seconds RedisKeyAccountOnlineLoginTimeout | Some (v, left) \<Rightarrow> left) evs"
  shows "\<exists>r1 calls r2 calls'. HandleAccountQueryOnline api rc g acc r = Some (r1, calls)
    \<and> (offline acc \<in> set calls) = (store r (RedisKeyAccountOnlineLogin @ acc) = None \<and> n = 0)
    \<and> redis_run api elapse evs r1 = Some (r2, calls') \<and> offline acc \<notin> set calls'"
proof -
  let ?left = "case store r (RedisKeyAccountOnlineLogin @ acc) of
        None \<Rightarrow> seconds RedisKeyAccountOnlineLoginTimeout | Some (v, left) \<Rightarrow> left"
  obtain r1 code where r1: "HandleAccountQueryOnline api rc g acc r
      = Some (r1, [DispatchProto MI_AccountQueryOnlineToRedisRs (AccountQueryOnlineToRedisRs acc code) None])"
      "code = (if store r (RedisKeyAccountOnlineLogin @ acc) = None \<and> n = 0 then SOTR_Offline else SOTR_Online)"
      "store r1 = (if store r (RedisKeyAccountOnlineLogin @ acc) = None
                  then (store r)(RedisKeyAccountOnlineLogin @ acc \<mapsto> (dec (g_appId g), seconds RedisKeyAccountOnlineLoginTimeout)) else store r)"
    using query_ok [OF ok(1) q f(2)] by blast
  have "login_left store r1 acc = Some ?left" using r1(3) by (auto simp: login_left_def split: option.splits)
  moreover have "flags_ok store r1" using r1(3) f(1) by (auto simp: flags_ok_def game_flag_def)
  ultimately show ?thesis using redis_run_ok [OF ok _ evs _ held, of r1] r1(1,2) by (auto simp: offline_def)
qed

text \<open>
  C25. A session that took the account over has a higher version. Once it has set the online flag, the session that
  is left behind can neither delete nor overwrite it; only a session with the same or a higher version can.
\<close>

theorem stale_session_keeps_flag:
  assumes ok: "redis_ok api store" "rc_context rc" "rc_context rc'" "word_ok acc"
    and f: "game_flag store r acc = Some n" "n \<le> new" and v: "0 \<le> old" "old < new" "new \<le> 2147483647"
  shows "\<exists>r1. HandlePlayerSyncOnlineToRedis api rc acc new r = Some r1
    \<and> store r1 (RedisKeyAccountOnlineGame @ acc) = Some (dec new, seconds RedisKeyAccountOnlineGameTimeout)
    \<and> (\<exists>r2. HandlePlayerDeleteOnlineToRedis api rc' acc old r1 = Some r2 \<and> store r2 = store r1)
    \<and> (\<exists>r2. HandlePlayerSyncOnlineToRedis api rc' acc old r1 = Some r2 \<and> store r2 = store r1)
    \<and> (\<exists>r2. HandlePlayerDeleteOnlineToRedis api rc acc new r1 = Some r2 \<and> store r2 (RedisKeyAccountOnlineGame @ acc) = None)"
proof -
  have new: "0 \<le> new" and old: "old \<le> 2147483647" using v by simp_all
  obtain r1 where r1: "HandlePlayerSyncOnlineToRedis api rc acc new r = Some r1"
      "store r1 = (store r)(RedisKeyAccountOnlineGame @ acc \<mapsto> (dec new, seconds RedisKeyAccountOnlineGameTimeout))"
    using sync_game_ok [OF ok(1,2,4) f(1) new v(3)] f(2) by auto
  then have g: "game_flag store r1 acc = Some new" using stoi_dec [OF new v(3)] by (simp add: game_flag_def)
  show ?thesis
    using r1 delete_game_ok [OF ok(1,3,4) g, of old] sync_game_ok [OF ok(1,3,4) g v(1) old] delete_game_ok [OF ok(1,2,4) g, of new] v(2)
    by (intro exI [of _ r1]) auto
qed

subsection \<open>A server that behaves like this\<close>

text \<open>The lifetime in a command is read back with \<open>stoi\<close>.\<close>

definition lifetime_of :: "string \<Rightarrow> lifetime" where
  "lifetime_of s = (case stoi s of None \<Rightarrow> None | Some t \<Rightarrow> seconds t)"

fun map_command :: "string list \<Rightarrow> store \<Rightarrow> redis_reply \<times> store" where
  "map_command ws m =
     (case ws of
        [cmd, key] \<Rightarrow>
          (if cmd = ''get'' then (case m key of None \<Rightarrow> ReplyNil | Some (v, left) \<Rightarrow> ReplyString v, m)
           else if cmd = ''del'' then (ReplyInteger (if m key = None then 0 else 1), m(key := None))
           else (ReplyError [], m))
      | [cmd, key, val] \<Rightarrow>
          (if cmd = ''SETNX'' then (ReplyInteger (if m key = None then 1 else 0), if m key = None then m(key \<mapsto> (val, None)) else m)
           else if cmd = ''EXPIRE'' then (ReplyInteger (if m key = None then 0 else 1),
             case m key of None \<Rightarrow> m | Some (v, left) \<Rightarrow> m(key \<mapsto> (v, lifetime_of val)))
           else (ReplyError [], m))
      | [cmd, key, t, val] \<Rightarrow> (ReplyStatus ''OK'', m(key \<mapsto> (val, lifetime_of t)))
      | _ \<Rightarrow> (ReplyError [], m))"

definition map_redis :: "store redis_api" where
  "map_redis = \<lparr>ra_command = (\<lambda>cmd m. let (reply, m) = map_command (split (CHR '' '') cmd) m in (Some reply, m)),
     ra_connect = (\<lambda>ip port m. (True, m))\<rparr>"

lemma lifetime_of_dec: "lifetime_ok t \<Longrightarrow> lifetime_of (dec t) = seconds t"
  by (simp add: lifetime_of_def lifetime_ok_def stoi_dec)

lemma map_redis_time: "time_ok aged (\<lambda>m. m)"
  by (simp add: time_ok_def)

lemma split_word: "CHR '' '' \<notin> set w \<Longrightarrow> buf @ w \<noteq> [] \<Longrightarrow> split_go (CHR '' '') buf (w @ CHR '' '' # s) = (buf @ w) # split_go (CHR '' '') [] s"
  by (induction w arbitrary: buf) auto

lemma split_last_word: "CHR '' '' \<notin> set w \<Longrightarrow> buf @ w \<noteq> [] \<Longrightarrow> split_go (CHR '' '') buf w = [buf @ w]"
  by (induction w arbitrary: buf) auto

lemma split_go_words:
  assumes "word_ok w"
  shows "split_go (CHR '' '') [] (w @ CHR '' '' # s) = w # split_go (CHR '' '') [] s" "split_go (CHR '' '') [] w = [w]"
proof -
  have "CHR '' '' \<notin> set w" "[] @ w \<noteq> []" using assms by (auto simp: word_ok_def)
  from split_word [OF this] split_last_word [OF this]
  show "split_go (CHR '' '') [] (w @ CHR '' '' # s) = w # split_go (CHR '' '') [] s" "split_go (CHR '' '') [] w = [w]" by simp_all
qed

lemma split_words:
  assumes "word_ok a" "word_ok b"
  shows "split (CHR '' '') (a @ '' '' @ b) = [a, b]"
    and "word_ok c \<Longrightarrow> split (CHR '' '') (a @ '' '' @ b @ '' '' @ c) = [a, b, c]"
    and "word_ok c \<Longrightarrow> word_ok d \<Longrightarrow> split (CHR '' '') (a @ '' '' @ b @ '' '' @ c @ '' '' @ d) = [a, b, c, d]"
  using assms by (simp_all add: split_def split_go_words)

lemma map_redis_answers:
  "map_command (split (CHR '' '') cmd) m = (reply, m') \<Longrightarrow> redis_answers map_redis (\<lambda>m. m) m cmd reply m'"
  by (simp add: redis_answers_def map_redis_def del: map_command.simps)

lemma map_redis_ok: "redis_ok map_redis (\<lambda>m. m)"
  unfolding redis_ok_def
proof (intro allI impI)
  fix r :: store and key val t
  assume h: "word_ok key \<and> word_ok val \<and> lifetime_ok t"
  have w: "word_ok ''SETNX''" "word_ok ''EXPIRE''" "word_ok ''SETEX''" "word_ok ''get''" "word_ok ''del''" by (simp_all add: word_ok_def)
  have k: "word_ok key" "word_ok val" "lifetime_of (dec t) = seconds t" using h by (simp_all add: lifetime_of_dec)
  have 1: "map_command (split (CHR '' '') (''SETNX'' @ '' '' @ key @ '' '' @ val)) r
      = (ReplyInteger (if r key = None then 1 else 0), if r key = None then r(key \<mapsto> (val, None)) else r)"
    unfolding split_words(2) [OF w(1) k(1,2)] by simp
  have 2: "map_command (split (CHR '' '') (''EXPIRE'' @ '' '' @ key @ '' '' @ dec t)) r
      = (ReplyInteger (if r key = None then 0 else 1), case r key of None \<Rightarrow> r | Some (v, left) \<Rightarrow> r(key \<mapsto> (v, seconds t)))"
    unfolding split_words(2) [OF w(2) k(1) word_ok_dec] by (simp add: k(3) split: option.split)
  have 3: "map_command (split (CHR '' '') (''SETEX'' @ '' '' @ key @ '' '' @ dec t @ '' '' @ val)) r
      = (ReplyStatus ''OK'', r(key \<mapsto> (val, seconds t)))"
    unfolding split_words(3) [OF w(3) k(1) word_ok_dec k(2)] by (simp add: k(3))
  have 4: "map_command (split (CHR '' '') (''get'' @ '' '' @ key)) r
      = (case r key of None \<Rightarrow> ReplyNil | Some (v, left) \<Rightarrow> ReplyString v, r)"
    unfolding split_words(1) [OF w(4) k(1)] by simp
  have 5: "map_command (split (CHR '' '') (''del'' @ '' '' @ key)) r = (ReplyInteger (if r key = None then 0 else 1), r(key := None))"
    unfolding split_words(1) [OF w(5) k(1)] by simp
  show "redis_answers map_redis (\<lambda>m. m) r (''SETNX '' @ key @ '' '' @ val) (ReplyInteger (if r key = None then 1 else 0))
       (if r key = None then r(key \<mapsto> (val, None)) else r)
   \<and> redis_answers map_redis (\<lambda>m. m) r (''EXPIRE '' @ key @ '' '' @ dec t) (ReplyInteger (if r key = None then 0 else 1))
       (case r key of None \<Rightarrow> r | Some (v, left) \<Rightarrow> r(key \<mapsto> (v, seconds t)))
   \<and> redis_answers map_redis (\<lambda>m. m) r (''SETEX '' @ key @ '' '' @ dec t @ '' '' @ val) (ReplyStatus ''OK'') (r(key \<mapsto> (val, seconds t)))
   \<and> redis_answers map_redis (\<lambda>m. m) r (''get '' @ key) (case r key of None \<Rightarrow> ReplyNil | Some (v, left) \<Rightarrow> ReplyString v) r
   \<and> redis_answers map_redis (\<lambda>m. m) r (''del '' @ key) (ReplyInteger (if r key = None then 0 else 1)) (r(key := None))"
    using map_redis_answers [OF 1] map_redis_answers [OF 2] map_redis_answers [OF 3] map_redis_answers [OF 4] map_redis_answers [OF 5]
    unfolding append.simps by (intro conjI)
qed

definition sample_rc :: redis_connector where
  "sample_rc = \<lparr>rc_context = True, rc_ip = ''127.0.0.1'', rc_port = 6379\<rparr>"

definition sample_global :: global where
  "sample_global = \<lparr>g_TimeTick = 0, g_snTicket = 0, g_appType = APP_LOGIN, g_appId = 1\<rparr>"

text \<open>
  Five minutes pass, the server that has the account syncs it, five more minutes pass: another login server is still
  told that it is online. Six minutes later the flag is gone.
\<close>

theorem one_login_at_a_time_witness:
  "\<exists>r1 calls r2 calls'. HandleAccountQueryOnline map_redis sample_rc sample_global ''eve'' (\<lambda>k. None) = Some (r1, calls)
    \<and> offline ''eve'' \<in> set calls
    \<and> redis_run map_redis aged [EvElapse 300000, EvSyncLogin sample_rc sample_global ''eve'', EvElapse 300000,
         EvDeleteLogin sample_rc ''bob'', EvQuery sample_rc (sample_global\<lparr>g_appId := 2\<rparr>) ''eve''] r1 = Some (r2, calls')
    \<and> offline ''eve'' \<notin> set calls'"
  using one_login_at_a_time [OF map_redis_ok map_redis_time, of "\<lambda>k. None" "''eve''" 0 sample_rc
      "[EvElapse 300000, EvSyncLogin sample_rc sample_global ''eve'', EvElapse 300000,
         EvDeleteLogin sample_rc ''bob'', EvQuery sample_rc (sample_global\<lparr>g_appId := 2\<rparr>) ''eve'']" sample_global]
  by (auto simp: flags_ok_def game_flag_def sample_rc_def word_ok_def outlives_def older_def seconds_def RedisKeyAccountOnlineLoginTimeout_def)

lemma expired_login_example:
  "\<exists>r1 calls. HandleAccountQueryOnline map_redis sample_rc sample_global ''eve''
       (aged 360000 [RedisKeyAccountOnlineLogin @ ''eve'' \<mapsto> (''1'', seconds RedisKeyAccountOnlineLoginTimeout)]) = Some (r1, calls)
    \<and> offline ''eve'' \<in> set calls"
  by (rule expired_login_is_offline [OF map_redis_ok map_redis_time, where left = "Some 360000"])
    (simp_all add: game_flag_def login_left_def sample_rc_def word_ok_def outlives_def seconds_def RedisKeyAccountOnlineLoginTimeout_def)

theorem stale_session_keeps_flag_witness:
  "\<exists>r1. HandlePlayerSyncOnlineToRedis map_redis sample_rc ''eve'' 3 (\<lambda>k. None) = Some r1
    \<and> (\<exists>r2. HandlePlayerDeleteOnlineToRedis map_redis sample_rc ''eve'' 2 r1 = Some r2 \<and> r2 = r1)"
  using stale_session_keeps_flag [OF map_redis_ok, of sample_rc sample_rc "''eve''" "\<lambda>k. None" 0 3 2]
  by (auto simp: game_flag_def sample_rc_def word_ok_def)

end
