(* ===== verification/Login.thy ===== *)
theory Login
  imports Redis AppSync
begin

text \<open>
  The account manager of a login server (\<open>account.cpp\<close>): from the first message of a client to the token with which
  it goes on to a game server. A handler gets the socket and the tags of its packet and the fields of its message.
  \<open>None\<close> is a null pointer that is dereferenced. The timer of \<open>PlayerComponentOnlineInLogin\<close> calls
  \<open>OnlineInLogin_SetOnlineFlag\<close>, from the next frame on.
\<close>

record account_mgr =
  am_players :: player_collector
  am_apps :: apps
  am_method :: string
  am_httpIp :: string
  am_httpPort :: int

type_synonym login_result = "(account_mgr \<times> help_call list) option"

text \<open>\<open>AccountCheckReturnCode\<close>\<close>

abbreviation (input) "ARC_OK \<equiv> 0 :: int"
abbreviation (input) "ARC_UNKONWN \<equiv> 1 :: int"
abbreviation (input) "ARC_NOT_FOUND_ACCOUNT \<equiv> 2 :: int"
abbreviation (input) "ARC_PASSWORD_WRONG \<equiv> 3 :: int"
abbreviation (input) "ARC_LOGGING \<equiv> 4 :: int"
abbreviation (input) "ARC_TIMEOUT \<equiv> 5 :: int"
abbreviation (input) "ARC_ONLINE \<equiv> 6 :: int"

text \<open>\<open>mg_parse_uri\<close> is the library's: host, port, path and query of an address.\<close>

record parse_url_info =
  ui_Host :: string
  ui_Port :: int
  ui_Mothed :: string
  ui_Params :: string

definition ParseUrl :: "(string \<Rightarrow> string \<times> u32 \<times> string \<times> string) \<Rightarrow> string \<Rightarrow> bool \<times> parse_url_info" where
  "ParseUrl mg_parse_uri url =
     (case mg_parse_uri url of
        (host, port, path, qry) \<Rightarrow>
          (True, \<lparr>ui_Host = host, ui_Port = (if port = 0 then 80 else sint port), ui_Mothed = path, ui_Params = qry\<rparr>))"

definition AccountMgr_Awake :: "(string \<Rightarrow> string \<times> u32 \<times> string \<times> string) \<Rightarrow> yaml \<Rightarrow> account_mgr option" where
  "AccountMgr_Awake mg_parse_uri pYaml =
     (let m = \<lparr>am_players = Collector_new, am_apps = [], am_method = [], am_httpIp = [], am_httpPort = 0\<rparr>
      in case GetConfig APP_LOGIN pYaml of
           Some (LoginConfig a apps UrlLogin UrlMethod) \<Rightarrow>
             (case ParseUrl mg_parse_uri UrlLogin of
                (ok, info) \<Rightarrow> Some (if \<not> ok then m
                   else m\<lparr>am_httpIp := ui_Host info, am_httpPort := ui_Port info, am_method := ui_Mothed info\<rparr>))
         | _ \<Rightarrow> None)"

definition AccountMgr_BackToPool :: "account_mgr \<Rightarrow> account_mgr" where
  "AccountMgr_BackToPool m = m\<lparr>am_apps := []\<rparr>"

definition SyncAppInfoToAppMgr :: "global \<Rightarrow> account_mgr \<Rightarrow> help_call list" where
  "SyncAppInfoToAppMgr g m =
     [SendPacketApp MI_AppInfoSync
        (AppInfoSync \<lparr>as_app_id = g_appId g, as_app_type = g_appType g, as_online = OnlineSize (am_players m)\<rparr>) APP_APPMGR 0]"

fun parse_apps :: "yaml \<Rightarrow> app_info_sync list \<Rightarrow> apps \<Rightarrow> apps" where
  "parse_apps pYaml [] apps = apps"
| "parse_apps pYaml (one # infos) apps = parse_apps pYaml infos (Sync_Parse pYaml one INVALID_SOCKET apps)"

definition HandleAppInfoListSync :: "yaml \<Rightarrow> app_info_sync list \<Rightarrow> account_mgr \<Rightarrow> account_mgr" where
  "HandleAppInfoListSync pYaml infos m = m\<lparr>am_apps := parse_apps pYaml infos []\<rparr>"

definition Account_HandleNetworkConnected :: "net_identify \<Rightarrow> account_mgr \<Rightarrow> login_result" where
  "Account_HandleNetworkConnected pPacket m =
     (case GetTagValue (ni_tags pPacket) TagAccount of
        None \<Rightarrow> Some (m, [])
      | Some pTagValue \<Rightarrow>
          if NetType (ni_socket pPacket) \<noteq> HttpConnector then Some (m, [])
          else (case GetPlayerByAccount (KeyStr pTagValue) (am_players m) of
                  (None, pc) \<Rightarrow> Some (m\<lparr>am_players := pc\<rparr>, [])
                | (Some pPlayer, pc) \<Rightarrow>
                    (case pl_Account pPlayer of
                       None \<Rightarrow> None
                     | Some pPlayerCAccount \<Rightarrow>
                         (let httpIndentify = \<lparr>ni_socket = SocketKey_CopyFrom (ni_socket pPacket) SocketKey_None,
                                               ni_tags = TagKey_CopyFrom (ni_tags (pl_ident pPlayer)) []\<rparr>
                          in Some (m\<lparr>am_players := pc\<rparr>,
                               [SendHttpRequest httpIndentify (am_httpIp m) (am_httpPort m) (am_method m)
                                  [(''account'', pl_account pPlayer), (''password'', pa_password pPlayerCAccount)]])))))"

definition Account_HandleNetworkDisconnect :: "net_identify \<Rightarrow> account_mgr \<Rightarrow> account_mgr" where
  "Account_HandleNetworkDisconnect pPacket m =
     (if NetType (ni_socket pPacket) \<noteq> TcpListen then m
      else m\<lparr>am_players := RemovePlayerBySocket (Socket (ni_socket pPacket)) (am_players m)\<rparr>)"

definition SocketDisconnect :: "net_identify \<Rightarrow> help_call list" where
  "SocketDisconnect pIdentify =
     [SendPacket C2L_AccountCheckRs (AccountCheckRs ARC_LOGGING) pIdentify,
      DispatchIdent MI_NetworkRequestDisconnect (Some pIdentify)]"

definition HandleAccountCheck :: "net_identify \<Rightarrow> string \<Rightarrow> string \<Rightarrow> account_mgr \<Rightarrow> account_mgr \<times> help_call list" where
  "HandleAccountCheck pPacket acc password m =
     (case GetPlayerByAccount acc (am_players m) of
        (Some pPlayer, pc) \<Rightarrow> (m\<lparr>am_players := pc\<rparr>, SocketDisconnect pPacket)
      | (None, pc) \<Rightarrow>
          (case AddPlayer pPacket acc pc of
             None \<Rightarrow> (m\<lparr>am_players := pc\<rparr>, SocketDisconnect pPacket)
           | Some (pPlayer, pc, calls) \<Rightarrow>
               (let pc = set_player (pPlayer\<lparr>pl_Account := Some (Account_Awake password)\<rparr>) pc
                in (m\<lparr>am_players := pc\<rparr>,
                    calls @ [DispatchProto MI_AccountQueryOnlineToRedis (AccountQueryOnlineToRedis (c_str (pl_account pPlayer))) None]))))"

definition HandleAccountQueryOnlineToRedisRs :: "string \<Rightarrow> int \<Rightarrow> account_mgr \<Rightarrow> account_mgr \<times> help_call list" where
  "HandleAccountQueryOnlineToRedisRs acc code m =
     (case GetPlayerByAccount acc (am_players m) of
        (None, pc) \<Rightarrow> (m\<lparr>am_players := pc\<rparr>, [])
      | (Some pPlayer, pc) \<Rightarrow>
          if code \<noteq> SOTR_Offline
          then (m\<lparr>am_players := pc\<rparr>, [SendPacket C2L_AccountCheckRs (AccountCheckRs ARC_ONLINE) (pl_ident pPlayer)])
          else (let pPlayer = (if pl_OnlineInLogin pPlayer = None
                               then pPlayer\<lparr>pl_OnlineInLogin := Some (pl_account pPlayer)\<rparr> else pPlayer)
                in (m\<lparr>am_players := set_player pPlayer pc\<rparr>,
                    [CreateConnect HttpConnector TagAccount \<lparr>KeyStr = pl_account pPlayer, KeyInt64 = 0\<rparr>
                       (c_str (am_httpIp m)) (am_httpPort m)])))"

definition HandleQueryPlayerListRs :: "string \<Rightarrow> player_little list \<Rightarrow> account_mgr \<Rightarrow> account_mgr \<times> help_call list" where
  "HandleQueryPlayerListRs acc players m =
     (case GetPlayerByAccount acc (am_players m) of
        (None, pc) \<Rightarrow> (m\<lparr>am_players := pc\<rparr>, [])
      | (Some pPlayer, pc) \<Rightarrow>
          (let pPlayer = (if length players > 0
                          then pPlayer\<lparr>pl_ProtoList := Some (ProtoList_Parse players
                                 (case pl_ProtoList pPlayer of None \<Rightarrow> [] | Some l \<Rightarrow> l))\<rparr>
                          else pPlayer)
           in (m\<lparr>am_players := set_player pPlayer pc\<rparr>,
               [SendPacket L2C_PlayerList (PlayerList acc players) (pl_ident pPlayer)])))"

definition HandleCreatePlayer :: "net_identify \<Rightarrow> string \<Rightarrow> int \<Rightarrow> global \<Rightarrow> account_mgr \<Rightarrow> global \<times> help_call list" where
  "HandleCreatePlayer pPacket name gender g m =
     (case GetPlayerBySocket (Socket (ni_socket pPacket)) (am_players m) of
        None \<Rightarrow> (g, [])
      | Some pPlayer \<Rightarrow>
          (let (sn, g) = GenerateSN g;
               pProtoPlayer = Player_empty\<lparr>pp_sn := sn, pp_name := name, pp_gender := gender, pp_level := 1, pp_xp := 0,
                 pp_hp := 999, pp_mp := 999, pp_atk := 10, pp_def := 0, pp_gold := 500\<rparr>
           in (g, [SendPacketApp L2DB_CreatePlayer (CreatePlayerToDB (c_str (pl_account pPlayer)) pProtoPlayer) APP_DB_MGR 0])))"

definition HandleCreatePlayerRs :: "net_identify \<Rightarrow> int \<Rightarrow> account_mgr \<Rightarrow> help_call list" where
  "HandleCreatePlayerRs pPacket code m =
     (case GetPlayerBySocket (Socket (ni_socket pPacket)) (am_players m) of
        None \<Rightarrow> []
      | Some pPlayer \<Rightarrow> [SendPacket C2L_CreatePlayerRs (CreatePlayerRs code) (pl_ident pPlayer)])"

definition RequestToken :: "player \<Rightarrow> help_call list option" where
  "RequestToken pPlayer =
     map_option (\<lambda>pLoginInfo. [DispatchProto MI_LoginTokenToRedis
       (LoginTokenToRedis (c_str (pl_account pPlayer)) (pa_selectPlayerSn pLoginInfo)) None]) (pl_Account pPlayer)"

text \<open>\<open>parse\<close> reads the stream of a \<open>PlayerLittle\<close> as a \<open>Player\<close>; a stream at its end gives an empty message.\<close>

definition HandleSelectPlayer :: "(player_little \<Rightarrow> player_proto) \<Rightarrow> net_identify \<Rightarrow> u64 \<Rightarrow> account_mgr \<Rightarrow> login_result" where
  "HandleSelectPlayer parse pPacket selectPlayerSn m =
     (case GetPlayerBySocket (Socket (ni_socket pPacket)) (am_players m) of
        None \<Rightarrow> Some (m, [])
      | Some pPlayer \<Rightarrow> do {
          pPlayerLoginInfo \<leftarrow> pl_Account pPlayer;
          let pPlayer = pPlayer\<lparr>pl_Account := Some (pPlayerLoginInfo\<lparr>pa_selectPlayerSn := selectPlayerSn\<rparr>)\<rparr>;
          (case Option.bind (pl_ProtoList pPlayer) (\<lambda>protos. map_of protos selectPlayerSn) of
             None \<Rightarrow> Some (m\<lparr>am_players := set_player pPlayer (am_players m)\<rparr>,
                           [SendPacket C2L_SelectPlayerRs (SelectPlayerRs 1) (pl_ident pPlayer)])
           | Some pOpStream \<Rightarrow> do {
               let proto = (case pOpStream of Some little \<Rightarrow> parse little | None \<Rightarrow> Player_empty);
               let pPlayer = pPlayer\<lparr>pl_playerSn := selectPlayerSn, pl_player := proto,
                     pl_ProtoList := map_option (smap_assign selectPlayerSn None) (pl_ProtoList pPlayer)\<rparr>;
               calls \<leftarrow> RequestToken pPlayer;
               Some (m\<lparr>am_players := set_player pPlayer (am_players m)\<rparr>, calls)
             })
        })"

definition ProcessMsg :: "int \<Rightarrow> int" where
  "ProcessMsg httpcode =
     (if httpcode = 0 then ARC_OK
      else if httpcode = 2 then ARC_NOT_FOUND_ACCOUNT
      else if httpcode = 3 then ARC_PASSWORD_WRONG
      else ARC_UNKONWN)"

text \<open>\<open>json\<close> parses a text and reads its \<open>returncode\<close>; \<open>None\<close> when the text is no JSON.\<close>

definition HandleHttpOuterResponse :: "(u8 list \<Rightarrow> int option) \<Rightarrow> net_identify \<Rightarrow> int \<Rightarrow> u8 list \<Rightarrow> account_mgr \<Rightarrow> account_mgr \<times> help_call list" where
  "HandleHttpOuterResponse json pPacket statusCode response m =
     (case GetTagValue (ni_tags pPacket) TagAccount of
        None \<Rightarrow> (m, [])
      | Some pTagValue \<Rightarrow>
          (case GetPlayerByAccount (KeyStr pTagValue) (am_players m) of
             (None, pc) \<Rightarrow> (m\<lparr>am_players := pc\<rparr>, [])
           | (Some pPlayer, pc) \<Rightarrow>
               (let rsCode = (if statusCode = 200
                              then (case json response of Some value \<Rightarrow> ProcessMsg value | None \<Rightarrow> ARC_TIMEOUT)
                              else ARC_TIMEOUT)
                in (m\<lparr>am_players := pc\<rparr>,
                    DispatchIdent MI_NetworkRequestDisconnect (Some pPacket)
                      # (if rsCode = ARC_OK
                         then [SendPacketApp L2DB_QueryPlayerList (QueryPlayerList (c_str (pl_account pPlayer))) APP_DB_MGR 0]
                         else [SendPacket C2L_AccountCheckRs (AccountCheckRs rsCode) (pl_ident pPlayer)])))))"

definition HandleTokenToRedisRs :: "string \<Rightarrow> string \<Rightarrow> account_mgr \<Rightarrow> account_mgr \<times> help_call list" where
  "HandleTokenToRedisRs acc tok m =
     (case GetPlayerByAccount acc (am_players m) of
        (None, pc) \<Rightarrow> (m\<lparr>am_players := pc\<rparr>, [])
      | (Some pPlayer, pc) \<Rightarrow>
          (case GetOneApp APP_GAME (am_apps m) of
             None \<Rightarrow> (m\<lparr>am_players := pc\<rparr>, [SendPacket L2C_GameToken (GameToken 1 [] [] 0) (pl_ident pPlayer)])
           | Some (info, apps) \<Rightarrow>
               (m\<lparr>am_players := pc, am_apps := apps\<rparr>,
                [SendPacket L2C_GameToken (GameToken 0 tok (c_str (ai_extraIp info)) (ai_Port info)) (pl_ident pPlayer)])))"

subsection \<open>The messages of the account manager\<close>

datatype login_msg =
    LmAppInfoListSync "app_info_sync list"
  | LmNetworkConnected net_identify
  | LmNetworkDisconnect net_identify
  | LmAccountCheck net_identify string string
  | LmQueryOnlineRs string int
  | LmQueryPlayerListRs string "player_little list"
  | LmSelectPlayer net_identify u64
  | LmHttpOuterResponse net_identify int "u8 list"
  | LmTokenRs string string
  | LmCreatePlayer net_identify string int global
  | LmCreatePlayerRs net_identify int

record login_env =
  le_yaml :: yaml
  le_parse :: "player_little \<Rightarrow> player_proto"
  le_json :: "u8 list \<Rightarrow> int option"

fun login_handle :: "login_env \<Rightarrow> login_msg \<Rightarrow> account_mgr \<Rightarrow> login_result" where
  "login_handle env (LmAppInfoListSync infos) m = Some (HandleAppInfoListSync (le_yaml env) infos m, [])"
| "login_handle env (LmNetworkConnected i) m = Account_HandleNetworkConnected i m"
| "login_handle env (LmNetworkDisconnect i) m = Some (Account_HandleNetworkDisconnect i m, [])"
| "login_handle env (LmAccountCheck i acc pw) m = Some (HandleAccountCheck i acc pw m)"
| "login_handle env (LmQueryOnlineRs acc code) m = Some (HandleAccountQueryOnlineToRedisRs acc code m)"
| "login_handle env (LmQueryPlayerListRs acc players) m = Some (HandleQueryPlayerListRs acc players m)"
| "login_handle env (LmSelectPlayer i sn) m = HandleSelectPlayer (le_parse env) i sn m"
| "login_handle env (LmHttpOuterResponse i code response) m = Some (HandleHttpOuterResponse (le_json env) i code response m)"
| "login_handle env (LmTokenRs acc tok) m = Some (HandleTokenToRedisRs acc tok m)"
| "login_handle env (LmCreatePlayer i name gender g) m = Some (m, snd (HandleCreatePlayer i name gender g m))"
| "login_handle env (LmCreatePlayerRs i code) m = Some (m, HandleCreatePlayerRs i code m)"

fun login_run :: "login_env \<Rightarrow> login_msg list \<Rightarrow> account_mgr \<Rightarrow> (account_mgr \<times> help_call list list) option" where
  "login_run env [] m = Some (m, [])"
| "login_run env (msg # msgs) m = do {
     (m, calls) \<leftarrow> login_handle env msg m;
     (m, rest) \<leftarrow> login_run env msgs m;
     Some (m, calls # rest)
   }"

subsection \<open>The sessions of the account manager\<close>

definition login_ok :: "account_mgr \<Rightarrow> bool" where
  "login_ok m = (collector_ok (am_players m) \<and> one_per_account (am_players m)
     \<and> (\<forall>s p. map_of (pc_players (am_players m)) s = Some p \<longrightarrow> pl_Account p \<noteq> None))"

lemma login_okD:
  assumes "login_ok m"
  shows "collector_ok (am_players m)" "one_per_account (am_players m)"
    and "map_of (pc_players (am_players m)) s = Some p \<Longrightarrow> \<exists>a. pl_Account p = Some a"
  using assms by (auto simp: login_ok_def)

lemma login_ok_same [simp]:
  "am_players m' = am_players m \<Longrightarrow> login_ok m \<Longrightarrow> login_ok m'"
  by (simp add: login_ok_def)

lemma login_ok_change:
  assumes m: "login_ok m" and q: "map_of (pc_players (am_players m)) (player_socket p) = Some q" "pl_account p = pl_account q"
    and a: "pl_Account p \<noteq> None" and m': "am_players m' = set_player p (am_players m)"
  shows "login_ok m'"
  using set_player_ok [OF login_okD(1) [OF m] q] one_per_account_change [OF login_okD(2) [OF m] q] a login_okD(3) [OF m]
  by (auto simp: login_ok_def m')

lemma login_ok_leave:
  assumes "login_ok m" "am_players m' = RemovePlayerBySocket k (am_players m)"
  shows "login_ok m'"
proof -
  have "map_of (pc_players (am_players m)) s = Some p"
    if "map_of (pc_players (RemovePlayerBySocket k (am_players m))) s = Some p" for s p
    using that by (auto simp: RemovePlayerBySocket_def split: option.splits if_splits)
  then show ?thesis
    using RemovePlayerBySocket_ok [OF login_okD(1) [OF assms(1)]] one_per_account_leave [OF login_okD(1,2) [OF assms(1)]]
      login_okD(3) [OF assms(1)] assms(2) unfolding login_ok_def by (metis option.distinct(1))
qed

lemma found_by_account:
  assumes "login_ok m"
  obtains (absent) "GetPlayerByAccount acc (am_players m) = (None, am_players m)" "map_of (pc_accounts (am_players m)) acc = None"
  | (present) p a where "GetPlayerByAccount acc (am_players m) = (Some p, am_players m)" "pl_account p = acc" "pl_Account p = Some a"
      "map_of (pc_players (am_players m)) (player_socket p) = Some p"
proof (cases "map_of (pc_accounts (am_players m)) acc")
  case None
  then show thesis using absent by (simp add: GetPlayerByAccount_ok [OF login_okD(1) [OF assms]])
next
  case (Some s)
  obtain p where p: "map_of (pc_players (am_players m)) s = Some p" "pl_account p = acc"
    using collector_okD(4) [OF login_okD(1) [OF assms] Some] by blast
  have "player_socket p = s" by (rule collector_okD(3) [OF login_okD(1) [OF assms] p(1)])
  then show thesis using present p login_okD(3) [OF assms p(1)] Some
    by (auto simp: GetPlayerByAccount_ok [OF login_okD(1) [OF assms]])
qed

lemma found_by_socket:
  assumes "login_ok m" "map_of (pc_players (am_players m)) k = Some p"
  obtains a where "player_socket p = k" "pl_Account p = Some a" "map_of (pc_players (am_players m)) (player_socket p) = Some p"
  using collector_okD(3) [OF login_okD(1) [OF assms(1)] assms(2)] login_okD(3) [OF assms] assms(2) by auto

lemma HandleAccountCheck_ok:
  assumes m: "login_ok m" and r: "HandleAccountCheck i acc pw m = (m', calls)"
  shows "login_ok m'"
  using m
proof (cases rule: found_by_account [of m acc])
  case absent
  show ?thesis
  proof (cases "map_of (pc_players (am_players m)) (Socket (ni_socket i))")
    case None
    let ?p = "(Player_Awake i acc)\<lparr>pl_Account := Some (Account_Awake pw)\<rparr>"
    have e: "AddPlayer i acc (am_players m) = Some (Player_Awake i acc, enter i acc (am_players m),
        [DispatchIdent MI_NetworkListenKey (Some (pl_ident (Player_Awake i acc)))])"
      using None by (simp add: AddPlayer_cases enter_def)
    have l: "map_of (pc_players (enter i acc (am_players m))) = (map_of (pc_players (am_players m)))(Socket (ni_socket i) \<mapsto> Player_Awake i acc)"
      using None by (simp add: enter_def AddPlayer_cases)
    have ok: "collector_ok (enter i acc (am_players m))" "one_per_account (enter i acc (am_players m))"
      using enter_ok [OF login_okD(1) [OF m]] one_per_account_enter [OF login_okD(2) [OF m] absent(2)] by simp_all
    have "collector_ok (set_player ?p (enter i acc (am_players m)))" "one_per_account (set_player ?p (enter i acc (am_players m)))"
      using set_player_ok [OF ok(1), of ?p] one_per_account_change [OF ok(2), of ?p] l by simp_all
    moreover have "am_players m' = set_player ?p (enter i acc (am_players m))"
      using r absent(1) e by (auto simp: HandleAccountCheck_def Let_def)
    ultimately show ?thesis using login_okD(3) [OF m] l by (auto simp: login_ok_def)
  next
    case (Some q)
    then have "m' = m" using r absent(1) by (simp add: HandleAccountCheck_def AddPlayer_cases)
    then show ?thesis using m by simp
  qed
next
  case (present p a)
  then have "m' = m" using r by (simp add: HandleAccountCheck_def)
  then show ?thesis using m by simp
qed

lemma HandleSelectPlayer_ok:
  assumes m: "login_ok m"
  shows "\<exists>m' calls. HandleSelectPlayer parse i sn m = Some (m', calls) \<and> login_ok m'"
proof (cases "map_of (pc_players (am_players m)) (Socket (ni_socket i))")
  case None
  then show ?thesis using m by (simp add: HandleSelectPlayer_def GetPlayerBySocket_def)
next
  case (Some p)
  obtain a where p: "player_socket p = Socket (ni_socket i)" "pl_Account p = Some a"
      "map_of (pc_players (am_players m)) (player_socket p) = Some p"
    by (rule found_by_socket [OF m Some])
  have c: "login_ok (m\<lparr>am_players := set_player q (am_players m)\<rparr>)"
    if "pl_ident q = pl_ident p" "pl_account q = pl_account p" "pl_Account q \<noteq> None" for q
    using that p(3) by (intro login_ok_change [OF m, of q p]) simp_all
  show ?thesis
  proof (cases "Option.bind (pl_ProtoList p) (\<lambda>protos. map_of protos sn)")
    case None
    then show ?thesis using Some p(2) c by (simp add: HandleSelectPlayer_def GetPlayerBySocket_def)
  next
    case (Some st)
    then show ?thesis using \<open>map_of (pc_players (am_players m)) (Socket (ni_socket i)) = Some p\<close> p(2) c
      by (simp add: HandleSelectPlayer_def GetPlayerBySocket_def RequestToken_def)
  qed
qed

lemma login_handle_ok:
  assumes m: "login_ok m"
  shows "\<exists>m' calls. login_handle env msg m = Some (m', calls) \<and> login_ok m'"
proof (cases msg)
  case (LmNetworkConnected i)
  show ?thesis
  proof (cases "GetTagValue (ni_tags i) TagAccount")
    case (Some v)
    show ?thesis using m Some LmNetworkConnected
      by (cases rule: found_by_account [of m "KeyStr v"]) (simp_all add: Account_HandleNetworkConnected_def Let_def m)
  qed (use m LmNetworkConnected in \<open>simp add: Account_HandleNetworkConnected_def\<close>)
next
  case (LmNetworkDisconnect i)
  then show ?thesis using m login_ok_leave [OF m, of "m\<lparr>am_players := RemovePlayerBySocket (Socket (ni_socket i)) (am_players m)\<rparr>"]
    by (simp add: Account_HandleNetworkDisconnect_def)
next
  case (LmAccountCheck i acc pw)
  then show ?thesis using HandleAccountCheck_ok [OF m] by (cases "HandleAccountCheck i acc pw m") auto
next
  case (LmQueryOnlineRs acc code)
  show ?thesis using m
  proof (cases rule: found_by_account [of m acc])
    case (present p a)
    have "login_ok (m\<lparr>am_players := set_player q (am_players m)\<rparr>)"
      if "pl_ident q = pl_ident p" "pl_account q = pl_account p" "pl_Account q \<noteq> None" for q
      using that present(4) by (intro login_ok_change [OF m, of q p]) simp_all
    then show ?thesis using present m LmQueryOnlineRs by (simp add: HandleAccountQueryOnlineToRedisRs_def Let_def)
  qed (use m LmQueryOnlineRs in \<open>simp add: HandleAccountQueryOnlineToRedisRs_def\<close>)
next
  case (LmQueryPlayerListRs acc players)
  show ?thesis using m
  proof (cases rule: found_by_account [of m acc])
    case (present p a)
    have "login_ok (m\<lparr>am_players := set_player q (am_players m)\<rparr>)"
      if "pl_ident q = pl_ident p" "pl_account q = pl_account p" "pl_Account q \<noteq> None" for q
      using that present(4) by (intro login_ok_change [OF m, of q p]) simp_all
    then show ?thesis using present m LmQueryPlayerListRs by (simp add: HandleQueryPlayerListRs_def Let_def)
  qed (use m LmQueryPlayerListRs in \<open>simp add: HandleQueryPlayerListRs_def\<close>)
next
  case (LmSelectPlayer i sn)
  then show ?thesis using HandleSelectPlayer_ok [OF m] by simp
next
  case (LmHttpOuterResponse i code response)
  show ?thesis
  proof (cases "GetTagValue (ni_tags i) TagAccount")
    case (Some v)
    show ?thesis using m Some LmHttpOuterResponse
      by (cases rule: found_by_account [of m "KeyStr v"]) (simp_all add: HandleHttpOuterResponse_def Let_def m)
  qed (use m LmHttpOuterResponse in \<open>simp add: HandleHttpOuterResponse_def\<close>)
next
  case (LmTokenRs acc tok)
  show ?thesis using m LmTokenRs
    by (cases rule: found_by_account [of m acc]) (auto simp: HandleTokenToRedisRs_def m split: option.split)
qed (use m in \<open>simp_all add: HandleAppInfoListSync_def\<close>)

lemma login_run_ok: "login_ok m \<Longrightarrow> \<exists>m' calls. login_run env msgs m = Some (m', calls) \<and> login_ok m'"
proof (induction msgs arbitrary: m)
  case (Cons msg msgs)
  obtain m1 calls where m1: "login_handle env msg m = Some (m1, calls)" "login_ok m1"
    using login_handle_ok [OF Cons.prems] by blast
  then show ?case using Cons.IH [OF m1(2)] by auto
qed simp

text \<open>
  C26. Whatever messages come, in any order, the account manager handles them without dereferencing a null pointer,
  and two connections never log in to the same account: every player is found under its socket and, as the only one,
  under its account.
\<close>

theorem login_sessions:
  assumes "am_players m = Collector_new"
  shows "\<exists>m' calls. login_run env msgs m = Some (m', calls)
    \<and> (\<forall>s p. GetPlayerBySocket s (am_players m') = Some p \<longrightarrow>
         player_socket p = s \<and> GetPlayerByAccount (pl_account p) (am_players m') = (Some p, am_players m'))
    \<and> (\<forall>s p s' p'. GetPlayerBySocket s (am_players m') = Some p \<and> GetPlayerBySocket s' (am_players m') = Some p'
         \<and> pl_account p = pl_account p' \<longrightarrow> s = s')"
proof -
  have "login_ok m" using assms collector_ok_new by (simp add: login_ok_def one_per_account_def Collector_new_def)
  then obtain m' calls where r: "login_run env msgs m = Some (m', calls)" and ok: "login_ok m'" using login_run_ok by blast
  note c = login_okD(1) [OF ok] and o = login_okD(2) [OF ok, unfolded one_per_account_def, rule_format]
  have a: "GetPlayerByAccount (pl_account p) (am_players m') = (Some p, am_players m')"
    if "map_of (pc_players (am_players m')) s = Some p" for s p
    using o [OF that] that by (simp add: GetPlayerByAccount_ok [OF c])
  have u: "s = s'" if "map_of (pc_players (am_players m')) s = Some p" "map_of (pc_players (am_players m')) s' = Some p'"
      "pl_account p = pl_account p'" for s p s' p'
    using o [OF that(1)] o [OF that(2)] that(3) by simp
  show ?thesis using r a u collector_okD(3) [OF c] unfolding GetPlayerBySocket_def by blast
qed

definition sample_login :: account_mgr where
  "sample_login = \<lparr>am_players = Collector_new, am_apps = [(3, space_info 3 21 0\<lparr>ai_AppType := APP_GAME\<rparr>)],
     am_method = ''/check'', am_httpIp = ''10.0.0.1'', am_httpPort = 80\<rparr>"

definition sample_login_env :: login_env where
  "sample_login_env = \<lparr>le_yaml = yaml_empty, le_parse = (\<lambda>l. Player_empty\<lparr>pp_sn := pt_sn l, pp_name := pt_name l\<rparr>), le_json = (\<lambda>s. Some 0)\<rparr>"

theorem login_sessions_witness:
  "\<exists>m' calls. login_run sample_login_env
      [LmAccountCheck \<lparr>ni_socket = \<lparr>Socket = 7, NetType = TcpListen\<rparr>, ni_tags = []\<rparr> ''eve'' ''x'',
       LmAccountCheck \<lparr>ni_socket = \<lparr>Socket = 8, NetType = TcpListen\<rparr>, ni_tags = []\<rparr> ''eve'' ''y''] sample_login = Some (m', calls)"
proof -
  have "am_players sample_login = Collector_new" by (simp add: sample_login_def)
  from login_sessions [OF this] show ?thesis by blast
qed

subsection \<open>The way of a client through the login\<close>

definition client_ident :: "net_identify \<Rightarrow> string \<Rightarrow> net_identify" where
  "client_ident i acc = pl_ident (Player_Awake i acc)"

text \<open>The player of the dialogue after each of its steps.\<close>

definition dialogue_player :: "net_identify \<Rightarrow> string \<Rightarrow> string \<Rightarrow> player" where
  "dialogue_player i acc pw = (Player_Awake i acc)\<lparr>pl_Account := Some (Account_Awake pw), pl_OnlineInLogin := Some acc\<rparr>"

lemma ProtoList_Parse_lookup:
  "map_of (ProtoList_Parse ps protos) sn = (case List.find (\<lambda>p. pt_sn p = sn) (rev ps) of Some p \<Rightarrow> Some (Some p) | None \<Rightarrow> map_of protos sn)"
proof (induction ps arbitrary: protos)
  case (Cons p ps)
  have "List.find (\<lambda>p. pt_sn p = sn) (rev ps @ [p]) = (case List.find (\<lambda>p. pt_sn p = sn) (rev ps) of Some q \<Rightarrow> Some q
      | None \<Rightarrow> if pt_sn p = sn then Some p else None)" for ps :: "player_little list"
    by (induction ps rule: rev_induct) (auto split: option.split)
  then show ?case using Cons by (auto split: option.split)
qed simp

lemma player_kept: "map_of (pc_players (set_player p pc)) (player_socket p) = Some p"
  by simp

text \<open>One step of the dialogue finds the player where the last one left it.\<close>

definition in_dialogue :: "player \<Rightarrow> account_mgr \<Rightarrow> bool" where
  "in_dialogue p m = (map_of (pc_accounts (am_players m)) (pl_account p) = Some (player_socket p)
     \<and> map_of (pc_players (am_players m)) (player_socket p) = Some p)"

lemma in_dialogue_found:
  "in_dialogue p m \<Longrightarrow> GetPlayerByAccount (pl_account p) (am_players m) = (Some p, am_players m)"
  "in_dialogue p m \<Longrightarrow> GetPlayerBySocket (player_socket p) (am_players m) = Some p"
  by (simp_all add: in_dialogue_def GetPlayerByAccount_def GetPlayerBySocket_def)

lemma in_dialogue_change:
  "in_dialogue p m \<Longrightarrow> pl_account q = pl_account p \<Longrightarrow> player_socket q = player_socket p \<Longrightarrow>
     in_dialogue q (m\<lparr>am_players := set_player q (am_players m)\<rparr>)"
  by (simp add: in_dialogue_def)

lemma dialogue_check:
  assumes m: "login_ok m" and n: "map_of (pc_accounts (am_players m)) acc = None" "map_of (pc_players (am_players m)) (Socket (ni_socket i)) = None"
  obtains m' where "login_handle env (LmAccountCheck i acc pw) m = Some (m',
      [DispatchIdent MI_NetworkListenKey (Some (client_ident i acc)),
       DispatchProto MI_AccountQueryOnlineToRedis (AccountQueryOnlineToRedis (c_str acc)) None])"
    "in_dialogue ((Player_Awake i acc)\<lparr>pl_Account := Some (Account_Awake pw)\<rparr>) m'"
    "am_apps m' = am_apps m" "am_httpIp m' = am_httpIp m" "am_httpPort m' = am_httpPort m" "am_method m' = am_method m"
proof -
  have "GetPlayerByAccount acc (am_players m) = (None, am_players m)" using n(1) by (simp add: GetPlayerByAccount_def)
  then show thesis using n(2) that
    by (simp add: HandleAccountCheck_def AddPlayer_cases Let_def in_dialogue_def client_ident_def set_player_def)
qed

lemma GetTagValue_client: "GetTagValue (ni_tags (client_ident i acc)) TagAccount = Some \<lparr>KeyStr = acc, KeyInt64 = 0\<rparr>"
  by (simp add: client_ident_def Player_Awake_def)

lemma tags_ok_client: "tags_ok (ni_tags (client_ident i acc))"
  by (simp add: client_ident_def Player_Awake_def AddTagStr_def tags_ok_def tag_value_ok_def)

text \<open>
  C27. The dialogue of a new account: its online flag is asked for; when it is offline a connection to the account
  server is made; on that connection the account and the password are sent; when they are right the characters are
  asked for and passed on; for the one that is chosen a token is asked for; and the client gets the token with the
  address of the game server that has the fewest players.
\<close>

theorem login_dialogue:
  assumes m: "login_ok m" and new: "map_of (pc_accounts (am_players m)) acc = None" "map_of (pc_players (am_players m)) (Socket (ni_socket i)) = None"
    and http: "NetType (ni_socket h) = HttpConnector" "GetTagValue (ni_tags h) TagAccount = Some \<lparr>KeyStr = acc, KeyInt64 = 0\<rparr>"
    and json: "le_json env answer = Some 0" and sn: "sn \<in> pt_sn ` set ls" and game: "GetOneApp APP_GAME (am_apps m) = Some (info, apps)"
  shows "\<exists>m'. login_run env
      [LmAccountCheck i acc pw, LmQueryOnlineRs acc SOTR_Offline, LmNetworkConnected h, LmHttpOuterResponse h 200 answer,
       LmQueryPlayerListRs acc ls, LmSelectPlayer i sn, LmTokenRs acc tok] m = Some (m',
      [[DispatchIdent MI_NetworkListenKey (Some (client_ident i acc)),
        DispatchProto MI_AccountQueryOnlineToRedis (AccountQueryOnlineToRedis (c_str acc)) None],
       [CreateConnect HttpConnector TagAccount \<lparr>KeyStr = acc, KeyInt64 = 0\<rparr> (c_str (am_httpIp m)) (am_httpPort m)],
       [SendHttpRequest \<lparr>ni_socket = ni_socket h, ni_tags = ni_tags (client_ident i acc)\<rparr> (am_httpIp m) (am_httpPort m) (am_method m)
          [(''account'', acc), (''password'', pw)]],
       [DispatchIdent MI_NetworkRequestDisconnect (Some h),
        SendPacketApp L2DB_QueryPlayerList (QueryPlayerList (c_str acc)) APP_DB_MGR 0],
       [SendPacket L2C_PlayerList (PlayerList acc ls) (client_ident i acc)],
       [DispatchProto MI_LoginTokenToRedis (LoginTokenToRedis (c_str acc) sn) None],
       [SendPacket L2C_GameToken (GameToken 0 tok (c_str (ai_extraIp info)) (ai_Port info)) (client_ident i acc)]])
    \<and> am_apps m' = apps"
proof -
  let ?p1 = "(Player_Awake i acc)\<lparr>pl_Account := Some (Account_Awake pw)\<rparr>"
  obtain m1 where m1: "login_handle env (LmAccountCheck i acc pw) m = Some (m1,
      [DispatchIdent MI_NetworkListenKey (Some (client_ident i acc)),
       DispatchProto MI_AccountQueryOnlineToRedis (AccountQueryOnlineToRedis (c_str acc)) None])"
    and d1: "in_dialogue ?p1 m1"
    and e1: "am_apps m1 = am_apps m" "am_httpIp m1 = am_httpIp m" "am_httpPort m1 = am_httpPort m" "am_method m1 = am_method m"
    by (rule dialogue_check [OF m new, where env = env and pw = pw]) blast
  let ?p2 = "?p1\<lparr>pl_OnlineInLogin := Some acc\<rparr>" and ?m2 = "m1\<lparr>am_players := set_player (?p1\<lparr>pl_OnlineInLogin := Some acc\<rparr>) (am_players m1)\<rparr>"
  have g1: "GetPlayerByAccount acc (am_players m1) = (Some ?p1, am_players m1)" using in_dialogue_found(1) [OF d1] by simp
  have o: "pl_OnlineInLogin (Player_Awake i acc) = None" "pl_ProtoList (Player_Awake i acc) = None"
      "pl_ident (Player_Awake i acc) = client_ident i acc" by (simp_all add: Player_Awake_def client_ident_def)
  have s2: "login_handle env (LmQueryOnlineRs acc SOTR_Offline) m1 = Some (?m2,
      [CreateConnect HttpConnector TagAccount \<lparr>KeyStr = acc, KeyInt64 = 0\<rparr> (c_str (am_httpIp m)) (am_httpPort m)])"
    using g1 o e1 by (simp add: HandleAccountQueryOnlineToRedisRs_def Let_def)
  have d2: "in_dialogue ?p2 ?m2" by (rule in_dialogue_change [OF d1]) simp_all
  then have g2: "GetPlayerByAccount acc (am_players ?m2) = (Some ?p2, am_players ?m2)" using in_dialogue_found(1) [OF d2] by simp
  have k: "SocketKey_CopyFrom (ni_socket h) SocketKey_None = ni_socket h"
    by (cases "ni_socket h") (simp add: SocketKey_CopyFrom_def SocketKey_None_def)
  have s3: "login_handle env (LmNetworkConnected h) ?m2 = Some (?m2,
      [SendHttpRequest \<lparr>ni_socket = ni_socket h, ni_tags = ni_tags (client_ident i acc)\<rparr> (am_httpIp m) (am_httpPort m) (am_method m)
          [(''account'', acc), (''password'', pw)]])"
    using g2 http e1 k o TagKey_copy_same [OF tags_ok_client] by (simp add: Account_HandleNetworkConnected_def Let_def Account_Awake_def)
  have s4: "login_handle env (LmHttpOuterResponse h 200 answer) ?m2 = Some (?m2,
      [DispatchIdent MI_NetworkRequestDisconnect (Some h), SendPacketApp L2DB_QueryPlayerList (QueryPlayerList (c_str acc)) APP_DB_MGR 0])"
    using g2 http(2) json by (simp add: HandleHttpOuterResponse_def Let_def ProcessMsg_def)
  let ?p5 = "?p2\<lparr>pl_ProtoList := Some (ProtoList_Parse ls [])\<rparr>"
  let ?m5 = "?m2\<lparr>am_players := set_player ?p5 (am_players ?m2)\<rparr>"
  have s5: "login_handle env (LmQueryPlayerListRs acc ls) ?m2 = Some (?m5, [SendPacket L2C_PlayerList (PlayerList acc ls) (client_ident i acc)])"
    using g2 o sn by (auto simp: HandleQueryPlayerListRs_def Let_def)
  have d5: "in_dialogue ?p5 ?m5" by (rule in_dialogue_change [OF d2]) simp_all
  have "List.find (\<lambda>p. pt_sn p = sn) (rev ls) \<noteq> None" using sn by (auto simp: find_None_iff)
  then obtain l where l: "map_of (ProtoList_Parse ls []) sn = Some (Some l)" by (auto simp: ProtoList_Parse_lookup)
  let ?p6 = "?p5\<lparr>pl_Account := Some ((Account_Awake pw)\<lparr>pa_selectPlayerSn := sn\<rparr>), pl_playerSn := sn, pl_player := le_parse env l,
      pl_ProtoList := Some (smap_assign sn None (ProtoList_Parse ls []))\<rparr>"
  let ?m6 = "?m5\<lparr>am_players := set_player ?p6 (am_players ?m5)\<rparr>"
  have "GetPlayerBySocket (Socket (ni_socket i)) (am_players ?m5) = Some ?p5" using in_dialogue_found(2) [OF d5] by simp
  then have s6: "login_handle env (LmSelectPlayer i sn) ?m5 = Some (?m6, [DispatchProto MI_LoginTokenToRedis (LoginTokenToRedis (c_str acc) sn) None])"
    using l by (simp add: HandleSelectPlayer_def RequestToken_def)
  have d6: "in_dialogue ?p6 ?m6" by (rule in_dialogue_change [OF d5]) simp_all
  have s7: "login_handle env (LmTokenRs acc tok) ?m6 = Some (?m6\<lparr>am_apps := apps\<rparr>,
      [SendPacket L2C_GameToken (GameToken 0 tok (c_str (ai_extraIp info)) (ai_Port info)) (client_ident i acc)])"
    using in_dialogue_found(1) [OF d6] game e1 o by (simp add: HandleTokenToRedisRs_def)
  show ?thesis by (intro exI [of _ "?m6\<lparr>am_apps := apps\<rparr>"]) (simp only: login_run.simps m1 s2 s3 s4 s5 s6 s7 bind.bind_lunit prod.case, simp)
qed

definition sample_client :: net_identify where
  "sample_client = \<lparr>ni_socket = \<lparr>Socket = 7, NetType = TcpListen\<rparr>, ni_tags = []\<rparr>"

definition sample_http :: net_identify where
  "sample_http = \<lparr>ni_socket = \<lparr>Socket = 9, NetType = HttpConnector\<rparr>, ni_tags = AddTagStr TagAccount ''eve'' []\<rparr>"

definition sample_little :: player_little where
  "sample_little = \<lparr>pt_sn = 77, pt_name = ''Eve'', pt_gender = 2, pt_level = 1, pt_last_world = LastWorld_empty, pt_last_dungeon = LastWorld_empty\<rparr>"

theorem login_dialogue_witness:
  "\<exists>m' calls. login_run sample_login_env
      [LmAccountCheck sample_client ''eve'' ''pw'', LmQueryOnlineRs ''eve'' SOTR_Offline, LmNetworkConnected sample_http,
       LmHttpOuterResponse sample_http 200 [], LmQueryPlayerListRs ''eve'' [sample_little], LmSelectPlayer sample_client 77,
       LmTokenRs ''eve'' ''t0ken''] sample_login = Some (m', calls)
    \<and> last calls = [SendPacket L2C_GameToken (GameToken 0 ''t0ken'' [] 5003) (client_ident sample_client ''eve'')]"
proof -
  have m: "login_ok sample_login"
    using collector_ok_new by (simp add: login_ok_def sample_login_def one_per_account_def Collector_new_def)
  have n: "map_of (pc_accounts (am_players sample_login)) ''eve'' = None"
    "map_of (pc_players (am_players sample_login)) (Socket (ni_socket sample_client)) = None"
    by (simp_all add: sample_login_def Collector_new_def)
  have h: "NetType (ni_socket sample_http) = HttpConnector"
    "GetTagValue (ni_tags sample_http) TagAccount = Some \<lparr>KeyStr = ''eve'', KeyInt64 = 0\<rparr>"
    by (simp_all add: sample_http_def)
  have j: "le_json sample_login_env [] = Some 0" "77 \<in> pt_sn ` set [sample_little]"
    by (simp_all add: sample_login_env_def sample_little_def)
  let ?i = "space_info 3 21 0\<lparr>ai_AppType := APP_GAME, ai_Online := 1\<rparr>"
  have g: "GetOneApp APP_GAME (am_apps sample_login) = Some (?i, [(3, ?i)])"
    by (simp add: sample_login_def GetOneApp_def app_matches_def space_info_def APP_GAME_def Let_def)
  show ?thesis
    using login_dialogue [OF m n h j g, of "''pw''" "''t0ken''"] by (auto simp: space_info_def c_str_def)
qed

end
