(* ===== verification/Lobby.thy ===== *)
theory Lobby
  imports Redis
begin

text \<open>
  The lobby of a game server (\<open>lobby.cpp\<close>), where a player waits from the token to its first world, with
  \<open>WorldProxyLocator\<close> (\<open>world_proxy_locator.cpp\<close>), which knows the world proxies of the process, and
  \<open>WorldProxyHelp::Teleport\<close>. The entities all threads share, the two locators, are a record of their own. \<open>None\<close> is a
  null pointer that is dereferenced.
\<close>

subsection \<open>\<open>WorldProxyLocator\<close>\<close>

record world_locator =
  wl_publics :: "(int, u64) smap"
  wl_worlds :: "(u64, unit) smap"

definition WorldLocator_BackToPool :: "world_locator \<Rightarrow> world_locator" where
  "WorldLocator_BackToPool wl = wl\<lparr>wl_publics := [], wl_worlds := []\<rparr>"

definition WorldLocator_Register :: "world_table \<Rightarrow> int \<Rightarrow> u64 \<Rightarrow> world_locator \<Rightarrow> world_locator option" where
  "WorldLocator_Register t worldId worldSn wl = do {
     mapConfig \<leftarrow> GetResource t worldId;
     let wl = (if IsType PublicWorld mapConfig then wl\<lparr>wl_publics := smap_assign worldId worldSn (wl_publics wl)\<rparr> else wl);
     Some (wl\<lparr>wl_worlds := smap_emplace worldSn () (wl_worlds wl)\<rparr>)
   }"

definition WorldLocator_Remove :: "int \<Rightarrow> u64 \<Rightarrow> world_locator \<Rightarrow> world_locator" where
  "WorldLocator_Remove worldId worldSn wl =
     wl\<lparr>wl_publics := smap_erase worldId (wl_publics wl), wl_worlds := smap_erase worldSn (wl_worlds wl)\<rparr>"

definition IsExistDungeon :: "u64 \<Rightarrow> world_locator \<Rightarrow> bool" where
  "IsExistDungeon mspSn wl = (map_of (wl_worlds wl) mspSn \<noteq> None)"

abbreviation "INVALID_SN \<equiv> - 1 :: u64"

definition GetWorldSnById :: "int \<Rightarrow> world_locator \<Rightarrow> u64" where
  "GetWorldSnById worldId wl = (case map_of (wl_publics wl) worldId of None \<Rightarrow> INVALID_SN | Some sn \<Rightarrow> sn)"

text \<open>The request for a \<open>WorldProxy\<close> is its serial number, the world and the world that asked for it.\<close>

definition WorldLocator_HandleBroadcastCreateWorld ::
  "world_table \<Rightarrow> int \<Rightarrow> u64 \<Rightarrow> u64 \<Rightarrow> world_locator \<Rightarrow> (u64 \<times> int \<times> u64) option" where
  "WorldLocator_HandleBroadcastCreateWorld t worldId worldSn lastWorldSn wl =
     (case GetResource t worldId of
        None \<Rightarrow> None
      | Some worldCfg \<Rightarrow>
          if IsType PublicWorld worldCfg
          then (if map_of (wl_publics wl) worldId \<noteq> None then None else Some (worldSn, worldId, lastWorldSn))
          else (if map_of (wl_worlds wl) lastWorldSn = None then None else Some (worldSn, worldId, lastWorldSn)))"

definition WorldProxyHelp_Teleport :: "player \<Rightarrow> u64 \<Rightarrow> u64 \<Rightarrow> help_call list" where
  "WorldProxyHelp_Teleport pPlayer lastWorldSn targetWorldSn =
     (let netIdentify = \<lparr>ni_socket = SocketKey_CopyFrom (ni_socket (pl_ident pPlayer)) SocketKey_None,
                         ni_tags = AddTagInt TagEntity targetWorldSn []\<rparr>
      in [DispatchProto MI_Teleport
            (Teleport lastWorldSn (pl_playerSn pPlayer) (c_str (pl_account pPlayer)) (Player_SerializeToProto pPlayer)) (Some netIdentify)])"

subsection \<open>The lobby\<close>

type_synonym waiting = "(u64, unit) smap"

record lobby =
  lb_sn :: u64
  lb_players :: player_collector
  lb_waitingForWorld :: "(int, waiting) smap"
  lb_waitingForDungeon :: "(u64, waiting) smap"

record game_globals =
  ge_worlds :: world_locator
  ge_sockets :: socket_locator

definition Lobby_Awake :: "world_table \<Rightarrow> u64 \<Rightarrow> game_globals \<Rightarrow> (lobby \<times> game_globals) option" where
  "Lobby_Awake t sn ge = do {
     pRoles \<leftarrow> GetRolesMap t;
     wl \<leftarrow> WorldLocator_Register t (rb_id pRoles) sn (ge_worlds ge);
     Some (\<lparr>lb_sn = sn, lb_players = Collector_new, lb_waitingForWorld = [], lb_waitingForDungeon = []\<rparr>, ge\<lparr>ge_worlds := wl\<rparr>)
   }"

definition Lobby_BackToPool :: "lobby \<Rightarrow> lobby" where
  "Lobby_BackToPool lb = lb\<lparr>lb_waitingForWorld := []\<rparr>"

definition Lobby_GetPlayer :: "net_identify \<Rightarrow> lobby \<Rightarrow> player option" where
  "Lobby_GetPlayer pIdentify lb =
     (case GetTagValue (ni_tags pIdentify) TagPlayer of
        None \<Rightarrow> None
      | Some pTagValue \<Rightarrow> GetPlayerBySn (KeyInt64 pTagValue) (lb_players lb))"

definition Lobby_HandleNetworkDisconnect :: "net_identify \<Rightarrow> lobby \<Rightarrow> lobby" where
  "Lobby_HandleNetworkDisconnect pPacket lb =
     (case GetTagValue (ni_tags pPacket) TagAccount of
        None \<Rightarrow> lb
      | Some pTagValue \<Rightarrow> lb\<lparr>lb_players := RemovePlayerBySocket (Socket (ni_socket pPacket)) (lb_players lb)\<rparr>)"

definition HandleLoginByToken :: "net_identify \<Rightarrow> string \<Rightarrow> string \<Rightarrow> lobby \<Rightarrow> game_globals \<Rightarrow> lobby \<times> game_globals \<times> help_call list" where
  "HandleLoginByToken pPacket acc tok lb ge =
     (case AddPlayer pPacket acc (lb_players lb) of
        None \<Rightarrow> (lb, ge, [DispatchIdent MI_NetworkRequestDisconnect (Some pPacket)])
      | Some (pPlayer, pc, calls) \<Rightarrow>
          (let pPlayer = pPlayer\<lparr>pl_Token := Some tok, pl_OnlineInGame := Some (Online_Awake_version (pl_account pPlayer) 1)\<rparr>
           in (lb\<lparr>lb_players := set_player pPlayer pc\<rparr>,
               ge\<lparr>ge_sockets := RegisterToLocator (player_socket pPlayer) (lb_sn lb) (ge_sockets ge)\<rparr>,
               calls @ [DispatchProto MI_GameTokenToRedis (GameTokenToRedis (c_str (pl_account pPlayer))) None])))"

abbreviation (input) "LGRC_OK \<equiv> 0 :: int"
abbreviation (input) "LGRC_TOKEN_WRONG \<equiv> 3 :: int"

definition HandleGameTokenToRedisRs :: "string \<Rightarrow> string \<Rightarrow> u64 \<Rightarrow> lobby \<Rightarrow> (lobby \<times> help_call list) option" where
  "HandleGameTokenToRedisRs acc tok playerSn lb =
     (case GetPlayerByAccount acc (lb_players lb) of
        (None, pc) \<Rightarrow> Some (lb\<lparr>lb_players := pc\<rparr>, [])
      | (Some pPlayer, pc) \<Rightarrow> do {
          pTokenComponent \<leftarrow> pl_Token pPlayer;
          let code = (if IsTokenValid pTokenComponent tok then LGRC_OK else LGRC_TOKEN_WRONG);
          let calls = [SendPacket C2G_LoginByTokenRs (LoginByTokenRs code) (pl_ident pPlayer)];
          Some (lb\<lparr>lb_players := pc\<rparr>,
                if code \<noteq> LGRC_OK then calls
                else calls @ [SendPacketApp G2DB_QueryPlayer (QueryPlayer playerSn) APP_DB_MGR 0])
        })"

text \<open>A player is put on a list of those who wait; only the first one makes the request.\<close>

definition wait_for :: "'k::linorder \<Rightarrow> u64 \<Rightarrow> help_call list \<Rightarrow> ('k, waiting) smap \<Rightarrow> ('k, waiting) smap \<times> help_call list" where
  "wait_for k playerSn request m =
     (let m = (if map_of m k = None then smap_assign k [] m else m);
          players = the (map_of m k)
      in (smap_assign k (smap_emplace playerSn () players) m, if players = [] then request else []))"

definition EnterPublicWorld :: "world_locator \<Rightarrow> player \<Rightarrow> lobby \<Rightarrow> (lobby \<times> help_call list) option" where
  "EnterPublicWorld wl pPlayer lb = do {
     pPlayerLastMap \<leftarrow> pl_LastMap pPlayer;
     pLastMap \<leftarrow> lm_pPublic pPlayerLastMap;
     let lastMapSn = GetWorldSnById (lw_WorldId pLastMap) wl;
     if lastMapSn \<noteq> INVALID_SN then Some (lb, WorldProxyHelp_Teleport pPlayer (lb_sn lb) lastMapSn)
     else (let (w, calls) = wait_for (lw_WorldId pLastMap) (pl_playerSn pPlayer)
                 [SendPacketApp G2M_RequestWorld (RequestWorld (lw_WorldId pLastMap)) APP_APPMGR 0] (lb_waitingForWorld lb)
           in Some (lb\<lparr>lb_waitingForWorld := w\<rparr>, calls))
   }"

text \<open>A player that has got its data before has a \<open>PlayerComponentLastMap\<close>, and \<open>AddComponent\<close> returns a null pointer.\<close>

definition HandleQueryPlayerRs :: "world_table \<Rightarrow> world_locator \<Rightarrow> string \<Rightarrow> player_proto \<Rightarrow> lobby \<Rightarrow> (lobby \<times> help_call list) option" where
  "HandleQueryPlayerRs t wl acc protoPlayer lb =
     (case GetPlayerByAccount acc (lb_players lb) of
        (None, pc) \<Rightarrow> Some (lb\<lparr>lb_players := pc\<rparr>, [])
      | (Some pPlayer, pc) \<Rightarrow> do {
          let sync = [SendPacket G2C_SyncPlayer (SyncPlayer [] protoPlayer) (pl_ident pPlayer)];
          pPlayer \<leftarrow> Player_ParserFromProto t (pp_sn protoPlayer) protoPlayer pPlayer;
          pPlayerLastMap \<leftarrow> (if pl_LastMap pPlayer \<noteq> None then None else LastMap_ParserFromProto t protoPlayer LastMap_new);
          let pPlayer = pPlayer\<lparr>pl_LastMap := Some pPlayerLastMap\<rparr>;
          let lb = lb\<lparr>lb_players := set_player pPlayer pc\<rparr>;
          (case lm_pDungeon pPlayerLastMap of
             Some pLastMap \<Rightarrow>
               if IsExistDungeon (lw_WorldSn pLastMap) wl
               then Some (lb, sync @ WorldProxyHelp_Teleport pPlayer (lb_sn lb) (lw_WorldSn pLastMap))
               else (let (w, calls) = wait_for (lw_WorldSn pLastMap) (pl_playerSn pPlayer)
                           [SendPacketApp G2M_QueryWorld (QueryWorld (lw_WorldSn pLastMap) (lb_sn lb)) APP_APPMGR 0] (lb_waitingForDungeon lb)
                     in Some (lb\<lparr>lb_waitingForDungeon := w\<rparr>, sync @ calls))
           | None \<Rightarrow> map_option (\<lambda>(lb, calls). (lb, sync @ calls)) (EnterPublicWorld wl pPlayer lb))
        })"

fun enter_public_all :: "world_locator \<Rightarrow> waiting \<Rightarrow> lobby \<Rightarrow> (lobby \<times> help_call list) option" where
  "enter_public_all wl [] lb = Some (lb, [])"
| "enter_public_all wl ((one, u) # players) lb =
     (case GetPlayerBySn one (lb_players lb) of
        None \<Rightarrow> enter_public_all wl players lb
      | Some pPlayer \<Rightarrow> do {
          (lb, calls) \<leftarrow> EnterPublicWorld wl pPlayer lb;
          (lb, calls') \<leftarrow> enter_public_all wl players lb;
          Some (lb, calls @ calls')
        })"

definition HandleQueryWorldRs :: "world_locator \<Rightarrow> u64 \<Rightarrow> int \<Rightarrow> lobby \<Rightarrow> (lobby \<times> help_call list) option" where
  "HandleQueryWorldRs wl worldSn code lb =
     (case map_of (lb_waitingForDungeon lb) worldSn of
        None \<Rightarrow> Some (lb, [])
      | Some players \<Rightarrow>
          if code = 0 then Some (lb, [])
          else do {
            (lb, calls) \<leftarrow> enter_public_all wl players lb;
            Some (lb\<lparr>lb_waitingForDungeon := smap_erase worldSn (lb_waitingForDungeon lb)\<rparr>, calls)
          })"

definition teleport_all :: "waiting \<Rightarrow> u64 \<Rightarrow> lobby \<Rightarrow> help_call list" where
  "teleport_all players worldSn lb =
     concat (map (\<lambda>one. case GetPlayerBySn (fst one) (lb_players lb) of
                          None \<Rightarrow> []
                        | Some player \<Rightarrow> WorldProxyHelp_Teleport player (lb_sn lb) worldSn) players)"

definition Lobby_HandleBroadcastCreateWorldProxy :: "world_table \<Rightarrow> int \<Rightarrow> u64 \<Rightarrow> lobby \<Rightarrow> lobby \<times> help_call list" where
  "Lobby_HandleBroadcastCreateWorldProxy t worldId worldSn lb =
     (case GetResource t worldId of
        None \<Rightarrow> (lb, [])
      | Some pWorldRes \<Rightarrow>
          if IsType PublicWorld pWorldRes
          then (case map_of (lb_waitingForWorld lb) worldId of
                  None \<Rightarrow> (lb, [])
                | Some players \<Rightarrow>
                    (lb\<lparr>lb_waitingForWorld := smap_erase worldId (lb_waitingForWorld lb)\<rparr>, teleport_all players worldSn lb))
          else (case map_of (lb_waitingForDungeon lb) worldSn of
                  None \<Rightarrow> (lb, [])
                | Some players \<Rightarrow>
                    (lb\<lparr>lb_waitingForDungeon := smap_erase worldSn (lb_waitingForDungeon lb)\<rparr>, teleport_all players worldSn lb)))"

definition Lobby_HandleTeleportAfter :: "player \<Rightarrow> lobby \<Rightarrow> lobby" where
  "Lobby_HandleTeleportAfter pPlayer lb = lb\<lparr>lb_players := RemovePlayerBySocket (player_socket pPlayer) (lb_players lb)\<rparr>"

subsection \<open>The token\<close>

lemma strncmp_eq_prefix: "\<forall>c \<in> set tok. c \<noteq> CHR 0x00 \<Longrightarrow> strncmp_eq tok other (length tok) = (\<exists>rest. other = tok @ rest)"
proof (induction tok arbitrary: other)
  case (Cons c tok)
  then show ?case by (cases other) auto
qed simp

lemma game_token_ok:
  assumes ok: "redis_ok api store" "rc_context rc" "word_ok acc"
    and v: "store r (RedisKeyAccountTokey @ acc) = Some (v, left)" "parse (c_str v) = (stored, sn)"
  shows "\<exists>r1. HandleGameTokenToRedis api rc parse acc r
      = Some (r1, [DispatchProto MI_GameTokenToRedisRs (GameTokenToRedisRs acc stored sn) None])
    \<and> store r1 (RedisKeyAccountTokey @ acc) = None"
proof -
  let ?key = "RedisKeyAccountTokey @ acc"
  have w: "word_ok ?key" using ok(3) by (simp add: word_ok_append)
  obtain r1 where r1: "ra_command api (''get '' @ ?key) r = (Some (ReplyString v), r1)" "store r1 = store r"
    using redis_okD(4) [OF ok(1) w, of r] v(1) by (auto simp: redis_answers_def)
  obtain r2 where r2: "Redis_Delete api rc ?key r1 = Some r2" "store r2 = (store r1)(?key := None)"
    using Redis_Delete_ok [OF ok(1,2) w] by blast
  show ?thesis using r1 r2 v ok(2) c_str_word [OF w] c_str_word [OF ok(3)]
    by (simp add: HandleGameTokenToRedis_def Redis_GetString_def redisCommand_def)
qed

definition free_socket :: "net_identify \<Rightarrow> player_collector \<Rightarrow> bool" where
  "free_socket i pc = (map_of (pc_players pc) (Socket (ni_socket i)) = None)"

text \<open>
  C28. The token of a client is compared only as far as it reaches: the lobby accepts every beginning of the stored
  token, the empty one included, and nothing else. The stored token is gone after the first try.
\<close>

theorem token_prefix_is_accepted:
  assumes ok: "redis_ok api store" "rc_context rc" "word_ok acc"
    and v: "store r (RedisKeyAccountTokey @ acc) = Some (v, left)" "parse (c_str v) = (stored, sn)"
    and free: "free_socket pk (lb_players lb)" and tok: "\<forall>c \<in> set tok. c \<noteq> CHR 0x00"
  shows "\<exists>lb1 ge1 calls r1 lb2 calls2. HandleLoginByToken pk acc tok lb ge = (lb1, ge1, calls)
    \<and> DispatchProto MI_GameTokenToRedis (GameTokenToRedis acc) None \<in> set calls
    \<and> HandleGameTokenToRedis api rc parse acc r
        = Some (r1, [DispatchProto MI_GameTokenToRedisRs (GameTokenToRedisRs acc stored sn) None])
    \<and> store r1 (RedisKeyAccountTokey @ acc) = None
    \<and> HandleGameTokenToRedisRs acc stored sn lb1 = Some (lb2, calls2)
    \<and> (SendPacketApp G2DB_QueryPlayer (QueryPlayer sn) APP_DB_MGR 0 \<in> set calls2) = (\<exists>rest. stored = tok @ rest)"
proof -
  obtain r1 where r1: "HandleGameTokenToRedis api rc parse acc r
      = Some (r1, [DispatchProto MI_GameTokenToRedisRs (GameTokenToRedisRs acc stored sn) None])"
      "store r1 (RedisKeyAccountTokey @ acc) = None" using game_token_ok [where store = store and r = r and parse = parse, OF ok v] by blast
  have "IsTokenValid tok stored = (\<exists>rest. stored = tok @ rest)" using strncmp_eq_prefix [OF tok] by (simp add: IsTokenValid_def)
  then show ?thesis using r1 free c_str_word [OF ok(3)]
    by (simp add: HandleLoginByToken_def AddPlayer_cases free_socket_def HandleGameTokenToRedisRs_def
        GetPlayerByAccount_def set_player_def)
qed

definition sample_lobby :: lobby where
  "sample_lobby = \<lparr>lb_sn = 9, lb_players = Collector_new, lb_waitingForWorld = [], lb_waitingForDungeon = []\<rparr>"

definition sample_ge :: game_globals where
  "sample_ge = \<lparr>ge_worlds = \<lparr>wl_publics = [], wl_worlds = []\<rparr>, ge_sockets = []\<rparr>"

definition client :: "int \<Rightarrow> net_identify" where
  "client s = \<lparr>ni_socket = \<lparr>Socket = s, NetType = TcpConnector\<rparr>, ni_tags = []\<rparr>"

theorem token_prefix_is_accepted_witness:
  "\<exists>lb1 ge1 calls r1 lb2 calls2. HandleLoginByToken (client 5) ''eve'' [] sample_lobby sample_ge = (lb1, ge1, calls)
    \<and> HandleGameTokenToRedis map_redis sample_rc (\<lambda>s. (s, 7)) ''eve''
          [RedisKeyAccountTokey @ ''eve'' \<mapsto> (''secret'', seconds RedisKeyAccountTokeyTimeout)]
        = Some (r1, [DispatchProto MI_GameTokenToRedisRs (GameTokenToRedisRs ''eve'' ''secret'' 7) None])
    \<and> HandleGameTokenToRedisRs ''eve'' ''secret'' 7 lb1 = Some (lb2, calls2)
    \<and> SendPacketApp G2DB_QueryPlayer (QueryPlayer 7) APP_DB_MGR 0 \<in> set calls2"
proof -
  let ?m = "[RedisKeyAccountTokey @ ''eve'' \<mapsto> (''secret'', seconds RedisKeyAccountTokeyTimeout)] :: store"
  have w: "word_ok ''eve''" "rc_context sample_rc" "free_socket (client 5) (lb_players sample_lobby)"
    by (simp_all add: word_ok_def sample_rc_def free_socket_def sample_lobby_def Collector_new_def)
  have m: "?m (RedisKeyAccountTokey @ ''eve'') = Some (''secret'', seconds RedisKeyAccountTokeyTimeout)" "(\<lambda>s. (s, 7 :: u64)) (c_str ''secret'') = (''secret'', 7)"
    by (simp_all add: c_str_def)
  show ?thesis
    using token_prefix_is_accepted [where api = map_redis and store = "\<lambda>m. m" and rc = sample_rc and acc = "''eve''" and r = ?m and v = "''secret''" and left = "seconds RedisKeyAccountTokeyTimeout" and parse = "\<lambda>s. (s, 7)"
        and stored = "''secret''" and sn = 7 and pk = "client 5" and tok = "[]" and lb = sample_lobby and ge = sample_ge] m w map_redis_ok by auto
qed

text \<open>
  The table of accounts has one entry for an account. When a second socket has logged in with the same account
  and the first one disconnects, the entry goes with it: the second session is still in the table of players, and no
  answer of the token store or of the database reaches it any more.
\<close>

theorem lobby_second_session_lost:
  assumes ok: "collector_ok (lb_players lb)"
    and free: "free_socket pk1 (lb_players lb)" "free_socket pk2 (lb_players lb)"
      "Socket (ni_socket pk1) \<noteq> Socket (ni_socket pk2)"
    and tag: "GetTagValue (ni_tags pk) TagAccount \<noteq> None" "Socket (ni_socket pk) = Socket (ni_socket pk1)"
  shows "\<exists>lb1 ge1 calls1 lb2 ge2 calls2 lb3. HandleLoginByToken pk1 acc tok1 lb ge = (lb1, ge1, calls1)
    \<and> HandleLoginByToken pk2 acc tok2 lb1 ge1 = (lb2, ge2, calls2)
    \<and> DispatchProto MI_GameTokenToRedis (GameTokenToRedis (c_str acc)) None \<in> set calls2
    \<and> Lobby_HandleNetworkDisconnect pk lb2 = lb3
    \<and> GetPlayerBySocket (Socket (ni_socket pk2)) (lb_players lb3) \<noteq> None
    \<and> HandleGameTokenToRedisRs acc tok2 sn lb3 = Some (lb3, [])
    \<and> HandleQueryPlayerRs t wl acc protoPlayer lb3 = Some (lb3, [])"
proof -
  have "map_of (smap_erase k m) k = None" for k :: int and m :: "(int, player) smap" by simp
  show ?thesis using assms
    by (simp add: HandleLoginByToken_def AddPlayer_cases free_socket_def HandleGameTokenToRedisRs_def HandleQueryPlayerRs_def
        GetPlayerByAccount_def set_player_def Lobby_HandleNetworkDisconnect_def RemovePlayerBySocket_def RemovePlayer_of_def
        GetPlayerBySocket_def split: option.split)
qed

theorem lobby_second_session_lost_witness:
  "\<exists>lb1 ge1 calls1 lb2 ge2 calls2 lb3. HandleLoginByToken (client 5) ''eve'' ''a'' sample_lobby sample_ge = (lb1, ge1, calls1)
    \<and> HandleLoginByToken (client 6) ''eve'' ''b'' lb1 ge1 = (lb2, ge2, calls2)
    \<and> Lobby_HandleNetworkDisconnect ((client 5)\<lparr>ni_tags := AddTagStr TagAccount ''eve'' []\<rparr>) lb2 = lb3
    \<and> GetPlayerBySocket (Socket (ni_socket (client 6))) (lb_players lb3) \<noteq> None
    \<and> HandleGameTokenToRedisRs ''eve'' ''b'' 7 lb3 = Some (lb3, [])"
proof -
  let ?pk = "(client 5)\<lparr>ni_tags := AddTagStr TagAccount ''eve'' []\<rparr>"
  have h: "collector_ok (lb_players sample_lobby)" "free_socket (client 5) (lb_players sample_lobby)"
      "free_socket (client 6) (lb_players sample_lobby)" "Socket (ni_socket (client 5)) \<noteq> Socket (ni_socket (client 6))"
      "GetTagValue (ni_tags ?pk) TagAccount \<noteq> None" "Socket (ni_socket ?pk) = Socket (ni_socket (client 5))"
    by (simp_all add: sample_lobby_def collector_ok_new free_socket_def Collector_new_def collector_ok_def client_def
        AddTagStr_def GetTagValue_def)
  show ?thesis
    using lobby_second_session_lost [OF h, of "''eve''" "''a''" sample_ge "''b''" 7 ResourceWorldMgr
        "ge_worlds sample_ge" Player_empty] by blast
qed

subsection \<open>Waiting for a public world\<close>

fun enter_each :: "world_locator \<Rightarrow> player list \<Rightarrow> lobby \<Rightarrow> (lobby \<times> help_call list) option" where
  "enter_each wl [] lb = Some (lb, [])"
| "enter_each wl (p # ps) lb = do {
     (lb, calls) \<leftarrow> EnterPublicWorld wl p lb;
     (lb, calls') \<leftarrow> enter_each wl ps lb;
     Some (lb, calls @ calls')
   }"

definition bound_for :: "int \<Rightarrow> player \<Rightarrow> bool" where
  "bound_for W p = (\<exists>lm w. pl_LastMap p = Some lm \<and> lm_pPublic lm = Some w \<and> lw_WorldId w = W)"

definition waiting_for :: "int \<Rightarrow> lobby \<Rightarrow> waiting" where
  "waiting_for W lb = (case map_of (lb_waitingForWorld lb) W of None \<Rightarrow> [] | Some ps \<Rightarrow> ps)"

lemma smap_assign_not_Nil [simp]: "smap_assign k v m \<noteq> []"
  by (cases "(k, v, m)" rule: smap_assign.cases) auto

lemma EnterPublicWorld_waits:
  assumes "bound_for W p" "GetWorldSnById W wl = INVALID_SN"
  shows "\<exists>lb1. EnterPublicWorld wl p lb
      = Some (lb1, if waiting_for W lb = [] then [SendPacketApp G2M_RequestWorld (RequestWorld W) APP_APPMGR 0] else [])
    \<and> waiting_for W lb1 = smap_emplace (pl_playerSn p) () (waiting_for W lb) \<and> waiting_for W lb1 \<noteq> []
    \<and> map_of (lb_waitingForWorld lb1) W \<noteq> None \<and> lb_players lb1 = lb_players lb \<and> lb_sn lb1 = lb_sn lb"
proof -
  let ?req = "[SendPacketApp G2M_RequestWorld (RequestWorld W) APP_APPMGR 0]"
  obtain m calls where m: "wait_for W (pl_playerSn p) ?req (lb_waitingForWorld lb) = (m, calls)" by force
  then have "calls = (if waiting_for W lb = [] then ?req else [])" "map_of m W = Some (smap_emplace (pl_playerSn p) () (waiting_for W lb))"
    by (cases "map_of (lb_waitingForWorld lb) W"; auto simp: wait_for_def waiting_for_def Let_def)+
  moreover have "smap_emplace (pl_playerSn p) () (waiting_for W lb) \<noteq> []" by (auto simp: smap_emplace_def)
  moreover have "EnterPublicWorld wl p lb = Some (lb\<lparr>lb_waitingForWorld := m\<rparr>, calls)"
    using assms m by (auto simp: bound_for_def EnterPublicWorld_def)
  ultimately show ?thesis by (intro exI [of _ "lb\<lparr>lb_waitingForWorld := m\<rparr>"]) (simp add: waiting_for_def)
qed

lemma enter_each_waits:
  assumes "\<forall>p \<in> set ps. bound_for W p" "GetWorldSnById W wl = INVALID_SN" "waiting_for W lb \<noteq> []"
    "map_of (lb_waitingForWorld lb) W \<noteq> None" "smap_ok (waiting_for W lb)"
  shows "\<exists>lb1. enter_each wl ps lb = Some (lb1, []) \<and> smap_ok (waiting_for W lb1) \<and> waiting_for W lb1 \<noteq> []
    \<and> fst ` set (waiting_for W lb1) = fst ` set (waiting_for W lb) \<union> pl_playerSn ` set ps
    \<and> map_of (lb_waitingForWorld lb1) W \<noteq> None \<and> lb_players lb1 = lb_players lb \<and> lb_sn lb1 = lb_sn lb"
  using assms
proof (induction ps arbitrary: lb)
  case (Cons p ps)
  obtain lb1 where lb1: "EnterPublicWorld wl p lb = Some (lb1, [])"
      "waiting_for W lb1 = smap_emplace (pl_playerSn p) () (waiting_for W lb)" "waiting_for W lb1 \<noteq> []"
      "map_of (lb_waitingForWorld lb1) W \<noteq> None" "lb_players lb1 = lb_players lb" "lb_sn lb1 = lb_sn lb"
    using EnterPublicWorld_waits [of W p wl lb] Cons.prems by auto
  have ok: "smap_ok (waiting_for W lb1)" using Cons.prems(5) lb1(2) by simp
  have keys: "fst ` set (waiting_for W lb1) = insert (pl_playerSn p) (fst ` set (waiting_for W lb))"
    unfolding lb1(2) smap_emplace_def by (auto simp: map_of_eq_None_iff)
  obtain lb2 where lb2: "enter_each wl ps lb1 = Some (lb2, [])" "smap_ok (waiting_for W lb2)" "waiting_for W lb2 \<noteq> []"
      "fst ` set (waiting_for W lb2) = fst ` set (waiting_for W lb1) \<union> pl_playerSn ` set ps"
      "map_of (lb_waitingForWorld lb2) W \<noteq> None" "lb_players lb2 = lb_players lb1" "lb_sn lb2 = lb_sn lb1"
    using Cons.IH [of lb1] Cons.prems(1,2) lb1(3,4) ok by auto
  show ?case using lb1(1,5,6) lb2 keys by auto
qed auto

definition found :: "lobby \<Rightarrow> player \<Rightarrow> bool" where
  "found lb p = (GetPlayerBySn (pl_playerSn p) (lb_players lb) = Some p)"

text \<open>
  C29. However many players of a lobby are to enter a public world that does not exist yet, it is requested once. When
  its proxy is announced, each of them is teleported there, exactly once and in the order of the serial numbers, and
  none of them waits any longer.
\<close>

theorem lobby_waits_once:
  assumes ps: "ps \<noteq> []" "\<forall>p \<in> set ps. bound_for W p \<and> found lb p"
    and w: "GetWorldSnById W wl = INVALID_SN" "map_of (lb_waitingForWorld lb) W = None"
    and t: "GetResource t W = Some res" "IsType PublicWorld res"
  shows "\<exists>lb1 qs lb2. enter_each wl ps lb = Some (lb1, [SendPacketApp G2M_RequestWorld (RequestWorld W) APP_APPMGR 0])
    \<and> Lobby_HandleBroadcastCreateWorldProxy t W sn lb1
        = (lb2, concat (map (\<lambda>p. WorldProxyHelp_Teleport p (lb_sn lb) sn) qs))
    \<and> set qs = set ps \<and> sorted_wrt (<) (map pl_playerSn qs) \<and> map_of (lb_waitingForWorld lb2) W = None"
proof -
  obtain p ps' where c: "ps = p # ps'" using ps(1) by (cases ps) auto
  have b: "bound_for W p" "\<forall>p \<in> set ps'. bound_for W p" using ps(2) c by simp_all
  have wf: "waiting_for W lb = []" using w(2) by (simp add: waiting_for_def)
  obtain lb1 where lb1: "EnterPublicWorld wl p lb = Some (lb1, [SendPacketApp G2M_RequestWorld (RequestWorld W) APP_APPMGR 0])"
      "waiting_for W lb1 = smap_emplace (pl_playerSn p) () []" "waiting_for W lb1 \<noteq> []"
      "map_of (lb_waitingForWorld lb1) W \<noteq> None" "lb_players lb1 = lb_players lb" "lb_sn lb1 = lb_sn lb"
    using EnterPublicWorld_waits [OF b(1) w(1), of lb] wf by auto
  have ok: "smap_ok (waiting_for W lb1)" unfolding lb1(2) by simp
  obtain lb2 where lb2: "enter_each wl ps' lb1 = Some (lb2, [])" "smap_ok (waiting_for W lb2)"
      "fst ` set (waiting_for W lb2) = fst ` set (waiting_for W lb1) \<union> pl_playerSn ` set ps'"
      "map_of (lb_waitingForWorld lb2) W \<noteq> None" "lb_players lb2 = lb_players lb1" "lb_sn lb2 = lb_sn lb1"
    using enter_each_waits [OF b(2) w(1) lb1(3,4) ok] by blast
  have keys: "fst ` set (waiting_for W lb2) = pl_playerSn ` set ps" using lb2(3) c unfolding lb1(2) by (simp add: smap_emplace_def)
  define f where "f sn = the (GetPlayerBySn sn (lb_players lb))" for sn
  define qs where "qs = map (\<lambda>x. f (fst x)) (waiting_for W lb2)"
  have f: "GetPlayerBySn k (lb_players lb) = Some (f k) \<and> pl_playerSn (f k) = k" if "k \<in> fst ` set (waiting_for W lb2)" for k
    using that ps(2) unfolding keys by (auto simp: found_def f_def)
  have q: "GetPlayerBySn (fst x) (lb_players lb) = Some (f (fst x))" "pl_playerSn (f (fst x)) = fst x"
    if "x \<in> set (waiting_for W lb2)" for x using f [of "fst x"] that by simp_all
  have "f ` pl_playerSn ` set ps = set ps" using ps(2) by (force simp: found_def f_def)
  then have 1: "set qs = set ps" unfolding qs_def keys [symmetric] by (simp add: image_image)
  have "map pl_playerSn qs = map fst (waiting_for W lb2)" using q(2) by (simp add: qs_def)
  then have 2: "sorted_wrt (<) (map pl_playerSn qs)" using lb2(2) by (simp add: smap_ok_def)
  have "teleport_all (waiting_for W lb2) sn lb2 = concat (map (\<lambda>p. WorldProxyHelp_Teleport p (lb_sn lb) sn) qs)"
    unfolding teleport_all_def qs_def map_map comp_def lb2(5,6) lb1(5,6) using q(1)
    by (intro arg_cong [where f = concat] map_cong refl) simp
  moreover have "map_of (lb_waitingForWorld lb2) W = Some (waiting_for W lb2)" using lb2(4) by (auto simp: waiting_for_def)
  ultimately show ?thesis using lb1(1) lb2(1) c t 1 2 by (auto simp: Lobby_HandleBroadcastCreateWorldProxy_def)
qed

definition two_waiting :: "player list" where
  "two_waiting = map (\<lambda>i. (Player_Awake (client i) [])\<lparr>pl_playerSn := word_of_int i,
     pl_LastMap := Some (LastMap_new\<lparr>lm_pPublic := Some (LastWorld_empty\<lparr>lw_WorldId := 2\<rparr>)\<rparr>)\<rparr>) [8, 3]"

definition town_table :: world_table where
  "town_table = ResourceWorldMgr\<lparr>wt_refs := [(2, ResourceWorld\<lparr>rw_worldType := 3\<rparr>)]\<rparr>"

theorem lobby_waits_once_witness:
  "\<exists>lb1 qs lb2. enter_each (ge_worlds sample_ge) two_waiting (sample_lobby\<lparr>lb_players := Collector_new\<lparr>pc_players := [(3, two_waiting ! 1), (8, two_waiting ! 0)]\<rparr>\<rparr>)
      = Some (lb1, [SendPacketApp G2M_RequestWorld (RequestWorld 2) APP_APPMGR 0])
    \<and> Lobby_HandleBroadcastCreateWorldProxy town_table 2 77 lb1 = (lb2, concat (map (\<lambda>p. WorldProxyHelp_Teleport p 9 77) qs))
    \<and> set qs = set two_waiting"
proof -
  let ?lb = "sample_lobby\<lparr>lb_players := Collector_new\<lparr>pc_players := [(3, two_waiting ! 1), (8, two_waiting ! 0)]\<rparr>\<rparr>"
  have 1: "two_waiting \<noteq> []" by (simp add: two_waiting_def)
  have 2: "\<forall>p \<in> set two_waiting. bound_for 2 p \<and> found ?lb p"
    by (simp add: two_waiting_def bound_for_def found_def LastWorld_empty_def LastMap_new_def GetPlayerBySn_def smap_first_def)
  have 3: "GetWorldSnById 2 (ge_worlds sample_ge) = INVALID_SN" "map_of (lb_waitingForWorld ?lb) 2 = None"
    by (simp_all add: GetWorldSnById_def sample_ge_def sample_lobby_def)
  have 4: "GetResource town_table 2 = Some (ResourceWorld\<lparr>rw_worldType := 3\<rparr>)" "IsType PublicWorld (ResourceWorld\<lparr>rw_worldType := 3\<rparr>)"
    by (simp_all add: GetResource_def town_table_def IsType_def)
  have 5: "lb_sn ?lb = 9" by (simp add: sample_lobby_def)
  show ?thesis using lobby_waits_once [OF 1 2 3 4, of 77] unfolding 5 by blast
qed

end
