(* ===== verification/Gather.thy ===== *)
theory Gather
  imports Lobby AppSync
begin

text \<open>
  \<open>WorldProxyGather\<close> (\<open>world_proxy_gather.cpp\<close>) of a game server: the players that are online in the process, their
  teams (\<open>game_team.h\<close>), and the load of its world proxies, which \<open>WorldProxyComponentGather\<close> reports; and
  \<open>SpaceSyncHandler\<close>, which knows the space servers. A team is shared by the entries of its members in \<open>teamMap\<close>: an
  entry is a pointer into \<open>ga_teams\<close>, where teams stay for ever, or a null pointer. \<open>None\<close> as a result is a null
  pointer that is dereferenced.
\<close>

subsection \<open>\<open>GameTeam\<close>\<close>

record game_team =
  gt_dungeonId :: int
  gt_dungeonSn :: u64
  gt_captain :: u64
  gt_members :: "u64 list"

definition GameTeam :: "u64 \<Rightarrow> game_team" where
  "GameTeam captain = \<lparr>gt_dungeonId = 0, gt_dungeonSn = 0, gt_captain = captain, gt_members = []\<rparr>"

definition AddMember :: "u64 \<Rightarrow> game_team \<Rightarrow> game_team" where
  "AddMember sn t = t\<lparr>gt_members := gt_members t @ [sn]\<rparr>"

definition RemoveMember :: "u64 \<Rightarrow> game_team \<Rightarrow> game_team" where
  "RemoveMember sn t =
     (let t = t\<lparr>gt_members := remove1 sn (gt_members t)\<rparr>
      in case gt_members t of [] \<Rightarrow> t | front # rest \<Rightarrow> t\<lparr>gt_captain := front\<rparr>)"

definition IsCaptain :: "u64 \<Rightarrow> game_team \<Rightarrow> bool" where
  "IsCaptain sn t = (sn = gt_captain t)"

subsection \<open>Sending to a player that may not be there\<close>

text \<open>
  A message for a null pointer gets a packet without an identity, which \<open>SendPacket\<close> gives to the threads of the
  process.
\<close>

definition SendPacket_to :: "int \<Rightarrow> proto \<Rightarrow> player option \<Rightarrow> help_call" where
  "SendPacket_to msgId proto pPlayer =
     (case pPlayer of None \<Rightarrow> DispatchProto msgId proto None | Some p \<Rightarrow> SendPacket msgId proto (pl_ident p))"

subsection \<open>\<open>WorldProxyGather\<close>\<close>

record world_proxy_info =
  wi_WorldSn :: u64
  wi_WorldId :: int
  wi_Online :: int

record gather =
  ga_players :: player_collector
  ga_teamMap :: "(u64, nat option) smap"
  ga_teams :: "game_team list"
  ga_maps :: "(u64, world_proxy_info) smap"

definition Gather_Awake :: gather where
  "Gather_Awake = \<lparr>ga_players = Collector_new, ga_teamMap = [], ga_teams = [], ga_maps = []\<rparr>"

definition Gather_BackToPool :: "gather \<Rightarrow> gather" where
  "Gather_BackToPool ga = ga\<lparr>ga_maps := [], ga_teamMap := []\<rparr>"

text \<open>The sum of the loads is not wrapped at 32 bits.\<close>

definition SyncGameInfo :: "global \<Rightarrow> gather \<Rightarrow> help_call list" where
  "SyncGameInfo g ga =
     [SendPacketApp MI_AppInfoSync
        (AppInfoSync \<lparr>as_app_id = g_appId g, as_app_type = g_appType g,
                      as_online = foldl (\<lambda>v p. v + wi_Online (snd p)) 0 (ga_maps ga)\<rparr>) APP_APPMGR 0]"

definition HandleWorldProxySyncToGather :: "u64 \<Rightarrow> int \<Rightarrow> bool \<Rightarrow> int \<Rightarrow> gather \<Rightarrow> gather" where
  "HandleWorldProxySyncToGather worldSn worldId isRemove online ga =
     (if isRemove then ga\<lparr>ga_maps := smap_erase worldSn (ga_maps ga)\<rparr>
      else (let info = (case map_of (ga_maps ga) worldSn of
                          None \<Rightarrow> \<lparr>wi_WorldSn = worldSn, wi_WorldId = worldId, wi_Online = 0\<rparr>
                        | Some info \<Rightarrow> info)
            in ga\<lparr>ga_maps := smap_assign worldSn (info\<lparr>wi_Online := online\<rparr>) (ga_maps ga)\<rparr>))"

text \<open>\<open>teamMap[sn]\<close>: an entry that does not exist is made, with a null pointer.\<close>

definition team_entry :: "u64 \<Rightarrow> gather \<Rightarrow> nat option \<times> gather" where
  "team_entry sn ga =
     (case map_of (ga_teamMap ga) sn of
        None \<Rightarrow> (None, ga\<lparr>ga_teamMap := smap_assign sn None (ga_teamMap ga)\<rparr>)
      | Some pTeam \<Rightarrow> (pTeam, ga))"

definition Gather_HandleNetworkDisconnect :: "net_identify \<Rightarrow> gather \<Rightarrow> gather \<times> help_call list" where
  "Gather_HandleNetworkDisconnect pPacket ga =
     (let pPlayer = GetPlayerBySocket (Socket (ni_socket pPacket)) (ga_players ga) in
      case (GetTagValue (ni_tags pPacket) TagAccount, pPlayer) of
        (Some pTagValue, Some pPlayer) \<Rightarrow>
          (let (pTeam, ga) = team_entry (pl_playerSn pPlayer) ga;
               (ga, calls) =
                 (case pTeam of
                    None \<Rightarrow> (ga, [])
                  | Some a \<Rightarrow>
                      (let team = RemoveMember (pl_playerSn pPlayer) (ga_teams ga ! a);
                           proto = CreateTeam (gt_captain team) (gt_members team)
                       in (ga\<lparr>ga_teams := (ga_teams ga)[a := team]\<rparr>,
                           map (\<lambda>sn. SendPacket_to MI_CreateTeam proto (GetPlayerBySn sn (ga_players ga))) (gt_members team))))
           in (ga\<lparr>ga_players := RemovePlayerBySocket (Socket (ni_socket pPacket)) (ga_players ga)\<rparr>, calls))
      | _ \<Rightarrow> (ga, []))"

definition Gather_HandleLoginByToken :: "net_identify \<Rightarrow> string \<Rightarrow> gather \<Rightarrow> gather \<times> help_call list" where
  "Gather_HandleLoginByToken pPacket acc ga =
     (case AddPlayer pPacket acc (ga_players ga) of
        None \<Rightarrow> (ga, [DispatchIdent MI_NetworkRequestDisconnect (Some pPacket)])
      | Some (pPlayer, pc, calls) \<Rightarrow> (ga\<lparr>ga_players := pc\<rparr>, calls))"

definition Gather_HandleQueryPlayerRs :: "world_table \<Rightarrow> string \<Rightarrow> player_proto \<Rightarrow> gather \<Rightarrow> gather option" where
  "Gather_HandleQueryPlayerRs t acc protoPlayer ga =
     (case GetPlayerByAccount acc (ga_players ga) of
        (None, pc) \<Rightarrow> Some (ga\<lparr>ga_players := pc\<rparr>)
      | (Some pPlayer, pc) \<Rightarrow> do {
          pPlayer \<leftarrow> Player_ParserFromProto t (pp_sn protoPlayer) protoPlayer pPlayer;
          Some (ga\<lparr>ga_players := set_player pPlayer pc\<rparr>)
        })"

text \<open>The loop over the members: \<open>a\<close> is the new team.\<close>

fun create_team :: "nat \<Rightarrow> proto \<Rightarrow> u64 list \<Rightarrow> gather \<Rightarrow> gather \<times> help_call list" where
  "create_team a proto [] ga = (ga, [])"
| "create_team a proto (sn # sns) ga =
     (let ga = ga\<lparr>ga_teams := (ga_teams ga)[a := AddMember sn (ga_teams ga ! a)],
                  ga_teamMap := smap_emplace sn (Some a) (ga_teamMap ga)\<rparr>;
          (ga', calls) = create_team a proto sns ga
      in (ga', SendPacket_to MI_CreateTeam proto (GetPlayerBySn sn (ga_players ga)) # calls))"

definition HandleCreateTeam :: "u64 \<Rightarrow> u64 list \<Rightarrow> gather \<Rightarrow> gather \<times> help_call list" where
  "HandleCreateTeam captain members ga =
     create_team (length (ga_teams ga)) (CreateTeam captain members) members (ga\<lparr>ga_teams := ga_teams ga @ [GameTeam captain]\<rparr>)"

subsection \<open>\<open>WorldProxyComponentGather\<close> and \<open>SpaceSyncHandler\<close>\<close>

definition SyncWorldInfoToGather :: "u64 \<Rightarrow> int \<Rightarrow> player_collector \<Rightarrow> help_call list" where
  "SyncWorldInfoToGather worldSn worldId pc =
     [DispatchProto MI_WorldProxySyncToGather (WorldProxySyncToGather worldSn False worldId (OnlineSize pc)) None]"

definition ComponentGather_BackToPool :: "u64 \<Rightarrow> help_call list" where
  "ComponentGather_BackToPool worldSn =
     [DispatchProto MI_WorldProxySyncToGather (WorldProxySyncToGather worldSn True 0 0) None]"

definition SpaceSync_BackToPool :: "apps \<Rightarrow> apps" where
  "SpaceSync_BackToPool apps = []"

definition GetSpaceApp :: "apps \<Rightarrow> (app_info \<times> apps) option" where
  "GetSpaceApp apps = GetOneApp APP_SPACE apps"

definition SpaceSync_HandleAppInfoSync :: "yaml \<Rightarrow> net_identify \<Rightarrow> app_info_sync \<Rightarrow> apps \<Rightarrow> apps" where
  "SpaceSync_HandleAppInfoSync pYaml pPacket proto apps = AppInfoSyncHandle pYaml pPacket proto apps"

subsection \<open>The messages of the gatherer\<close>

datatype gather_msg =
    GmNetworkDisconnect net_identify
  | GmWorldProxySync u64 int bool int
  | GmLoginByToken net_identify string
  | GmQueryPlayerRs string player_proto
  | GmCreateTeam u64 "u64 list"

fun gather_handle :: "world_table \<Rightarrow> gather_msg \<Rightarrow> gather \<Rightarrow> (gather \<times> help_call list) option" where
  "gather_handle t (GmNetworkDisconnect i) ga = Some (Gather_HandleNetworkDisconnect i ga)"
| "gather_handle t (GmWorldProxySync sn k b online) ga = Some (HandleWorldProxySyncToGather sn k b online ga, [])"
| "gather_handle t (GmLoginByToken i acc) ga = Some (Gather_HandleLoginByToken i acc ga)"
| "gather_handle t (GmQueryPlayerRs acc proto) ga = map_option (\<lambda>ga. (ga, [])) (Gather_HandleQueryPlayerRs t acc proto ga)"
| "gather_handle t (GmCreateTeam c ms) ga = Some (HandleCreateTeam c ms ga)"

fun gather_run :: "world_table \<Rightarrow> gather_msg list \<Rightarrow> gather \<Rightarrow> (gather \<times> help_call list) option" where
  "gather_run t [] ga = Some (ga, [])"
| "gather_run t (msg # msgs) ga = do {
     (ga, calls) \<leftarrow> gather_handle t msg ga;
     (ga, calls') \<leftarrow> gather_run t msgs ga;
     Some (ga, calls @ calls')
   }"

text \<open>
  No handler removes or replaces an entry of \<open>teamMap\<close>: \<open>emplace\<close> keeps what is there. So the first entry of a
  player is also its last one.
\<close>

lemma team_entry_keeps:
  "map_of (ga_teamMap ga) sn = Some e \<Longrightarrow> map_of (ga_teamMap (snd (team_entry k ga))) sn = Some e"
  by (auto simp: team_entry_def split: option.split)

lemma create_team_keeps:
  "map_of (ga_teamMap ga) sn = Some e \<Longrightarrow> map_of (ga_teamMap (fst (create_team a proto sns ga))) sn = Some e"
proof (induction sns arbitrary: ga)
  case (Cons k sns)
  let ?g = "ga\<lparr>ga_teams := (ga_teams ga)[a := AddMember k (ga_teams ga ! a)], ga_teamMap := smap_emplace k (Some a) (ga_teamMap ga)\<rparr>"
  have "map_of (ga_teamMap ?g) sn = Some e" using Cons.prems by (auto simp: smap_emplace_def)
  from Cons.IH [OF this] show ?case by (simp add: Let_def case_prod_beta)
qed simp

lemma gather_handle_keeps:
  assumes "gather_handle t msg ga = Some (ga', calls)" "map_of (ga_teamMap ga) sn = Some e"
  shows "map_of (ga_teamMap ga') sn = Some e"
proof (cases msg)
  case (GmNetworkDisconnect i)
  have "map_of (ga_teamMap (fst (Gather_HandleNetworkDisconnect i ga))) sn = Some e"
  proof (cases "(GetTagValue (ni_tags i) TagAccount, GetPlayerBySocket (Socket (ni_socket i)) (ga_players ga))")
    case (Pair a b)
    show ?thesis
    proof (cases "a = None \<or> b = None")
      case True
      then show ?thesis using Pair assms(2) by (auto simp: Gather_HandleNetworkDisconnect_def split: option.split)
    next
      case False
      then obtain v p where v: "a = Some v" "b = Some p" by auto
      obtain e' g where g: "team_entry (pl_playerSn p) ga = (e', g)" by force
      have "map_of (ga_teamMap g) sn = Some e" using team_entry_keeps [OF assms(2), of "pl_playerSn p"] g by simp
      then show ?thesis using Pair v g by (cases e') (simp_all add: Gather_HandleNetworkDisconnect_def Let_def)
    qed
  qed
  then show ?thesis using assms(1) GmNetworkDisconnect by simp
next
  case (GmCreateTeam c ms)
  have "fst (HandleCreateTeam c ms ga) = ga'" using assms(1) GmCreateTeam by simp
  moreover have "map_of (ga_teamMap (fst (HandleCreateTeam c ms ga))) sn = Some e"
    unfolding HandleCreateTeam_def by (rule create_team_keeps) (use assms(2) in simp)
  ultimately show ?thesis by simp
next
  case (GmQueryPlayerRs acc proto)
  then show ?thesis using assms
    by (auto simp: Gather_HandleQueryPlayerRs_def GetPlayerByAccount_def bind_eq_Some_conv split: option.splits)
qed (use assms in \<open>auto simp: HandleWorldProxySyncToGather_def Gather_HandleLoginByToken_def split: option.splits if_splits\<close>)

lemma gather_run_keeps:
  "gather_run t msgs ga = Some (ga', calls) \<Longrightarrow> map_of (ga_teamMap ga) sn = Some e \<Longrightarrow> map_of (ga_teamMap ga') sn = Some e"
proof (induction msgs arbitrary: ga calls)
  case (Cons msg msgs)
  then obtain g c c' where "gather_handle t msg ga = Some (g, c)" "gather_run t msgs g = Some (ga', c')"
    by (auto simp: bind_eq_Some_conv)
  then show ?case using Cons.IH gather_handle_keeps Cons.prems(2) by blast
qed simp

text \<open>A player that leaves without a team leaves a null pointer behind.\<close>

lemma disconnect_leaves_null:
  assumes "GetTagValue (ni_tags i) TagAccount \<noteq> None" "GetPlayerBySocket (Socket (ni_socket i)) (ga_players ga) = Some p"
    "map_of (ga_teamMap ga) (pl_playerSn p) = None"
  shows "map_of (ga_teamMap (fst (Gather_HandleNetworkDisconnect i ga))) (pl_playerSn p) = Some None"
  using assms by (auto simp: Gather_HandleNetworkDisconnect_def team_entry_def)

subsection \<open>A team with a member that is not there\<close>

lemma SendPacket_to_null:
  "perform_one w mg (SendPacket_to msgId proto None) s =
     (let (pPacket, s) = CreatePacket msgId None s in do {
        s \<leftarrow> serialize (wr_proto w proto) pPacket s;
        Some (dispatch pPacket s)
      })"
  by (simp add: SendPacket_to_def Help_DispatchProto_def)

text \<open>
  Every \<open>CreateTeam\<close> that a handler dispatches comes back to the gatherer, which is registered for it. One frame
  handles the messages that wait and collects those that were made.
\<close>

fun team_messages :: "help_call list \<Rightarrow> (u64 \<times> u64 list) list" where
  "team_messages [] = []"
| "team_messages (DispatchProto msgId (CreateTeam captain members) i # calls) =
     (if msgId = MI_CreateTeam then (captain, members) # team_messages calls else team_messages calls)"
| "team_messages (c # calls) = team_messages calls"

fun team_frame :: "(u64 \<times> u64 list) list \<Rightarrow> gather \<Rightarrow> (u64 \<times> u64 list) list \<times> gather" where
  "team_frame [] ga = ([], ga)"
| "team_frame ((captain, members) # msgs) ga =
     (let (ga, calls) = HandleCreateTeam captain members ga;
          (msgs, ga) = team_frame msgs ga
      in (team_messages calls @ msgs, ga))"

fun team_frames :: "nat \<Rightarrow> (u64 \<times> u64 list) list \<Rightarrow> gather \<Rightarrow> (u64 \<times> u64 list) list \<times> gather" where
  "team_frames 0 msgs ga = (msgs, ga)"
| "team_frames (Suc n) msgs ga = (let (msgs, ga) = team_frame msgs ga in team_frames n msgs ga)"

definition absent :: "gather \<Rightarrow> u64 \<Rightarrow> bool" where
  "absent ga sn = (GetPlayerBySn sn (ga_players ga) = None)"

lemma team_messages_SendPacket_to:
  "team_messages (SendPacket_to MI_CreateTeam (CreateTeam c ms) p # calls)
     = (if p = None then (c, ms) # team_messages calls else team_messages calls)"
  by (cases p) (simp_all add: SendPacket_to_def)

lemma create_team_messages:
  "create_team a (CreateTeam c ms) sns ga = (ga', calls) \<Longrightarrow>
     team_messages calls = replicate (length (filter (absent ga) sns)) (c, ms) \<and> ga_players ga' = ga_players ga
     \<and> length (ga_teams ga') = length (ga_teams ga)"
proof (induction sns arbitrary: ga ga' calls)
  case (Cons sn sns)
  let ?g = "ga\<lparr>ga_teams := (ga_teams ga)[a := AddMember sn (ga_teams ga ! a)], ga_teamMap := smap_emplace sn (Some a) (ga_teamMap ga)\<rparr>"
  obtain g1 calls1 where r: "create_team a (CreateTeam c ms) sns ?g = (g1, calls1)" by force
  have "absent ?g = absent ga" by (simp add: absent_def fun_eq_iff)
  then show ?case using Cons.IH [OF r] Cons.prems r by (auto simp: team_messages_SendPacket_to absent_def)
qed simp

lemma HandleCreateTeam_messages:
  assumes "HandleCreateTeam c ms ga = (ga', calls)"
  shows "team_messages calls = replicate (length (filter (absent ga) ms)) (c, ms)" "ga_players ga' = ga_players ga"
    "length (ga_teams ga') = Suc (length (ga_teams ga))"
  using create_team_messages [OF assms [unfolded HandleCreateTeam_def]] by (simp_all add: absent_def [abs_def])

lemma team_frame_replicate:
  "\<exists>ga'. team_frame (replicate m (c, ms)) ga = (replicate (m * length (filter (absent ga) ms)) (c, ms), ga')
     \<and> ga_players ga' = ga_players ga \<and> length (ga_teams ga') = length (ga_teams ga) + m"
proof (induction m arbitrary: ga)
  case (Suc m)
  obtain g calls where g: "HandleCreateTeam c ms ga = (g, calls)" by force
  note h = HandleCreateTeam_messages [OF g]
  have a: "absent g = absent ga" by (simp add: absent_def fun_eq_iff h(2))
  obtain g' where g': "team_frame (replicate m (c, ms)) g = (replicate (m * length (filter (absent ga) ms)) (c, ms), g')"
      "ga_players g' = ga_players g" "length (ga_teams g') = length (ga_teams g) + m" using Suc.IH [of g] a by auto
  show ?case using g g' h by (simp add: replicate_add)
qed simp

text \<open>
  C30. A request to make a team names its members, and the client that answers an invitation chooses one of them. Every
  member that is not online makes the request come back in the next frame: \<open>k\<close> of them multiply it by \<open>k\<close> in every
  frame, for ever, and each request that is handled allocates a team that is never released.
\<close>

theorem team_request_comes_back:
  "\<exists>ga'. team_frames n [(captain, members)] ga
      = (replicate (length (filter (absent ga) members) ^ n) (captain, members), ga')
    \<and> length (ga_teams ga') = length (ga_teams ga) + (\<Sum>i<n. length (filter (absent ga) members) ^ i)"
proof -
  have "\<exists>ga'. team_frames n (replicate m (captain, members)) ga
        = (replicate (m * length (filter (absent ga) members) ^ n) (captain, members), ga')
      \<and> length (ga_teams ga') = length (ga_teams ga) + m * (\<Sum>i<n. length (filter (absent ga) members) ^ i)" for m ga
  proof (induction n arbitrary: m ga)
    case (Suc n)
    let ?k = "length (filter (absent ga) members)"
    obtain g where g: "team_frame (replicate m (captain, members)) ga = (replicate (m * ?k) (captain, members), g)"
        "ga_players g = ga_players ga" "length (ga_teams g) = length (ga_teams ga) + m"
      using team_frame_replicate [of m captain members ga] by blast
    have a: "absent g = absent ga" by (simp add: absent_def fun_eq_iff g(2))
    have "(\<Sum>i<Suc n. ?k ^ i) = 1 + ?k * (\<Sum>i<n. ?k ^ i)" by (simp only: sum.lessThan_Suc_shift) (simp add: sum_distrib_left)
    then show ?case using Suc.IH [of "m * ?k" g] g by (auto simp: a algebra_simps)
  qed simp
  from this [of 1 ga] show ?thesis by simp
qed

end
