(* ===== verification/Teleporting.thy ===== *)
theory Teleporting
  imports Gather
begin

text \<open>
  How a player leaves a world proxy (\<open>teleport_object.cpp\<close>, \<open>world_component_teleport.cpp\<close>): a teleport object waits
  for the target world to be announced and for the data of the player to come back from its old world, in either
  order. The record of the world proxy is here, its handlers are in \<open>WorldProxy\<close>. What all threads of the process
  share is an extension of the record of \<open>Lobby\<close>. \<open>None\<close> is a null pointer that is dereferenced.
\<close>

subsection \<open>Teleport objects\<close>

datatype teleport_flag_type = FlagNone | FlagWaiting | FlagCompleted

record 'v teleport_flag =
  tf_Flag :: teleport_flag_type
  tf_Value :: 'v

definition SetValue :: "'v \<Rightarrow> 'v teleport_flag \<Rightarrow> 'v teleport_flag" where
  "SetValue v f = f\<lparr>tf_Value := v, tf_Flag := FlagCompleted\<rparr>"

definition IsCompleted :: "'v teleport_flag \<Rightarrow> bool" where
  "IsCompleted f = (tf_Flag f = FlagCompleted)"

record teleport_object =
  to_FlagWorld :: "u64 teleport_flag"
  to_FlagPlayerSync :: "bool teleport_flag"
  to_targetWorldId :: int
  to_playerSn :: u64

definition TeleportObject_Awake :: "int \<Rightarrow> u64 \<Rightarrow> teleport_object" where
  "TeleportObject_Awake worldId playerSn =
     \<lparr>to_FlagWorld = \<lparr>tf_Flag = FlagNone, tf_Value = 0\<rparr>, to_FlagPlayerSync = \<lparr>tf_Flag = FlagNone, tf_Value = False\<rparr>,
      to_targetWorldId = worldId, to_playerSn = playerSn\<rparr>"

definition TeleportObject_BackToPool :: "teleport_object \<Rightarrow> teleport_object" where
  "TeleportObject_BackToPool pObj = TeleportObject_Awake 0 0"

subsection \<open>The world proxy and what it shares\<close>

record player_trade =
  tr_applicant :: u64
  tr_responder :: u64
  tr_appAck :: bool
  tr_resAck :: bool

text \<open>
  A trade is reached through the entries of its players: \<open>wp_trades\<close> is the memory, where a trade that was deleted is
  \<open>None\<close>. \<open>wp_removed\<close>: the proxy is to be released at the end of the frame.
\<close>

record world_proxy =
  wp_sn :: u64
  wp_worldId :: int
  wp_spaceAppId :: int
  wp_players :: player_collector
  wp_objects :: "(u64, teleport_object) smap"
  wp_trades :: "player_trade option list"
  wp_tradeMap :: "(u64, nat option) smap"
  wp_removed :: bool

record process = game_globals +
  gp_gather :: gather
  gp_spaces :: apps
  gp_global :: global
  gp_table :: world_table

subsection \<open>\<open>SendPacketToWorld\<close>\<close>

definition world_tags :: "process \<Rightarrow> world_proxy \<Rightarrow> player \<Rightarrow> (tag_type \<times> u64) list" where
  "world_tags gp wp pPlayer =
     [(TagSocket, word_of_int (player_socket pPlayer)), (TagPlayer, pl_playerSn pPlayer), (TagEntity, wp_sn wp)]
       @ (if g_appType (gp_global gp) = APP_ALLINONE then [(TagToWorld, wp_sn wp)] else [])"

definition SendProtoToWorld :: "int \<Rightarrow> proto \<Rightarrow> player \<Rightarrow> process \<Rightarrow> world_proxy \<Rightarrow> help_call list" where
  "SendProtoToWorld msgId proto pPlayer gp wp =
     [SendProtoTags msgId proto (add_tags (world_tags gp wp pPlayer) []) APP_SPACE (wp_spaceAppId wp)]"

definition SendToWorld :: "int \<Rightarrow> player \<Rightarrow> process \<Rightarrow> world_proxy \<Rightarrow> help_call list" where
  "SendToWorld msgId pPlayer gp wp =
     [SendTags msgId (add_tags (world_tags gp wp pPlayer) []) APP_SPACE (wp_spaceAppId wp)]"

definition CopyPacketToWorld :: "player \<Rightarrow> nat \<Rightarrow> process \<Rightarrow> world_proxy \<Rightarrow> help_call list" where
  "CopyPacketToWorld pPlayer pPacket gp wp =
     [ForwardApp pPacket (world_tags gp wp pPlayer) APP_SPACE (wp_spaceAppId wp)]"

subsection \<open>\<open>WorldComponentTeleport\<close>\<close>

definition Teleport_BackToPool :: "world_proxy \<Rightarrow> world_proxy" where
  "Teleport_BackToPool wp = wp\<lparr>wp_objects := []\<rparr>"

definition IsTeleporting :: "player \<Rightarrow> world_proxy \<Rightarrow> bool" where
  "IsTeleporting pPlayer wp = (map_of (wp_objects wp) (pl_playerSn pPlayer) \<noteq> None)"

definition CreateWorldFlag ::
  "int \<Rightarrow> teleport_object \<Rightarrow> process \<Rightarrow> world_proxy \<Rightarrow> (teleport_object \<times> process \<times> help_call list) option" where
  "CreateWorldFlag targetWorldId pObj gp wp = do {
     pWorldRes \<leftarrow> GetResource (gp_table gp) targetWorldId;
     let waiting = pObj\<lparr>to_FlagWorld := (to_FlagWorld pObj)\<lparr>tf_Flag := FlagWaiting\<rparr>\<rparr>;
     if IsType PublicWorld pWorldRes then
       (let worldSn = GetWorldSnById targetWorldId (ge_worlds gp)
        in if worldSn = INVALID_SN
           then Some (waiting, gp, [SendPacketApp G2M_RequestWorld (RequestWorld targetWorldId) APP_APPMGR 0])
           else Some (pObj\<lparr>to_FlagWorld := SetValue worldSn (to_FlagWorld pObj)\<rparr>, gp, []))
     else if IsType DungeonWorld pWorldRes then
       (case GetSpaceApp (gp_spaces gp) of
          None \<Rightarrow> Some (pObj, gp, [])
        | Some (info, apps) \<Rightarrow>
            Some (waiting, gp\<lparr>gp_spaces := apps\<rparr>,
              [SendPacketApp G2S_CreateWorld (CreateWorld targetWorldId (wp_sn wp) (g_appId (gp_global gp))) APP_SPACE (ai_AppId info)]))
     else Some (pObj, gp, [])
   }"

definition CreateSyncFlag :: "teleport_object \<Rightarrow> process \<Rightarrow> world_proxy \<Rightarrow> (teleport_object \<times> help_call list) option" where
  "CreateSyncFlag pObj gp wp = do {
     pPlayer \<leftarrow> GetPlayerBySn (to_playerSn pObj) (wp_players wp);
     Some (pObj\<lparr>to_FlagPlayerSync := (to_FlagPlayerSync pObj)\<lparr>tf_Flag := FlagWaiting\<rparr>\<rparr>,
           SendProtoToWorld G2S_RequestSyncPlayer (RequestSyncPlayer (to_playerSn pObj)) pPlayer gp wp)
   }"

definition CreateTeleportObject :: "int \<Rightarrow> player \<Rightarrow> process \<Rightarrow> world_proxy \<Rightarrow> (world_proxy \<times> process \<times> help_call list) option" where
  "CreateTeleportObject worldId pPlayer gp wp = do {
     (pObj, gp, calls) \<leftarrow> CreateWorldFlag worldId (TeleportObject_Awake worldId (pl_playerSn pPlayer)) gp wp;
     (pObj, calls') \<leftarrow> CreateSyncFlag pObj gp wp;
     Some (wp\<lparr>wp_objects := smap_emplace (pl_playerSn pPlayer) pObj (wp_objects wp)\<rparr>, gp, calls @ calls')
   }"

text \<open>The members of a team that has entered a dungeon are asked to come after.\<close>

definition invite_team :: "int \<Rightarrow> u64 \<Rightarrow> player \<Rightarrow> game_team \<Rightarrow> process \<Rightarrow> help_call list" where
  "invite_team worldId worldSn pPlayer pTeam gp =
     (if gt_dungeonId pTeam = worldId \<and> IsExistDungeon worldSn (ge_worlds gp)
      then map (\<lambda>sn. SendPacket_to C2C_ReqEnterDungeon (EnterDungeon worldId worldSn False (pl_name pPlayer))
                       (GetPlayerBySn sn (ga_players (gp_gather gp))))
             (filter (\<lambda>sn. sn \<noteq> pl_playerSn pPlayer) (gt_members pTeam))
      else [])"

definition Check :: "teleport_object \<Rightarrow> process \<Rightarrow> world_proxy \<Rightarrow> (bool \<times> world_proxy \<times> help_call list) option" where
  "Check pObj gp wp =
     (if \<not> IsCompleted (to_FlagPlayerSync pObj) \<or> \<not> IsCompleted (to_FlagWorld pObj) then Some (False, wp, [])
      else if tf_Value (to_FlagWorld pObj) = 0 then Some (False, wp, [])
      else do {
        pPlayer \<leftarrow> GetPlayerBySn (to_playerSn pObj) (wp_players wp);
        let worldSn = tf_Value (to_FlagWorld pObj);
        invites \<leftarrow>
          (case map_of (ga_teamMap (gp_gather gp)) (pl_playerSn pPlayer) of
             None \<Rightarrow> Some []
           | Some pTeam \<Rightarrow> map_option (\<lambda>a. invite_team (to_targetWorldId pObj) worldSn pPlayer (ga_teams (gp_gather gp) ! a) gp) pTeam);
        Some (True, wp\<lparr>wp_objects := smap_erase (pl_playerSn pPlayer) (wp_objects wp)\<rparr>,
              WorldProxyHelp_Teleport pPlayer (wp_sn wp) worldSn @ invites)
      })"

definition heading_for :: "int \<Rightarrow> u64 \<times> teleport_object \<Rightarrow> bool" where
  "heading_for worldId p = (to_targetWorldId (snd p) = worldId)"

text \<open>
  The loop takes the first object for the world, until there is none. Its result is \<open>None\<close> when it does not end, and
  \<open>Some None\<close> when it dereferences a null pointer.
\<close>

partial_function (option) announce_public ::
  "int \<Rightarrow> u64 \<Rightarrow> process \<Rightarrow> world_proxy \<Rightarrow> (world_proxy \<times> help_call list) option option" where
  "announce_public worldId worldSn gp wp =
     (case smap_first (heading_for worldId) (wp_objects wp) of
        None \<Rightarrow> Some (Some (wp, []))
      | Some (k, pObj) \<Rightarrow>
          (let pObj = pObj\<lparr>to_FlagWorld := SetValue worldSn (to_FlagWorld pObj)\<rparr>
           in case Check pObj gp (wp\<lparr>wp_objects := smap_assign k pObj (wp_objects wp)\<rparr>) of
                None \<Rightarrow> Some None
              | Some (b, wp, calls) \<Rightarrow>
                  Option.bind (announce_public worldId worldSn gp wp)
                    (\<lambda>r. Some (map_option (\<lambda>(wp, calls'). (wp, calls @ calls')) r))))"

definition set_dungeon :: "u64 \<Rightarrow> int \<Rightarrow> u64 \<Rightarrow> process \<Rightarrow> process option" where
  "set_dungeon playerSn worldId worldSn gp =
     (case map_of (ga_teamMap (gp_gather gp)) playerSn of
        None \<Rightarrow> Some gp
      | Some None \<Rightarrow> None
      | Some (Some a) \<Rightarrow>
          (let ga = gp_gather gp; teams = ga_teams ga
           in Some (gp\<lparr>gp_gather := ga\<lparr>ga_teams := teams[a := (teams ! a)\<lparr>gt_dungeonSn := worldSn, gt_dungeonId := worldId\<rparr>]\<rparr>\<rparr>)))"

definition Teleport_HandleBroadcastCreateWorldProxy ::
  "int \<Rightarrow> u64 \<Rightarrow> process \<Rightarrow> world_proxy \<Rightarrow> (world_proxy \<times> process \<times> help_call list) option option" where
  "Teleport_HandleBroadcastCreateWorldProxy worldId worldSn gp wp =
     (case GetResource (gp_table gp) worldId of
        None \<Rightarrow> Some None
      | Some pWorldRes \<Rightarrow>
          if IsType PublicWorld pWorldRes
          then map_option (map_option (\<lambda>(wp, calls). (wp, gp, calls))) (announce_public worldId worldSn gp wp)
          else if IsType DungeonWorld pWorldRes
          then (case smap_first (heading_for worldId) (wp_objects wp) of
                  None \<Rightarrow> Some (Some (wp, gp, []))
                | Some (k, pObj) \<Rightarrow> Some (do {
                    gp \<leftarrow> set_dungeon k worldId worldSn gp;
                    let pObj = pObj\<lparr>to_FlagWorld := SetValue worldSn (to_FlagWorld pObj)\<rparr>;
                    (b, wp, calls) \<leftarrow> Check pObj gp (wp\<lparr>wp_objects := smap_assign k pObj (wp_objects wp)\<rparr>);
                    Some (wp, gp, calls)
                  }))
          else Some (Some (wp, gp, [])))"

definition BroadcastSyncPlayer :: "u64 \<Rightarrow> process \<Rightarrow> world_proxy \<Rightarrow> (world_proxy \<times> help_call list) option" where
  "BroadcastSyncPlayer playerSn gp wp =
     (case smap_first (\<lambda>p. to_playerSn (snd p) = playerSn) (wp_objects wp) of
        None \<Rightarrow> Some (wp, [])
      | Some (k, pObj) \<Rightarrow> do {
          let pObj = pObj\<lparr>to_FlagPlayerSync := SetValue True (to_FlagPlayerSync pObj)\<rparr>;
          (b, wp, calls) \<leftarrow> Check pObj gp (wp\<lparr>wp_objects := smap_assign k pObj (wp_objects wp)\<rparr>);
          Some (wp, calls)
        })"

subsection \<open>A player that was here before\<close>

definition ready_to_go :: "u64 \<Rightarrow> teleport_object \<Rightarrow> bool" where
  "ready_to_go sn pObj = (to_playerSn pObj = sn \<and> IsCompleted (to_FlagWorld pObj) \<and> tf_Value (to_FlagWorld pObj) \<noteq> 0)"

text \<open>
  C33. \<open>teamMap[sn]\<close> makes an entry. A player that disconnects without a team leaves a null pointer in it, which
  nothing removes, neither a new login nor a team. When the player has come back and is to leave for another world,
  the server dereferences it.
\<close>

theorem returning_player_crashes_teleport:
  assumes i: "GetTagValue (ni_tags i) TagAccount \<noteq> None" "GetPlayerBySocket (Socket (ni_socket i)) (ga_players ga) = Some p"
      "map_of (ga_teamMap ga) (pl_playerSn p) = None"
    and run: "gather_run t msgs (fst (Gather_HandleNetworkDisconnect i ga)) = Some (gp_gather gp, calls)"
    and wp: "smap_first (\<lambda>q. to_playerSn (snd q) = pl_playerSn p) (wp_objects wp) = Some (k, pObj)"
      "ready_to_go (pl_playerSn p) pObj" "GetPlayerBySn (pl_playerSn p) (wp_players wp) = Some p'"
  shows "BroadcastSyncPlayer (pl_playerSn p) gp wp = None"
proof -
  have "map_of (ga_teamMap (gp_gather gp)) (pl_playerSn p) = Some None"
    by (rule gather_run_keeps [OF run disconnect_leaves_null [OF i]])
  moreover have "pl_playerSn p' = pl_playerSn p"
    using wp(3) by (auto simp: GetPlayerBySn_def dest: smap_first_Some)
  ultimately show ?thesis using wp
    by (simp add: BroadcastSyncPlayer_def Check_def ready_to_go_def IsCompleted_def SetValue_def)
qed

subsection \<open>The announcement of a public world\<close>

lemma smap_first_assign:
  assumes "smap_ok m" "smap_first P m = Some (k, v)" "P (k, v')"
  shows "smap_first P (smap_assign k v' m) = Some (k, v')"
  using assms
proof (induction m rule: smap_assign.induct)
  case (2 k v k' v' m)
  then show ?case using smap_first_Some [of P m] by (fastforce simp: smap_first_def split: if_splits)
qed (simp add: smap_first_def)

definition blocked :: "int \<Rightarrow> world_proxy \<Rightarrow> bool" where
  "blocked worldId wp = (\<exists>k pObj. smap_ok (wp_objects wp) \<and> smap_first (heading_for worldId) (wp_objects wp) = Some (k, pObj)
     \<and> \<not> IsCompleted (to_FlagPlayerSync pObj))"

lemma announce_public_stuck:
  assumes r: "announce_public worldId worldSn gp wp = Some r" and b: "blocked worldId wp"
  shows False
proof -
  have "\<not> blocked worldId wp"
  proof (rule announce_public.raw_induct [OF _ r])
    fix announce :: "int \<Rightarrow> u64 \<Rightarrow> process \<Rightarrow> world_proxy \<Rightarrow> (world_proxy \<times> help_call list) option option"
      and worldId worldSn gp wp y
    assume IH: "\<And>worldId worldSn gp wp y. announce worldId worldSn gp wp = Some y \<Longrightarrow> \<not> blocked worldId wp"
      and eq: "(case smap_first (heading_for worldId) (wp_objects wp) of
        None \<Rightarrow> Some (Some (wp, []))
      | Some (k, pObj) \<Rightarrow>
          (let pObj = pObj\<lparr>to_FlagWorld := SetValue worldSn (to_FlagWorld pObj)\<rparr>
           in case Check pObj gp (wp\<lparr>wp_objects := smap_assign k pObj (wp_objects wp)\<rparr>) of
                None \<Rightarrow> Some None
              | Some (b, wp, calls) \<Rightarrow>
                  Option.bind (announce worldId worldSn gp wp)
                    (\<lambda>r. Some (map_option (\<lambda>(wp, calls'). (wp, calls @ calls')) r)))) = Some y"
    show "\<not> blocked worldId wp"
    proof
      assume "blocked worldId wp"
      then obtain k pObj where o: "smap_ok (wp_objects wp)" "smap_first (heading_for worldId) (wp_objects wp) = Some (k, pObj)"
          "\<not> IsCompleted (to_FlagPlayerSync pObj)" unfolding blocked_def by blast
      let ?o = "pObj\<lparr>to_FlagWorld := SetValue worldSn (to_FlagWorld pObj)\<rparr>"
      let ?wp = "wp\<lparr>wp_objects := smap_assign k ?o (wp_objects wp)\<rparr>"
      have "heading_for worldId (k, ?o)" using smap_first_Some [OF o(2)] by (simp add: heading_for_def)
      then have "smap_first (heading_for worldId) (wp_objects ?wp) = Some (k, ?o)" using smap_first_assign [OF o(1,2)] by simp
      then have b: "blocked worldId ?wp" using o(1,3) unfolding blocked_def by (intro exI [of _ k] exI [of _ ?o]) simp
      have c: "Check ?o gp ?wp = Some (False, ?wp, [])" using o(3) by (simp add: Check_def)
      obtain r' where "announce worldId worldSn gp ?wp = Some r'" using eq o(2) c by (auto simp: bind_eq_Some_conv)
      from IH [OF this] b show False by simp
    qed
  qed
  with b show False by simp
qed

text \<open>
  C32. When a public world is announced before the data of the first player that waits for it has come back from its
  old world, the loop over the waiting players never ends: the thread of the world proxy hangs.
\<close>

theorem early_announcement_hangs:
  assumes "GetResource (gp_table gp) worldId = Some res" "IsType PublicWorld res" "smap_ok (wp_objects wp)"
    and "smap_first (heading_for worldId) (wp_objects wp) = Some (k, pObj)" "\<not> IsCompleted (to_FlagPlayerSync pObj)"
  shows "Teleport_HandleBroadcastCreateWorldProxy worldId worldSn gp wp = None"
proof (cases "announce_public worldId worldSn gp wp")
  case (Some r)
  then show ?thesis using announce_public_stuck [OF Some] assms(3-5) by (auto simp: blocked_def)
qed (use assms in \<open>simp add: Teleport_HandleBroadcastCreateWorldProxy_def\<close>)

definition objects_ok :: "(u64, teleport_object) smap \<Rightarrow> bool" where
  "objects_ok m = (smap_ok m \<and> (\<forall>q \<in> set m. to_playerSn (snd q) = fst q))"

text \<open>A waiting player that can be teleported: its data has come, it is here, and its entry in \<open>teamMap\<close> is not null.\<close>

definition can_go :: "process \<Rightarrow> world_proxy \<Rightarrow> u64 \<times> teleport_object \<Rightarrow> bool" where
  "can_go gp wp q = (IsCompleted (to_FlagPlayerSync (snd q)) \<and> GetPlayerBySn (fst q) (wp_players wp) \<noteq> None
     \<and> map_of (ga_teamMap (gp_gather gp)) (fst q) \<noteq> Some None)"

definition teleport_of :: "u64 \<Rightarrow> world_proxy \<Rightarrow> u64 \<times> teleport_object \<Rightarrow> help_call list" where
  "teleport_of worldSn wp q = WorldProxyHelp_Teleport (the (GetPlayerBySn (fst q) (wp_players wp))) (wp_sn wp) worldSn"

fun is_teleport :: "help_call \<Rightarrow> bool" where
  "is_teleport (DispatchProto msgId proto i) = (msgId = MI_Teleport)"
| "is_teleport c = False"

lemma is_teleport_calls [simp]:
  "filter is_teleport (WorldProxyHelp_Teleport p a b) = WorldProxyHelp_Teleport p a b"
  "filter is_teleport (invite_team W b p team gp) = []"
  by (auto simp: WorldProxyHelp_Teleport_def invite_team_def SendPacket_to_def filter_empty_conv split: option.splits)

lemma Check_goes:
  assumes "can_go gp wp (sn, pObj)" "to_playerSn pObj = sn" "IsCompleted (to_FlagWorld pObj)" "tf_Value (to_FlagWorld pObj) = worldSn"
    "worldSn \<noteq> 0"
  shows "\<exists>calls. Check pObj gp wp = Some (True, wp\<lparr>wp_objects := smap_erase sn (wp_objects wp)\<rparr>, calls)
    \<and> filter is_teleport calls = teleport_of worldSn wp (sn, pObj)"
proof -
  obtain p where p: "GetPlayerBySn sn (wp_players wp) = Some p" using assms(1) by (auto simp: can_go_def)
  then have sn: "pl_playerSn p = sn" by (auto simp: GetPlayerBySn_def dest: smap_first_Some)
  have "map_of (ga_teamMap (gp_gather gp)) sn \<noteq> Some None" "IsCompleted (to_FlagPlayerSync pObj)"
    using assms(1) by (simp_all add: can_go_def)
  then show ?thesis using assms(2-) p sn by (auto simp: Check_def teleport_of_def split: option.splits)
qed

lemma smap_first_split:
  "smap_first P m = Some q \<Longrightarrow> filter P m = q # filter P (filter (\<lambda>x. x \<noteq> q) m) \<or> \<not> distinct m"
proof (induction m)
  case (Cons x m)
  show ?case
  proof (cases "P x")
    case True
    then have "x = q" using Cons.prems by (simp add: smap_first_def)
    moreover have "filter (\<lambda>x. x \<noteq> q) m = m \<or> q \<in> set m" by (auto simp: filter_id_conv)
    moreover have "filter P (filter (\<lambda>x. x \<noteq> q) m) = filter P m" if "filter (\<lambda>x. x \<noteq> q) m = m" by (simp only: that)
    ultimately show ?thesis using True by (auto simp del: filter_filter)
  next
    case False
    then show ?thesis using Cons by (auto simp: smap_first_def)
  qed
qed (simp add: smap_first_def)

lemma erase_first:
  assumes "smap_ok m" "smap_first P m = Some (k, v)"
  shows "filter P m = (k, v) # filter P (smap_erase k m)" "filter (\<lambda>q. \<not> P q) (smap_erase k m) = filter (\<lambda>q. \<not> P q) m"
proof -
  have d: "distinct (map fst m)" using assms(1) by (rule smap_ok_distinct)
  have kv: "(k, v) \<in> set m" "P (k, v)" using smap_first_Some [OF assms(2)] by simp_all
  have e: "filter (\<lambda>x. x \<noteq> (k, v)) m = smap_erase k m"
    unfolding smap_erase_def by (rule filter_cong [OF refl]) (use d kv(1) in \<open>auto dest: eq_key_imp_eq_value\<close>)
  show "filter P m = (k, v) # filter P (smap_erase k m)" using smap_first_split [OF assms(2)] d e by (auto simp: distinct_map)
  show "filter (\<lambda>q. \<not> P q) (smap_erase k m) = filter (\<lambda>q. \<not> P q) m"
    unfolding e [symmetric] filter_filter by (rule filter_cong [OF refl]) (use kv(2) in auto)
qed

lemma erase_assign: "smap_erase k (smap_assign k v m) = smap_erase k m" if "smap_ok m"
  using that
proof (induction m rule: smap_assign.induct)
  case (2 k v k' v' m)
  show ?case
  proof (cases "k < k'")
    case True
    then have "\<forall>q \<in> set m. fst q \<noteq> k" using 2(2) by auto
    then show ?thesis using True by (simp add: smap_erase_def)
  qed (use 2 in \<open>auto simp: smap_erase_def\<close>)
qed (simp add: smap_erase_def)

lemma announce_public_goes:
  assumes "objects_ok (wp_objects wp)" "worldSn \<noteq> 0"
    and "\<forall>q \<in> set (wp_objects wp). heading_for worldId q \<longrightarrow> can_go gp wp q"
  shows "\<exists>calls. announce_public worldId worldSn gp wp
      = Some (Some (wp\<lparr>wp_objects := filter (\<lambda>q. \<not> heading_for worldId q) (wp_objects wp)\<rparr>, calls))
    \<and> filter is_teleport calls = concat (map (teleport_of worldSn wp) (filter (heading_for worldId) (wp_objects wp)))"
  using assms
proof (induction "length (wp_objects wp)" arbitrary: wp rule: less_induct)
  case less
  show ?case
  proof (cases "smap_first (heading_for worldId) (wp_objects wp)")
    case None
    then have n: "\<forall>q \<in> set (wp_objects wp). \<not> heading_for worldId q" by (simp add: smap_first_None)
    then have "filter (\<lambda>q. \<not> heading_for worldId q) (wp_objects wp) = wp_objects wp" "filter (heading_for worldId) (wp_objects wp) = []"
      by (simp_all add: filter_id_conv filter_empty_conv)
    then show ?thesis using None by (subst announce_public.simps) simp
  next
    case (Some q)
    obtain k pObj where q: "q = (k, pObj)" by force
    note f = Some [unfolded q]
    have ok: "smap_ok (wp_objects wp)" and m: "(k, pObj) \<in> set (wp_objects wp)" "heading_for worldId (k, pObj)"
      using less.prems(1) smap_first_Some [OF f] by (simp_all add: objects_ok_def)
    let ?o = "pObj\<lparr>to_FlagWorld := SetValue worldSn (to_FlagWorld pObj)\<rparr>"
    let ?wp = "wp\<lparr>wp_objects := smap_assign k ?o (wp_objects wp)\<rparr>"
    let ?wp1 = "wp\<lparr>wp_objects := smap_erase k (wp_objects wp)\<rparr>"
    have g: "can_go gp ?wp (k, ?o)" "to_playerSn ?o = k" using less.prems(1,3) m by (auto simp: can_go_def objects_ok_def)
    have w: "IsCompleted (to_FlagWorld ?o)" "tf_Value (to_FlagWorld ?o) = worldSn" by (simp_all add: SetValue_def IsCompleted_def)
    have wp1: "?wp\<lparr>wp_objects := smap_erase k (wp_objects ?wp)\<rparr> = ?wp1" using erase_assign [OF ok] by simp
    obtain calls where c: "Check ?o gp ?wp = Some (True, ?wp1, calls)" "filter is_teleport calls = teleport_of worldSn ?wp (k, ?o)"
      using Check_goes [OF g w less.prems(2)] wp1 by auto
    have l: "length (wp_objects ?wp1) < length (wp_objects wp)" using m(1) by (auto intro!: length_erase_less simp: image_iff) force
    have ok1: "objects_ok (wp_objects ?wp1)" using less.prems(1) by (auto simp: objects_ok_def smap_erase_def)
    have go1: "\<forall>q \<in> set (wp_objects ?wp1). heading_for worldId q \<longrightarrow> can_go gp ?wp1 q"
      using less.prems(3) by (auto simp: can_go_def smap_erase_def)
    obtain calls1 where c1: "announce_public worldId worldSn gp ?wp1
        = Some (Some (?wp1\<lparr>wp_objects := filter (\<lambda>q. \<not> heading_for worldId q) (wp_objects ?wp1)\<rparr>, calls1))"
        "filter is_teleport calls1 = concat (map (teleport_of worldSn ?wp1) (filter (heading_for worldId) (wp_objects ?wp1)))"
      using less.hyps [OF l ok1 less.prems(2) go1] by blast
    have t: "teleport_of worldSn ?wp1 = teleport_of worldSn wp" "teleport_of worldSn ?wp (k, ?o) = teleport_of worldSn wp (k, pObj)"
      by (simp_all add: teleport_of_def fun_eq_iff)
    show ?thesis using f c c1 erase_first [OF ok f] unfolding t
      by (subst announce_public.simps) (simp add: Let_def)
  qed
qed

text \<open>Not every one that waits has its data back: the loop comes to the first that has not, and stays there.\<close>

definition data_back :: "u64 \<times> teleport_object \<Rightarrow> bool" where
  "data_back q = IsCompleted (to_FlagPlayerSync (snd q))"

lemma announce_public_waits:
  assumes "objects_ok (wp_objects wp)" "worldSn \<noteq> 0"
    and "\<forall>q \<in> set (wp_objects wp). heading_for worldId q \<and> data_back q \<longrightarrow> can_go gp wp q"
    and "q \<in> set (wp_objects wp)" "heading_for worldId q" "\<not> data_back q"
  shows "announce_public worldId worldSn gp wp = None"
  using assms
proof (induction "length (wp_objects wp)" arbitrary: wp rule: less_induct)
  case less
  have ok: "smap_ok (wp_objects wp)" using less.prems(1) by (simp add: objects_ok_def)
  have "smap_first (heading_for worldId) (wp_objects wp) \<noteq> None"
    using less.prems(4,5) smap_first_None [of "heading_for worldId" "wp_objects wp"] by blast
  then obtain k pObj where f: "smap_first (heading_for worldId) (wp_objects wp) = Some (k, pObj)" by force
  show ?case
  proof (cases "IsCompleted (to_FlagPlayerSync pObj)")
    case False
    then have "blocked worldId wp" using ok f unfolding blocked_def by blast
    then show ?thesis using announce_public_stuck by (metis not_None_eq)
  next
    case True
    have m: "(k, pObj) \<in> set (wp_objects wp)" "heading_for worldId (k, pObj)" using smap_first_Some [OF f] by simp_all
    let ?o = "pObj\<lparr>to_FlagWorld := SetValue worldSn (to_FlagWorld pObj)\<rparr>"
    let ?wp = "wp\<lparr>wp_objects := smap_assign k ?o (wp_objects wp)\<rparr>"
    let ?wp1 = "wp\<lparr>wp_objects := smap_erase k (wp_objects wp)\<rparr>"
    have g0: "can_go gp wp (k, pObj)" using less.prems(3) m True by (simp add: data_back_def)
    have g: "can_go gp ?wp (k, ?o)" "to_playerSn ?o = k" using less.prems(1) g0 m by (auto simp: can_go_def objects_ok_def)
    have w: "IsCompleted (to_FlagWorld ?o)" "tf_Value (to_FlagWorld ?o) = worldSn" by (simp_all add: SetValue_def IsCompleted_def)
    have wp1: "?wp\<lparr>wp_objects := smap_erase k (wp_objects ?wp)\<rparr> = ?wp1" using erase_assign [OF ok] by simp
    obtain calls where c: "Check ?o gp ?wp = Some (True, ?wp1, calls)"
      using Check_goes [OF g w less.prems(2)] wp1 by auto
    have l: "length (wp_objects ?wp1) < length (wp_objects wp)" using m(1) by (auto intro!: length_erase_less simp: image_iff) force
    have ok1: "objects_ok (wp_objects ?wp1)" using less.prems(1) by (auto simp: objects_ok_def smap_erase_def)
    have go1: "\<forall>q \<in> set (wp_objects ?wp1). heading_for worldId q \<and> data_back q \<longrightarrow> can_go gp ?wp1 q"
      using less.prems(3) by (auto simp: can_go_def smap_erase_def)
    have d: "distinct (map fst (wp_objects wp))" using ok by (simp add: smap_ok_distinct)
    have "q \<noteq> (k, pObj)" using less.prems(6) True by (auto simp: data_back_def)
    then have "fst q \<noteq> k" using d m(1) less.prems(4) by (metis eq_key_imp_eq_value prod.collapse)
    then have q1: "q \<in> set (wp_objects ?wp1)" using less.prems(4) by (simp add: smap_erase_def)
    have "announce_public worldId worldSn gp ?wp1 = None"
      using less.hyps [OF l ok1 less.prems(2) go1 q1 less.prems(5,6)] .
    then show ?thesis using f c by (subst announce_public.simps) (simp add: Let_def)
  qed
qed

text \<open>
  C31. A public world is announced to the players that wait for it, of whom those with their data back are still in
  the table of the proxy and have no null team entry (\<open>can_go\<close>). If the data of all of them has come back, each is
  teleported there, exactly once and in the order of the serial numbers, their objects are gone, and those that wait
  for another world stay as they are. If the data of one of them has not come back, wherever it stands among them, the
  handler does not return: the loop stays at the first such player.
\<close>

theorem announcement_teleports_everyone:
  assumes t: "GetResource (gp_table gp) worldId = Some res" "IsType PublicWorld res"
    and wp: "objects_ok (wp_objects wp)" "worldSn \<noteq> 0"
      "\<forall>q \<in> set (wp_objects wp). heading_for worldId q \<and> data_back q \<longrightarrow> can_go gp wp q"
  shows "if \<forall>q \<in> set (wp_objects wp). heading_for worldId q \<longrightarrow> data_back q
    then \<exists>calls. Teleport_HandleBroadcastCreateWorldProxy worldId worldSn gp wp
        = Some (Some (wp\<lparr>wp_objects := filter (\<lambda>q. \<not> heading_for worldId q) (wp_objects wp)\<rparr>, gp, calls))
      \<and> filter is_teleport calls = concat (map (teleport_of worldSn wp) (filter (heading_for worldId) (wp_objects wp)))
    else Teleport_HandleBroadcastCreateWorldProxy worldId worldSn gp wp = None"
proof (cases "\<forall>q \<in> set (wp_objects wp). heading_for worldId q \<longrightarrow> data_back q")
  case True
  then have "\<forall>q \<in> set (wp_objects wp). heading_for worldId q \<longrightarrow> can_go gp wp q" using wp(3) by blast
  from announce_public_goes [OF wp(1,2) this] t True show ?thesis by (auto simp: Teleport_HandleBroadcastCreateWorldProxy_def)
next
  case False
  then show ?thesis using announce_public_waits [OF wp] t by (auto simp: Teleport_HandleBroadcastCreateWorldProxy_def)
qed

subsection \<open>Examples\<close>

definition sample_gp :: process where
  "sample_gp = \<lparr>ge_worlds = ge_worlds sample_ge, ge_sockets = [], gp_gather = Gather_Awake, gp_spaces = [],
     gp_global = sample_global\<lparr>g_appType := APP_GAME\<rparr>, gp_table = town_table\<rparr>"

definition waiting_object :: "bool \<Rightarrow> u64 \<Rightarrow> u64 \<times> teleport_object" where
  "waiting_object synced sn =
     (sn, (TeleportObject_Awake 2 sn)\<lparr>to_FlagPlayerSync := if synced then SetValue True \<lparr>tf_Flag = FlagWaiting, tf_Value = False\<rparr>
            else \<lparr>tf_Flag = FlagWaiting, tf_Value = False\<rparr>\<rparr>)"

definition sample_wp :: "bool \<Rightarrow> world_proxy" where
  "sample_wp synced = \<lparr>wp_sn = 9, wp_worldId = 1, wp_spaceAppId = 3,
     wp_players = Collector_new\<lparr>pc_players := [(3, two_waiting ! 1), (8, two_waiting ! 0)]\<rparr>,
     wp_objects = [waiting_object synced 3, waiting_object True 8], wp_trades = [], wp_tradeMap = [], wp_removed = False\<rparr>"

lemma sample_town:
  "GetResource (gp_table sample_gp) 2 = Some (ResourceWorld\<lparr>rw_worldType := 3\<rparr>)" "IsType PublicWorld (ResourceWorld\<lparr>rw_worldType := 3\<rparr>)"
  by (simp_all add: sample_gp_def GetResource_def town_table_def IsType_def)

theorem early_announcement_hangs_witness:
  "Teleport_HandleBroadcastCreateWorldProxy 2 77 sample_gp (sample_wp False) = None"
proof (rule early_announcement_hangs [OF sample_town])
  show "smap_ok (wp_objects (sample_wp False))" by (simp add: sample_wp_def waiting_object_def)
  show "smap_first (heading_for 2) (wp_objects (sample_wp False)) = Some (3, snd (waiting_object False 3))"
    by (simp add: sample_wp_def waiting_object_def smap_first_def heading_for_def TeleportObject_Awake_def)
  show "\<not> IsCompleted (to_FlagPlayerSync (snd (waiting_object False 3)))" by (simp add: waiting_object_def IsCompleted_def)
qed

lemma sample_players:
  "GetPlayerBySn 3 (wp_players (sample_wp b)) = Some (two_waiting ! 1)" "GetPlayerBySn 8 (wp_players (sample_wp b)) = Some (two_waiting ! 0)"
  by (simp_all add: sample_wp_def two_waiting_def GetPlayerBySn_def smap_first_def)

theorem announcement_teleports_everyone_witness:
  "\<exists>calls. Teleport_HandleBroadcastCreateWorldProxy 2 77 sample_gp (sample_wp True)
      = Some (Some ((sample_wp True)\<lparr>wp_objects := []\<rparr>, sample_gp, calls))
    \<and> filter is_teleport calls = WorldProxyHelp_Teleport (two_waiting ! 1) 9 77 @ WorldProxyHelp_Teleport (two_waiting ! 0) 9 77"
proof -
  have o: "wp_objects (sample_wp True) = [waiting_object True 3, waiting_object True 8]" "wp_sn (sample_wp True) = 9"
    by (simp_all add: sample_wp_def)
  have 1: "objects_ok (wp_objects (sample_wp True))"
    by (simp add: o objects_ok_def waiting_object_def TeleportObject_Awake_def)
  have h: "heading_for 2 (waiting_object True k)" for k by (simp add: waiting_object_def heading_for_def TeleportObject_Awake_def)
  have f: "fst (waiting_object True k) = k" for k by (simp add: waiting_object_def)
  have "can_go sample_gp (sample_wp True) (waiting_object True 3)" "can_go sample_gp (sample_wp True) (waiting_object True 8)"
    using sample_players by (simp_all add: can_go_def f sample_gp_def Gather_Awake_def) (simp_all add: waiting_object_def IsCompleted_def SetValue_def)
  then have 2: "\<forall>q \<in> set (wp_objects (sample_wp True)). heading_for 2 q \<and> data_back q \<longrightarrow> can_go sample_gp (sample_wp True) q" by (simp add: o)
  have "\<forall>q \<in> set (wp_objects (sample_wp True)). heading_for 2 q \<longrightarrow> data_back q"
    by (simp add: o) (simp add: data_back_def waiting_object_def IsCompleted_def SetValue_def)
  with announcement_teleports_everyone [OF sample_town 1 _ 2, of 77]
  show ?thesis by (simp add: o h teleport_of_def f sample_players)
qed

theorem returning_player_crashes_teleport_witness:
  "\<exists>gp. gather_run town_table [GmLoginByToken (client 4) ''eve'']
        (fst (Gather_HandleNetworkDisconnect ((client 3)\<lparr>ni_tags := AddTagStr TagAccount ''eve'' []\<rparr>)
               (Gather_Awake\<lparr>ga_players := wp_players (sample_wp True)\<rparr>)))
      = Some (gp_gather gp, [DispatchIdent MI_NetworkListenKey (Some (pl_ident (Player_Awake (client 4) ''eve'')))])
    \<and> BroadcastSyncPlayer 3 gp ((sample_wp True)\<lparr>wp_objects :=
        [(3, (snd (waiting_object True 3))\<lparr>to_FlagWorld := \<lparr>tf_Flag = FlagCompleted, tf_Value = 77\<rparr>\<rparr>)]\<rparr>) = None"
proof -
  let ?i = "(client 3)\<lparr>ni_tags := AddTagStr TagAccount ''eve'' []\<rparr>"
  let ?ga = "Gather_Awake\<lparr>ga_players := wp_players (sample_wp True)\<rparr>"
  let ?o = "(snd (waiting_object True 3))\<lparr>to_FlagWorld := \<lparr>tf_Flag = FlagCompleted, tf_Value = 77\<rparr>\<rparr>"
  let ?wp = "(sample_wp True)\<lparr>wp_objects := [(3, ?o)]\<rparr>"
  let ?ga1 = "fst (Gather_HandleNetworkDisconnect ?i ?ga)"
  have sn: "pl_playerSn (two_waiting ! 1) = 3" by (simp add: two_waiting_def)
  have i: "GetTagValue (ni_tags ?i) TagAccount \<noteq> None"
      "GetPlayerBySocket (Socket (ni_socket ?i)) (ga_players ?ga) = Some (two_waiting ! 1)"
      "map_of (ga_teamMap ?ga) (pl_playerSn (two_waiting ! 1)) = None"
    by (simp_all add: AddTagStr_def GetTagValue_def client_def GetPlayerBySocket_def sample_wp_def Gather_Awake_def)
  have s4: "map_of (pc_players (ga_players ?ga1)) 4 = None"
    using i by (simp add: Gather_HandleNetworkDisconnect_def team_entry_def sn RemovePlayerBySocket_def sample_wp_def
        client_def GetPlayerBySocket_def Gather_Awake_def split: option.split)
  obtain ga2 where run: "gather_run town_table [GmLoginByToken (client 4) ''eve''] ?ga1
      = Some (ga2, [DispatchIdent MI_NetworkListenKey (Some (pl_ident (Player_Awake (client 4) ''eve'')))])"
    using s4 by (simp add: Gather_HandleLoginByToken_def AddPlayer_cases) (simp add: client_def)
  let ?gp = "sample_gp\<lparr>gp_gather := ga2\<rparr>"
  have run': "gather_run town_table [GmLoginByToken (client 4) ''eve''] ?ga1
      = Some (gp_gather ?gp, [DispatchIdent MI_NetworkListenKey (Some (pl_ident (Player_Awake (client 4) ''eve'')))])" using run by simp
  have o: "smap_first (\<lambda>q. to_playerSn (snd q) = pl_playerSn (two_waiting ! 1)) (wp_objects ?wp) = Some (3, ?o)"
      "ready_to_go (pl_playerSn (two_waiting ! 1)) ?o"
      "GetPlayerBySn (pl_playerSn (two_waiting ! 1)) (wp_players ?wp) = Some (two_waiting ! 1)"
    using sample_players sn by (simp_all add: smap_first_def ready_to_go_def IsCompleted_def waiting_object_def TeleportObject_Awake_def)
  from returning_player_crashes_teleport [OF i run' o] show ?thesis unfolding sn using run' by blast
qed

end
