(* ===== verification/WorldProxy.thy ===== *)
theory WorldProxy
  imports Teleporting
begin

text \<open>
  A world proxy (\<open>world_proxy.cpp\<close>): the part of a world that stays on the game server, where its players are known
  by their sockets. Messages of clients go on to the space server that runs the world, messages of the world to the
  clients; teleports, chat, teams and trades (\<open>player_trade.h\<close>) are handled here. A handler with a player is called
  for the player that \<open>WorldProxy_GetPlayer\<close> finds, and not at all when there is none. \<open>None\<close> is undefined behaviour: a
  null or dangling pointer that is dereferenced, or an exception that nobody catches.
\<close>

subsection \<open>Creation and forwarding\<close>

definition WorldProxy_Awake :: "u64 \<Rightarrow> int \<Rightarrow> u64 \<Rightarrow> process \<Rightarrow> (world_proxy \<times> process \<times> help_call list) option" where
  "WorldProxy_Awake sn worldId lastWorldSn gp = do {
     wl \<leftarrow> WorldLocator_Register (gp_table gp) worldId sn (ge_worlds gp);
     let protoCreate = BroadcastCreateWorldProxy worldId sn;
     Some (\<lparr>wp_sn = sn, wp_worldId = worldId, wp_spaceAppId = GetAppIdFromSN sn, wp_players = Collector_new, wp_objects = [],
            wp_trades = [], wp_tradeMap = [], wp_removed = False\<rparr>,
           gp\<lparr>ge_worlds := wl\<rparr>,
           [DispatchProto MI_BroadcastCreateWorldProxy protoCreate
              (if lastWorldSn = 0 then None
               else Some \<lparr>ni_socket = SocketKey_None, ni_tags = AddTagInt TagEntity lastWorldSn []\<rparr>)])
   }"

definition WorldProxy_GetPlayer :: "net_identify \<Rightarrow> world_proxy \<Rightarrow> player option" where
  "WorldProxy_GetPlayer pIdentify wp =
     (if GetTagValue (ni_tags pIdentify) TagAccount \<noteq> None
      then GetPlayerBySocket (Socket (ni_socket pIdentify)) (wp_players wp)
      else case GetTagValue (ni_tags pIdentify) TagPlayer of
             Some pTagPlayer \<Rightarrow> GetPlayerBySn (KeyInt64 pTagPlayer) (wp_players wp)
           | None \<Rightarrow> None)"

text \<open>\<open>pIdentify\<close> is the identity of the packet \<open>pPacket\<close>.\<close>

definition HandleDefaultFunction :: "nat \<Rightarrow> net_identify \<Rightarrow> process \<Rightarrow> world_proxy \<Rightarrow> help_call list" where
  "HandleDefaultFunction pPacket pIdentify gp wp =
     (case GetTagValue (ni_tags pIdentify) TagPlayer of
        Some pTagPlayer \<Rightarrow>
          (case GetPlayerBySn (KeyInt64 pTagPlayer) (wp_players wp) of
             None \<Rightarrow> []
           | Some pPlayer \<Rightarrow> [ForwardClient pPacket (pl_ident pPlayer)])
      | None \<Rightarrow>
          (case GetPlayerBySocket (Socket (ni_socket pIdentify)) (wp_players wp) of
             None \<Rightarrow> []
           | Some pPlayer \<Rightarrow> CopyPacketToWorld pPlayer pPacket gp wp))"

text \<open>\<open>None\<close> also when closing the connections does not end.\<close>

definition Proxy_HandleNetworkDisconnect ::
  "net_identify \<Rightarrow> process \<Rightarrow> world_proxy \<Rightarrow> (world_proxy \<times> process \<times> help_call list) option" where
  "Proxy_HandleNetworkDisconnect pPacket gp wp =
     (if \<not> IsTcp (NetType (ni_socket pPacket)) then Some (wp, gp, [])
      else if GetTagValue (ni_tags pPacket) TagAccount \<noteq> None then
        (case GetPlayerBySocket (Socket (ni_socket pPacket)) (wp_players wp) of
           None \<Rightarrow> Some (wp, gp, [])
         | Some pPlayer \<Rightarrow>
             (let wp = wp\<lparr>wp_players := RemovePlayerBySocket (Socket (ni_socket pPacket)) (wp_players wp)\<rparr>
              in Some (wp, gp, SendToWorld MI_NetworkDisconnect pPlayer gp wp)))
      else
        (case GetTagValue (ni_tags pPacket) TagApp of
           None \<Rightarrow> Some (wp, gp, [])
         | Some pTagApp \<Rightarrow>
             if GetTypeFromAppKey (KeyInt64 pTagApp) \<noteq> APP_SPACE \<or> wp_spaceAppId wp \<noteq> GetIdFromAppKey (KeyInt64 pTagApp)
             then Some (wp, gp, [])
             else do {
               (pc, calls) \<leftarrow> RemoveAllPlayerAndCloseConnect (wp_players wp);
               Some (wp\<lparr>wp_players := pc, wp_removed := True\<rparr>,
                     gp\<lparr>ge_worlds := WorldLocator_Remove (wp_worldId wp) (wp_sn wp) (ge_worlds gp)\<rparr>, calls)
             }))"

subsection \<open>Arriving and leaving\<close>

definition HandleTeleport ::
  "net_identify \<Rightarrow> u64 \<Rightarrow> u64 \<Rightarrow> string \<Rightarrow> player_proto \<Rightarrow> process \<Rightarrow> world_proxy \<Rightarrow> (world_proxy \<times> process \<times> help_call list) option" where
  "HandleTeleport pPacket lastWorldSn playerSn acc proto gp wp =
     (case AddPlayer pPacket acc (wp_players wp) of
        None \<Rightarrow> Some (wp, gp, [])
      | Some (pPlayer, pc, calls) \<Rightarrow> do {
          pPlayer \<leftarrow> Player_ParserFromProto (gp_table gp) playerSn proto pPlayer;
          let pPlayer = pPlayer\<lparr>pl_OnlineInGame := Some (Online_Awake (pl_account pPlayer) (pl_player pPlayer))\<rparr>;
          let wp = wp\<lparr>wp_players := set_player pPlayer pc\<rparr>;
          Some (wp, gp\<lparr>ge_sockets := RegisterToLocator (player_socket pPlayer) (wp_sn wp) (ge_sockets gp)\<rparr>,
                calls @ SendProtoToWorld G2S_SyncPlayer (SyncPlayer (c_str acc) proto) pPlayer gp wp
                  @ [DispatchProto MI_TeleportAfter (TeleportAfter (pl_playerSn pPlayer))
                       (Some \<lparr>ni_socket = SocketKey_None,
                              ni_tags = AddTagInt TagEntity lastWorldSn (AddTagInt TagPlayer (pl_playerSn pPlayer) [])\<rparr>)])
        })"

definition Proxy_HandleTeleportAfter :: "player \<Rightarrow> u64 \<Rightarrow> process \<Rightarrow> world_proxy \<Rightarrow> world_proxy \<times> help_call list" where
  "Proxy_HandleTeleportAfter pPlayer playerSn gp wp =
     (let wp = wp\<lparr>wp_players := RemovePlayerBySocket (player_socket pPlayer) (wp_players wp)\<rparr>
      in (wp, SendProtoToWorld G2S_RemovePlayer (RemovePlayer playerSn) pPlayer gp wp))"

definition HandleC2GEnterWorld :: "player \<Rightarrow> int \<Rightarrow> process \<Rightarrow> world_proxy \<Rightarrow> (world_proxy \<times> process \<times> help_call list) option" where
  "HandleC2GEnterWorld pPlayer worldId gp wp =
     (if GetResource (gp_table gp) worldId = None then Some (wp, gp, [])
      else if IsTeleporting pPlayer wp then Some (wp, gp, [])
      else (case Option.bind (map_of (ga_teamMap (gp_gather gp)) (pl_playerSn pPlayer)) (\<lambda>e. e) of
              Some a \<Rightarrow>
                (let pTeam = ga_teams (gp_gather gp) ! a in
                 if worldId = gt_dungeonId pTeam \<and> IsExistDungeon (gt_dungeonSn pTeam) (ge_worlds gp)
                 then Some (wp, gp, WorldProxyHelp_Teleport pPlayer (wp_sn wp) (gt_dungeonSn pTeam))
                 else CreateTeleportObject worldId pPlayer gp wp)
            | None \<Rightarrow> CreateTeleportObject worldId pPlayer gp wp))"

definition HandleS2GSyncPlayer :: "player \<Rightarrow> player_proto \<Rightarrow> process \<Rightarrow> world_proxy \<Rightarrow> (world_proxy \<times> help_call list) option" where
  "HandleS2GSyncPlayer pPlayer proto gp wp = do {
     pPlayer \<leftarrow> Player_ParserFromProto (gp_table gp) (pl_playerSn pPlayer) proto pPlayer;
     BroadcastSyncPlayer (pl_playerSn pPlayer) gp (wp\<lparr>wp_players := set_player pPlayer (wp_players wp)\<rparr>)
   }"

definition HandleEnterDungeonRes :: "player \<Rightarrow> int \<Rightarrow> u64 \<Rightarrow> bool \<Rightarrow> process \<Rightarrow> world_proxy \<Rightarrow> help_call list" where
  "HandleEnterDungeonRes pPlayer worldId worldSn agree gp wp =
     (if agree \<and> GetResource (gp_table gp) worldId \<noteq> None
      then (if IsTeleporting pPlayer wp then [] else WorldProxyHelp_Teleport pPlayer (wp_sn wp) worldSn)
      else [])"

subsection \<open>Chat\<close>

definition HandleGlobalChat :: "proto \<Rightarrow> process \<Rightarrow> help_call list" where
  "HandleGlobalChat proto gp = map (\<lambda>q. SendPacket MI_GlobalChat proto (pl_ident (snd q))) (pc_players (ga_players (gp_gather gp)))"

definition HandleWorldChat :: "proto \<Rightarrow> world_proxy \<Rightarrow> help_call list" where
  "HandleWorldChat proto wp = map (\<lambda>q. SendPacket MI_WorldChat proto (pl_ident (snd q))) (pc_players (wp_players wp))"

definition HandleTeamChat :: "player \<Rightarrow> proto \<Rightarrow> process \<Rightarrow> process \<times> help_call list" where
  "HandleTeamChat pPlayer proto gp =
     (let (team, ga) = team_entry (pl_playerSn pPlayer) (gp_gather gp)
      in (gp\<lparr>gp_gather := ga\<rparr>,
          case team of
            None \<Rightarrow> []
          | Some a \<Rightarrow> map (\<lambda>sn. SendPacket_to MI_TeamChat proto (GetPlayerBySn sn (ga_players ga))) (gt_members (ga_teams ga ! a))))"

text \<open>\<open>substr(1, find_first_of(' ') - 1)\<close>; \<open>None\<close>: it throws.\<close>

definition chat_target :: "string \<Rightarrow> string option" where
  "chat_target content =
     (case content of
        [] \<Rightarrow> None
      | c # cs \<Rightarrow> Some (if c = CHR '' '' then cs else takeWhile (\<lambda>c. c \<noteq> CHR '' '') cs))"

definition HandlePrivateChat :: "u64 \<Rightarrow> string \<Rightarrow> string \<Rightarrow> process \<Rightarrow> help_call list option" where
  "HandlePrivateChat sender name content gp =
     map_option (\<lambda>target. case GetPlayerByName target (ga_players (gp_gather gp)) of
                            None \<Rightarrow> []
                          | Some p \<Rightarrow> [SendPacket MI_PrivateChat (ChatMsg sender name content) (pl_ident p)])
       (chat_target content)"

subsection \<open>Requests between players\<close>

definition send_sn :: "int \<Rightarrow> proto \<Rightarrow> u64 \<Rightarrow> world_proxy \<Rightarrow> help_call" where
  "send_sn msgId proto sn wp = SendPacket_to msgId proto (GetPlayerBySn sn (wp_players wp))"

definition HandleReqJoinTeam :: "u64 \<Rightarrow> u64 \<Rightarrow> bool \<Rightarrow> world_proxy \<Rightarrow> help_call list" where
  "HandleReqJoinTeam applicant responder agree wp = [send_sn C2C_ReqJoinTeam (PlayerReq applicant responder agree) responder wp]"

definition HandleJoinTeamRes :: "player \<Rightarrow> u64 \<Rightarrow> u64 \<Rightarrow> bool \<Rightarrow> world_proxy \<Rightarrow> help_call list" where
  "HandleJoinTeamRes pPlayer applicant responder agree wp =
     (if pl_playerSn pPlayer = responder
      then (if \<not> agree then [send_sn C2C_JoinTeamRes (PlayerReq applicant responder agree) applicant wp]
            else [DispatchProto MI_CreateTeam (CreateTeam responder [responder, applicant])
                    (Some \<lparr>ni_socket = SocketKey_None, ni_tags = []\<rparr>)])
      else [])"

definition HandleReqPvp :: "u64 \<Rightarrow> u64 \<Rightarrow> bool \<Rightarrow> world_proxy \<Rightarrow> help_call list" where
  "HandleReqPvp applicant responder agree wp = [send_sn C2C_ReqPvp (PlayerReq applicant responder agree) responder wp]"

definition HandlePvpRes :: "u64 \<Rightarrow> u64 \<Rightarrow> bool \<Rightarrow> world_proxy \<Rightarrow> help_call list" where
  "HandlePvpRes applicant responder agree wp =
     (if agree
      then [send_sn C2C_PvpRes (PlayerReq applicant responder agree) applicant wp,
            send_sn C2C_PvpRes (PlayerReq applicant responder agree) responder wp]
      else [])"

definition HandleReqTrade :: "u64 \<Rightarrow> u64 \<Rightarrow> bool \<Rightarrow> world_proxy \<Rightarrow> help_call list" where
  "HandleReqTrade applicant responder agree wp = [send_sn C2C_ReqTrade (PlayerReq applicant responder agree) responder wp]"

subsection \<open>Trades\<close>

definition PlayerTrade :: "u64 \<Rightarrow> u64 \<Rightarrow> player_trade" where
  "PlayerTrade applicant responder = \<lparr>tr_applicant = applicant, tr_responder = responder, tr_appAck = False, tr_resAck = False\<rparr>"

text \<open>\<open>delete\<close> of an entry: nothing for a null pointer, undefined for a trade that was deleted before.\<close>

definition delete_trade :: "nat option \<Rightarrow> world_proxy \<Rightarrow> world_proxy option" where
  "delete_trade e wp =
     (case e of
        None \<Rightarrow> Some wp
      | Some a \<Rightarrow> if wp_trades wp ! a = None then None else Some (wp\<lparr>wp_trades := (wp_trades wp)[a := None]\<rparr>))"

definition HandleTradeRes :: "u64 \<Rightarrow> u64 \<Rightarrow> bool \<Rightarrow> world_proxy \<Rightarrow> (world_proxy \<times> help_call list) option" where
  "HandleTradeRes applicant responder agree wp =
     (if \<not> agree then Some (wp, [])
      else do {
        wp \<leftarrow> (case map_of (wp_tradeMap wp) applicant of
                 Some e \<Rightarrow> delete_trade e wp
               | None \<Rightarrow>
                   (case map_of (wp_tradeMap wp) responder of
                      Some e \<Rightarrow> delete_trade e wp
                    | None \<Rightarrow> Some wp));
        let pTrade = length (wp_trades wp);
        let wp = wp\<lparr>wp_trades := wp_trades wp @ [Some (PlayerTrade applicant responder)],
                    wp_tradeMap := smap_emplace applicant (Some pTrade) (smap_emplace responder (Some pTrade) (wp_tradeMap wp))\<rparr>;
        Some (wp, [send_sn S2C_TradeOpen (TradeOpen applicant responder) applicant wp,
                   send_sn S2C_TradeOpen (TradeOpen applicant responder) responder wp])
      })"

definition set_ack :: "u64 \<Rightarrow> bool \<Rightarrow> player_trade \<Rightarrow> player_trade" where
  "set_ack sender ack tr =
     (if sender = tr_applicant tr then tr\<lparr>tr_appAck := ack\<rparr>
      else if sender = tr_responder tr then tr\<lparr>tr_resAck := ack\<rparr>
      else tr)"

definition HandleUpdateTradeItem ::
  "player \<Rightarrow> u64 \<Rightarrow> u64 \<Rightarrow> item_proto \<Rightarrow> int \<Rightarrow> bool \<Rightarrow> world_proxy \<Rightarrow> (world_proxy \<times> help_call list) option" where
  "HandleUpdateTradeItem pPlayer sender recver item gold ack wp =
     (case map_of (wp_tradeMap wp) (pl_playerSn pPlayer) of
        None \<Rightarrow> Some (wp\<lparr>wp_tradeMap := smap_assign (pl_playerSn pPlayer) None (wp_tradeMap wp)\<rparr>, [])
      | Some None \<Rightarrow> Some (wp, [])
      | Some (Some a) \<Rightarrow> do {
          pTrade \<leftarrow> wp_trades wp ! a;
          let pTrade = set_ack sender ack pTrade;
          let wp = wp\<lparr>wp_trades := (wp_trades wp)[a := Some pTrade]\<rparr>;
          let calls = [send_sn C2C_UpdateTradeItem (UpdateTradeItem sender recver item gold ack) recver wp];
          Some (if tr_appAck pTrade \<and> tr_resAck pTrade
                then (wp\<lparr>wp_tradeMap := smap_erase (tr_applicant pTrade) (smap_erase (tr_responder pTrade) (wp_tradeMap wp))\<rparr>,
                      calls @ [send_sn S2C_TradeClose (TradeClose True) (tr_responder pTrade) wp,
                               send_sn S2C_TradeClose (TradeClose True) (tr_applicant pTrade) wp])
                else (wp, calls))
        })"

subsection \<open>From one world to another\<close>

definition only_with_sn :: "player \<Rightarrow> world_proxy \<Rightarrow> bool" where
  "only_with_sn p wp = (GetPlayerBySocket (player_socket p) (wp_players wp) = Some p
     \<and> GetPlayerBySn (pl_playerSn p) (wp_players wp) = Some p)"

text \<open>What arriving does, for an identity whose socket is free here.\<close>

definition has_arrived :: "player \<Rightarrow> u64 \<Rightarrow> string \<Rightarrow> player_proto \<Rightarrow> bool" where
  "has_arrived q sn acc proto = (pl_playerSn q = sn \<and> pl_account q = acc \<and> pl_player q = proto
     \<and> (\<exists>on. pl_OnlineInGame q = Some on \<and> pp_online_version proto < og_onlineVersion on))"

definition after_ident :: "u64 \<Rightarrow> u64 \<Rightarrow> net_identify" where
  "after_ident worldSn playerSn =
     \<lparr>ni_socket = SocketKey_None, ni_tags = AddTagInt TagEntity worldSn (AddTagInt TagPlayer playerSn [])\<rparr>"

lemma HandleTeleport_enters:
  assumes B: "collector_ok (wp_players B)" and free: "GetPlayerBySocket (Socket (ni_socket i)) (wp_players B) = None"
  shows "\<exists>B' calls q. HandleTeleport i lastSn sn acc proto gp B
      = Some (B', gp\<lparr>ge_sockets := RegisterToLocator (Socket (ni_socket i)) (wp_sn B) (ge_sockets gp)\<rparr>, calls)
    \<and> DispatchProto MI_TeleportAfter (TeleportAfter sn) (Some (after_ident lastSn sn)) \<in> set calls
    \<and> has_arrived q sn acc proto \<and> collector_ok (wp_players B')
    \<and> (\<forall>k. GetPlayerBySocket k (wp_players B') = (if k = Socket (ni_socket i) then Some q else GetPlayerBySocket k (wp_players B)))"
proof -
  let ?s = "Socket (ni_socket i)" and ?fresh = "Player_Awake i acc" and ?pc = "enter i acc (wp_players B)"
  let ?read = "?fresh\<lparr>pl_playerSn := sn, pl_player := proto, pl_name := pp_name proto, pl_OnlineInGame := None\<rparr>"
  let ?new = "?read\<lparr>pl_OnlineInGame := Some (Online_Awake acc proto)\<rparr>"
  let ?B = "B\<lparr>wp_players := set_player ?new ?pc\<rparr>"
  have add: "AddPlayer i acc (wp_players B) = Some (?fresh, ?pc, [DispatchIdent MI_NetworkListenKey (Some (pl_ident ?fresh))])"
    using free by (simp add: AddPlayer_cases enter_def GetPlayerBySocket_def)
  have parse: "Player_ParserFromProto (gp_table gp) sn proto ?fresh = Some ?read"
    by (simp add: Player_ParserFromProto_def Player_Awake_def)
  define calls where "calls = [DispatchIdent MI_NetworkListenKey (Some (pl_ident ?fresh))]
      @ SendProtoToWorld G2S_SyncPlayer (SyncPlayer (c_str acc) proto) ?new gp ?B
      @ [DispatchProto MI_TeleportAfter (TeleportAfter sn) (Some (after_ident lastSn sn))]"
  have 1: "HandleTeleport i lastSn sn acc proto gp B
      = Some (?B, gp\<lparr>ge_sockets := RegisterToLocator ?s (wp_sn B) (ge_sockets gp)\<rparr>, calls)"
    unfolding HandleTeleport_def add using parse by (simp add: Let_def after_ident_def calls_def)
  have 5: "DispatchProto MI_TeleportAfter (TeleportAfter sn) (Some (after_ident lastSn sn)) \<in> set calls" by (simp add: calls_def)
  have okB: "collector_ok ?pc" by (rule collector.enter_inv [OF B])
  have entered: "GetPlayerBySocket ?s ?pc = Some ?fresh" using collector.who_enter [OF B, of ?s i acc] free by simp
  have 2: "collector_ok (set_player ?new ?pc)"
    by (rule collector.change_inv [OF okB, where q = "?fresh"]) (use entered in simp_all)
  have 3: "GetPlayerBySocket k (set_player ?new ?pc) = (if k = ?s then Some ?new else GetPlayerBySocket k (wp_players B))" for k
    using collector.who_change [OF okB, of k ?new] collector.who_enter [OF B, of k i acc] by simp
  have "pp_online_version proto < og_onlineVersion (Online_Awake acc proto)"
    by (simp add: Online_Awake_def Online_ParserFromProto_def Let_def)
  then have 4: "has_arrived ?new sn acc proto" by (simp add: has_arrived_def)
  show ?thesis by (intro exI [of _ ?B] exI [of _ calls] exI [of _ ?new]) (use 1 2 3 4 5 in simp)
qed

lemma HandleTeleportAfter_leaves:
  assumes "collector_ok (wp_players A)"
  shows "\<exists>A' calls. Proxy_HandleTeleportAfter p sn gp A = (A', calls) \<and> collector_ok (wp_players A')
    \<and> (\<forall>k. GetPlayerBySocket k (wp_players A') = (if k = player_socket p then None else GetPlayerBySocket k (wp_players A)))"
  using collector.leave_inv [OF assms] collector.who_leave [OF assms] by (simp add: Proxy_HandleTeleportAfter_def Let_def)

lemma after_ident_finds:
  "only_with_sn p A \<Longrightarrow> WorldProxy_GetPlayer (after_ident w (pl_playerSn p)) A = Some p"
  "GetTagValue (ni_tags (after_ident w sn)) TagEntity = Some \<lparr>KeyStr = [], KeyInt64 = w\<rparr>"
  by (simp_all add: WorldProxy_GetPlayer_def only_with_sn_def after_ident_def GetTagValue_def AddTagInt_def)

text \<open>
  C34. The handover of a player. The message of \<open>Teleport\<close> makes the new world proxy enter the player with its socket,
  its serial number, its data and a higher online version, and register the socket; the answer that it dispatches
  goes to the old one, finds the player there and lets it go. Other sockets are where they were.
\<close>

theorem teleport_hands_over:
  assumes A: "collector_ok (wp_players A)" "only_with_sn p A" and B: "collector_ok (wp_players B)"
    and free: "GetPlayerBySocket (player_socket p) (wp_players B) = None"
  shows "\<exists>acc proto i B' gp' calls j A' calls' q.
    WorldProxyHelp_Teleport p (wp_sn A) (wp_sn B) = [DispatchProto MI_Teleport (Teleport (wp_sn A) (pl_playerSn p) acc proto) (Some i)]
    \<and> HandleTeleport i (wp_sn A) (pl_playerSn p) acc proto gp B = Some (B', gp', calls)
    \<and> DispatchProto MI_TeleportAfter (TeleportAfter (pl_playerSn p)) (Some j) \<in> set calls
    \<and> GetTagValue (ni_tags j) TagEntity = Some \<lparr>KeyStr = [], KeyInt64 = wp_sn A\<rparr> \<and> WorldProxy_GetPlayer j A = Some p
    \<and> Proxy_HandleTeleportAfter p (pl_playerSn p) gp' A = (A', calls')
    \<and> has_arrived q (pl_playerSn p) (c_str (pl_account p)) (Player_SerializeToProto p)
    \<and> (\<forall>k. GetPlayerBySocket k (wp_players A') = (if k = player_socket p then None else GetPlayerBySocket k (wp_players A))
          \<and> GetPlayerBySocket k (wp_players B') = (if k = player_socket p then Some q else GetPlayerBySocket k (wp_players B)))
    \<and> GetTargetEntitySn (player_socket p) (ge_sockets gp') = wp_sn B \<and> collector_ok (wp_players A') \<and> collector_ok (wp_players B')"
proof -
  let ?s = "player_socket p" and ?acc = "c_str (pl_account p)" and ?proto = "Player_SerializeToProto p" and ?sn = "pl_playerSn p"
  define i where "i = \<lparr>ni_socket = SocketKey_CopyFrom (ni_socket (pl_ident p)) SocketKey_None, ni_tags = AddTagInt TagEntity (wp_sn B) []\<rparr>"
  define gp' where "gp' = gp\<lparr>ge_sockets := RegisterToLocator ?s (wp_sn B) (ge_sockets gp)\<rparr>"
  have s: "Socket (ni_socket i) = ?s" by (simp add: i_def SocketKey_CopyFrom_def)
  have 1: "WorldProxyHelp_Teleport p (wp_sn A) (wp_sn B) = [DispatchProto MI_Teleport (Teleport (wp_sn A) ?sn ?acc ?proto) (Some i)]"
    by (simp add: WorldProxyHelp_Teleport_def i_def)
  obtain B' calls q where 2: "HandleTeleport i (wp_sn A) ?sn ?acc ?proto gp B = Some (B', gp', calls)"
      "DispatchProto MI_TeleportAfter (TeleportAfter ?sn) (Some (after_ident (wp_sn A) ?sn)) \<in> set calls"
      "has_arrived q ?sn ?acc ?proto" "collector_ok (wp_players B')"
      "\<forall>k. GetPlayerBySocket k (wp_players B') = (if k = ?s then Some q else GetPlayerBySocket k (wp_players B))"
    using HandleTeleport_enters [OF B, of i "wp_sn A" ?sn ?acc ?proto gp] free unfolding s gp'_def by blast
  obtain A' calls' where 3: "Proxy_HandleTeleportAfter p ?sn gp' A = (A', calls')" "collector_ok (wp_players A')"
      "\<forall>k. GetPlayerBySocket k (wp_players A') = (if k = ?s then None else GetPlayerBySocket k (wp_players A))"
    using HandleTeleportAfter_leaves [OF A(1)] by blast
  have 4: "GetTargetEntitySn ?s (ge_sockets gp') = wp_sn B"
    by (simp add: gp'_def GetTargetEntitySn_def RegisterToLocator_def smap_emplace_def split: option.split)
  show ?thesis using 1 2 3 4 after_ident_finds(2) after_ident_finds(1) [OF A(2)] by blast
qed

theorem teleport_hands_over_witness:
  "\<exists>acc proto i B' gp' calls q.
    WorldProxyHelp_Teleport (two_waiting ! 1) 9 10 = [DispatchProto MI_Teleport (Teleport 9 3 acc proto) (Some i)]
    \<and> HandleTeleport i 9 3 acc proto sample_gp ((sample_wp True)\<lparr>wp_sn := 10, wp_players := Collector_new\<rparr>) = Some (B', gp', calls)
    \<and> GetPlayerBySocket 3 (wp_players B') = Some q \<and> GetTargetEntitySn 3 (ge_sockets gp') = 10"
proof -
  let ?A = "sample_wp True" and ?B = "(sample_wp True)\<lparr>wp_sn := 10, wp_players := Collector_new\<rparr>" and ?p = "two_waiting ! 1"
  have p: "pl_playerSn ?p = 3" "player_socket ?p = 3" "player_socket (two_waiting ! 0) = 8"
    by (simp_all add: two_waiting_def client_def)
  have A: "collector_ok (wp_players ?A)"
    by (rule collector_okI) (use p in \<open>auto simp: sample_wp_def Collector_new_def split: if_splits\<close>)
  have o: "only_with_sn ?p ?A" using sample_players(1) [of True] p by (simp add: only_with_sn_def) (simp add: sample_wp_def GetPlayerBySocket_def)
  have B: "collector_ok (wp_players ?B)" "GetPlayerBySocket (player_socket ?p) (wp_players ?B) = None"
    by (simp_all add: collector_ok_new) (simp add: GetPlayerBySocket_def Collector_new_def)
  have w: "wp_sn ?A = 9" "wp_sn ?B = 10" by (simp_all add: sample_wp_def)
  from teleport_hands_over [OF A o B, of sample_gp] show ?thesis unfolding w p
    apply (elim exE conjE)
    apply (intro exI conjI)
       apply assumption
      apply assumption
     apply simp
    apply assumption
    done
qed


subsection \<open>A trade and its protocol\<close>

text \<open>
  The protocol: a trade is open with the last word of either side, until both have agreed; \<open>None\<close> is closed.
\<close>

type_synonym trade_state = "(bool \<times> bool) option"

fun trade_protocol :: "u64 \<Rightarrow> u64 \<Rightarrow> u64 \<times> bool \<Rightarrow> trade_state \<Rightarrow> trade_state" where
  "trade_protocol a r (sender, ack) None = None"
| "trade_protocol a r (sender, ack) (Some (x, y)) =
     (let (x, y) = (if sender = a then (ack, y) else if sender = r then (x, ack) else (x, y))
      in if x \<and> y then None else Some (x, y))"

fun update_trades :: "(player \<times> u64 \<times> u64 \<times> item_proto \<times> int \<times> bool) list \<Rightarrow> world_proxy \<Rightarrow> (world_proxy \<times> help_call list) option" where
  "update_trades [] wp = Some (wp, [])"
| "update_trades ((p, sender, recver, item, gold, ack) # us) wp = do {
     (wp, calls) \<leftarrow> HandleUpdateTradeItem p sender recver item gold ack wp;
     (wp, calls') \<leftarrow> update_trades us wp;
     Some (wp, calls @ calls')
   }"

definition closings :: "help_call list \<Rightarrow> nat" where
  "closings calls = length (filter (\<lambda>c. (\<exists>i. c = SendPacket S2C_TradeClose (TradeClose True) i)
     \<or> c = DispatchProto S2C_TradeClose (TradeClose True) None) calls)"

text \<open>How the memory of a world proxy shows the state of the trade between \<open>a\<close> and \<open>r\<close>.\<close>

definition trade_open :: "u64 \<Rightarrow> u64 \<Rightarrow> bool \<times> bool \<Rightarrow> world_proxy \<Rightarrow> bool" where
  "trade_open a r xy wp = (\<exists>k < length (wp_trades wp). map_of (wp_tradeMap wp) a = Some (Some k) \<and> map_of (wp_tradeMap wp) r = Some (Some k)
     \<and> wp_trades wp ! k = Some \<lparr>tr_applicant = a, tr_responder = r, tr_appAck = fst xy, tr_resAck = snd xy\<rparr>)"

definition no_trade :: "u64 \<Rightarrow> world_proxy \<Rightarrow> bool" where
  "no_trade sn wp = (map_of (wp_tradeMap wp) sn = None \<or> map_of (wp_tradeMap wp) sn = Some None)"

definition trade_is :: "u64 \<Rightarrow> u64 \<Rightarrow> trade_state \<Rightarrow> world_proxy \<Rightarrow> bool" where
  "trade_is a r st wp = (case st of None \<Rightarrow> no_trade a wp \<and> no_trade r wp | Some xy \<Rightarrow> trade_open a r xy wp)"

lemma closings_simps [simp]:
  "closings [] = 0" "closings (xs @ ys) = closings xs + closings ys"
  "closings (send_sn S2C_TradeClose (TradeClose True) a wp # cs) = Suc (closings cs)"
  "closings (send_sn C2C_UpdateTradeItem proto b wp # cs) = closings cs"
  by (simp_all add: closings_def send_sn_def SendPacket_to_def split: option.split)

lemma HandleTradeRes_opens:
  assumes "map_of (wp_tradeMap wp) a = None" "map_of (wp_tradeMap wp) r = None"
  shows "\<exists>wp1 calls. HandleTradeRes a r True wp = Some (wp1, calls) \<and> trade_open a r (False, False) wp1"
  using assms by (simp add: HandleTradeRes_def trade_open_def Let_def smap_emplace_def PlayerTrade_def nth_append)

lemma update_trade_step:
  assumes t: "trade_is a r st wp" and ne: "a \<noteq> r" and p: "pl_playerSn p = a \<or> pl_playerSn p = r"
  shows "\<exists>wp1 calls. HandleUpdateTradeItem p sender recver item gold ack wp = Some (wp1, calls)
    \<and> trade_is a r (trade_protocol a r (sender, ack) st) wp1
    \<and> closings calls = (if st \<noteq> None \<and> trade_protocol a r (sender, ack) st = None then 2 else 0)"
proof (cases st)
  case None
  then show ?thesis using t p by (auto simp: trade_is_def no_trade_def HandleUpdateTradeItem_def)
next
  case (Some xy)
  obtain k where k: "k < length (wp_trades wp)" "map_of (wp_tradeMap wp) a = Some (Some k)" "map_of (wp_tradeMap wp) r = Some (Some k)"
      "wp_trades wp ! k = Some \<lparr>tr_applicant = a, tr_responder = r, tr_appAck = fst xy, tr_resAck = snd xy\<rparr>"
    using t Some by (auto simp: trade_is_def trade_open_def)
  obtain x y where xy: "xy = (x, y)" by force
  have m: "map_of (wp_tradeMap wp) (pl_playerSn p) = Some (Some k)" using p k by auto
  define tr where "tr = set_ack sender ack \<lparr>tr_applicant = a, tr_responder = r, tr_appAck = x, tr_resAck = y\<rparr>"
  have tr: "tr_applicant tr = a" "tr_responder tr = r" by (simp_all add: tr_def set_ack_def)
  have pr: "trade_protocol a r (sender, ack) st = (if tr_appAck tr \<and> tr_resAck tr then None else Some (tr_appAck tr, tr_resAck tr))"
    using ne unfolding Some xy tr_def set_ack_def by simp
  note pr' = pr [unfolded Some]
  let ?wp = "wp\<lparr>wp_trades := (wp_trades wp)[k := Some tr]\<rparr>"
  have e: "\<lparr>tr_applicant = a, tr_responder = r, tr_appAck = tr_appAck tr, tr_resAck = tr_resAck tr\<rparr> = tr" using tr by (cases tr) simp
  have u: "HandleUpdateTradeItem p sender recver item gold ack wp =
      (let calls = [send_sn C2C_UpdateTradeItem (UpdateTradeItem sender recver item gold ack) recver ?wp] in
       Some (if tr_appAck tr \<and> tr_resAck tr
             then (?wp\<lparr>wp_tradeMap := smap_erase a (smap_erase r (wp_tradeMap wp))\<rparr>,
                   calls @ [send_sn S2C_TradeClose (TradeClose True) r ?wp, send_sn S2C_TradeClose (TradeClose True) a ?wp])
             else (?wp, calls)))"
    unfolding HandleUpdateTradeItem_def m using k xy tr by (simp add: Let_def tr_def [symmetric] send_sn_def)
  show ?thesis
  proof (cases "tr_appAck tr \<and> tr_resAck tr")
    case True
    then show ?thesis unfolding u Some pr' by (simp add: Let_def trade_is_def no_trade_def send_sn_def [symmetric])
  next
    case False
    then have "trade_open a r (tr_appAck tr, tr_resAck tr) ?wp" using k e by (auto simp: trade_open_def)
    then show ?thesis using False unfolding u Some pr' by (auto simp: Let_def trade_is_def)
  qed
qed

fun word_of :: "player \<times> u64 \<times> u64 \<times> item_proto \<times> int \<times> bool \<Rightarrow> u64 \<times> bool" where
  "word_of (p, sender, recver, item, gold, ack) = (sender, ack)"

definition protocol_run :: "u64 \<Rightarrow> u64 \<Rightarrow> (player \<times> u64 \<times> u64 \<times> item_proto \<times> int \<times> bool) list \<Rightarrow> trade_state \<Rightarrow> trade_state" where
  "protocol_run a r us st = foldl (\<lambda>st u. trade_protocol a r (word_of u) st) st us"

lemma protocol_run_closed [simp]: "protocol_run a r us None = None"
proof (induction us)
  case (Cons u us)
  obtain sender ack where "word_of u = (sender, ack)" by force
  then show ?case using Cons by (simp add: protocol_run_def)
qed (simp add: protocol_run_def)

lemma update_trades_follow:
  assumes "a \<noteq> r" "\<forall>u \<in> set us. pl_playerSn (fst u) = a \<or> pl_playerSn (fst u) = r" "trade_is a r st wp"
  shows "\<exists>wp1 calls. update_trades us wp = Some (wp1, calls) \<and> trade_is a r (protocol_run a r us st) wp1
    \<and> closings calls = (if st \<noteq> None \<and> protocol_run a r us st = None then 2 else 0)"
  using assms(2-)
proof (induction us arbitrary: st wp)
  case (Cons u us)
  obtain p sender recver item gold ack where u: "u = (p, sender, recver, item, gold, ack)" using prod_cases6 by blast
  let ?st = "trade_protocol a r (sender, ack) st"
  have p: "pl_playerSn p = a \<or> pl_playerSn p = r" using Cons.prems(1) u by simp
  obtain wp1 calls where 1: "HandleUpdateTradeItem p sender recver item gold ack wp = Some (wp1, calls)" "trade_is a r ?st wp1"
      "closings calls = (if st \<noteq> None \<and> ?st = None then 2 else 0)"
    using update_trade_step [OF Cons.prems(2) assms(1) p] by blast
  obtain wp2 calls' where 2: "update_trades us wp1 = Some (wp2, calls')" "trade_is a r (protocol_run a r us ?st) wp2"
      "closings calls' = (if ?st \<noteq> None \<and> protocol_run a r us ?st = None then 2 else 0)"
    using Cons.IH [OF _ 1(2)] Cons.prems(1) by auto
  have run: "protocol_run a r (u # us) st = protocol_run a r us ?st" by (simp add: protocol_run_def u)
  show ?case
  proof (cases st)
    case None
    then show ?thesis using 1 2 unfolding run by (auto simp: u)
  next
    case (Some xy)
    then show ?thesis using 1 2 unfolding run by (auto simp: u)
  qed
qed (auto simp: protocol_run_def)

text \<open>
  C35. A trade refines its protocol: from the answer that opens it, and whatever items, gold and words of the two
  players follow, its memory shows the state of the protocol; it is closed by the first word after which both have
  agreed, and only then is its end announced, once to either side.
\<close>

theorem trade_follows_protocol:
  assumes fresh: "map_of (wp_tradeMap wp) a = None" "map_of (wp_tradeMap wp) r = None" and ne: "a \<noteq> r"
    and us: "\<forall>u \<in> set us. pl_playerSn (fst u) = a \<or> pl_playerSn (fst u) = r"
  shows "\<exists>wp1 calls1 wp2 calls2. HandleTradeRes a r True wp = Some (wp1, calls1) \<and> update_trades us wp1 = Some (wp2, calls2)
    \<and> trade_is a r (protocol_run a r us (Some (False, False))) wp2
    \<and> closings calls2 = (if protocol_run a r us (Some (False, False)) = None then 2 else 0)"
proof -
  obtain wp1 calls1 where 1: "HandleTradeRes a r True wp = Some (wp1, calls1)" "trade_open a r (False, False) wp1"
    using HandleTradeRes_opens [OF fresh] by blast
  have "trade_is a r (Some (False, False)) wp1" using 1(2) by (simp add: trade_is_def)
  from update_trades_follow [OF ne us this] 1(1) show ?thesis by auto
qed

theorem trade_follows_protocol_witness:
  "\<exists>wp1 calls1 wp2 calls2. HandleTradeRes 3 8 True (sample_wp True) = Some (wp1, calls1)
    \<and> update_trades [(two_waiting ! 1, 3, 8, \<lparr>it_sn = 1, it_itemType = 0, it_id = 1, it_knapType = 0, it_index = 0\<rparr>, 5, True),
        (two_waiting ! 0, 8, 3, \<lparr>it_sn = 2, it_itemType = 0, it_id = 1, it_knapType = 0, it_index = 0\<rparr>, 0, True)] wp1 = Some (wp2, calls2)
    \<and> closings calls2 = 2"
proof -
  let ?us = "[(two_waiting ! 1, 3, 8, \<lparr>it_sn = 1, it_itemType = 0, it_id = 1, it_knapType = 0, it_index = 0\<rparr>, 5, True),
        (two_waiting ! 0, 8, 3, \<lparr>it_sn = 2, it_itemType = 0, it_id = 1, it_knapType = 0, it_index = 0\<rparr>, 0, True)]
        :: (player \<times> u64 \<times> u64 \<times> item_proto \<times> int \<times> bool) list"
  have m: "map_of (wp_tradeMap (sample_wp True)) 3 = None" "map_of (wp_tradeMap (sample_wp True)) 8 = None" "(3 :: u64) \<noteq> 8"
    by (simp_all add: sample_wp_def)
  have us: "\<forall>u \<in> set ?us. pl_playerSn (fst u) = 3 \<or> pl_playerSn (fst u) = 8" by (simp add: two_waiting_def)
  have "protocol_run 3 8 ?us (Some (False, False)) = None" by (simp add: protocol_run_def)
  with trade_follows_protocol [OF m us] show ?thesis by auto
qed

text \<open>The words carry the side they are for, so one player can speak for both.\<close>

theorem one_player_closes_trade:
  assumes "map_of (wp_tradeMap wp) a = None" "map_of (wp_tradeMap wp) r = None" "a \<noteq> r" "pl_playerSn p = a"
  shows "\<exists>wp1 calls1 wp2 calls2. HandleTradeRes a r True wp = Some (wp1, calls1)
    \<and> update_trades [(p, a, r, item, gold, True), (p, r, a, item', gold', True)] wp1 = Some (wp2, calls2) \<and> closings calls2 = 2"
proof -
  let ?us = "[(p, a, r, item, gold, True), (p, r, a, item', gold', True)]"
  have us: "\<forall>u \<in> set ?us. pl_playerSn (fst u) = a \<or> pl_playerSn (fst u) = r" using assms(4) by simp
  have run: "protocol_run a r ?us (Some (False, False)) = None" using assms(3) by (simp add: protocol_run_def)
  obtain wp1 calls1 where 1: "HandleTradeRes a r True wp = Some (wp1, calls1)" "trade_open a r (False, False) wp1"
    using HandleTradeRes_opens [OF assms(1,2)] by blast
  have "trade_is a r (Some (False, False)) wp1" using 1(2) by (simp add: trade_is_def)
  from update_trades_follow [OF assms(3) us this] 1(1) show ?thesis unfolding run by auto
qed

text \<open>
  C36. A second trade is agreed on while the first one is open: the first is deleted, but \<open>emplace\<close> keeps the entries
  that point to it. Whatever either player does next in the trade uses the deleted one.
\<close>

theorem second_trade_uses_deleted_one:
  assumes "trade_open a r xy wp" "pl_playerSn p = a \<or> pl_playerSn p = r"
  shows "\<exists>wp1 calls. HandleTradeRes a r True wp = Some (wp1, calls) \<and> HandleUpdateTradeItem p sender recver item gold ack wp1 = None"
proof -
  obtain k where k: "k < length (wp_trades wp)" "map_of (wp_tradeMap wp) a = Some (Some k)" "map_of (wp_tradeMap wp) r = Some (Some k)"
      "wp_trades wp ! k \<noteq> None" using assms(1) by (auto simp: trade_open_def)
  have n: "((wp_trades wp)[k := None] @ [t]) ! k = None" for t using k(1) by (simp add: nth_append)
  show ?thesis using k n assms(2) by (auto simp: HandleTradeRes_def delete_trade_def HandleUpdateTradeItem_def Let_def smap_emplace_def)
qed

theorem second_trade_uses_deleted_one_witness:
  "\<exists>wp1 calls1 wp2 calls2. HandleTradeRes 3 8 True (sample_wp True) = Some (wp1, calls1)
    \<and> HandleTradeRes 3 8 True wp1 = Some (wp2, calls2)
    \<and> HandleUpdateTradeItem (two_waiting ! 1) 3 8 \<lparr>it_sn = 1, it_itemType = 0, it_id = 1, it_knapType = 0, it_index = 0\<rparr> 5 True wp2 = None"
proof -
  have m: "map_of (wp_tradeMap (sample_wp True)) 3 = None" "map_of (wp_tradeMap (sample_wp True)) 8 = None" by (simp_all add: sample_wp_def)
  obtain wp1 calls1 where 1: "HandleTradeRes 3 8 True (sample_wp True) = Some (wp1, calls1)" "trade_open 3 8 (False, False) wp1"
    using HandleTradeRes_opens [OF m] by blast
  have "pl_playerSn (two_waiting ! 1) = 3 \<or> pl_playerSn (two_waiting ! 1) = 8" by (simp add: two_waiting_def)
  from second_trade_uses_deleted_one [OF 1(2) this, of 3 8 "\<lparr>it_sn = 1, it_itemType = 0, it_id = 1, it_knapType = 0, it_index = 0\<rparr>" 5 True] 1(1)
  show ?thesis by blast
qed

end
