(* ===== verification/Vectors.thy ===== *)
theory Vectors
  imports Applications
begin

text \<open>
  \<open>Vector3\<close> (\<open>libserver/vector3.h\<close>, \<open>vector3.cpp\<close>): three single-precision numbers, kept as their bits. The
  floating-point operations of the machine are a parameter, a record of the IEEE 754 operations the server uses on
  bits; nothing is assumed about them. Literals of the source are written as bits.
\<close>

record floats =
  fl_add :: "u32 \<Rightarrow> u32 \<Rightarrow> u32"
  fl_sub :: "u32 \<Rightarrow> u32 \<Rightarrow> u32"
  fl_mul :: "u32 \<Rightarrow> u32 \<Rightarrow> u32"
  fl_div :: "u32 \<Rightarrow> u32 \<Rightarrow> u32"
  fl_sqrt :: "u32 \<Rightarrow> u32"
  fl_abs :: "u32 \<Rightarrow> u32"
  fl_le :: "u32 \<Rightarrow> u32 \<Rightarrow> bool"
  fl_less :: "u32 \<Rightarrow> u32 \<Rightarrow> bool"
  db_add :: "u64 \<Rightarrow> u64 \<Rightarrow> u64"
  db_mul :: "u64 \<Rightarrow> u64 \<Rightarrow> u64"
  db_less :: "u64 \<Rightarrow> u64 \<Rightarrow> bool"
  fl_double :: "u32 \<Rightarrow> u64"
  db_single :: "u64 \<Rightarrow> u32"
  fl_uint64 :: "u64 \<Rightarrow> u32"

abbreviation "Float_1 \<equiv> (0x3F800000 :: u32)"
abbreviation "Float_2 \<equiv> (0x40000000 :: u32)"
abbreviation "Float_5 \<equiv> (0x40A00000 :: u32)"
abbreviation "Float_8 \<equiv> (0x41000000 :: u32)"
abbreviation "Float_24 \<equiv> (0x41C00000 :: u32)"
abbreviation "Float_9999 \<equiv> (0x461C3C00 :: u32)"
abbreviation "Float_1_56 \<equiv> (0x3FC7AE14 :: u32)"
abbreviation "Float_5_56 \<equiv> (0x40B1EB85 :: u32)"
abbreviation "Double_0_001 \<equiv> (0x3F50624DD2F1A9FC :: u64)"

fun vec_X :: "vector3 \<Rightarrow> u32" where "vec_X (x, y, z) = x"
fun vec_Y :: "vector3 \<Rightarrow> u32" where "vec_Y (x, y, z) = y"
fun vec_Z :: "vector3 \<Rightarrow> u32" where "vec_Z (x, y, z) = z"

definition Vector3_Zero :: vector3 where "Vector3_Zero = (0, 0, 0)"

definition vec_plus :: "floats \<Rightarrow> vector3 \<Rightarrow> vector3 \<Rightarrow> vector3" where
  "vec_plus F p q = (fl_add F (vec_X p) (vec_X q), fl_add F (vec_Y p) (vec_Y q), fl_add F (vec_Z p) (vec_Z q))"

definition vec_minus :: "floats \<Rightarrow> vector3 \<Rightarrow> vector3 \<Rightarrow> vector3" where
  "vec_minus F p q = (fl_sub F (vec_X p) (vec_X q), fl_sub F (vec_Y p) (vec_Y q), fl_sub F (vec_Z p) (vec_Z q))"

definition GetDistance :: "floats \<Rightarrow> vector3 \<Rightarrow> vector3 \<Rightarrow> u32" where
  "GetDistance F this point =
     (let xv = fl_sub F (vec_X point) (vec_X this); zv = fl_sub F (vec_Z point) (vec_Z this)
      in fl_sqrt F (fl_add F (fl_mul F xv xv) (fl_mul F zv zv)))"

definition GetManhaDist :: "floats \<Rightarrow> vector3 \<Rightarrow> vector3 \<Rightarrow> u32" where
  "GetManhaDist F this point =
     (let xv = fl_sub F (vec_X point) (vec_X this); zv = fl_sub F (vec_Z point) (vec_Z this)
      in fl_add F (fl_abs F xv) (fl_abs F zv))"

definition SqrDistance :: "floats \<Rightarrow> vector3 \<Rightarrow> vector3 \<Rightarrow> u32" where
  "SqrDistance F src dst =
     (let dx = fl_sub F (vec_X dst) (vec_X src); dz = fl_sub F (vec_Z dst) (vec_Z src)
      in fl_add F (fl_mul F dx dx) (fl_mul F dz dz))"

definition Normalize :: "floats \<Rightarrow> vector3 \<Rightarrow> vector3" where
  "Normalize F this =
     (let len = GetDistance F this Vector3_Zero
      in (fl_div F (vec_X this) len, 0, fl_div F (vec_Z this) len))"

text \<open>
  \<open>double\<close> arithmetic on small integers, exactly: \<open>round53\<close> rounds an integer to 53 significant bits, to nearest,
  ties to even. A product with the literal \<open>0.7\<close> is the integer product with its significand, rounded, in units of
  the last place of the literal.
\<close>

fun bit_count :: "nat \<Rightarrow> nat" where
  "bit_count n = (if n = 0 then 0 else Suc (bit_count (n div 2)))"

declare bit_count.simps [simp del]

lemma bit_count_code [simp]:
  "bit_count 0 = 0" "0 < n \<Longrightarrow> bit_count n = Suc (bit_count (n div 2))"
  by (simp_all add: bit_count.simps [of n] bit_count.simps [of 0])

definition round_nat :: "nat \<Rightarrow> nat" where
  "round_nat n =
     (let s = bit_count n - 53; u = 2 ^ s; q = n div u; r = n mod u
      in if 2 * r > u \<or> 2 * r = u \<and> odd q then (q + 1) * u else q * u)"

definition round53 :: "int \<Rightarrow> int" where
  "round53 i = sgn i * int (round_nat (nat \<bar>i\<bar>))"

text \<open>\<open>static_cast<int>\<close> of a number in units of \<open>2 ^ - e\<close> truncates towards zero.\<close>

definition trunc_pow :: "nat \<Rightarrow> int \<Rightarrow> int" where
  "trunc_pow e i = sgn i * (\<bar>i\<bar> div 2 ^ e)"

text \<open>\<open>static_cast<int>(n * 0.7)\<close> and \<open>static_cast<int>(h + n * 0.05)\<close>.\<close>

definition seven_tenths :: "int \<Rightarrow> int" where
  "seven_tenths n = trunc_pow 52 (round53 (n * 3152519739159347))"

definition plus_twentieth :: "int \<Rightarrow> int \<Rightarrow> int" where
  "plus_twentieth h n = trunc_pow 56 (round53 (h * 2 ^ 56 + round53 (n * 3602879701896397)))"

lemma round_nat_exact: "bit_count n \<le> 53 \<Longrightarrow> round_nat n = n"
  by (simp add: round_nat_def)

end
