(* ===== verification/BehaviorTree.thy ===== *)
theory BehaviorTree
  imports Vectors Heaps Config Players
begin

text \<open>
  The behaviour trees of \<open>apps/space\<close>: the non-player character they drive (\<open>npc.h\<close>), the actions and the engine of
  nodes (\<open>bt_node.h\<close>, \<open>bt_node.cpp\<close>) and the component that runs a tree (\<open>bt_component.cpp\<close>).

  A node is a value: a constructor for each class, with its status and its own variables; the iterator \<open>_curr\<close> is an
  index, \<open>None\<close> for \<open>end()\<close>. Pointers to players are serial numbers. What an update reads of the world is the record
  \<open>bt_world\<close>; what it sends is appended to \<open>n_calls\<close>. The only nodes that fill \<open>callbacks\<close> are \<open>BtEdSelector\<close> and
  \<open>BtRepeat\<close>, so the map of callbacks is written out in \<open>HandleEvent\<close>.
\<close>

subsection \<open>The character and what its tree sees\<close>

datatype BtEventId = EvUnknow | EvBirth | EvAlive | EvDeath | EvIdle | EvPatrol | EvPursue | EvAttack | EvFlee
datatype BtStatus = Invalid | Running | Success | Failure | Suspend | Aborted
datatype BtPolicy = PolicySequence | PolicySelector

datatype bt_act =
  BtActAttack | BtActBirth | BtActDeath | BtActFlee | BtActIdle | BtActPatrol | BtActPursue | BtActSense | BtActView

fun event_number :: "BtEventId \<Rightarrow> int" where
  "event_number EvUnknow = 0" | "event_number EvBirth = 1" | "event_number EvAlive = 2"
| "event_number EvDeath = 3" | "event_number EvIdle = 4" | "event_number EvPatrol = 5"
| "event_number EvPursue = 6" | "event_number EvAttack = 7" | "event_number EvFlee = 8"

type_synonym bt_event = "BtEventId \<times> int"

text \<open>
  \<open>bw_draw\<close> are the numbers the random engine of the patrols yields, \<open>bw_getAll\<close> the table of the players of the
  world; \<open>bw_position\<close> and \<open>bw_ident\<close> read a player through a pointer.
\<close>

record bt_world =
  bw_time :: u64
  bw_getAll :: "u64 list"
  bw_position :: "u64 \<Rightarrow> vector3"
  bw_ident :: "u64 \<Rightarrow> net_identify"
  bw_draw :: "nat \<Rightarrow> int"
  bw_floats :: floats

text \<open>\<open>curAct\<close> points to an action of the tree: its kind and, for the client, the index of its patrol point.\<close>

record npc =
  n_sn :: u64
  n_id :: int
  n_lv :: int
  n_hp :: int
  n_initHp :: int
  n_atk :: int
  n_fleeing :: bool
  n_rebirth :: bool
  n_target :: "u64 option"
  n_linker :: "u64 option"
  n_initPos :: vector3
  n_currPos :: vector3
  n_nextPos :: vector3
  curAct :: "(bt_act \<times> int) option"
  n_events :: "bt_event list"
  n_draws :: nat
  n_calls :: "help_call list"

definition npc_sends :: "help_call list \<Rightarrow> npc \<Rightarrow> npc" where
  "npc_sends cs n = n\<lparr>n_calls := n_calls n @ cs\<rparr>"

definition BroadcastPacket :: "bt_world \<Rightarrow> int \<Rightarrow> proto \<Rightarrow> help_call list" where
  "BroadcastPacket W msgId proto = map (\<lambda>sn. SendPacket msgId proto (bw_ident W sn)) (bw_getAll W)"

definition GetNearestPlayer :: "bt_world \<Rightarrow> vector3 \<Rightarrow> u64 option" where
  "GetNearestPlayer W pos =
     snd (foldl (\<lambda>(dist, player) sn.
            let temp = GetManhaDist (bw_floats W) pos (bw_position W sn)
            in if fl_less (bw_floats W) temp dist then (temp, Some sn) else (dist, player))
          (Float_9999, None) (bw_getAll W))"

text \<open>\<open>std::priority_queue<BtEvent>\<close>: the event of the greatest priority is in front.\<close>

definition ev_key :: "bt_event \<Rightarrow> int" where "ev_key e = - snd e"

definition Bt_AddEvent :: "BtEventId \<Rightarrow> int \<Rightarrow> npc \<Rightarrow> npc" where
  "Bt_AddEvent i priority n = n\<lparr>n_events := push_heap ev_key (n_events n @ [(i, priority)])\<rparr>"

definition SetLinkPlayer :: "bt_world \<Rightarrow> u64 option \<Rightarrow> npc \<Rightarrow> npc" where
  "SetLinkPlayer W player n =
     (let n = (case n_linker n of
                 None \<Rightarrow> n
               | Some l \<Rightarrow> npc_sends [SendPacket S2C_ReqLinkPlayer (ReqLinkPlayer (n_id n) (n_sn n) False) (bw_ident W l)] n)
      in n\<lparr>n_linker := player\<rparr>)"

definition SetPatrolPoint :: "floats \<Rightarrow> int \<Rightarrow> npc \<Rightarrow> npc" where
  "SetPatrolPoint F i n =
     (let x = vec_X (n_initPos n); z = vec_Z (n_initPos n); y = vec_Y (n_nextPos n) in
      if i = 0 then n\<lparr>n_nextPos := (fl_sub F x Float_5, y, fl_sub F z Float_5)\<rparr>
      else if i = 1 then n\<lparr>n_nextPos := (fl_sub F x Float_5, y, fl_add F z Float_5)\<rparr>
      else if i = 2 then n\<lparr>n_nextPos := (fl_add F x Float_5, y, fl_sub F z Float_5)\<rparr>
      else if i = 3 then n\<lparr>n_nextPos := (fl_add F x Float_5, y, fl_add F z Float_5)\<rparr>
      else n)"

definition CanSee :: "bt_world \<Rightarrow> u64 option \<Rightarrow> npc \<Rightarrow> bool" where
  "CanSee W player n =
     (case player of None \<Rightarrow> False
      | Some p \<Rightarrow> fl_le (bw_floats W) (GetDistance (bw_floats W) (n_currPos n) (bw_position W p)) Float_8)"

definition CanAttack :: "bt_world \<Rightarrow> u64 option \<Rightarrow> npc \<Rightarrow> bool" where
  "CanAttack W player n =
     (case player of None \<Rightarrow> False
      | Some p \<Rightarrow> fl_le (bw_floats W) (GetDistance (bw_floats W) (n_currPos n) (bw_position W p)) Float_2)"


subsection \<open>Actions\<close>

record act_vars =
  av_lastTime :: u64
  av_currTime :: u64
  av_timeElapsed :: u64
  av_index :: int

definition act_vars_new :: act_vars where
  "act_vars_new = \<lparr>av_lastTime = 0, av_currTime = 0, av_timeElapsed = 0, av_index = 0\<rparr>"

fun GetEventId :: "bt_act \<Rightarrow> BtEventId" where
  "GetEventId BtActAttack = EvAttack"
| "GetEventId BtActBirth = EvBirth"
| "GetEventId BtActDeath = EvBirth"
| "GetEventId BtActFlee = EvFlee"
| "GetEventId BtActIdle = EvIdle"
| "GetEventId BtActPatrol = EvPatrol"
| "GetEventId BtActPursue = EvPursue"
| "GetEventId BtActSense = EvUnknow"
| "GetEventId BtActView = EvUnknow"

text \<open>
  Each class of actions has its messages, \<open>Enter\<close> and \<open>Exit\<close>; \<open>act_Broadcast\<close>, \<open>act_Singlecast\<close>, \<open>act_Enter\<close> and \<open>act_Exit\<close>
  are the virtual calls. A broadcast of a patrol has the index of its point; an attack or a pursuit without a target has
  no message.
\<close>

definition Attack_Broadcast :: "bt_world \<Rightarrow> npc \<Rightarrow> npc" where
  "Attack_Broadcast W n =
     (case n_target n of
        None \<Rightarrow> n
      | Some p \<Rightarrow> npc_sends (BroadcastPacket W S2C_SyncBtAction (SyncBtAction (event_number EvAttack) 0 (n_sn n) p)) n)"

definition Attack_Singlecast :: "bt_world \<Rightarrow> u64 \<Rightarrow> npc \<Rightarrow> npc" where
  "Attack_Singlecast W player n =
     (case n_target n of
        None \<Rightarrow> n
      | Some p \<Rightarrow> npc_sends [SendPacket S2C_SyncBtAction (SyncBtAction (event_number EvAttack) 0 (n_sn n) p) (bw_ident W player)] n)"

definition Birth_Broadcast :: "bt_world \<Rightarrow> npc \<Rightarrow> npc" where
  "Birth_Broadcast W n = npc_sends (BroadcastPacket W S2C_SyncBtAction (SyncBtAction (event_number EvBirth) 0 (n_sn n) 0)) n"

definition Birth_Singlecast :: "bt_world \<Rightarrow> u64 \<Rightarrow> npc \<Rightarrow> npc" where
  "Birth_Singlecast W player n = npc_sends [SendPacket S2C_SyncBtAction (SyncBtAction (event_number EvBirth) 0 (n_sn n) 0) (bw_ident W player)] n"

definition Death_Broadcast :: "bt_world \<Rightarrow> npc \<Rightarrow> npc" where
  "Death_Broadcast W n = npc_sends (BroadcastPacket W S2C_SyncBtAction (SyncBtAction (event_number EvDeath) 0 (n_sn n) 0)) n"

definition Death_Singlecast :: "bt_world \<Rightarrow> u64 \<Rightarrow> npc \<Rightarrow> npc" where
  "Death_Singlecast W player n = npc_sends [SendPacket S2C_SyncBtAction (SyncBtAction (event_number EvDeath) 0 (n_sn n) 0) (bw_ident W player)] n"

definition Flee_Broadcast :: "bt_world \<Rightarrow> npc \<Rightarrow> npc" where
  "Flee_Broadcast W n = npc_sends (BroadcastPacket W S2C_SyncBtAction (SyncBtAction (event_number EvFlee) 0 (n_sn n) 0)) n"

definition Flee_Singlecast :: "bt_world \<Rightarrow> u64 \<Rightarrow> npc \<Rightarrow> npc" where
  "Flee_Singlecast W player n = npc_sends [SendPacket S2C_SyncBtAction (SyncBtAction (event_number EvFlee) 0 (n_sn n) 0) (bw_ident W player)] n"

definition Idle_Broadcast :: "bt_world \<Rightarrow> npc \<Rightarrow> npc" where
  "Idle_Broadcast W n = npc_sends (BroadcastPacket W S2C_SyncBtAction (SyncBtAction (event_number EvIdle) 0 (n_sn n) 0)) n"

definition Idle_Singlecast :: "bt_world \<Rightarrow> u64 \<Rightarrow> npc \<Rightarrow> npc" where
  "Idle_Singlecast W player n = npc_sends [SendPacket S2C_SyncBtAction (SyncBtAction (event_number EvIdle) 0 (n_sn n) 0) (bw_ident W player)] n"

definition Patrol_Broadcast :: "bt_world \<Rightarrow> int \<Rightarrow> npc \<Rightarrow> npc" where
  "Patrol_Broadcast W i n = npc_sends (BroadcastPacket W S2C_SyncBtAction (SyncBtAction (event_number EvPatrol) i (n_sn n) 0)) n"

definition Patrol_Singlecast :: "bt_world \<Rightarrow> int \<Rightarrow> u64 \<Rightarrow> npc \<Rightarrow> npc" where
  "Patrol_Singlecast W i player n = npc_sends [SendPacket S2C_SyncBtAction (SyncBtAction (event_number EvPatrol) i (n_sn n) 0) (bw_ident W player)] n"

definition Pursue_Broadcast :: "bt_world \<Rightarrow> npc \<Rightarrow> npc" where
  "Pursue_Broadcast W n =
     (case n_target n of
        None \<Rightarrow> n
      | Some p \<Rightarrow> npc_sends (BroadcastPacket W S2C_SyncBtAction (SyncBtAction (event_number EvPursue) 0 (n_sn n) p)) n)"

definition Pursue_Singlecast :: "bt_world \<Rightarrow> u64 \<Rightarrow> npc \<Rightarrow> npc" where
  "Pursue_Singlecast W player n =
     (case n_target n of
        None \<Rightarrow> n
      | Some p \<Rightarrow> npc_sends [SendPacket S2C_SyncBtAction (SyncBtAction (event_number EvPursue) 0 (n_sn n) p) (bw_ident W player)] n)"

fun act_Broadcast :: "bt_world \<Rightarrow> bt_act \<Rightarrow> int \<Rightarrow> npc \<Rightarrow> npc" where
  "act_Broadcast W BtActAttack i n = Attack_Broadcast W n"
| "act_Broadcast W BtActBirth i n = Birth_Broadcast W n"
| "act_Broadcast W BtActDeath i n = Death_Broadcast W n"
| "act_Broadcast W BtActFlee i n = Flee_Broadcast W n"
| "act_Broadcast W BtActIdle i n = Idle_Broadcast W n"
| "act_Broadcast W BtActPatrol i n = Patrol_Broadcast W i n"
| "act_Broadcast W BtActPursue i n = Pursue_Broadcast W n"
| "act_Broadcast W BtActSense i n = n"
| "act_Broadcast W BtActView i n = n"

fun act_Singlecast :: "bt_world \<Rightarrow> bt_act \<Rightarrow> int \<Rightarrow> u64 \<Rightarrow> npc \<Rightarrow> npc" where
  "act_Singlecast W BtActAttack i player n = Attack_Singlecast W player n"
| "act_Singlecast W BtActBirth i player n = Birth_Singlecast W player n"
| "act_Singlecast W BtActDeath i player n = Death_Singlecast W player n"
| "act_Singlecast W BtActFlee i player n = Flee_Singlecast W player n"
| "act_Singlecast W BtActIdle i player n = Idle_Singlecast W player n"
| "act_Singlecast W BtActPatrol i player n = Patrol_Singlecast W i player n"
| "act_Singlecast W BtActPursue i player n = Pursue_Singlecast W player n"
| "act_Singlecast W BtActSense i player n = n"
| "act_Singlecast W BtActView i player n = n"

definition Attack_Enter :: "bt_world \<Rightarrow> act_vars \<Rightarrow> npc \<Rightarrow> act_vars \<times> npc" where
  "Attack_Enter W v n =
     (v, Attack_Broadcast W (n\<lparr>curAct := Some (BtActAttack, 0)\<rparr>))"

definition Birth_Enter :: "bt_world \<Rightarrow> act_vars \<Rightarrow> npc \<Rightarrow> act_vars \<times> npc" where
  "Birth_Enter W v n =
     (v\<lparr>av_currTime := bw_time W, av_lastTime := bw_time W\<rparr>,
      n\<lparr>n_target := None, n_linker := None, n_fleeing := False, n_currPos := n_initPos n\<rparr>)"

definition Death_Enter :: "bt_world \<Rightarrow> act_vars \<Rightarrow> npc \<Rightarrow> act_vars \<times> npc" where
  "Death_Enter W v n =
     (v\<lparr>av_currTime := bw_time W, av_lastTime := bw_time W\<rparr>,
      Death_Broadcast W (n\<lparr>n_target := None, n_linker := None\<rparr>))"

definition Flee_Enter :: "bt_world \<Rightarrow> act_vars \<Rightarrow> npc \<Rightarrow> act_vars \<times> npc" where
  "Flee_Enter W v n =
     (v\<lparr>av_currTime := bw_time W, av_lastTime := bw_time W\<rparr>,
      Flee_Broadcast W (n\<lparr>n_nextPos := n_initPos n, curAct := Some (BtActFlee, 0)\<rparr>))"

definition Idle_Enter :: "bt_world \<Rightarrow> act_vars \<Rightarrow> npc \<Rightarrow> act_vars \<times> npc" where
  "Idle_Enter W v n =
     (v\<lparr>av_currTime := bw_time W, av_lastTime := bw_time W\<rparr>,
      Idle_Broadcast W (n\<lparr>n_target := None, curAct := Some (BtActIdle, 0)\<rparr>))"

definition Patrol_Enter :: "bt_world \<Rightarrow> act_vars \<Rightarrow> npc \<Rightarrow> act_vars \<times> npc" where
  "Patrol_Enter W v n =
     (let i = bw_draw W (n_draws n);
          n = SetPatrolPoint (bw_floats W) i (n\<lparr>n_draws := n_draws n + 1\<rparr>)
      in (v\<lparr>av_index := i\<rparr>, Patrol_Broadcast W i (n\<lparr>n_target := None, curAct := Some (BtActPatrol, i)\<rparr>)))"

definition Pursue_Enter :: "bt_world \<Rightarrow> act_vars \<Rightarrow> npc \<Rightarrow> act_vars \<times> npc" where
  "Pursue_Enter W v n =
     (v, Pursue_Broadcast W (n\<lparr>curAct := Some (BtActPursue, 0)\<rparr>))"

fun act_Enter :: "bt_world \<Rightarrow> bt_act \<Rightarrow> act_vars \<Rightarrow> npc \<Rightarrow> act_vars \<times> npc" where
  "act_Enter W BtActAttack v n = Attack_Enter W v n"
| "act_Enter W BtActBirth v n = Birth_Enter W v n"
| "act_Enter W BtActDeath v n = Death_Enter W v n"
| "act_Enter W BtActFlee v n = Flee_Enter W v n"
| "act_Enter W BtActIdle v n = Idle_Enter W v n"
| "act_Enter W BtActPatrol v n = Patrol_Enter W v n"
| "act_Enter W BtActPursue v n = Pursue_Enter W v n"
| "act_Enter W BtActSense v n = (v, n)"
| "act_Enter W BtActView v n = (v, n)"

definition Attack_Exit :: "npc \<Rightarrow> npc" where
  "Attack_Exit n = n\<lparr>curAct := None\<rparr>"

definition Flee_Exit :: "npc \<Rightarrow> npc" where
  "Flee_Exit n = n\<lparr>n_target := None, n_fleeing := False, curAct := None\<rparr>"

definition Idle_Exit :: "npc \<Rightarrow> npc" where
  "Idle_Exit n = n\<lparr>curAct := None\<rparr>"

definition Patrol_Exit :: "npc \<Rightarrow> npc" where
  "Patrol_Exit n = n\<lparr>curAct := None\<rparr>"

definition Pursue_Exit :: "npc \<Rightarrow> npc" where
  "Pursue_Exit n = n\<lparr>curAct := None\<rparr>"

fun act_Exit :: "bt_act \<Rightarrow> npc \<Rightarrow> npc" where
  "act_Exit BtActAttack n = Attack_Exit n"
| "act_Exit BtActBirth n = n"
| "act_Exit BtActDeath n = n"
| "act_Exit BtActFlee n = Flee_Exit n"
| "act_Exit BtActIdle n = Idle_Exit n"
| "act_Exit BtActPatrol n = Patrol_Exit n"
| "act_Exit BtActPursue n = Pursue_Exit n"
| "act_Exit BtActSense n = n"
| "act_Exit BtActView n = n"

lemmas act_Enter_defs [simp] =
  Attack_Enter_def Birth_Enter_def Death_Enter_def Flee_Enter_def Idle_Enter_def Patrol_Enter_def Pursue_Enter_def

lemmas act_Exit_defs [simp] = Attack_Exit_def Flee_Exit_def Idle_Exit_def Patrol_Exit_def Pursue_Exit_def

lemmas act_Broadcast_defs =
  Attack_Broadcast_def Birth_Broadcast_def Death_Broadcast_def Flee_Broadcast_def Idle_Broadcast_def Patrol_Broadcast_def
  Pursue_Broadcast_def

definition AttackTask :: "bt_world \<Rightarrow> npc \<Rightarrow> BtStatus \<times> npc" where
  "AttackTask W n =
     (if \<not> CanAttack W (n_target n) n then (Suspend, Bt_AddEvent EvPursue 0 n)
      else if \<not> CanSee W (n_target n) n then (Suspend, Bt_AddEvent EvIdle 0 n)
      else (Running, n))"

definition BirthTask :: "bt_world \<Rightarrow> act_vars \<Rightarrow> npc \<Rightarrow> BtStatus \<times> act_vars \<times> npc" where
  "BirthTask W v n =
     (let v = v\<lparr>av_currTime := bw_time W\<rparr> in
      if bw_getAll W = [] then (Running, v\<lparr>av_lastTime := av_currTime v\<rparr>, n)
      else (let v = v\<lparr>av_timeElapsed := av_currTime v - av_lastTime v\<rparr> in
            if av_timeElapsed v < 2000 then (Running, v, n) else (Success, v, n\<lparr>n_hp := n_initHp n\<rparr>)))"

definition DeathTask :: "bt_world \<Rightarrow> act_vars \<Rightarrow> npc \<Rightarrow> BtStatus \<times> act_vars \<times> npc" where
  "DeathTask W v n =
     (let v = v\<lparr>av_currTime := bw_time W\<rparr>; v = v\<lparr>av_timeElapsed := av_currTime v - av_lastTime v\<rparr> in
      if av_timeElapsed v < 8000 \<or> \<not> n_rebirth n then (Running, v, n) else (Success, v, n))"

definition FleeTask :: "bt_world \<Rightarrow> act_vars \<Rightarrow> npc \<Rightarrow> BtStatus \<times> act_vars \<times> npc" where
  "FleeTask W v n =
     (if fl_le (bw_floats W) (GetDistance (bw_floats W) (n_currPos n) (n_nextPos n)) Float_1 then
        if seven_tenths (n_initHp n) \<le> n_hp n then (Suspend, v, Bt_AddEvent EvPatrol 0 n)
        else (let v = v\<lparr>av_currTime := bw_time W\<rparr>; v = v\<lparr>av_timeElapsed := av_currTime v - av_lastTime v\<rparr> in
              if av_timeElapsed v < 1000 then (Running, v, n)
              else (let v = v\<lparr>av_lastTime := av_currTime v\<rparr>;
                        n = n\<lparr>n_hp := min (plus_twentieth (n_hp n) (n_initHp n)) (n_initHp n)\<rparr>
                    in (Running, v, npc_sends (BroadcastPacket W S2C_SyncNpcProps (SyncNpcProps (n_sn n) (n_hp n))) n)))
      else (Running, v, n))"

definition IdleTask :: "bt_world \<Rightarrow> act_vars \<Rightarrow> npc \<Rightarrow> BtStatus \<times> act_vars \<times> npc" where
  "IdleTask W v n =
     (let v = v\<lparr>av_currTime := bw_time W\<rparr>; v = v\<lparr>av_timeElapsed := av_currTime v - av_lastTime v\<rparr> in
      if av_timeElapsed v < 2000 then (Running, v, n) else (Suspend, v, Bt_AddEvent EvPatrol 0 n))"

definition PatrolTask :: "bt_world \<Rightarrow> npc \<Rightarrow> BtStatus \<times> npc" where
  "PatrolTask W n =
     (if fl_le (bw_floats W) (GetDistance (bw_floats W) (n_currPos n) (n_nextPos n)) Float_1
      then (Suspend, Bt_AddEvent EvIdle 0 n) else (Running, n))"

definition PursueTask :: "bt_world \<Rightarrow> npc \<Rightarrow> BtStatus \<times> npc" where
  "PursueTask W n =
     (if CanAttack W (n_target n) n then (Suspend, Bt_AddEvent EvAttack 0 n)
      else if \<not> CanSee W (n_target n) n then (Suspend, Bt_AddEvent EvIdle 0 n)
      else (Running, n))"

text \<open>
  \<open>hp * 1.0 / initHp * 1.0 <= 0.3\<close>: the quotient of two 32-bit integers is rounded to the double \<open>0.3\<close> or less exactly when
  it is at most three tenths; a division by zero gives an infinity or no number.
\<close>

definition hp_low :: "npc \<Rightarrow> bool" where
  "hp_low n =
     (if n_initHp n > 0 then 10 * n_hp n \<le> 3 * n_initHp n
      else if n_initHp n < 0 then 3 * n_initHp n \<le> 10 * n_hp n else n_hp n < 0)"

definition SenseTask :: "npc \<Rightarrow> BtStatus \<times> npc" where
  "SenseTask n =
     (if n_hp n = 0 then (Aborted, n)
      else (let n = (if \<not> n_fleeing n \<and> hp_low n then Bt_AddEvent EvFlee 1 (n\<lparr>n_fleeing := True\<rparr>) else n) in (Running, n)))"

fun view_loop :: "bt_world \<Rightarrow> u64 list \<Rightarrow> npc \<Rightarrow> npc" where
  "view_loop W [] n = n"
| "view_loop W (p # ps) n =
     (if CanAttack W (Some p) n then Bt_AddEvent EvAttack 0 (n\<lparr>n_target := Some p\<rparr>)
      else if CanSee W (Some p) n then Bt_AddEvent EvPursue 0 (n\<lparr>n_target := Some p\<rparr>)
      else view_loop W ps n)"

definition view_link :: "bt_world \<Rightarrow> npc \<Rightarrow> npc" where
  "view_link W n =
     (if n_linker n \<noteq> None then n
      else (let player = GetNearestPlayer W (n_currPos n); n = SetLinkPlayer W player n
            in case player of
                 None \<Rightarrow> n
               | Some p \<Rightarrow> npc_sends [SendPacket S2C_ReqLinkPlayer (ReqLinkPlayer (n_id n) (n_sn n) True) (bw_ident W p)] n))"

definition far_from_home :: "bt_world \<Rightarrow> npc \<Rightarrow> bool" where
  "far_from_home W n = fl_le (bw_floats W) Float_24 (GetDistance (bw_floats W) (n_currPos n) (n_initPos n))"

definition ViewTask :: "bt_world \<Rightarrow> npc \<Rightarrow> BtStatus \<times> npc" where
  "ViewTask W n =
     (let n = view_link W n;
          n = (if n_target n = None then view_loop W (bw_getAll W) n else n);
          n = (if \<not> n_fleeing n \<and> far_from_home W n then Bt_AddEvent EvFlee 1 (n\<lparr>n_fleeing := True\<rparr>) else n)
      in (Running, n))"

fun act_task :: "bt_world \<Rightarrow> bt_act \<Rightarrow> act_vars \<Rightarrow> npc \<Rightarrow> BtStatus \<times> act_vars \<times> npc" where
  "act_task W BtActAttack v n = (let (st, n) = AttackTask W n in (st, v, n))"
| "act_task W BtActBirth v n = BirthTask W v n"
| "act_task W BtActDeath v n = DeathTask W v n"
| "act_task W BtActFlee v n = FleeTask W v n"
| "act_task W BtActIdle v n = IdleTask W v n"
| "act_task W BtActPatrol v n = (let (st, n) = PatrolTask W n in (st, v, n))"
| "act_task W BtActPursue v n = (let (st, n) = PursueTask W n in (st, v, n))"
| "act_task W BtActSense v n = (let (st, n) = SenseTask n in (st, v, n))"
| "act_task W BtActView v n = (let (st, n) = ViewTask W n in (st, v, n))"


subsection \<open>The nodes\<close>

text \<open>
  \<open>BtEdSelector\<close> also has its map \<open>_nodes\<close> from events to children, \<open>BtRepeat\<close> its counter and limit.
\<close>

datatype bt_node =
  Action bt_act BtStatus act_vars
| Condition "npc \<Rightarrow> bool" BtStatus
| Selector BtStatus "nat option" "bt_node list"
| Sequence BtStatus "nat option" "bt_node list"
| Parallel BtPolicy BtStatus "bt_node list"
| EdSelector BtStatus "nat option" "(BtEventId \<times> nat) list" "bt_node list"
| Repeat BtStatus u64 u64 bt_node

fun status :: "bt_node \<Rightarrow> BtStatus" where
  "status (Action a st v) = st"
| "status (Condition f st) = st"
| "status (Selector st cur cs) = st"
| "status (Sequence st cur cs) = st"
| "status (Parallel policy st cs) = st"
| "status (EdSelector st cur nodes cs) = st"
| "status (Repeat st cnt limit c) = st"

definition child_begin :: "bt_node list \<Rightarrow> nat option" where
  "child_begin cs = (if cs = [] then None else Some 0)"

definition list_end :: "nat option \<Rightarrow> 'a list \<Rightarrow> bool" where
  "list_end cur cs = (case cur of None \<Rightarrow> True | Some i \<Rightarrow> length cs \<le> i)"

text \<open>\<open>ForceExit st\<close> sets the status and calls \<open>Exit\<close>, which in a composite leaves the children.\<close>

fun ForceExit :: "BtStatus \<Rightarrow> bt_node \<Rightarrow> npc \<Rightarrow> bt_node \<times> npc"
and ForceExit_all :: "bt_node list \<Rightarrow> npc \<Rightarrow> bt_node list \<times> npc"
and ForceExit_nth :: "BtStatus \<Rightarrow> nat \<Rightarrow> bt_node list \<Rightarrow> npc \<Rightarrow> bt_node list \<times> npc" where
  "ForceExit s (Action a st v) n = (Action a s v, act_Exit a n)"
| "ForceExit s (Condition f st) n = (Condition f s, n)"
| "ForceExit s (Selector st cur cs) n = (let (cs, n) = ForceExit_all cs n in (Selector s cur cs, n))"
| "ForceExit s (Sequence st cur cs) n = (let (cs, n) = ForceExit_all cs n in (Sequence s cur cs, n))"
| "ForceExit s (Parallel policy st cs) n = (let (cs, n) = ForceExit_all cs n in (Parallel policy s cs, n))"
| "ForceExit s (EdSelector st cur nodes cs) n =
     (case cur of
        None \<Rightarrow> (EdSelector s cur nodes cs, n)
      | Some i \<Rightarrow> (let (cs, n) = ForceExit_nth Aborted i cs n in (EdSelector s cur nodes cs, n)))"
| "ForceExit s (Repeat st cnt limit c) n = (Repeat s cnt limit c, n)"
| "ForceExit_all [] n = ([], n)"
| "ForceExit_all (c # cs) n =
     (let (c, n) = ForceExit Invalid c n; (cs, n) = ForceExit_all cs n in (c # cs, n))"
| "ForceExit_nth s i [] n = ([], n)"
| "ForceExit_nth s 0 (c # cs) n = (let (c, n) = ForceExit s c n in (c # cs, n))"
| "ForceExit_nth s (Suc i) (c # cs) n = (let (cs, n) = ForceExit_nth s i cs n in (c # cs, n))"

definition node_Exit :: "bt_node \<Rightarrow> npc \<Rightarrow> bt_node \<times> npc" where
  "node_Exit b n = ForceExit (status b) b n"

text \<open>\<open>BtComposite::Reset\<close> leaves the children and starts again at the first one; elsewhere only the status is reset.\<close>

fun Reset :: "bt_node \<Rightarrow> npc \<Rightarrow> bt_node \<times> npc" where
  "Reset (Action a st v) n = (Action a Invalid v, n)"
| "Reset (Condition f st) n = (Condition f Invalid, n)"
| "Reset (Selector st cur cs) n =
     (let (cs, n) = ForceExit_all cs n in (Selector Invalid (child_begin cs) cs, n))"
| "Reset (Sequence st cur cs) n =
     (let (cs, n) = ForceExit_all cs n in (Sequence Invalid (child_begin cs) cs, n))"
| "Reset (Parallel policy st cs) n =
     (let (cs, n) = ForceExit_all cs n in (Parallel policy Invalid cs, n))"
| "Reset (EdSelector st cur nodes cs) n =
     (let (cs, n) = (case cur of None \<Rightarrow> (cs, n) | Some i \<Rightarrow> ForceExit_nth Aborted i cs n)
      in (EdSelector Invalid (child_begin cs) nodes cs, n))"
| "Reset (Repeat st cnt limit c) n = (Repeat Invalid cnt limit c, n)"

text \<open>
  \<open>Tick\<close>: a node that has succeeded or failed keeps its answer; another one is entered unless it is running, executed,
  and left unless it is running then. \<open>exec_selector\<close> and \<open>exec_sequence\<close> are the loops of \<open>Execute\<close> from the child at
  the given index on: they yield the status, the index the loop stops at, and the children. \<open>exec_parallel\<close> yields the
  status of an early return, if there is one, and the numbers of successes and failures.
\<close>

definition leave :: "bt_node \<Rightarrow> npc \<Rightarrow> bt_node \<times> npc" where
  "leave b n = (if status b = Running then (b, n) else node_Exit b n)"

definition par_status :: "BtPolicy \<Rightarrow> nat \<Rightarrow> BtStatus option \<times> nat \<times> nat \<Rightarrow> BtStatus" where
  "par_status policy num = (\<lambda>(early, succNum, failNum).
     case early of
       Some st \<Rightarrow> st
     | None \<Rightarrow>
         if policy = PolicySequence \<and> succNum = num then Success
         else if policy = PolicySelector \<and> failNum = num then Failure
         else Running)"

fun Tick :: "bt_world \<Rightarrow> bt_node \<Rightarrow> npc \<Rightarrow> bt_node \<times> npc"
and exec_selector :: "bt_world \<Rightarrow> bt_node list \<Rightarrow> nat \<Rightarrow> npc \<Rightarrow> BtStatus \<times> nat option \<times> bt_node list \<times> npc"
and exec_sequence :: "bt_world \<Rightarrow> bt_node list \<Rightarrow> nat \<Rightarrow> npc \<Rightarrow> BtStatus \<times> nat option \<times> bt_node list \<times> npc"
and exec_parallel :: "bt_world \<Rightarrow> BtPolicy \<Rightarrow> bt_node list \<Rightarrow> nat \<Rightarrow> nat \<Rightarrow> npc \<Rightarrow>
      (BtStatus option \<times> nat \<times> nat) \<times> bt_node list \<times> npc"
and Tick_nth :: "bt_world \<Rightarrow> nat \<Rightarrow> bt_node list \<Rightarrow> npc \<Rightarrow> bt_node list \<times> npc" where
  "Tick W (Action a st v) n =
     (if st = Success \<or> st = Failure then (Action a st v, n)
      else (let (v, n) = (if st \<noteq> Running then act_Enter W a v n else (v, n));
                (st, v, n) = act_task W a v n
            in leave (Action a st v) n))"
| "Tick W (Condition f st) n =
     (if st = Success \<or> st = Failure then (Condition f st, n)
      else leave (Condition f (if f n then Success else Failure)) n)"
| "Tick W (Selector st cur cs) n =
     (if st = Success \<or> st = Failure then (Selector st cur cs, n)
      else (case (if st \<noteq> Running then child_begin cs else cur) of
              None \<Rightarrow> leave (Selector st None cs) n
            | Some i \<Rightarrow> (let (st, cur, cs, n) = exec_selector W cs i n in leave (Selector st cur cs) n)))"
| "Tick W (Sequence st cur cs) n =
     (if st = Success \<or> st = Failure then (Sequence st cur cs, n)
      else (case (if st \<noteq> Running then child_begin cs else cur) of
              None \<Rightarrow> leave (Sequence st None cs) n
            | Some i \<Rightarrow> (let (st, cur, cs, n) = exec_sequence W cs i n in leave (Sequence st cur cs) n)))"
| "Tick W (Parallel policy st cs) n =
     (if st = Success \<or> st = Failure then (Parallel policy st cs, n)
      else (let (r, cs, n) = exec_parallel W policy cs 0 0 n
            in leave (Parallel policy (par_status policy (length cs) r) cs) n))"
| "Tick W (EdSelector st cur nodes cs) n =
     (if st = Success \<or> st = Failure then (EdSelector st cur nodes cs, n)
      else (case (if st \<noteq> Running then child_begin cs else cur) of
              None \<Rightarrow> leave (EdSelector Aborted None nodes cs) n
            | Some i \<Rightarrow> (let (cs, n) = Tick_nth W i cs n in leave (EdSelector Running (Some i) nodes cs) n)))"
| "Tick W (Repeat st cnt limit c) n =
     (if st = Success \<or> st = Failure then (Repeat st cnt limit c, n)
      else if cnt < limit then
        (let (c, n) = Tick W c n in
         if status c = Success then
           (let (c, n) = Reset c n
            in leave (Repeat (if cnt + 1 = limit then Success else st) (cnt + 1) limit c) n)
         else leave (Repeat (status c) cnt limit c) n)
      else leave (Repeat st cnt limit c) n)"
| "exec_selector W [] i n = (Failure, None, [], n)"
| "exec_selector W (c # cs) (Suc i) n =
     (let (st, cur, cs, n) = exec_selector W cs i n in (st, map_option Suc cur, c # cs, n))"
| "exec_selector W (c # cs) 0 n =
     (let (c, n) = Tick W c n in
      if status c = Failure \<or> status c = Aborted then
        (let (st, cur, cs, n) = exec_selector W cs 0 n in (st, map_option Suc cur, c # cs, n))
      else (status c, Some 0, c # cs, n))"
| "exec_sequence W [] i n = (Success, None, [], n)"
| "exec_sequence W (c # cs) (Suc i) n =
     (let (st, cur, cs, n) = exec_sequence W cs i n in (st, map_option Suc cur, c # cs, n))"
| "exec_sequence W (c # cs) 0 n =
     (let (c, n) = Tick W c n in
      if status c = Success \<or> status c = Aborted then
        (let (st, cur, cs, n) = exec_sequence W cs 0 n in (st, map_option Suc cur, c # cs, n))
      else (status c, Some 0, c # cs, n))"
| "exec_parallel W policy [] succNum failNum n = ((None, succNum, failNum), [], n)"
| "exec_parallel W policy (c # cs) succNum failNum n =
     (let (c, n) = Tick W c n in
      if status c = Aborted then ((Some Aborted, succNum, failNum), c # cs, n)
      else if status c = Success \<and> policy = PolicySelector then ((Some Success, succNum + 1, failNum), c # cs, n)
      else if status c = Failure \<and> policy = PolicySequence then ((Some Failure, succNum, failNum + 1), c # cs, n)
      else (let (r, cs, n) = exec_parallel W policy cs (if status c = Success then succNum + 1 else succNum)
                               (if status c = Failure then failNum + 1 else failNum) n
            in (r, c # cs, n)))"
| "Tick_nth W i [] n = ([], n)"
| "Tick_nth W 0 (c # cs) n = (let (c, n) = Tick W c n in (c # cs, n))"
| "Tick_nth W (Suc i) (c # cs) n = (let (cs, n) = Tick_nth W i cs n in (c # cs, n))"

text \<open>
  \<open>BtEdSelector::SwitchNode\<close> leaves the current child and goes to the child of the event; \<open>None\<close>: there is no current
  child, and \<open>end()\<close> is dereferenced.
\<close>

definition SwitchNode :: "BtEventId \<Rightarrow> nat option \<Rightarrow> (BtEventId \<times> nat) list \<Rightarrow> bt_node list \<Rightarrow> npc \<Rightarrow>
    (nat option \<times> bt_node list \<times> npc) option" where
  "SwitchNode i cur nodes cs n =
     (if list_end cur cs then None
      else (let (cs, n) = ForceExit_nth Suspend (the cur) cs n in Some (map_of nodes i, cs, n)))"

fun HandleEvent :: "BtEventId \<Rightarrow> bt_node \<Rightarrow> npc \<Rightarrow> (bt_node \<times> npc) option"
and HandleEvent_all :: "BtEventId \<Rightarrow> bt_node list \<Rightarrow> npc \<Rightarrow> (bt_node list \<times> npc) option" where
  "HandleEvent i (Action a st v) n = Some (Action a st v, n)"
| "HandleEvent i (Condition f st) n = Some (Condition f st, n)"
| "HandleEvent i (Selector st cur cs) n = do { (cs, n) \<leftarrow> HandleEvent_all i cs n; Some (Selector st cur cs, n) }"
| "HandleEvent i (Sequence st cur cs) n = do { (cs, n) \<leftarrow> HandleEvent_all i cs n; Some (Sequence st cur cs, n) }"
| "HandleEvent i (Parallel policy st cs) n = do { (cs, n) \<leftarrow> HandleEvent_all i cs n; Some (Parallel policy st cs, n) }"
| "HandleEvent i (EdSelector st cur nodes cs) n =
     (if map_of nodes i \<noteq> None then do { (cur, cs, n) \<leftarrow> SwitchNode i cur nodes cs n; Some (EdSelector st cur nodes cs, n) }
      else do { (cs, n) \<leftarrow> HandleEvent_all i cs n; Some (EdSelector st cur nodes cs, n) })"
| "HandleEvent i (Repeat st cnt limit c) n =
     (if i = EvBirth then (let (c, n) = Reset c n in Some (Repeat st 0 limit c, n))
      else do { (c, n) \<leftarrow> HandleEvent i c n; Some (Repeat st cnt limit c, n) })"
| "HandleEvent_all i [] n = Some ([], n)"
| "HandleEvent_all i (c # cs) n =
     do { (c, n) \<leftarrow> HandleEvent i c n; (cs, n) \<leftarrow> HandleEvent_all i cs n; Some (c # cs, n) }"

end
