(* ===== verification/Npcs.thy ===== *)
theory Npcs
  imports BehaviorTree
begin

text \<open>
  Non-player characters: \<open>BtComponent\<close> (\<open>bt_component.cpp\<close>), which builds the tree of a character and runs it, and
  what the tree does: the life of a character as a machine of four states, the one action that is in progress, and
  the events of one update.
\<close>

subsection \<open>\<open>BtComponent\<close>\<close>

definition act_of_config :: "string \<Rightarrow> bt_act option" where
  "act_of_config name =
     (if name = ''BtActPatrol'' then Some BtActPatrol
      else if name = ''BtActIdle'' then Some BtActIdle
      else if name = ''BtActPursue'' then Some BtActPursue
      else if name = ''BtActAttack'' then Some BtActAttack
      else if name = ''BtActFlee'' then Some BtActFlee
      else None)"

text \<open>The constructor of an action; the one of a patrol draws a point.\<close>

definition act_new :: "bt_world \<Rightarrow> bt_act \<Rightarrow> npc \<Rightarrow> bt_node \<times> npc" where
  "act_new W a n =
     (if a = BtActPatrol then
        (let i = bw_draw W (n_draws n)
         in (Action a Invalid (act_vars_new\<lparr>av_index := i\<rparr>), SetPatrolPoint (bw_floats W) i (n\<lparr>n_draws := n_draws n + 1\<rparr>)))
      else (Action a Invalid act_vars_new, n))"

text \<open>\<open>BtEdSelector::AddChild\<close>: the first child of a kind is the one its event switches to.\<close>

definition ed_AddChild :: "bt_act \<Rightarrow> bt_node \<Rightarrow> (BtEventId \<times> nat) list \<Rightarrow> bt_node list \<Rightarrow> (BtEventId \<times> nat) list \<times> bt_node list" where
  "ed_AddChild a child nodes cs =
     (let i = GetEventId a in
      if i \<in> {EvIdle, EvPatrol, EvPursue, EvAttack, EvFlee} \<and> map_of nodes i = None
      then (nodes @ [(i, length cs)], cs @ [child]) else (nodes, cs @ [child]))"

fun parse_nodes :: "bt_world \<Rightarrow> string list \<Rightarrow> (BtEventId \<times> nat) list \<Rightarrow> bt_node list \<Rightarrow> npc \<Rightarrow>
    (BtEventId \<times> nat) list \<times> bt_node list \<times> npc" where
  "parse_nodes W [] nodes cs n = (nodes, cs, n)"
| "parse_nodes W (one # names) nodes cs n =
     (case act_of_config one of
        None \<Rightarrow> parse_nodes W names nodes cs n
      | Some a \<Rightarrow>
          (let (child, n) = act_new W a n; (nodes, cs) = ed_AddChild a child nodes cs
           in parse_nodes W names nodes cs n))"

text \<open>
  The shape of every tree of a character: \<open>ParseConfig\<close> builds it with every status \<open>Invalid\<close> and no child current,
  and no operation changes it. Of the leaves that look and sense only the status varies.
\<close>

definition npc_tree :: "BtStatus \<Rightarrow> u64 \<Rightarrow> BtStatus \<Rightarrow> nat option \<Rightarrow> BtStatus \<times> act_vars \<Rightarrow>
    BtStatus \<times> BtStatus \<times> BtStatus \<times> BtStatus \<Rightarrow> nat option \<Rightarrow> (BtEventId \<times> nat) list \<Rightarrow> bt_node list \<Rightarrow>
    BtStatus \<times> act_vars \<Rightarrow> bt_node" where
  "npc_tree st cnt sq cur = (\<lambda>(sb, vb) (sp, sv, ss, se) ecur nodes cs (sd, vd).
     Repeat st cnt 0xFFFFFFFF (Sequence sq cur
       [Action BtActBirth sb vb,
        Parallel PolicySequence sp
          [Action BtActView sv act_vars_new, Action BtActSense ss act_vars_new, EdSelector se ecur nodes cs],
        Action BtActDeath sd vd]))"

definition ParseConfig :: "bt_world \<Rightarrow> bt_config \<Rightarrow> npc \<Rightarrow> bt_node \<times> npc" where
  "ParseConfig W pConfig n =
     (let n = n\<lparr>n_rebirth := rebirth pConfig\<rparr>;
          (nodes, cs, n) = parse_nodes W (bt_nodes pConfig) [] [] n
      in (npc_tree Invalid 0 Invalid None (Invalid, act_vars_new) (Invalid, Invalid, Invalid, Invalid) None nodes cs
            (Invalid, act_vars_new), n))"

text \<open>
  The reference \<open>e\<close> that \<open>Update\<close> takes from the queue is to the front of its vector. When \<open>pop\<close> has moved another
  event there, \<open>e\<close> is that event; when the queue is empty, the event is still in the memory \<open>e\<close> refers to.
\<close>

definition front_after_pop :: "bt_event list \<Rightarrow> bt_event" where
  "front_after_pop es = (let es' = butlast (pop_heap ev_key es) in if es' = [] then hd es else hd es')"

text \<open>What leaving a node and handling an event can change of the character.\<close>

definition frame :: "npc \<Rightarrow> npc \<Rightarrow> bool" where
  "frame n n' = (n' = n\<lparr>n_target := n_target n', n_fleeing := n_fleeing n', curAct := curAct n'\<rparr>)"

lemma frame_refl [simp]: "frame n n"
  by (simp add: frame_def)

lemma frame_trans: "frame n n' \<Longrightarrow> frame n' n'' \<Longrightarrow> frame n n''"
  unfolding frame_def by (cases n, cases n', cases n'') simp

lemma frame_simps:
  assumes "frame n n'"
  shows "n_events n' = n_events n" "n_hp n' = n_hp n" "n_initHp n' = n_initHp n" "n_rebirth n' = n_rebirth n"
    "n_calls n' = n_calls n" "n_currPos n' = n_currPos n" "n_sn n' = n_sn n"
  using assms unfolding frame_def by (cases n, cases n', simp)+

lemma frame_act_Exit [simp]: "frame n (act_Exit a n)"
  by (cases a) (simp_all add: frame_def)

lemma ForceExit_frame [simp]:
  "frame n (snd (ForceExit s b n))" "frame n (snd (ForceExit_all cs n))" "frame n (snd (ForceExit_nth s i cs n))"
proof (induction s b n and cs n and s i cs n rule: ForceExit_ForceExit_all_ForceExit_nth.induct)
  case (9 c cs n)
  then show ?case by (cases "ForceExit Invalid c n") (auto simp: case_prod_beta intro: frame_trans)
qed (auto simp: case_prod_beta split: option.splits)

lemma Reset_frame [simp]: "frame n (snd (Reset b n))"
  by (cases b) (auto simp: case_prod_beta split: option.splits)

lemma SwitchNode_frame: "SwitchNode i cur nodes cs n = Some (cur', cs', n') \<Longrightarrow> frame n n'"
  by (auto simp: SwitchNode_def split: if_splits prod.splits) (metis ForceExit_frame(3) snd_conv)

lemma HandleEvent_frame:
  "HandleEvent i b n = Some (b', n') \<Longrightarrow> frame n n'"
  "HandleEvent_all i cs n = Some (cs', n') \<Longrightarrow> frame n n'"
proof (induction i b n and i cs n arbitrary: b' n' and cs' n' rule: HandleEvent_HandleEvent_all.induct)
  case (6 i st cur nodes cs n)
  then show ?case by (cases "map_of nodes i") (auto simp: bind_eq_Some_conv dest: SwitchNode_frame)
next
  case (7 i st cnt limit c n)
  show ?case
  proof (cases "i = EvBirth")
    case True
    then show ?thesis using 7(2) Reset_frame [of n c] by (auto simp: case_prod_beta)
  next
    case False
    then show ?thesis using 7 by (auto simp: bind_eq_Some_conv)
  qed
next
  case (9 i c cs n)
  from 9(3) obtain c1 n1 cs1 where h: "HandleEvent i c n = Some (c1, n1)" "HandleEvent_all i cs n1 = Some (cs1, n')"
    by (auto simp: bind_eq_Some_conv)
  show ?case using 9(1) [OF h(1)] 9(2) [OF h(1) refl h(2)] by (rule frame_trans)
qed (auto simp: bind_eq_Some_conv)

function event_loop :: "bt_node \<Rightarrow> npc \<Rightarrow> (bt_node \<times> npc) option" where
  "event_loop root n =
     (if n_events n = [] then Some (root, n)
      else (let e = front_after_pop (n_events n)
            in case HandleEvent (fst e) root (n\<lparr>n_events := butlast (pop_heap ev_key (n_events n))\<rparr>) of
                 None \<Rightarrow> None
               | Some r \<Rightarrow> event_loop (fst r) (snd r)))"
  by auto

lemma length_pop_heap [simp]: "es \<noteq> [] \<Longrightarrow> length (pop_heap key es) = length es"
  by (simp add: pop_heap_def)

termination event_loop
  by (relation "measure (\<lambda>(root, n). length (n_events n))") (auto dest!: HandleEvent_frame(1) dest: frame_simps(1) simp: case_prod_beta)

declare event_loop.simps [simp del]

definition BtComponent_Update :: "bt_world \<Rightarrow> bt_node \<Rightarrow> npc \<Rightarrow> (bt_node \<times> npc) option" where
  "BtComponent_Update W root n = (let (root, n) = Tick W root n in event_loop root n)"

definition SyncAction :: "bt_world \<Rightarrow> u64 \<Rightarrow> npc \<Rightarrow> npc" where
  "SyncAction W player n = (case curAct n of None \<Rightarrow> n | Some (a, i) \<Rightarrow> act_Singlecast W a i player n)"


subsection \<open>The events of one update\<close>

text \<open>The events a sorted queue would yield, and the ones the loop handles.\<close>

function pop_order :: "bt_event list \<Rightarrow> bt_event list" where
  "pop_order es = (if es = [] then [] else hd es # pop_order (butlast (pop_heap ev_key es)))"
  by auto
termination
  by (relation "measure length") auto

declare pop_order.simps [simp del]

definition handled_events :: "bt_event list \<Rightarrow> bt_event list" where
  "handled_events es = (let es = pop_order es in if es = [] then [] else tl es @ [last es])"

fun handle_all :: "bt_event list \<Rightarrow> bt_node \<Rightarrow> npc \<Rightarrow> (bt_node \<times> npc) option" where
  "handle_all [] b n = Some (b, n)"
| "handle_all (e # es) b n =
     (case HandleEvent (fst e) b n of None \<Rightarrow> None | Some r \<Rightarrow> handle_all es (fst r) (snd r))"

lemma pop_order_Nil [simp]: "pop_order es = [] \<longleftrightarrow> es = []" "pop_order [] = []"
  by (subst pop_order.simps, simp)+

lemma pop_order_mset: "is_heap ev_key es \<Longrightarrow> mset (pop_order es) = mset es"
proof (induction es rule: pop_order.induct)
  case (1 es)
  show ?case
  proof (cases "es = []")
    case False
    then show ?thesis
      using 1 heap_pop(1,3) [OF 1(2) False] by (subst pop_order.simps) simp
  qed (simp add: pop_order.simps)
qed

lemma pop_order_sorted: "is_heap ev_key es \<Longrightarrow> sorted_wrt (\<lambda>e e'. snd e' \<le> snd e) (pop_order es)"
proof (induction es rule: pop_order.induct)
  case (1 es)
  show ?case
  proof (cases "es = []")
    case False
    note h = heap_pop(1,3) [OF 1(2) False]
    have "\<forall>e \<in> set (pop_order (butlast (pop_heap ev_key es))). snd e \<le> snd (hd es)"
    proof
      fix e assume "e \<in> set (pop_order (butlast (pop_heap ev_key es)))"
      then have "e \<in> set es"
        using pop_order_mset [OF h(1)] h(2) by (metis set_mset_mset union_single_eq_member insert_iff set_mset_add_mset_insert)
      then obtain j where "j < length es" "e = es ! j" by (auto simp: in_set_conv_nth)
      then show "snd e \<le> snd (hd es)" using heap_min [OF 1(2)] False by (simp add: ev_key_def hd_conv_nth)
    qed
    then show ?thesis using 1 False h(1) by (subst pop_order.simps) simp
  qed (simp add: pop_order.simps)
qed

lemma event_loop_Nil [simp]: "n_events n = [] \<Longrightarrow> event_loop root n = Some (root, n)"
  by (subst event_loop.simps) simp

text \<open>Leaving a node and handling an event do not look at the queue.\<close>

definition with_events :: "bt_event list \<Rightarrow> npc \<Rightarrow> npc" where
  "with_events es n = n\<lparr>n_events := es\<rparr>"

lemma act_Exit_with_events: "act_Exit a (with_events es n) = with_events es (act_Exit a n)"
  by (cases a) (simp_all add: with_events_def)

lemma ForceExit_with_events:
  "ForceExit s b (with_events es n) = map_prod id (with_events es) (ForceExit s b n)"
  "ForceExit_all cs (with_events es n) = map_prod id (with_events es) (ForceExit_all cs n)"
  "ForceExit_nth s i cs (with_events es n) = map_prod id (with_events es) (ForceExit_nth s i cs n)"
proof (induction s b n and cs n and s i cs n rule: ForceExit_ForceExit_all_ForceExit_nth.induct)
  case (9 c cs n)
  then show ?case by (cases "ForceExit Invalid c n") (simp add: case_prod_beta)
qed (simp_all add: act_Exit_with_events case_prod_beta split: option.splits)

lemma Reset_with_events: "Reset b (with_events es n) = map_prod id (with_events es) (Reset b n)"
  by (cases b) (simp_all add: ForceExit_with_events case_prod_beta split: option.splits)

lemma SwitchNode_with_events:
  "SwitchNode i cur nodes cs (with_events es n) = map_option (map_prod id (map_prod id (with_events es))) (SwitchNode i cur nodes cs n)"
  by (simp add: SwitchNode_def ForceExit_with_events case_prod_beta map_prod_def)

lemma HandleEvent_with_events:
  "HandleEvent i b (with_events es n) = map_option (map_prod id (with_events es)) (HandleEvent i b n)"
  "HandleEvent_all i cs (with_events es n) = map_option (map_prod id (with_events es)) (HandleEvent_all i cs n)"
proof (induction i b n and i cs n rule: HandleEvent_HandleEvent_all.induct)
  case (6 i st cur nodes cs n)
  then show ?case
    by (cases "map_of nodes i"; cases "SwitchNode i cur nodes cs n"; cases "HandleEvent_all i cs n")
      (simp_all add: SwitchNode_with_events case_prod_beta)
next
  case (7 i st cnt limit c n)
  then show ?case
    by (cases "i = EvBirth"; cases "HandleEvent i c n") (simp_all add: Reset_with_events case_prod_beta)
next
  case (9 i c cs n)
  show ?case
  proof (cases "HandleEvent i c n")
    case None
    then show ?thesis using 9(1) by simp
  next
    case (Some r)
    then have "HandleEvent_all i cs (with_events es (snd r)) = map_option (map_prod id (with_events es)) (HandleEvent_all i cs (snd r))"
      using 9(2) [of r "fst r" "snd r"] by (simp add: id_def)
    then show ?thesis using Some 9(1)
      by (cases "HandleEvent_all i cs (snd r)") (simp_all add: case_prod_beta map_prod_def id_def)
  qed
next
  case (3 i st cur cs n) then show ?case by (cases "HandleEvent_all i cs n") (simp_all add: case_prod_beta)
next
  case (4 i st cur cs n) then show ?case by (cases "HandleEvent_all i cs n") (simp_all add: case_prod_beta)
next
  case (5 i policy st cs n) then show ?case by (cases "HandleEvent_all i cs n") (simp_all add: case_prod_beta)
qed simp_all

lemma front_after_pop_order:
  assumes "es \<noteq> []"
  shows "handled_events es = front_after_pop es # handled_events (butlast (pop_heap ev_key es))"
proof -
  let ?es = "butlast (pop_heap ev_key es)"
  have e: "pop_order es = hd es # pop_order ?es" using assms by (subst pop_order.simps) simp
  show ?thesis
  proof (cases "?es = []")
    case True
    then show ?thesis by (simp add: handled_events_def e front_after_pop_def)
  next
    case False
    then have "pop_order ?es = hd ?es # pop_order (butlast (pop_heap ev_key ?es))" by (subst pop_order.simps) simp
    then show ?thesis using False by (simp add: handled_events_def e front_after_pop_def Let_def)
  qed
qed

theorem event_loop_handles:
  "event_loop root n = handle_all (handled_events (n_events n)) root (n\<lparr>n_events := []\<rparr>)"
proof (induction root n rule: event_loop.induct)
  case (1 root n)
  show ?case
  proof (cases "n_events n = []")
    case True
    then show ?thesis by (simp add: handled_events_def)
  next
    case False
    define es e where "es = butlast (pop_heap ev_key (n_events n))" and "e = front_after_pop (n_events n)"
    have h: "HandleEvent (fst e) root (with_events es n) = map_option (map_prod id (with_events es)) (HandleEvent (fst e) root n)"
      "HandleEvent (fst e) root (with_events [] n) = map_option (map_prod id (with_events [])) (HandleEvent (fst e) root n)"
      by (rule HandleEvent_with_events)+
    have o: "handled_events (n_events n) = e # handled_events es"
      using front_after_pop_order [OF False] by (simp add: es_def e_def)
    show ?thesis
    proof (cases "HandleEvent (fst e) root n")
      case None
      then show ?thesis using False h o
        by (subst event_loop.simps) (simp add: Let_def with_events_def flip: es_def e_def)
    next
      case (Some r)
      have "event_loop (fst r) (with_events es (snd r)) = handle_all (handled_events es) (fst r) (with_events [] (snd r))"
        using 1 [OF False e_def, of "map_prod id (with_events es) r"] h(1) Some
        by (simp add: with_events_def es_def)
      then show ?thesis using False h o Some
        by (subst event_loop.simps) (simp add: Let_def with_events_def flip: es_def e_def)
    qed
  qed
qed


subsection \<open>The actions of the selector\<close>

definition behaviours :: "bt_act set" where
  "behaviours = {BtActPatrol, BtActIdle, BtActPursue, BtActAttack, BtActFlee}"

fun act_kind :: "bt_node \<Rightarrow> bt_act option" where
  "act_kind (Action a st v) = Some a"
| "act_kind b = None"

definition behaviour :: "bt_node \<Rightarrow> bool" where
  "behaviour c = (\<exists>a st v. c = Action a st v \<and> a \<in> behaviours \<and> st \<in> {Invalid, Running, Suspend, Aborted})"

text \<open>
  The children are actions, at most the current one is running, and \<open>curAct\<close> is that one.
\<close>

definition selector_ok :: "BtStatus \<Rightarrow> nat option \<Rightarrow> (BtEventId \<times> nat) list \<Rightarrow> bt_node list \<Rightarrow> npc \<Rightarrow> bool" where
  "selector_ok se ecur nodes cs n =
     (cs \<noteq> [] \<and> (\<forall>c \<in> set cs. behaviour c)
      \<and> (\<forall>(e, i) \<in> set nodes. i < length cs \<and> e \<noteq> EvBirth)
      \<and> (\<forall>i. ecur = Some i \<longrightarrow> i < length cs)
      \<and> (\<forall>j < length cs. status (cs ! j) = Running \<longrightarrow> ecur = Some j \<and> se = Running)
      \<and> map_option fst (curAct n) =
           (case ecur of None \<Rightarrow> None | Some i \<Rightarrow> if status (cs ! i) = Running then act_kind (cs ! i) else None))"

lemma behaviour_cases:
  assumes "behaviour c"
  obtains a st v where "c = Action a st v" "a \<in> behaviours" "st \<in> {Invalid, Running, Suspend, Aborted}"
  using assms by (auto simp: behaviour_def)

lemma behaviours_cases:
  assumes "a \<in> behaviours"
  obtains "a = BtActPatrol" | "a = BtActIdle" | "a = BtActPursue" | "a = BtActAttack" | "a = BtActFlee"
  using assms by (auto simp: behaviours_def)

lemma npc_sends_fields [simp]:
  "curAct (npc_sends cs n) = curAct n" "n_rebirth (npc_sends cs n) = n_rebirth n"
  "n_initHp (npc_sends cs n) = n_initHp n" "n_hp (npc_sends cs n) = n_hp n"
  "n_target (npc_sends cs n) = n_target n" "n_fleeing (npc_sends cs n) = n_fleeing n"
  "n_events (npc_sends cs n) = n_events n" "n_currPos (npc_sends cs n) = n_currPos n"
  by (simp_all add: npc_sends_def)

lemma Attack_Broadcast_fields [simp]:
  "curAct (Attack_Broadcast W n) = curAct n"
  "n_rebirth (Attack_Broadcast W n) = n_rebirth n"
  "n_initHp (Attack_Broadcast W n) = n_initHp n"
  "n_hp (Attack_Broadcast W n) = n_hp n"
  "n_target (Attack_Broadcast W n) = n_target n"
  "n_fleeing (Attack_Broadcast W n) = n_fleeing n"
  "n_events (Attack_Broadcast W n) = n_events n"
  "n_currPos (Attack_Broadcast W n) = n_currPos n"
  by (simp_all add: Attack_Broadcast_def split: option.split)

lemma Death_Broadcast_fields [simp]:
  "curAct (Death_Broadcast W n) = curAct n"
  "n_rebirth (Death_Broadcast W n) = n_rebirth n"
  "n_initHp (Death_Broadcast W n) = n_initHp n"
  "n_hp (Death_Broadcast W n) = n_hp n"
  "n_target (Death_Broadcast W n) = n_target n"
  "n_fleeing (Death_Broadcast W n) = n_fleeing n"
  "n_events (Death_Broadcast W n) = n_events n"
  "n_currPos (Death_Broadcast W n) = n_currPos n"
  by (simp_all add: Death_Broadcast_def split: option.split)

lemma Flee_Broadcast_fields [simp]:
  "curAct (Flee_Broadcast W n) = curAct n"
  "n_rebirth (Flee_Broadcast W n) = n_rebirth n"
  "n_initHp (Flee_Broadcast W n) = n_initHp n"
  "n_hp (Flee_Broadcast W n) = n_hp n"
  "n_target (Flee_Broadcast W n) = n_target n"
  "n_fleeing (Flee_Broadcast W n) = n_fleeing n"
  "n_events (Flee_Broadcast W n) = n_events n"
  "n_currPos (Flee_Broadcast W n) = n_currPos n"
  by (simp_all add: Flee_Broadcast_def split: option.split)

lemma Idle_Broadcast_fields [simp]:
  "curAct (Idle_Broadcast W n) = curAct n"
  "n_rebirth (Idle_Broadcast W n) = n_rebirth n"
  "n_initHp (Idle_Broadcast W n) = n_initHp n"
  "n_hp (Idle_Broadcast W n) = n_hp n"
  "n_target (Idle_Broadcast W n) = n_target n"
  "n_fleeing (Idle_Broadcast W n) = n_fleeing n"
  "n_events (Idle_Broadcast W n) = n_events n"
  "n_currPos (Idle_Broadcast W n) = n_currPos n"
  by (simp_all add: Idle_Broadcast_def split: option.split)

lemma Patrol_Broadcast_fields [simp]:
  "curAct (Patrol_Broadcast W i n) = curAct n"
  "n_rebirth (Patrol_Broadcast W i n) = n_rebirth n"
  "n_initHp (Patrol_Broadcast W i n) = n_initHp n"
  "n_hp (Patrol_Broadcast W i n) = n_hp n"
  "n_target (Patrol_Broadcast W i n) = n_target n"
  "n_fleeing (Patrol_Broadcast W i n) = n_fleeing n"
  "n_events (Patrol_Broadcast W i n) = n_events n"
  "n_currPos (Patrol_Broadcast W i n) = n_currPos n"
  by (simp_all add: Patrol_Broadcast_def split: option.split)

lemma Pursue_Broadcast_fields [simp]:
  "curAct (Pursue_Broadcast W n) = curAct n"
  "n_rebirth (Pursue_Broadcast W n) = n_rebirth n"
  "n_initHp (Pursue_Broadcast W n) = n_initHp n"
  "n_hp (Pursue_Broadcast W n) = n_hp n"
  "n_target (Pursue_Broadcast W n) = n_target n"
  "n_fleeing (Pursue_Broadcast W n) = n_fleeing n"
  "n_events (Pursue_Broadcast W n) = n_events n"
  "n_currPos (Pursue_Broadcast W n) = n_currPos n"
  by (simp_all add: Pursue_Broadcast_def split: option.split)

lemma Bt_AddEvent_fields [simp]:
  "curAct (Bt_AddEvent e p n) = curAct n" "n_rebirth (Bt_AddEvent e p n) = n_rebirth n"
  "n_initHp (Bt_AddEvent e p n) = n_initHp n" "n_hp (Bt_AddEvent e p n) = n_hp n"
  "n_target (Bt_AddEvent e p n) = n_target n" "n_fleeing (Bt_AddEvent e p n) = n_fleeing n"
  "n_events (Bt_AddEvent e p n) = push_heap ev_key (n_events n @ [(e, p)])" "n_currPos (Bt_AddEvent e p n) = n_currPos n"
  by (simp_all add: Bt_AddEvent_def)

lemma SetPatrolPoint_fields [simp]:
  "curAct (SetPatrolPoint F i n) = curAct n" "n_rebirth (SetPatrolPoint F i n) = n_rebirth n"
  "n_initHp (SetPatrolPoint F i n) = n_initHp n" "n_hp (SetPatrolPoint F i n) = n_hp n"
  "n_target (SetPatrolPoint F i n) = n_target n" "n_fleeing (SetPatrolPoint F i n) = n_fleeing n"
  "n_events (SetPatrolPoint F i n) = n_events n"
  by (simp_all add: SetPatrolPoint_def Let_def)

lemma view_fields [simp]:
  "curAct (view_loop W ps n) = curAct n" "n_rebirth (view_loop W ps n) = n_rebirth n"
  "n_initHp (view_loop W ps n) = n_initHp n" "n_hp (view_loop W ps n) = n_hp n"
  "n_fleeing (view_loop W ps n) = n_fleeing n"
  by (induction ps) simp_all

lemma view_link_fields [simp]:
  "curAct (view_link W n) = curAct n" "n_rebirth (view_link W n) = n_rebirth n"
  "n_initHp (view_link W n) = n_initHp n" "n_hp (view_link W n) = n_hp n"
  "n_target (view_link W n) = n_target n" "n_fleeing (view_link W n) = n_fleeing n"
  "n_events (view_link W n) = n_events n" "n_currPos (view_link W n) = n_currPos n"
  by (simp_all add: view_link_def SetLinkPlayer_def Let_def split: option.split)

text \<open>What one action leaves alone, and what it does to \<open>curAct\<close>.\<close>

definition keeps :: "npc \<Rightarrow> npc \<Rightarrow> bool" where
  "keeps n n' = (n_rebirth n' = n_rebirth n \<and> n_initHp n' = n_initHp n)"

lemma keeps_refl [simp]: "keeps n n"
  by (simp add: keeps_def)

lemma keeps_trans: "keeps n n' \<Longrightarrow> keeps n' n'' \<Longrightarrow> keeps n n''"
  by (simp add: keeps_def)

lemma frame_keeps: "frame n n' \<Longrightarrow> keeps n n'"
  by (simp add: keeps_def frame_simps)

lemma act_Enter_keeps: "keeps n (snd (act_Enter W a v n))"
  by (cases a) (simp_all add: keeps_def Let_def)

lemma act_task_keeps:
  "keeps n (snd (snd (act_task W a v n))) \<and> curAct (snd (snd (act_task W a v n))) = curAct n"
  by (cases a) (auto simp: keeps_def Let_def AttackTask_def BirthTask_def DeathTask_def FleeTask_def IdleTask_def
      PatrolTask_def PursueTask_def SenseTask_def ViewTask_def split: prod.splits)

lemma act_Enter_curAct: "a \<in> behaviours \<Longrightarrow> map_option fst (curAct (snd (act_Enter W a v n))) = Some a"
  by (erule behaviours_cases) (simp_all add: Let_def)

lemma act_Exit_curAct: "a \<in> behaviours \<Longrightarrow> curAct (act_Exit a n) = None"
  by (erule behaviours_cases) simp_all

lemma act_task_status: "a \<in> behaviours \<Longrightarrow> fst (act_task W a v n) \<in> {Running, Suspend}"
  by (erule behaviours_cases)
    (auto simp: Let_def AttackTask_def FleeTask_def IdleTask_def PatrolTask_def PursueTask_def split: prod.splits)

lemma Tick_behaviour:
  assumes "a \<in> behaviours" "st \<in> {Invalid, Running, Suspend, Aborted}"
    and "st = Running \<Longrightarrow> map_option fst (curAct n) = Some a"
  obtains st' v' n' where "Tick W (Action a st v) n = (Action a st' v', n')" "st' \<in> {Running, Suspend}" "keeps n n'"
    "map_option fst (curAct n') = (if st' = Running then Some a else None)"
proof -
  define e where "e = (if st \<noteq> Running then act_Enter W a v n else (v, n))"
  define r where "r = act_task W a (fst e) (snd e)"
  have c: "map_option fst (curAct (snd e)) = Some a" "keeps n (snd e)"
    using assms act_Enter_curAct [OF assms(1)] act_Enter_keeps by (auto simp: e_def)
  have r: "fst r \<in> {Running, Suspend}" "keeps n (snd (snd r))" "map_option fst (curAct (snd (snd r))) = Some a"
    using act_task_status [OF assms(1)] act_task_keeps [of "snd e" W a "fst e"] c keeps_trans [OF c(2)] by (auto simp: r_def)
  have t: "Tick W (Action a st v) n = leave (Action a (fst r) (fst (snd r))) (snd (snd r))"
    using assms(2) by (auto simp: e_def r_def case_prod_beta Let_def)
  show ?thesis
  proof (cases "fst r = Running")
    case True
    then show ?thesis using that [of Running] t r by (simp add: leave_def)
  next
    case False
    have "keeps n (act_Exit a (snd (snd r)))" using r(2) frame_keeps [OF frame_act_Exit] keeps_trans by blast
    then show ?thesis using that [of Suspend] t r False act_Exit_curAct [OF assms(1)] by (simp add: leave_def node_Exit_def)
  qed
qed


lemma act_kind_Action: "status (Action a st v) = Running \<Longrightarrow> act_kind (Action a st v) = Some a"
  by simp

lemma Tick_nth_update: "i < length cs \<Longrightarrow> Tick_nth W i cs n = (let (c, n) = Tick W (cs ! i) n in (cs[i := c], n))"
proof (induction cs arbitrary: i)
  case (Cons c cs)
  then show ?case by (cases i) (simp_all add: case_prod_beta Let_def)
qed simp

lemma ForceExit_nth_update:
  "i < length cs \<Longrightarrow> ForceExit_nth s i cs n = (let (c, n) = ForceExit s (cs ! i) n in (cs[i := c], n))"
proof (induction cs arbitrary: i)
  case (Cons c cs)
  then show ?case by (cases i) (simp_all add: case_prod_beta Let_def)
qed simp

text \<open>Replacing the current child, and making another one current when none is running.\<close>

lemma selector_ok_update:
  assumes "selector_ok se (Some i) nodes cs n" "a \<in> behaviours" "st \<in> {Invalid, Running, Suspend, Aborted}"
    and "st = Running \<Longrightarrow> se' = Running" "map_option fst (curAct n') = (if st = Running then Some a else None)"
  shows "selector_ok se' (Some i) nodes (cs[i := Action a st v]) n'"
proof -
  have i: "i < length cs" using assms(1) by (simp add: selector_ok_def)
  have b: "behaviour (Action a st v)" using assms(2,3) by (auto simp: behaviour_def)
  have "\<forall>j < length cs. status (cs[i := Action a st v] ! j) = Running \<longrightarrow> i = j \<and> se' = Running"
    using assms(1,4) by (auto simp: selector_ok_def nth_list_update)
  moreover have "\<forall>c \<in> set (cs[i := Action a st v]). behaviour c"
    using assms(1) b set_update_subset_insert [of cs i "Action a st v"] by (auto simp: selector_ok_def)
  ultimately show ?thesis using assms(1,5) i by (simp add: selector_ok_def)
qed

lemma selector_ok_switch:
  assumes "selector_ok se ecur nodes cs n" "\<forall>c \<in> set cs. status c \<noteq> Running" "\<forall>j. ecur' = Some j \<longrightarrow> j < length cs"
  shows "selector_ok se' ecur' nodes cs n"
proof -
  have "\<forall>j < length cs. status (cs ! j) \<noteq> Running" using assms(2) by simp
  moreover have "curAct n = None"
    using assms(1) calculation by (auto simp: selector_ok_def split: option.splits)
  ultimately show ?thesis using assms(1,3) by (simp add: selector_ok_def split: option.splits)
qed

lemma selector_ok_idle:
  assumes "selector_ok se ecur nodes cs n" "se \<noteq> Running"
  shows "\<forall>c \<in> set cs. status c \<noteq> Running"
  using assms by (auto simp: selector_ok_def in_set_conv_nth)

lemma selector_ok_child:
  assumes "selector_ok se (Some i) nodes cs n"
  shows "i < length cs \<and> behaviour (cs ! i)"
proof -
  have "i < length cs" "\<forall>c \<in> set cs. behaviour c" using assms by (simp_all add: selector_ok_def)
  then show ?thesis by simp
qed

lemma Tick_EdSelector:
  assumes "selector_ok se ecur nodes cs n" "se \<noteq> Success" "se \<noteq> Failure" "se = Running \<Longrightarrow> ecur \<noteq> None"
  obtains i cs' n' where "Tick W (EdSelector se ecur nodes cs) n = (EdSelector Running (Some i) nodes cs', n')"
    "selector_ok Running (Some i) nodes cs' n'" "keeps n n'"
proof -
  have ne: "cs \<noteq> []" using assms(1) by (simp add: selector_ok_def)
  define cur where "cur = (if se \<noteq> Running then child_begin cs else ecur)"
  obtain i where i: "cur = Some i" using assms(4) ne by (cases "se = Running") (auto simp: cur_def child_begin_def)
  have ok: "selector_ok Running (Some i) nodes cs n"
  proof (cases "se = Running")
    case True
    then show ?thesis using assms(1) i by (simp add: cur_def)
  next
    case False
    then show ?thesis
      using selector_ok_switch [OF assms(1) selector_ok_idle [OF assms(1) False]] i ne by (auto simp: cur_def child_begin_def)
  qed
  have l: "i < length cs" "behaviour (cs ! i)" using selector_ok_child [OF ok] by blast+
  obtain a st v where c: "cs ! i = Action a st v" "a \<in> behaviours" "st \<in> {Invalid, Running, Suspend, Aborted}"
    by (rule behaviour_cases [OF l(2)])
  have r: "st = Running \<Longrightarrow> map_option fst (curAct n) = Some a" using ok c by (simp add: selector_ok_def)
  obtain st' v' n' where t: "Tick W (Action a st v) n = (Action a st' v', n')" "st' \<in> {Running, Suspend}" "keeps n n'"
    "map_option fst (curAct n') = (if st' = Running then Some a else None)"
    by (rule Tick_behaviour [OF c(2,3) r])
  have "Tick_nth W i cs n = (cs[i := Action a st' v'], n')" by (simp only: Tick_nth_update [OF l(1)] c(1) t(1) Let_def prod.case)
  then have "Tick W (EdSelector se ecur nodes cs) n = (EdSelector Running (Some i) nodes (cs[i := Action a st' v']), n')"
    using assms(2,3) i unfolding cur_def by (simp add: leave_def del: Tick.simps(1))
  moreover have "selector_ok Running (Some i) nodes (cs[i := Action a st' v']) n'"
    using t(2,4) by (intro selector_ok_update [OF ok c(2)]) auto
  ultimately show ?thesis using that t(3) by blast
qed

lemma ForceExit_current:
  assumes "selector_ok se (Some i) nodes cs n" "s \<in> {Suspend, Aborted}"
  obtains cs' n' where "ForceExit_nth s i cs n = (cs', n')" "frame n n'" "selector_ok se' (Some i) nodes cs' n'"
    "\<forall>c \<in> set cs'. status c \<noteq> Running"
proof -
  have l: "i < length cs" "behaviour (cs ! i)" using selector_ok_child [OF assms(1)] by blast+
  obtain a st v where c: "cs ! i = Action a st v" "a \<in> behaviours" "st \<in> {Invalid, Running, Suspend, Aborted}"
    by (rule behaviour_cases [OF l(2)])
  have f: "ForceExit_nth s i cs n = (cs[i := Action a s v], act_Exit a n)"
    using l c by (simp add: ForceExit_nth_update)
  have ok: "selector_ok se' (Some i) nodes (cs[i := Action a s v]) (act_Exit a n)"
    using assms(2) act_Exit_curAct [OF c(2)] by (intro selector_ok_update [OF assms(1) c(2)]) auto
  have "\<forall>c \<in> set (cs[i := Action a s v]). status c \<noteq> Running"
  proof
    fix c' assume "c' \<in> set (cs[i := Action a s v])"
    then obtain j where "j < length cs" "c' = cs[i := Action a s v] ! j" by (auto simp: in_set_conv_nth)
    then show "status c' \<noteq> Running" using assms l by (auto simp: selector_ok_def nth_list_update)
  qed
  then show ?thesis using that f ok frame_act_Exit by blast
qed


subsection \<open>The life of a character\<close>

text \<open>
  A character waits, is born, lives, and lies dead until it waits again. \<open>npc_life l e c b n\<close>: the tree \<open>b\<close> of the
  character \<open>n\<close> is in state \<open>l\<close>, its selector has a current child if \<open>e\<close>, and it has lived \<open>c\<close> times before.
\<close>

datatype life = Newborn | InBirth u64 | Alive | Dead u64

abbreviation "all_invalid \<equiv> (Invalid, Invalid, Invalid, Invalid)"

inductive npc_life :: "life \<Rightarrow> bool \<Rightarrow> u64 \<Rightarrow> bt_node \<Rightarrow> npc \<Rightarrow> bool" where
  newborn: "st \<in> {Invalid, Running} \<Longrightarrow> selector_ok Invalid ecur nodes cs n \<Longrightarrow> e = (ecur \<noteq> None) \<Longrightarrow>
    npc_life Newborn e c (npc_tree st c Invalid cur (Invalid, vb) all_invalid ecur nodes cs (Invalid, vd)) n"
| in_birth: "selector_ok Invalid ecur nodes cs n \<Longrightarrow> e = (ecur \<noteq> None) \<Longrightarrow> t = av_lastTime vb \<Longrightarrow>
    npc_life (InBirth t) e c (npc_tree Running c Running (Some 0) (Running, vb) all_invalid ecur nodes cs (Invalid, vd)) n"
| alive: "selector_ok Running (Some i) nodes cs n \<Longrightarrow> e \<Longrightarrow>
    npc_life Alive e c
      (npc_tree Running c Running (Some 1) (Success, vb) (Running, Running, Running, Running) (Some i) nodes cs (Invalid, vd)) n"
| dead: "selector_ok Invalid ecur nodes cs n \<Longrightarrow> e = (ecur \<noteq> None) \<Longrightarrow> t = av_lastTime vd \<Longrightarrow>
    npc_life (Dead t) e c
      (npc_tree Running c Running (Some 2) (Success, vb) (Aborted, Invalid, Invalid, Invalid) ecur nodes cs (Running, vd)) n"

inductive_cases npc_lifeE: "npc_life l e c b n"

text \<open>The state after an update, if no rebirth is asked for.\<close>

definition life_step :: "bt_world \<Rightarrow> npc \<Rightarrow> life \<Rightarrow> life" where
  "life_step W n l =
     (case l of
        Newborn \<Rightarrow> InBirth (bw_time W)
      | InBirth t \<Rightarrow>
          if bw_getAll W = [] then InBirth (bw_time W)
          else if bw_time W - t < 2000 then InBirth t
          else if n_initHp n = 0 then Dead (bw_time W) else Alive
      | Alive \<Rightarrow> if n_hp n = 0 then Dead (bw_time W) else Alive
      | Dead t \<Rightarrow> if bw_time W - t < 8000 \<or> \<not> n_rebirth n then Dead t else Newborn)"

lemma selector_ok_curAct: "selector_ok se ecur nodes cs n \<Longrightarrow> curAct n' = curAct n \<Longrightarrow> selector_ok se ecur nodes cs n'"
  unfolding selector_ok_def by (erule ssubst)

lemma Tick_View:
  "sv \<in> {Invalid, Running} \<Longrightarrow> Tick W (Action BtActView sv v) n = (Action BtActView Running v, snd (ViewTask W n))"
  by (auto simp: ViewTask_def Let_def leave_def)

lemma Tick_Sense:
  "ss \<in> {Invalid, Running} \<Longrightarrow> n_hp n \<noteq> 0 \<Longrightarrow>
     Tick W (Action BtActSense ss v) n = (Action BtActSense Running v, snd (SenseTask n))"
  by (auto simp: SenseTask_def Let_def leave_def)

lemma Tick_Sense_dead:
  "ss \<in> {Invalid, Running} \<Longrightarrow> n_hp n = 0 \<Longrightarrow> Tick W (Action BtActSense ss v) n = (Action BtActSense Aborted v, n)"
  by (auto simp: SenseTask_def Let_def leave_def node_Exit_def)

lemma ViewTask_fields [simp]:
  "n_hp (snd (ViewTask W n)) = n_hp n" "curAct (snd (ViewTask W n)) = curAct n" "keeps n (snd (ViewTask W n))"
  by (simp_all add: ViewTask_def Let_def keeps_def)

lemma SenseTask_fields [simp]:
  "n_hp (snd (SenseTask n)) = n_hp n" "curAct (snd (SenseTask n)) = curAct n" "keeps n (snd (SenseTask n))"
  by (simp_all add: SenseTask_def Let_def keeps_def)

abbreviation par_alive :: "BtStatus \<Rightarrow> BtStatus \<Rightarrow> BtStatus \<Rightarrow> BtStatus \<Rightarrow> nat option \<Rightarrow> (BtEventId \<times> nat) list \<Rightarrow> bt_node list \<Rightarrow> bt_node" where
  "par_alive sp sv ss se ecur nodes cs \<equiv>
     Parallel PolicySequence sp
       [Action BtActView sv act_vars_new, Action BtActSense ss act_vars_new, EdSelector se ecur nodes cs]"

lemma Tick_par_alive:
  assumes "selector_ok se ecur nodes cs n" "s \<in> {Invalid, Running}" "se = s" "s = Running \<Longrightarrow> ecur \<noteq> None" "n_hp n \<noteq> 0"
  obtains i cs' n' where "Tick W (par_alive s s s se ecur nodes cs) n = (par_alive Running Running Running Running (Some i) nodes cs', n')"
    "selector_ok Running (Some i) nodes cs' n'" "keeps n n'"
proof -
  define n1 where "n1 = snd (SenseTask (snd (ViewTask W n)))"
  have n1: "selector_ok se ecur nodes cs n1" "keeps n n1"
    using selector_ok_curAct [OF assms(1)] keeps_trans [OF ViewTask_fields(3) SenseTask_fields(3)] by (auto simp: n1_def)
  have se: "se \<noteq> Success" "se \<noteq> Failure" "se = Running \<Longrightarrow> ecur \<noteq> None" using assms(2-4) by auto
  obtain i cs' n' where t: "Tick W (EdSelector se ecur nodes cs) n1 = (EdSelector Running (Some i) nodes cs', n')"
    "selector_ok Running (Some i) nodes cs' n'" "keeps n1 n'"
    by (rule Tick_EdSelector [OF n1(1) se])
  have "Tick W (par_alive s s s se ecur nodes cs) n = (par_alive Running Running Running Running (Some i) nodes cs', n')"
    using assms(2,5) Tick_View [OF assms(2)] Tick_Sense [OF assms(2)] t(1)
    by (auto simp: n1_def leave_def par_status_def simp del: Tick.simps(1,6))
  then show ?thesis using that t(2) keeps_trans [OF n1(2) t(3)] by blast
qed

lemma ForceExit_par:
  assumes "selector_ok se ecur nodes cs n"
  obtains cs' n' where "ForceExit s (par_alive sp sv ss se ecur nodes cs) n = (par_alive s Invalid Invalid Invalid ecur nodes cs', n')"
    "selector_ok Invalid ecur nodes cs' n'" "frame n n'"
proof (cases ecur)
  case None
  have "\<forall>c \<in> set cs. status c \<noteq> Running" using assms None by (auto simp: selector_ok_def in_set_conv_nth)
  then have "selector_ok Invalid ecur nodes cs n" using selector_ok_switch [OF assms] None by simp
  then show ?thesis using that [of cs n] None by simp
next
  case (Some i)
  obtain cs' n' where f: "ForceExit_nth Aborted i cs n = (cs', n')" "frame n n'" "selector_ok Invalid (Some i) nodes cs' n'"
    by (rule ForceExit_current [OF assms [unfolded Some], of Aborted Invalid]) simp_all
  then show ?thesis using that [of cs' n'] Some by simp
qed

lemma Tick_par_dead:
  assumes "selector_ok se ecur nodes cs n" "s \<in> {Invalid, Running}" "n_hp n = 0"
  obtains cs' n' where "Tick W (par_alive s s s se ecur nodes cs) n = (par_alive Aborted Invalid Invalid Invalid ecur nodes cs', n')"
    "selector_ok Invalid ecur nodes cs' n'" "keeps n n'"
proof -
  define n1 where "n1 = snd (ViewTask W n)"
  have n1: "selector_ok se ecur nodes cs n1" "keeps n n1" "n_hp n1 = 0"
    using selector_ok_curAct [OF assms(1)] assms(3) by (auto simp: n1_def)
  obtain cs' n' where f: "ForceExit Aborted (par_alive Aborted Running Aborted se ecur nodes cs) n1
      = (par_alive Aborted Invalid Invalid Invalid ecur nodes cs', n')" "selector_ok Invalid ecur nodes cs' n'" "frame n1 n'"
    by (rule ForceExit_par [OF n1(1)])
  have "Tick W (par_alive s s s se ecur nodes cs) n = ForceExit Aborted (par_alive Aborted Running Aborted se ecur nodes cs) n1"
    using assms(2) Tick_View [OF assms(2)] Tick_Sense_dead [OF assms(2) n1(3)]
    by (auto simp: leave_def node_Exit_def par_status_def case_prod_beta n1_def [symmetric] simp del: Tick.simps(1) ForceExit.simps)
  then show ?thesis using that f keeps_trans [OF n1(2) frame_keeps] by metis
qed


lemma Tick_Birth_new:
  obtains v' n' where "Tick W (Action BtActBirth Invalid v) n = (Action BtActBirth Running v', n')"
    "av_lastTime v' = bw_time W" "keeps n n'" "curAct n' = curAct n"
  by (cases "bw_getAll W = []") (simp_all add: BirthTask_def Let_def leave_def keeps_def)

lemma Tick_Birth_wait:
  assumes "bw_getAll W = [] \<or> bw_time W - av_lastTime v < 2000"
  obtains v' where "Tick W (Action BtActBirth Running v) n = (Action BtActBirth Running v', n)"
    "av_lastTime v' = (if bw_getAll W = [] then bw_time W else av_lastTime v)"
  using assms by (cases "bw_getAll W = []") (simp_all add: BirthTask_def Let_def leave_def)

lemma Tick_Birth_done:
  assumes "bw_getAll W \<noteq> []" "\<not> bw_time W - av_lastTime v < 2000"
  obtains v' where "Tick W (Action BtActBirth Running v) n = (Action BtActBirth Success v', n\<lparr>n_hp := n_initHp n\<rparr>)"
  using assms by (simp add: BirthTask_def Let_def leave_def node_Exit_def)

lemma Tick_Death_new:
  obtains v' n' where "Tick W (Action BtActDeath Invalid v) n = (Action BtActDeath Running v', n')"
    "av_lastTime v' = bw_time W" "keeps n n'" "curAct n' = curAct n"
  by (simp add: DeathTask_def Let_def leave_def keeps_def)

lemma Tick_Death_wait:
  assumes "bw_time W - av_lastTime v < 8000 \<or> \<not> n_rebirth n"
  obtains v' where "Tick W (Action BtActDeath Running v) n = (Action BtActDeath Running v', n)" "av_lastTime v' = av_lastTime v"
  using assms by (auto simp: DeathTask_def Let_def leave_def)

lemma Tick_Death_done:
  assumes "\<not> (bw_time W - av_lastTime v < 8000 \<or> \<not> n_rebirth n)"
  obtains v' where "Tick W (Action BtActDeath Running v) n = (Action BtActDeath Success v', n)"
  using assms by (simp add: DeathTask_def Let_def leave_def node_Exit_def)

lemma status_ForceExit [simp]: "status (fst (ForceExit s b n)) = s"
  by (cases b) (auto simp: case_prod_beta split: option.splits)

text \<open>The tree runs when its life does, and starts over when the life ends.\<close>

lemma Tick_npc_tree:
  assumes "sq \<in> {Invalid, Running}" "st \<in> {Invalid, Running}" "c < 0xFFFFFFFF" "sq = Running \<Longrightarrow> cur \<noteq> None"
    and r: "exec_sequence W [Action BtActBirth sb vb, P, Action BtActDeath sd vd] (if sq = Running then the cur else 0) n = (rs, rc, cs, n')"
  shows "rs = Running \<Longrightarrow> Tick W (Repeat st c 0xFFFFFFFF (Sequence sq cur [Action BtActBirth sb vb, P, Action BtActDeath sd vd])) n
      = (Repeat Running c 0xFFFFFFFF (Sequence Running rc cs), n')"
    and "rs = Success \<Longrightarrow> st = Running \<Longrightarrow> c + 1 \<noteq> 0xFFFFFFFF \<Longrightarrow>
      Tick W (Repeat st c 0xFFFFFFFF (Sequence sq cur [Action BtActBirth sb vb, P, Action BtActDeath sd vd])) n
      = (let (b, n) = ForceExit Success (Sequence Success rc cs) n'; (b, n) = Reset b n in (Repeat Running (c + 1) 0xFFFFFFFF b, n))"
  using assms by (auto simp: leave_def node_Exit_def child_begin_def case_prod_beta Let_def simp del: exec_sequence.simps ForceExit.simps)


declare Tick.simps [simp del]

lemma newborn_tick:
  assumes "npc_life Newborn e c b n" "c < 0xFFFFFFFE"
  shows "npc_life (InBirth (bw_time W)) e c (fst (Tick W b n)) (snd (Tick W b n)) \<and> keeps n (snd (Tick W b n))"
  using assms(1)
proof (cases rule: npc_life.cases)
  case (newborn st ecur nodes cs cur vb vd)
  obtain v' n' where t: "Tick W (Action BtActBirth Invalid vb) n = (Action BtActBirth Running v', n')"
    "av_lastTime v' = bw_time W" "keeps n n'" "curAct n' = curAct n"
    by (rule Tick_Birth_new)
  have "c < 0xFFFFFFFF" using assms(2) by (simp add: word_less_nat_alt)
  then have "Tick W b n = (npc_tree Running c Running (Some 0) (Running, v') all_invalid ecur nodes cs (Invalid, vd), n')"
    unfolding newborn npc_tree_def prod.case using newborn(2) t(1)
    by (intro Tick_npc_tree(1)) simp_all
  moreover have "selector_ok Invalid ecur nodes cs n'" using newborn t(4) selector_ok_curAct by blast
  ultimately show ?thesis using t(2,3) newborn(4) by (auto intro!: npc_life.in_birth)
qed

lemma dead_entered:
  assumes "selector_ok Invalid ecur nodes cs n"
  obtains v' n' where "Tick W (Action BtActDeath Invalid vd) n = (Action BtActDeath Running v', n')" "keeps n n'"
    "\<And>e c vb. e = (ecur \<noteq> None) \<Longrightarrow> npc_life (Dead (bw_time W)) e c
       (npc_tree Running c Running (Some 2) (Success, vb) (Aborted, Invalid, Invalid, Invalid) ecur nodes cs (Running, v')) n'"
proof -
  obtain v' n' where t: "Tick W (Action BtActDeath Invalid vd) n = (Action BtActDeath Running v', n')"
    "av_lastTime v' = bw_time W" "keeps n n'" "curAct n' = curAct n"
    by (rule Tick_Death_new)
  have d: "npc_life (Dead (bw_time W)) e c
      (npc_tree Running c Running (Some 2) (Success, vb) (Aborted, Invalid, Invalid, Invalid) ecur nodes cs (Running, v')) n'"
    if "e = (ecur \<noteq> None)" for e c vb
    by (rule npc_life.dead [OF selector_ok_curAct [OF assms t(4)] that t(2) [symmetric]])
  show ?thesis by (rule that [OF t(1,3) d])
qed

lemma Success_exec_sequence:
  "Tick W b n = (b', n') \<Longrightarrow> status b' = Success \<or> status b' = Aborted \<Longrightarrow>
     exec_sequence W (b # cs) 0 n = (let (st, cur, cs, n) = exec_sequence W cs 0 n' in (st, map_option Suc cur, b' # cs, n))"
  by auto

lemma Running_exec_sequence:
  "Tick W b n = (b', n') \<Longrightarrow> status b' = Running \<Longrightarrow> exec_sequence W (b # cs) 0 n = (Running, Some 0, b' # cs, n')"
  by auto

lemma skip_exec_sequence:
  "exec_sequence W (b # cs) 1 n = (let (st, cur, cs, n) = exec_sequence W cs 0 n in (st, map_option Suc cur, b # cs, n))"
  "exec_sequence W (b # cs) 2 n = (let (st, cur, cs, n) = exec_sequence W cs 1 n in (st, map_option Suc cur, b # cs, n))"
  by (simp_all add: numeral_2_eq_2)

lemma in_birth_tick:
  assumes "npc_life (InBirth t) e c b n" "c < 0xFFFFFFFE"
  shows "\<exists>e'. (e \<longrightarrow> e') \<and> npc_life (life_step W n (InBirth t)) e' c (fst (Tick W b n)) (snd (Tick W b n))
    \<and> keeps n (snd (Tick W b n))"
  using assms(1)
proof (cases rule: npc_life.cases)
  case (in_birth ecur nodes cs vb vd)
  have c: "c < 0xFFFFFFFF" using assms(2) by (simp add: word_less_nat_alt)
  show ?thesis
  proof (cases "bw_getAll W = [] \<or> bw_time W - t < 2000")
    case True
    then have w: "bw_getAll W = [] \<or> bw_time W - av_lastTime vb < 2000" using in_birth(4) by simp
    obtain v' where t: "Tick W (Action BtActBirth Running vb) n = (Action BtActBirth Running v', n)"
      "av_lastTime v' = (if bw_getAll W = [] then bw_time W else av_lastTime vb)"
      by (rule Tick_Birth_wait [OF w])
    have "Tick W b n = (npc_tree Running c Running (Some 0) (Running, v') all_invalid ecur nodes cs (Invalid, vd), n)"
      unfolding in_birth npc_tree_def prod.case using t(1) c
      by (intro Tick_npc_tree(1)) simp_all
    moreover have "life_step W n (InBirth t) = InBirth (av_lastTime v')"
      using True t(2) in_birth(4) by (auto simp: life_step_def)
    ultimately show ?thesis
      using npc_life.in_birth [OF in_birth(2,3) refl, where c = c and vb = v' and vd = vd] by (intro exI [of _ e]) simp
  next
    case False
    then have w: "bw_getAll W \<noteq> []" "\<not> bw_time W - av_lastTime vb < 2000" using in_birth(4) by simp_all
    obtain v' where t: "Tick W (Action BtActBirth Running vb) n = (Action BtActBirth Success v', n\<lparr>n_hp := n_initHp n\<rparr>)"
      by (rule Tick_Birth_done [OF w])
    let ?m = "n\<lparr>n_hp := n_initHp n\<rparr>"
    have m: "selector_ok Invalid ecur nodes cs ?m" "keeps n ?m"
      using selector_ok_curAct [OF in_birth(2)] by (simp_all add: keeps_def)
    show ?thesis
    proof (cases "n_initHp n = 0")
      case True
      then have z: "n_hp ?m = 0" by simp
      obtain cs1 n1 where p: "Tick W (par_alive Invalid Invalid Invalid Invalid ecur nodes cs) ?m
          = (par_alive Aborted Invalid Invalid Invalid ecur nodes cs1, n1)" "selector_ok Invalid ecur nodes cs1 n1" "keeps ?m n1"
        by (rule Tick_par_dead [OF m(1) insertI1 z])
      obtain vd' n2 where d: "Tick W (Action BtActDeath Invalid vd) n1 = (Action BtActDeath Running vd', n2)" "keeps n1 n2"
        "\<And>e c vb. e = (ecur \<noteq> None) \<Longrightarrow> npc_life (Dead (bw_time W)) e c
           (npc_tree Running c Running (Some 2) (Success, vb) (Aborted, Invalid, Invalid, Invalid) ecur nodes cs1 (Running, vd')) n2"
        using dead_entered [OF p(2), where W = W and vd = vd] by blast
      have "Tick W b n = (npc_tree Running c Running (Some 2) (Success, v') (Aborted, Invalid, Invalid, Invalid) ecur nodes cs1 (Running, vd'), n2)"
        unfolding in_birth npc_tree_def prod.case using c Running_exec_sequence [OF d(1), of "[]"]
          Success_exec_sequence [OF p(1), of "[Action BtActDeath Invalid vd]"]
          Success_exec_sequence [OF t(1), of "[par_alive Invalid Invalid Invalid Invalid ecur nodes cs, Action BtActDeath Invalid vd]"]
        by (intro Tick_npc_tree(1)) (simp_all del: exec_sequence.simps)
      moreover have "life_step W n (InBirth t) = Dead (bw_time W)" using True False by (simp add: life_step_def)
      ultimately show ?thesis
        using d(3) [OF in_birth(3)] keeps_trans [OF m(2) keeps_trans [OF p(3) d(2)]] by (intro exI [of _ e]) simp
    next
      case hp: False
      then have z: "n_hp ?m \<noteq> 0" "Invalid = Running \<Longrightarrow> ecur \<noteq> None" by simp_all
      obtain i cs1 n1 where p: "Tick W (par_alive Invalid Invalid Invalid Invalid ecur nodes cs) ?m
          = (par_alive Running Running Running Running (Some i) nodes cs1, n1)" "selector_ok Running (Some i) nodes cs1 n1" "keeps ?m n1"
        by (rule Tick_par_alive [OF m(1) insertI1 refl z(2,1)])
      have "Tick W b n = (npc_tree Running c Running (Some 1) (Success, v') (Running, Running, Running, Running) (Some i) nodes cs1 (Invalid, vd), n1)"
        unfolding in_birth npc_tree_def prod.case using c
          Running_exec_sequence [OF p(1), of "[Action BtActDeath Invalid vd]"]
          Success_exec_sequence [OF t(1), of "[par_alive Invalid Invalid Invalid Invalid ecur nodes cs, Action BtActDeath Invalid vd]"]
        by (intro Tick_npc_tree(1)) (simp_all del: exec_sequence.simps)
      moreover have "life_step W n (InBirth t) = Alive" using hp False by (simp add: life_step_def)
      ultimately show ?thesis
        using npc_life.alive [OF p(2) TrueI, of c v' vd] keeps_trans [OF m(2) p(3)] by (intro exI [of _ True]) simp
    qed
  qed
qed


lemma alive_tick:
  assumes "npc_life Alive e c b n" "c < 0xFFFFFFFE"
  shows "\<exists>e'. e' \<and> npc_life (life_step W n Alive) e' c (fst (Tick W b n)) (snd (Tick W b n)) \<and> keeps n (snd (Tick W b n))"
  using assms(1)
proof (cases rule: npc_life.cases)
  case (alive i nodes cs vb vd)
  have c: "c < 0xFFFFFFFF" using assms(2) by (simp add: word_less_nat_alt)
  have r: "Running \<in> {Invalid, Running}" by simp
  show ?thesis
  proof (cases "n_hp n = 0")
    case True
    obtain cs1 n1 where p: "Tick W (par_alive Running Running Running Running (Some i) nodes cs) n
        = (par_alive Aborted Invalid Invalid Invalid (Some i) nodes cs1, n1)" "selector_ok Invalid (Some i) nodes cs1 n1" "keeps n n1"
      by (rule Tick_par_dead [OF alive(2) r True])
    obtain vd' n2 where d: "Tick W (Action BtActDeath Invalid vd) n1 = (Action BtActDeath Running vd', n2)" "keeps n1 n2"
      "\<And>e c vb. e = (Some i \<noteq> None) \<Longrightarrow> npc_life (Dead (bw_time W)) e c
         (npc_tree Running c Running (Some 2) (Success, vb) (Aborted, Invalid, Invalid, Invalid) (Some i) nodes cs1 (Running, vd')) n2"
      using dead_entered [OF p(2), where W = W and vd = vd] by blast
    have "Tick W b n = (npc_tree Running c Running (Some 2) (Success, vb) (Aborted, Invalid, Invalid, Invalid) (Some i) nodes cs1 (Running, vd'), n2)"
      unfolding alive npc_tree_def prod.case using c Running_exec_sequence [OF d(1), of "[]"]
        Success_exec_sequence [OF p(1), of "[Action BtActDeath Invalid vd]"]
      by (intro Tick_npc_tree(1)) (simp_all add: skip_exec_sequence(1) [unfolded One_nat_def] del: exec_sequence.simps)
    moreover have "life_step W n Alive = Dead (bw_time W)" using True by (simp add: life_step_def)
    ultimately show ?thesis
      using d(3) [of True] keeps_trans [OF p(3) d(2)] by (intro exI [of _ True]) simp
  next
    case False
    have z: "Running = Running \<Longrightarrow> Some i \<noteq> None" by simp
    obtain j cs1 n1 where p: "Tick W (par_alive Running Running Running Running (Some i) nodes cs) n
        = (par_alive Running Running Running Running (Some j) nodes cs1, n1)" "selector_ok Running (Some j) nodes cs1 n1" "keeps n n1"
      by (rule Tick_par_alive [OF alive(2) r refl z False])
    have "Tick W b n = (npc_tree Running c Running (Some 1) (Success, vb) (Running, Running, Running, Running) (Some j) nodes cs1 (Invalid, vd), n1)"
      unfolding alive npc_tree_def prod.case using c Running_exec_sequence [OF p(1), of "[Action BtActDeath Invalid vd]"]
      by (intro Tick_npc_tree(1)) (simp_all add: skip_exec_sequence(1) [unfolded One_nat_def] del: exec_sequence.simps)
    moreover have "life_step W n Alive = Alive" using False by (simp add: life_step_def)
    ultimately show ?thesis
      using npc_life.alive [OF p(2) TrueI, of c vb vd] p(3) by (intro exI [of _ True]) simp
  qed
qed

text \<open>Leaving and resetting the whole life.\<close>

lemma Reset_life:
  assumes "selector_ok se ecur nodes cs n"
  obtains cs' n' where "Reset (Sequence sq cur [Action BtActBirth sb vb, par_alive sp sv ss se ecur nodes cs, Action BtActDeath sd vd]) n
      = (Sequence Invalid (Some 0) [Action BtActBirth Invalid vb, par_alive Invalid Invalid Invalid Invalid ecur nodes cs', Action BtActDeath Invalid vd], n')"
    "selector_ok Invalid ecur nodes cs' n'" "frame n n'"
proof -
  obtain cs' n' where p: "ForceExit Invalid (par_alive sp sv ss se ecur nodes cs) n
      = (par_alive Invalid Invalid Invalid Invalid ecur nodes cs', n')" "selector_ok Invalid ecur nodes cs' n'" "frame n n'"
    by (rule ForceExit_par [OF assms])
  have "ForceExit Invalid (Action BtActDeath sd vd) n' = (Action BtActDeath Invalid vd, n')"
    "ForceExit Invalid (Action BtActBirth sb vb) n = (Action BtActBirth Invalid vb, n)" by simp_all
  then show ?thesis using that [OF _ p(2,3)] p(1) by (simp add: child_begin_def del: ForceExit.simps)
qed

lemma Leave_life:
  assumes "selector_ok se ecur nodes cs n"
  obtains cs' n' where "ForceExit s (Sequence sq cur [Action BtActBirth sb vb, par_alive sp sv ss se ecur nodes cs, Action BtActDeath sd vd]) n
      = (Sequence s cur [Action BtActBirth Invalid vb, par_alive Invalid Invalid Invalid Invalid ecur nodes cs', Action BtActDeath Invalid vd], n')"
    "selector_ok Invalid ecur nodes cs' n'" "frame n n'"
proof -
  obtain cs' n' where p: "ForceExit Invalid (par_alive sp sv ss se ecur nodes cs) n
      = (par_alive Invalid Invalid Invalid Invalid ecur nodes cs', n')" "selector_ok Invalid ecur nodes cs' n'" "frame n n'"
    by (rule ForceExit_par [OF assms])
  have "ForceExit Invalid (Action BtActDeath sd vd) n' = (Action BtActDeath Invalid vd, n')"
    "ForceExit Invalid (Action BtActBirth sb vb) n = (Action BtActBirth Invalid vb, n)" by simp_all
  then show ?thesis using that [OF _ p(2,3)] p(1) by (simp del: ForceExit.simps(1,5))
qed

lemma dead_tick:
  assumes "npc_life (Dead t) e c b n" "c < 0xFFFFFFFE"
  shows "\<exists>c'. npc_life (life_step W n (Dead t)) e c' (fst (Tick W b n)) (snd (Tick W b n))
    \<and> keeps n (snd (Tick W b n)) \<and> (c' = c \<or> c' = c + 1)"
  using assms(1)
proof (cases rule: npc_life.cases)
  case (dead ecur nodes cs vd vb)
  have c: "c < 0xFFFFFFFF" "c + 1 \<noteq> 0xFFFFFFFF" using assms(2) by (auto simp: word_less_nat_alt)
  note skip = skip_exec_sequence skip_exec_sequence(1) [unfolded One_nat_def]
  show ?thesis
  proof (cases "bw_time W - av_lastTime vd < 8000 \<or> \<not> n_rebirth n")
    case True
    obtain v' where t: "Tick W (Action BtActDeath Running vd) n = (Action BtActDeath Running v', n)" "av_lastTime v' = av_lastTime vd"
      by (rule Tick_Death_wait [OF True])
    have "Tick W b n = (npc_tree Running c Running (Some 2) (Success, vb) (Aborted, Invalid, Invalid, Invalid) ecur nodes cs (Running, v'), n)"
      unfolding dead npc_tree_def prod.case using c Running_exec_sequence [OF t(1), of "[]"]
      by (intro Tick_npc_tree(1)) (simp_all add: skip del: exec_sequence.simps)
    moreover have "life_step W n (Dead t) = Dead t" using True dead(4) by (simp add: life_step_def)
    ultimately show ?thesis
      using npc_life.dead [OF dead(2,3), of t v' c vb] dead(4) t(2) by (intro exI [of _ c]) simp
  next
    case False
    obtain v' where t: "Tick W (Action BtActDeath Running vd) n = (Action BtActDeath Success v', n)"
      by (rule Tick_Death_done [OF False])
    let ?cs = "\<lambda>sp cs sb sd. [Action BtActBirth sb vb, par_alive sp Invalid Invalid Invalid ecur nodes cs, Action BtActDeath sd v']"
    obtain cs1 n1 where l: "ForceExit Success (Sequence Success None (?cs Aborted cs Success Success)) n
        = (Sequence Success None (?cs Invalid cs1 Invalid Invalid), n1)" "selector_ok Invalid ecur nodes cs1 n1" "frame n n1"
      by (rule Leave_life [OF dead(2)])
    obtain cs2 n2 where r: "Reset (Sequence Success None (?cs Invalid cs1 Invalid Invalid)) n1
        = (Sequence Invalid (Some 0) (?cs Invalid cs2 Invalid Invalid), n2)" "selector_ok Invalid ecur nodes cs2 n2" "frame n1 n2"
      by (rule Reset_life [OF l(2)])
    have x: "exec_sequence W [Action BtActBirth Success vb, par_alive Aborted Invalid Invalid Invalid ecur nodes cs, Action BtActDeath Running vd] 2 n = (Success, None, ?cs Aborted cs Success Success, n)"
      using Success_exec_sequence [OF t, of "[]"] by (simp add: skip)
    then have x': "exec_sequence W [Action BtActBirth Success vb, par_alive Aborted Invalid Invalid Invalid ecur nodes cs, Action BtActDeath Running vd]
        (if Running = Running then the (Some 2) else 0) n = (Success, None, ?cs Aborted cs Success Success, n)" by simp
    have "Tick W b n = (npc_tree Running (c + 1) Invalid (Some 0) (Invalid, vb) all_invalid ecur nodes cs2 (Invalid, v'), n2)"
      unfolding dead npc_tree_def prod.case using l(1) r(1)
      by (subst Tick_npc_tree(2) [OF _ _ c(1) _ x' refl refl c(2)]) (simp_all del: ForceExit.simps Reset.simps)
    moreover have "life_step W n (Dead t) = Newborn" using False dead(4) by (simp add: life_step_def)
    ultimately show ?thesis
      using npc_life.newborn [OF _ r(2) dead(3), of Running "c + 1" "Some 0" vb v'] frame_keeps [OF frame_trans [OF l(3) r(3)]]
      by (intro exI [of _ "c + 1"]) simp
  qed
qed


subsection \<open>Events in the life of a character\<close>

lemma HandleEvent_behaviours: "\<forall>c \<in> set cs. behaviour c \<Longrightarrow> HandleEvent_all i cs n = Some (cs, n)"
  by (induction cs) (auto simp: behaviour_def)

lemma HandleEvent_selector:
  assumes "selector_ok se ecur nodes cs n" "HandleEvent i (EdSelector se ecur nodes cs) n = Some (b', n')"
  obtains ecur' cs' where "b' = EdSelector se ecur' nodes cs'" "selector_ok se ecur' nodes cs' n'" "frame n n'"
    "ecur \<noteq> None \<longrightarrow> ecur' \<noteq> None"
proof (cases "map_of nodes i")
  case None
  have "\<forall>c \<in> set cs. behaviour c" using assms(1) by (simp add: selector_ok_def)
  then have "b' = EdSelector se ecur nodes cs" "n' = n" using assms(2) None by (simp_all add: HandleEvent_behaviours)
  then show ?thesis using that assms(1) by simp
next
  case (Some j)
  then obtain k where k: "ecur = Some k" "k < length cs"
    using assms(2) by (auto simp: SwitchNode_def list_end_def bind_eq_Some_conv split: option.splits if_splits)
  obtain cs1 n1 where f: "ForceExit_nth Suspend k cs n = (cs1, n1)" "frame n n1" "selector_ok se (Some k) nodes cs1 n1"
    "\<forall>c \<in> set cs1. status c \<noteq> Running"
    using ForceExit_current [OF assms(1) [unfolded k(1)], of Suspend se] by blast
  have "\<forall>(e, i) \<in> set nodes. i < length cs1" using f(3) by (auto simp: selector_ok_def)
  then have "j < length cs1" using map_of_SomeD [OF Some] by auto
  then have "selector_ok se (Some j) nodes cs1 n1" using selector_ok_switch [OF f(3,4)] by simp
  moreover have "b' = EdSelector se (Some j) nodes cs1" "n' = n1"
    using assms(2) Some k f(1) by (auto simp: SwitchNode_def list_end_def)
  ultimately show ?thesis using that f(2) by blast
qed

lemma HandleEvent_defined:
  assumes "selector_ok se (Some k) nodes cs n"
  shows "HandleEvent i (EdSelector se (Some k) nodes cs) n \<noteq> None"
proof -
  have "k < length cs" "\<forall>c \<in> set cs. behaviour c" using assms by (simp_all add: selector_ok_def)
  then show ?thesis
    by (cases "map_of nodes i") (auto simp: SwitchNode_def list_end_def HandleEvent_behaviours case_prod_beta)
qed

text \<open>Every state of a life is a tree with its selector; an event goes there, unless it is a rebirth.\<close>

lemma npc_life_selector:
  assumes "npc_life l e c b n"
  obtains st sq cur sb vb sp sv ss se ecur nodes cs sd vd where
    "b = Repeat st c 0xFFFFFFFF (Sequence sq cur
      [Action BtActBirth sb vb, par_alive sp sv ss se ecur nodes cs, Action BtActDeath sd vd])"
    "selector_ok se ecur nodes cs n" "e = (ecur \<noteq> None)" "st \<in> {Invalid, Running}"
    "\<And>ecur' cs' n' e'. selector_ok se ecur' nodes cs' n' \<Longrightarrow> e' = (ecur' \<noteq> None) \<Longrightarrow> (e \<longrightarrow> e') \<Longrightarrow>
      npc_life l e' c (Repeat st c 0xFFFFFFFF (Sequence sq cur
        [Action BtActBirth sb vb, par_alive sp sv ss se ecur' nodes cs', Action BtActDeath sd vd])) n'"
  using assms
proof (cases rule: npc_life.cases)
  case (newborn st ecur nodes cs cur vb vd)
  show ?thesis
    by (rule that [OF newborn(2) [unfolded npc_tree_def prod.case] newborn(4,5,3)])
      (auto intro!: npc_life.newborn [unfolded npc_tree_def prod.case] newborn(3) simp: newborn(1))
next
  case (in_birth ecur nodes cs vb vd)
  show ?thesis
    by (rule that [OF in_birth(2) [unfolded npc_tree_def prod.case] in_birth(3,4)])
      (auto intro!: npc_life.in_birth [unfolded npc_tree_def prod.case] simp: in_birth(1,5))
next
  case (alive i nodes cs vb vd)
  show ?thesis
    by (rule that [OF alive(2) [unfolded npc_tree_def prod.case] alive(3)])
      (auto intro!: npc_life.alive [unfolded npc_tree_def prod.case One_nat_def] simp: alive(1,4))
next
  case (dead ecur nodes cs vd vb)
  show ?thesis
    by (rule that [OF dead(2) [unfolded npc_tree_def prod.case] dead(3,4)])
      (auto intro!: npc_life.dead [unfolded npc_tree_def prod.case] simp: dead(1,5))
qed


lemma HandleEvent_life:
  assumes "npc_life l e c b n" "HandleEvent i b n = Some (b', n')"
  shows "\<exists>e' c'. (e \<longrightarrow> e') \<and> npc_life (if i = EvBirth then Newborn else l) e' c' b' n' \<and> c' \<le> c \<and> frame n n'"
proof -
  obtain st sq cur sb vb sp sv ss se ecur nodes cs sd vd where t:
    "b = Repeat st c 0xFFFFFFFF (Sequence sq cur
      [Action BtActBirth sb vb, par_alive sp sv ss se ecur nodes cs, Action BtActDeath sd vd])"
    "selector_ok se ecur nodes cs n" "e = (ecur \<noteq> None)" "st \<in> {Invalid, Running}"
    "\<And>ecur' cs' n' e'. selector_ok se ecur' nodes cs' n' \<Longrightarrow> e' = (ecur' \<noteq> None) \<Longrightarrow> (e \<longrightarrow> e') \<Longrightarrow>
      npc_life l e' c (Repeat st c 0xFFFFFFFF (Sequence sq cur
        [Action BtActBirth sb vb, par_alive sp sv ss se ecur' nodes cs', Action BtActDeath sd vd])) n'"
    using npc_life_selector [OF assms(1)] by blast
  show ?thesis
  proof (cases "i = EvBirth")
    case True
    obtain cs' n1 where r: "Reset (Sequence sq cur [Action BtActBirth sb vb, par_alive sp sv ss se ecur nodes cs, Action BtActDeath sd vd]) n
        = (Sequence Invalid (Some 0) [Action BtActBirth Invalid vb, par_alive Invalid Invalid Invalid Invalid ecur nodes cs', Action BtActDeath Invalid vd], n1)"
      "selector_ok Invalid ecur nodes cs' n1" "frame n n1"
      by (rule Reset_life [OF t(2)])
    have "HandleEvent i b n = Some (Repeat st 0 0xFFFFFFFF (Sequence Invalid (Some 0) [Action BtActBirth Invalid vb,
        par_alive Invalid Invalid Invalid Invalid ecur nodes cs', Action BtActDeath Invalid vd]), n1)"
      using True r(1) by (simp add: t(1) del: Reset.simps)
    then have bn: "b' = Repeat st 0 0xFFFFFFFF (Sequence Invalid (Some 0) [Action BtActBirth Invalid vb,
        par_alive Invalid Invalid Invalid Invalid ecur nodes cs', Action BtActDeath Invalid vd])" "n' = n1"
      using assms(2) by simp_all
    have "npc_life Newborn e 0 b' n'"
      using npc_life.newborn [OF t(4) r(2) t(3), where c = 0 and cur = "Some 0" and vb = vb and vd = vd]
      unfolding bn npc_tree_def prod.case .
    then show ?thesis using r(3) True bn(2) by (intro exI [of _ e] exI [of _ 0]) simp
  next
    case False
    then obtain b1 where h: "HandleEvent i (EdSelector se ecur nodes cs) n = Some (b1, n')"
      "b' = Repeat st c 0xFFFFFFFF (Sequence sq cur [Action BtActBirth sb vb,
         Parallel PolicySequence sp [Action BtActView sv act_vars_new, Action BtActSense ss act_vars_new, b1], Action BtActDeath sd vd])"
      using assms(2) unfolding t(1) by (auto simp: bind_eq_Some_conv simp del: HandleEvent.simps(6))
    obtain ecur' cs' where s: "b1 = EdSelector se ecur' nodes cs'" "selector_ok se ecur' nodes cs' n'" "frame n n'"
      "ecur \<noteq> None \<longrightarrow> ecur' \<noteq> None"
      by (rule HandleEvent_selector [OF t(2) h(1)])
    then show ?thesis using t(3) t(5) [OF s(2) refl] False h(2) by (intro exI [of _ "ecur' \<noteq> None"] exI [of _ c]) simp
  qed
qed


lemma HandleEvent_current:
  assumes "npc_life l e c b n" "e"
  shows "HandleEvent i b n \<noteq> None"
proof -
  obtain st sq cur sb vb sp sv ss se ecur nodes cs sd vd where t:
    "b = Repeat st c 0xFFFFFFFF (Sequence sq cur
      [Action BtActBirth sb vb, par_alive sp sv ss se ecur nodes cs, Action BtActDeath sd vd])"
    "selector_ok se ecur nodes cs n" "e = (ecur \<noteq> None)" "st \<in> {Invalid, Running}"
    "\<And>ecur' cs' n' e'. selector_ok se ecur' nodes cs' n' \<Longrightarrow> e' = (ecur' \<noteq> None) \<Longrightarrow> (e \<longrightarrow> e') \<Longrightarrow>
      npc_life l e' c (Repeat st c 0xFFFFFFFF (Sequence sq cur
        [Action BtActBirth sb vb, par_alive sp sv ss se ecur' nodes cs', Action BtActDeath sd vd])) n'"
    using npc_life_selector [OF assms(1)] by blast
  obtain k where k: "ecur = Some k" using assms(2) t(3) by auto
  have "HandleEvent i (EdSelector se ecur nodes cs) n \<noteq> None"
    using HandleEvent_defined [OF t(2) [unfolded k]] unfolding k .
  then obtain b1 n1 where "HandleEvent i (EdSelector se ecur nodes cs) n = Some (b1, n1)" by fastforce
  then show ?thesis unfolding t(1)
    by (cases "i = EvBirth") (simp_all add: case_prod_beta del: Reset.simps HandleEvent.simps(6))
qed

lemma handle_all_life:
  "npc_life l e c b n \<Longrightarrow> handle_all es b n = Some (b', n') \<Longrightarrow>
     \<exists>e' c'. (e \<longrightarrow> e') \<and> npc_life (if EvBirth \<in> fst ` set es then Newborn else l) e' c' b' n' \<and> c' \<le> c \<and> frame n n'"
proof (induction es arbitrary: l e c b n)
  case (Cons i es)
  then obtain b1 n1 where h: "HandleEvent (fst i) b n = Some (b1, n1)" "handle_all es b1 n1 = Some (b', n')"
    by (auto split: option.splits)
  obtain e1 c1 where s: "e \<longrightarrow> e1" "npc_life (if fst i = EvBirth then Newborn else l) e1 c1 b1 n1" "c1 \<le> c" "frame n n1"
    using HandleEvent_life [OF Cons.prems(1) h(1)] by blast
  obtain e2 c2 where u: "e1 \<longrightarrow> e2" "c2 \<le> c1" "frame n1 n'"
    "npc_life (if EvBirth \<in> fst ` set es then Newborn else if fst i = EvBirth then Newborn else l) e2 c2 b' n'"
    using Cons.IH [OF s(2) h(2)] by blast
  have "(if EvBirth \<in> fst ` set es then Newborn else if fst i = EvBirth then Newborn else l)
      = (if EvBirth \<in> fst ` set (i # es) then Newborn else l)" by auto
  then have "npc_life (if EvBirth \<in> fst ` set (i # es) then Newborn else l) e2 c2 b' n'" using u(4) by (simp only:)
  moreover have "e \<longrightarrow> e2" using s(1) u(1) by blast
  ultimately show ?case
    using frame_trans [OF s(4) u(3)] order_trans [OF u(2) s(3)] by (intro exI [of _ e2] exI [of _ c2] conjI)
qed auto

lemma handle_all_current:
  "npc_life l e c b n \<Longrightarrow> e \<Longrightarrow> handle_all es b n \<noteq> None"
proof (induction es arbitrary: l e c b n)
  case (Cons i es)
  obtain r where "HandleEvent (fst i) b n = Some r" using HandleEvent_current [OF Cons.prems, of "fst i"] by blast
  then obtain b1 n1 where h: "HandleEvent (fst i) b n = Some (b1, n1)" by (cases r) simp
  then obtain l1 e1 c1 where "npc_life l1 e1 c1 b1 n1" "e1"
    using HandleEvent_life [OF Cons.prems(1) h] Cons.prems(2) by blast
  then show ?case using Cons.IH h by simp
qed simp

lemma Tick_life:
  assumes "npc_life l e c b n" "c < 0xFFFFFFFE"
  shows "\<exists>e' c'. npc_life (life_step W n l) e' c' (fst (Tick W b n)) (snd (Tick W b n)) \<and> keeps n (snd (Tick W b n))
    \<and> (e \<longrightarrow> e') \<and> c' \<le> c + 1"
proof (cases l)
  case Newborn
  have "c \<le> c + 1" using assms(2) by (simp add: word_le_nat_alt word_less_nat_alt unat_word_ariths)
  then show ?thesis using newborn_tick [of e c b n W] assms Newborn by (force simp: life_step_def)
next
  case (InBirth t)
  have "c \<le> c + 1" using assms(2) by (simp add: word_le_nat_alt word_less_nat_alt unat_word_ariths)
  then show ?thesis using in_birth_tick [of t e c b n W] assms InBirth by blast
next
  case Alive
  have "c \<le> c + 1" using assms(2) by (simp add: word_le_nat_alt word_less_nat_alt unat_word_ariths)
  then show ?thesis using alive_tick [of e c b n W] assms Alive by blast
next
  case (Dead t)
  have "c \<le> c + 1" using assms(2) by (simp add: word_le_nat_alt word_less_nat_alt unat_word_ariths)
  then show ?thesis using dead_tick [of t e c b n W] assms Dead by fastforce
qed


lemma npc_life_curAct:
  assumes "npc_life l e c b n" "curAct n' = curAct n"
  shows "npc_life l e c b n'"
  using assms(1)
proof (cases rule: npc_life.cases)
  case (newborn st ecur nodes cs cur vb vd)
  then show ?thesis using npc_life.newborn [OF newborn(3) selector_ok_curAct [OF newborn(4) assms(2)] newborn(5)] by simp
next
  case (in_birth ecur nodes cs vb vd)
  then show ?thesis using npc_life.in_birth [OF selector_ok_curAct [OF in_birth(3) assms(2)] in_birth(4,5)] by simp
next
  case (alive i nodes cs vb vd)
  then show ?thesis using npc_life.alive [OF selector_ok_curAct [OF alive(3) assms(2)] alive(4)] by simp
next
  case (dead ecur nodes cs vd vb)
  then show ?thesis using npc_life.dead [OF selector_ok_curAct [OF dead(3) assms(2)] dead(4,5)] by simp
qed

lemma Update_life:
  assumes "npc_life l e c b n" "c < 0xFFFFFFFE"
  shows "case BtComponent_Update W b n of
      None \<Rightarrow> \<not> e
    | Some (b', n') \<Rightarrow> \<exists>e' c'. (e \<longrightarrow> e') \<and> c' \<le> c + 1 \<and> keeps n n' \<and>
        npc_life (if EvBirth \<in> fst ` set (handled_events (n_events (snd (Tick W b n)))) then Newborn else life_step W n l)
          e' c' b' n'"
proof -
  obtain b1 n1 where t: "Tick W b n = (b1, n1)" by (cases "Tick W b n")
  obtain e1 c1 where l1: "npc_life (life_step W n l) e1 c1 b1 n1" "keeps n n1" "e \<longrightarrow> e1" "c1 \<le> c + 1"
    using Tick_life [OF assms, of W] t by auto
  let ?n = "n1\<lparr>n_events := []\<rparr>"
  have l2: "npc_life (life_step W n l) e1 c1 b1 ?n" "keeps n ?n"
    using npc_life_curAct [OF l1(1)] l1(2) by (simp_all add: keeps_def)
  have u: "BtComponent_Update W b n = handle_all (handled_events (n_events n1)) b1 ?n"
    by (simp add: BtComponent_Update_def t event_loop_handles)
  show ?thesis
  proof (cases "BtComponent_Update W b n")
    case None
    have "\<not> e1" using handle_all_current [OF l2(1), of "handled_events (n_events n1)"] None u by argo
    then show ?thesis using l1(3) None by simp
  next
    case (Some r)
    then obtain b' n' where r: "r = (b', n')" "handle_all (handled_events (n_events n1)) b1 ?n = Some (b', n')"
      using u by (cases r) simp
    obtain e2 c2 where h: "e1 \<longrightarrow> e2" "c2 \<le> c1" "frame ?n n'"
      "npc_life (if EvBirth \<in> fst ` set (handled_events (n_events n1)) then Newborn else life_step W n l) e2 c2 b' n'"
      using handle_all_life [OF l2(1) r(2)] by blast
    have k: "keeps n n'" by (rule keeps_trans [OF l2(2) frame_keeps [OF h(3)]])
    have e: "e \<longrightarrow> e2" using l1(3) h(1) by argo
    show ?thesis unfolding Some r(1) option.case prod.case t snd_conv
      by (intro exI [of _ e2] exI [of _ c2] conjI e k h(4) order_trans [OF h(2) l1(4)])
  qed
qed

text \<open>
  C37. The tree of a character refines its life: an update takes the tree from the state \<open>l\<close> to the state \<open>life_step\<close>
  computes from the clock, the players present and the hit points - born two seconds after a player is there, dead when
  the hit points are 0, waiting again eight seconds later if it may come back - or back to waiting if a rebirth was
  among the events handled; and once its selector has had a child current, no update dereferences \<open>end()\<close>.
\<close>

theorem npc_life_refines:
  assumes "npc_life l e c b n" "c < 0xFFFFFFFE"
  shows "case BtComponent_Update W b n of
      None \<Rightarrow> \<not> e
    | Some (b', n') \<Rightarrow> \<exists>e' c'. (e \<longrightarrow> e') \<and> c' \<le> c + 1 \<and> keeps n n' \<and>
        npc_life (if EvBirth \<in> fst ` set (handled_events (n_events (snd (Tick W b n)))) then Newborn else life_step W n l)
          e' c' b' n'"
  by (rule Update_life [OF assms])

text \<open>
  C39. Of the events of one update the one of the highest priority is never handled and the last one is handled twice:
  after \<open>pop\<close> the reference to the front of the queue is to the next event.
\<close>

theorem top_event_is_lost:
  assumes "is_heap ev_key (n_events n)" "1 < length (n_events n)"
  shows "\<exists>top rest. mset (n_events n) = add_mset top (mset rest) \<and> (\<forall>e \<in> set rest. snd e \<le> snd top)
    \<and> sorted_wrt (\<lambda>e e'. snd e' \<le> snd e) rest
    \<and> event_loop b n = handle_all (rest @ [last rest]) b (n\<lparr>n_events := []\<rparr>)"
proof -
  let ?o = "pop_order (n_events n)"
  note m = pop_order_mset [OF assms(1)]
  have "length ?o = length (n_events n)" using m by (metis size_mset)
  then obtain top e rest where o: "?o = top # e # rest" using assms(2) by (cases ?o; cases "tl ?o") auto
  have "handled_events (n_events n) = (e # rest) @ [last (e # rest)]" by (simp add: handled_events_def o)
  moreover have "sorted_wrt (\<lambda>e e'. snd e' \<le> snd e) (top # e # rest)" using pop_order_sorted [OF assms(1)] o by simp
  moreover have "mset (n_events n) = add_mset top (mset (e # rest))" using m o by simp
  ultimately show ?thesis
    unfolding event_loop_handles by (intro exI [of _ top] exI [of _ "e # rest"]) simp
qed


subsection \<open>From the configuration on\<close>

definition parsed_ok :: "(BtEventId \<times> nat) list \<Rightarrow> bt_node list \<Rightarrow> bool" where
  "parsed_ok nodes cs =
     ((\<forall>c \<in> set cs. behaviour c \<and> status c = Invalid) \<and> (\<forall>(e, i) \<in> set nodes. i < length cs \<and> e \<noteq> EvBirth))"

lemma act_of_config_behaviour: "act_of_config name = Some a \<Longrightarrow> a \<in> behaviours"
  by (auto simp: act_of_config_def behaviours_def split: if_splits)

lemma behaviour_event: "a \<in> behaviours \<Longrightarrow> GetEventId a \<in> {EvIdle, EvPatrol, EvPursue, EvAttack, EvFlee} \<and> GetEventId a \<noteq> EvBirth"
  by (auto simp: behaviours_def)

lemma act_new_fields:
  "act_new W a n = (c, n') \<Longrightarrow> (\<exists>v. c = Action a Invalid v) \<and> curAct n' = curAct n \<and> n_events n' = n_events n"
  by (auto simp: act_new_def Let_def split: if_splits)

lemma ed_AddChild_ok:
  assumes "a \<in> behaviours" "parsed_ok nodes cs" "ed_AddChild a (Action a Invalid v) nodes cs = (nodes', cs')"
  shows "parsed_ok nodes' cs' \<and> cs' \<noteq> [] \<and> map_of nodes' (GetEventId a) \<noteq> None \<and> (\<forall>e. map_of nodes e \<noteq> None \<longrightarrow> map_of nodes' e \<noteq> None)"
proof -
  have b: "behaviour (Action a Invalid v)" using assms(1) by (simp add: behaviour_def)
  have e: "GetEventId a \<in> {EvIdle, EvPatrol, EvPursue, EvAttack, EvFlee}" "GetEventId a \<noteq> EvBirth"
    using behaviour_event [OF assms(1)] by blast+
  show ?thesis
  proof (cases "map_of nodes (GetEventId a)")
    case None
    then have "nodes' = nodes @ [(GetEventId a, length cs)]" "cs' = cs @ [Action a Invalid v]"
      using assms(3) e(1) by (simp_all add: ed_AddChild_def Let_def)
    then show ?thesis using assms(2) b e(2) by (auto simp: parsed_ok_def map_add_def less_Suc_eq split: option.splits)
  next
    case (Some i)
    then have "nodes' = nodes" "cs' = cs @ [Action a Invalid v]"
      using assms(3) by (simp_all add: ed_AddChild_def Let_def)
    then show ?thesis using assms(2) b Some by (auto simp: parsed_ok_def less_Suc_eq)
  qed
qed

lemma parse_nodes_ok:
  "parse_nodes W names nodes cs n = (nodes', cs', n') \<Longrightarrow> parsed_ok nodes cs \<Longrightarrow>
     parsed_ok nodes' cs' \<and> curAct n' = curAct n \<and> n_events n' = n_events n
     \<and> (cs \<noteq> [] \<or> (\<exists>name \<in> set names. act_of_config name \<noteq> None) \<longrightarrow> cs' \<noteq> [])
     \<and> (\<forall>e. map_of nodes e \<noteq> None \<longrightarrow> map_of nodes' e \<noteq> None)
     \<and> (\<forall>name \<in> set names. \<forall>a. act_of_config name = Some a \<longrightarrow> map_of nodes' (GetEventId a) \<noteq> None)"
proof (induction names arbitrary: nodes cs n)
  case (Cons name names)
  show ?case
  proof (cases "act_of_config name")
    case None
    then show ?thesis using Cons.IH [OF _ Cons.prems(2)] Cons.prems(1) by auto
  next
    case (Some a)
    obtain c1 n1 where c1: "act_new W a n = (c1, n1)" by (cases "act_new W a n")
    then obtain v where v: "c1 = Action a Invalid v" "curAct n1 = curAct n" "n_events n1 = n_events n"
      using act_new_fields by blast
    obtain nodes1 cs1 where a: "ed_AddChild a c1 nodes cs = (nodes1, cs1)" by (cases "ed_AddChild a c1 nodes cs")
    note k = ed_AddChild_ok [OF act_of_config_behaviour [OF Some] Cons.prems(2) a [unfolded v(1)]]
    have "parse_nodes W names nodes1 cs1 n1 = (nodes', cs', n')" using Cons.prems(1) Some c1 a by simp
    from Cons.IH [OF this] k have "parsed_ok nodes' cs' \<and> curAct n' = curAct n1 \<and> n_events n' = n_events n1 \<and> cs' \<noteq> []
      \<and> (\<forall>e. map_of nodes1 e \<noteq> None \<longrightarrow> map_of nodes' e \<noteq> None)
      \<and> (\<forall>name \<in> set names. \<forall>a. act_of_config name = Some a \<longrightarrow> map_of nodes' (GetEventId a) \<noteq> None)" by blast
    then show ?thesis using k v Some by simp
  qed
qed simp

lemma ParseConfig_tree:
  assumes "ParseConfig W cfg n = (b, n')" "curAct n = None" "\<exists>name \<in> set (bt_nodes cfg). act_of_config name \<noteq> None"
  obtains nodes cs where
    "b = npc_tree Invalid 0 Invalid None (Invalid, act_vars_new) all_invalid None nodes cs (Invalid, act_vars_new)"
    "selector_ok Invalid None nodes cs n'" "n_events n' = n_events n" "curAct n' = None"
    "\<forall>name \<in> set (bt_nodes cfg). \<forall>a. act_of_config name = Some a \<longrightarrow> map_of nodes (GetEventId a) \<noteq> None"
proof -
  obtain nodes cs n1 where p: "parse_nodes W (bt_nodes cfg) [] [] (n\<lparr>n_rebirth := rebirth cfg\<rparr>) = (nodes, cs, n1)"
    by (cases "parse_nodes W (bt_nodes cfg) [] [] (n\<lparr>n_rebirth := rebirth cfg\<rparr>)")
  have k: "parsed_ok nodes cs" "curAct n1 = None" "n_events n1 = n_events n" "cs \<noteq> []"
    "\<forall>name \<in> set (bt_nodes cfg). \<forall>a. act_of_config name = Some a \<longrightarrow> map_of nodes (GetEventId a) \<noteq> None"
    using parse_nodes_ok [OF p] assms(2,3) by (auto simp: parsed_ok_def)
  have b: "b = npc_tree Invalid 0 Invalid None (Invalid, act_vars_new) all_invalid None nodes cs (Invalid, act_vars_new)" "n' = n1"
    using assms(1) p by (simp_all add: ParseConfig_def Let_def)
  have "selector_ok Invalid None nodes cs n1"
    using k(1,2,4) by (auto simp: selector_ok_def parsed_ok_def)
  then show ?thesis using that k b by blast
qed

lemma ParseConfig_life:
  assumes "ParseConfig W cfg n = (b, n')" "curAct n = None" "\<exists>name \<in> set (bt_nodes cfg). act_of_config name \<noteq> None"
  shows "npc_life Newborn False 0 b n'"
proof -
  obtain nodes cs where
    "b = npc_tree Invalid 0 Invalid None (Invalid, act_vars_new) all_invalid None nodes cs (Invalid, act_vars_new)"
    "selector_ok Invalid None nodes cs n'"
    by (rule ParseConfig_tree [OF assms])
  then show ?thesis
    using npc_life.newborn [where st = Invalid and ecur = None and e = False and nodes = nodes and cs = cs and n = n'] by simp
qed

text \<open>
  A run: the configuration, then updates in any world, and between them any change of the character that leaves the
  action in progress alone - damage, new targets, positions and events.
\<close>

inductive npc_run :: "nat \<Rightarrow> bt_node \<Rightarrow> npc \<Rightarrow> bool" where
  start: "ParseConfig W cfg n = (b, n') \<Longrightarrow> curAct n = None \<Longrightarrow>
    \<exists>name \<in> set (bt_nodes cfg). act_of_config name \<noteq> None \<Longrightarrow> npc_run 0 b n'"
| change: "npc_run k b n \<Longrightarrow> curAct n' = curAct n \<Longrightarrow> npc_run k b n'"
| update: "npc_run k b n \<Longrightarrow> BtComponent_Update W b n = Some (b', n') \<Longrightarrow> npc_run (k + 1) b' n'"

text \<open>The actions of the selector that are running.\<close>

fun running :: "bt_node \<Rightarrow> bt_act list"
and running_all :: "bt_node list \<Rightarrow> bt_act list" where
  "running (Action a st v) = (if st = Running \<and> a \<in> behaviours then [a] else [])"
| "running (Condition f st) = []"
| "running (Selector st cur cs) = running_all cs"
| "running (Sequence st cur cs) = running_all cs"
| "running (Parallel policy st cs) = running_all cs"
| "running (EdSelector st cur nodes cs) = running_all cs"
| "running (Repeat st cnt limit c) = running c"
| "running_all [] = []"
| "running_all (c # cs) = running c @ running_all cs"


lemma running_append [simp]: "running_all (cs @ ds) = running_all cs @ running_all ds"
  by (induction cs) simp_all

lemma running_none: "\<forall>c \<in> set cs. behaviour c \<and> status c \<noteq> Running \<Longrightarrow> running_all cs = []"
  by (induction cs) (auto simp: behaviour_def)

lemma running_selector:
  assumes "selector_ok se ecur nodes cs n"
  shows "running_all cs = (case curAct n of None \<Rightarrow> [] | Some r \<Rightarrow> [fst r])"
proof -
  have b: "\<forall>c \<in> set cs. behaviour c"
    and r: "\<And>j. j < length cs \<Longrightarrow> status (cs ! j) = Running \<Longrightarrow> ecur = Some j"
    and l: "\<And>i. ecur = Some i \<Longrightarrow> i < length cs"
    and k: "map_option fst (curAct n) =
      (case ecur of None \<Rightarrow> None | Some i \<Rightarrow> if status (cs ! i) = Running then act_kind (cs ! i) else None)"
    using assms unfolding selector_ok_def by blast+
  show ?thesis
  proof (cases "\<exists>i. ecur = Some i \<and> status (cs ! i) = Running")
    case True
    then obtain i where i: "ecur = Some i" "status (cs ! i) = Running" by blast
    have o: "\<forall>c \<in> set (take i cs) \<union> set (drop (Suc i) cs). behaviour c \<and> status c \<noteq> Running"
    proof
      fix c assume c: "c \<in> set (take i cs) \<union> set (drop (Suc i) cs)"
      then have "\<exists>j < length cs. c = cs ! j \<and> j \<noteq> i"
      proof
        assume "c \<in> set (take i cs)"
        then obtain j where "j < length (take i cs)" "c = take i cs ! j" unfolding in_set_conv_nth by blast
        then show ?thesis by (intro exI [of _ j]) simp
      next
        assume "c \<in> set (drop (Suc i) cs)"
        then obtain j where "j < length (drop (Suc i) cs)" "c = drop (Suc i) cs ! j" unfolding in_set_conv_nth by blast
        then show ?thesis by (intro exI [of _ "Suc i + j"]) simp
      qed
      then obtain j where "j < length cs" "c = cs ! j" "j \<noteq> i" by blast
      then show "behaviour c \<and> status c \<noteq> Running" using b r [of j] i(1) by auto
    qed
    have "cs = take i cs @ cs ! i # drop (Suc i) cs" using l [OF i(1)] by (rule id_take_nth_drop)
    then have "running_all cs = running_all (take i cs) @ running (cs ! i) @ running_all (drop (Suc i) cs)"
      by (metis running_all.simps(2) running_append)
    then have e: "running_all cs = running (cs ! i)" using o by (simp add: running_none)
    have "behaviour (cs ! i)" using b l [OF i(1)] by simp
    then obtain a v where a: "cs ! i = Action a Running v" "a \<in> behaviours" using i(2) by (auto simp: behaviour_def)
    have "map_option fst (curAct n) = Some a" using k i a by simp
    then show ?thesis using e a by auto
  next
    case False
    have "\<forall>c \<in> set cs. status c \<noteq> Running" using r False by (auto simp: in_set_conv_nth)
    then have "running_all cs = []" using b running_none by blast
    moreover have "curAct n = None" using k False by (auto split: option.splits if_splits)
    ultimately show ?thesis by simp
  qed
qed

lemma npc_run_life: "npc_run k b n \<Longrightarrow> k < 0xFFFFFFFE \<Longrightarrow> \<exists>l e c. npc_life l e c b n \<and> unat c \<le> k"
proof (induction rule: npc_run.induct)
  case (start W cfg n b n')
  then show ?case using ParseConfig_life [OF start(1-3)] by fastforce
next
  case (change k b n n')
  then obtain l e c where "npc_life l e c b n" "unat c \<le> k" by blast
  then show ?case using npc_life_curAct [OF _ change(2)] by blast
next
  case (update k b n W b' n')
  then obtain l e c where c: "npc_life l e c b n" "unat c \<le> k" by force
  have "c < 0xFFFFFFFE" using c(2) update(4) by (simp add: word_less_nat_alt)
  then obtain e' c' l' where u: "npc_life l' e' c' b' n'" "c' \<le> c + 1"
    using Update_life [OF c(1), of W] update(2) by auto
  have "unat (c + 1) = unat c + 1" using c(2) update(4) by (simp add: unat_word_ariths)
  then show ?case using u c(2) by (intro exI [of _ l'] exI [of _ e'] exI [of _ c']) (simp add: word_le_nat_alt)
qed

text \<open>
  C38. Whatever happens to a character, at most one action of its selector is running, and it is the one \<open>SyncAction\<close>
  tells a client about.
\<close>

theorem one_action_in_progress:
  assumes "npc_run k b n" "k < 0xFFFFFFFE"
  shows "running b = (case curAct n of None \<Rightarrow> [] | Some r \<Rightarrow> [fst r])"
proof -
  obtain l e c where "npc_life l e c b n" using npc_run_life [OF assms] by blast
  then obtain st sq cur sb vb sp sv ss se ecur nodes cs sd vd where
    "b = Repeat st c 0xFFFFFFFF (Sequence sq cur
      [Action BtActBirth sb vb, par_alive sp sv ss se ecur nodes cs, Action BtActDeath sd vd])"
    "selector_ok se ecur nodes cs n"
    by (rule npc_life_selector)
  then show ?thesis using running_selector by (simp add: behaviours_def)
qed


text \<open>
  C40. An event that reaches a character before it has lived once - a hit, for instance, which asks it to pursue -
  makes the update dereference the end of the list of children.
\<close>

theorem event_before_birth_crashes:
  assumes "ParseConfig W cfg n = (b, n')" "curAct n = None" "n_events n = []"
    and "name \<in> set (bt_nodes cfg)" "act_of_config name = Some a"
  shows "BtComponent_Update W' b (Bt_AddEvent (GetEventId a) 0 n') = None"
proof -
  let ?n = "Bt_AddEvent (GetEventId a) 0 n'"
  have x: "\<exists>name \<in> set (bt_nodes cfg). act_of_config name \<noteq> None" using assms(4,5) by force
  obtain nodes cs where t:
    "b = npc_tree Invalid 0 Invalid None (Invalid, act_vars_new) all_invalid None nodes cs (Invalid, act_vars_new)"
    "selector_ok Invalid None nodes cs n'" "n_events n' = n_events n" "curAct n' = None"
    "\<forall>name \<in> set (bt_nodes cfg). \<forall>a. act_of_config name = Some a \<longrightarrow> map_of nodes (GetEventId a) \<noteq> None"
    by (rule ParseConfig_tree [OF assms(1,2) x])
  have nodes: "map_of nodes (GetEventId a) \<noteq> None" "GetEventId a \<noteq> EvBirth"
    using t(5) assms(4,5) behaviour_event [OF act_of_config_behaviour [OF assms(5)]] by blast+
  obtain v' n1 where l: "Tick W' (Action BtActBirth Invalid act_vars_new) ?n = (Action BtActBirth Running v', n1)"
    "n_events n1 = n_events ?n"
    by (cases "bw_getAll W' = []") (simp_all add: Tick.simps BirthTask_def Let_def leave_def)
  let ?b = "npc_tree Running 0 Running (Some 0) (Running, v') all_invalid None nodes cs (Invalid, act_vars_new)"
  have "Tick W' b ?n = (?b, n1)"
    unfolding t(1) npc_tree_def prod.case using l(1) by (intro Tick_npc_tree(1)) simp_all
  moreover have "n_events n1 = [(GetEventId a, 0)]" using l(2) t(3) assms(3) by (simp add: push_heap_def sift_up.simps)
  moreover have "event_loop ?b n1 = None" if "n_events n1 = [(GetEventId a, 0)]"
    using nodes that
    by (subst event_loop.simps)
      (simp add: front_after_pop_def pop_heap_def sift_down.simps npc_tree_def SwitchNode_def list_end_def)
  ultimately show ?thesis by (simp add: BtComponent_Update_def)
qed


subsection \<open>A sample\<close>

text \<open>Whole numbers in place of floating-point numbers, one player far away, and the configuration of public worlds.\<close>

definition sample_floats :: floats where
  "sample_floats = \<lparr>fl_add = (+), fl_sub = (-), fl_mul = max, fl_div = (div), fl_sqrt = (\<lambda>x. x), fl_abs = (\<lambda>x. x),
     fl_le = (\<le>), fl_less = (<), db_add = (+), db_mul = (*), db_less = (<), fl_double = ucast, db_single = ucast, fl_uint64 = ucast\<rparr>"

definition sample_world :: "u64 \<Rightarrow> bt_world" where
  "sample_world now = \<lparr>bw_time = now, bw_getAll = [7], bw_position = (\<lambda>p. (0x60000000, 0, 0x60000000)),
     bw_ident = (\<lambda>p. \<lparr>ni_socket = \<lparr>Socket = 5, NetType = TcpConnector\<rparr>, ni_tags = []\<rparr>), bw_draw = (\<lambda>k. 0), bw_floats = sample_floats\<rparr>"

definition sample_npc :: npc where
  "sample_npc = \<lparr>n_sn = 90, n_id = 1, n_lv = 3, n_hp = 50, n_initHp = 50, n_atk = 5, n_fleeing = False, n_rebirth = False,
     n_target = None, n_linker = None, n_initPos = (0, 0, 0), n_currPos = (0, 0, 0), n_nextPos = (0, 0, 0), curAct = None,
     n_events = [], n_draws = 0, n_calls = []\<rparr>"

definition sample_config :: bt_config where
  "sample_config = \<lparr>bt_nodes = [''BtActPatrol'', ''BtActIdle'', ''BtActPursue'', ''BtActAttack'', ''BtActFlee''], rebirth = True\<rparr>"

definition sample_tree :: "bt_node \<times> npc" where
  "sample_tree = ParseConfig (sample_world 0) sample_config sample_npc"


definition sample_run :: "u64 \<Rightarrow> (bt_node \<times> npc) option \<Rightarrow> (bt_node \<times> npc) option" where
  "sample_run now r = (case r of None \<Rightarrow> None | Some r \<Rightarrow> BtComponent_Update (sample_world now) (fst r) (snd r))"

lemma sample_life: "npc_life Newborn False 0 (fst sample_tree) (snd sample_tree)"
  by (rule ParseConfig_life [of "sample_world 0" sample_config sample_npc])
    (simp_all add: sample_tree_def sample_npc_def sample_config_def act_of_config_def)

lemma sample_second_update:
  "case sample_run 3000 (sample_run 1000 (Some sample_tree)) of
     None \<Rightarrow> False | Some r \<Rightarrow> curAct (snd r) = Some (BtActPatrol, 0)"
  by code_simp


lemma sample_npc_run:
  obtains b n where "npc_run 2 b n" "curAct n = Some (BtActPatrol, 0)"
proof -
  have r: "npc_run 0 (fst sample_tree) (snd sample_tree)"
    by (rule npc_run.start [of "sample_world 0" sample_config sample_npc])
      (simp_all add: sample_tree_def sample_npc_def sample_config_def act_of_config_def)
  obtain r1 where u1: "sample_run 1000 (Some sample_tree) = Some r1"
    using sample_second_update by (cases "sample_run 1000 (Some sample_tree)") (auto simp: sample_run_def)
  then obtain r2 where u2: "sample_run 3000 (Some r1) = Some r2" "curAct (snd r2) = Some (BtActPatrol, 0)"
    using sample_second_update by (cases "sample_run 3000 (Some r1)") auto
  have q: "npc_run (0 + 1) (fst r1) (snd r1)"
    using u1 by (intro npc_run.update [OF r, of "sample_world 1000"]) (simp add: sample_run_def)
  have "npc_run (0 + 1 + 1) (fst r2) (snd r2)"
    using u2(1) by (intro npc_run.update [OF q, of "sample_world 3000"]) (simp add: sample_run_def)
  then show ?thesis using that u2(2) by (simp add: numeral_2_eq_2)
qed

theorem npc_life_refines_witness:
  "case BtComponent_Update (sample_world 1000) (fst sample_tree) (snd sample_tree) of
     None \<Rightarrow> \<not> False
   | Some (b', n') \<Rightarrow> \<exists>e' c'. (False \<longrightarrow> e') \<and> c' \<le> 0 + 1 \<and> keeps (snd sample_tree) n' \<and>
       npc_life (if EvBirth \<in> fst ` set (handled_events (n_events (snd (Tick (sample_world 1000) (fst sample_tree) (snd sample_tree)))))
         then Newborn else life_step (sample_world 1000) (snd sample_tree) Newborn) e' c' b' n'"
  by (rule npc_life_refines [OF sample_life]) simp

text \<open>A flight and a pursuit are asked for: the character pursues.\<close>

theorem top_event_is_lost_witness:
  "event_loop (fst sample_tree) (sample_npc\<lparr>n_events := [(EvFlee, 1), (EvPursue, 0)]\<rparr>)
     = handle_all [(EvPursue, 0), (EvPursue, 0)] (fst sample_tree) (sample_npc\<lparr>n_events := []\<rparr>)"
proof -
  let ?n = "sample_npc\<lparr>n_events := [(EvFlee, 1), (EvPursue, 0)]\<rparr>"
  have "is_heap ev_key (n_events ?n)" by (auto simp: is_heap_def par_def ev_key_def less_Suc_eq)
  then obtain top rest where t: "mset (n_events ?n) = add_mset top (mset rest)" "\<forall>e \<in> set rest. snd e \<le> snd top"
    "event_loop (fst sample_tree) ?n = handle_all (rest @ [last rest]) (fst sample_tree) (?n\<lparr>n_events := []\<rparr>)"
    using top_event_is_lost [of ?n "fst sample_tree"] by auto
  have m: "{#(EvFlee, 1), (EvPursue, 0)#} = add_mset top (mset rest)" using t(1) by simp
  then have "length rest = 1" by (metis One_nat_def Suc_inject size_add_mset size_empty size_mset)
  then obtain e where e: "rest = [e]" by (cases rest) auto
  have "e = (EvPursue, 0)" using m t(2) by (auto simp: e add_eq_conv_ex)
  then show ?thesis using t(3) e by simp
qed

theorem one_action_in_progress_witness:
  "\<exists>b n. npc_run 2 b n \<and> running b = [BtActPatrol]"
proof -
  obtain b n where r: "npc_run 2 b n" "curAct n = Some (BtActPatrol, 0)" by (rule sample_npc_run)
  then show ?thesis using one_action_in_progress [OF r(1)] by auto
qed

theorem event_before_birth_crashes_witness:
  "BtComponent_Update (sample_world 1000) (fst sample_tree) (Bt_AddEvent EvPursue 0 (snd sample_tree)) = None"
proof -
  have "''BtActPursue'' \<in> set (bt_nodes sample_config)" "act_of_config ''BtActPursue'' = Some BtActPursue"
    by (simp_all add: sample_config_def act_of_config_def)
  moreover have "ParseConfig (sample_world 0) sample_config sample_npc = (fst sample_tree, snd sample_tree)"
    by (simp add: sample_tree_def)
  ultimately show ?thesis
    using event_before_birth_crashes [of "sample_world 0" sample_config sample_npc "fst sample_tree" "snd sample_tree"
      "''BtActPursue''" BtActPursue "sample_world 1000"] by (simp add: sample_npc_def)
qed

end
