(* ===== verification/SpacePlayers.thy ===== *)
theory SpacePlayers
  imports Npcs
begin

text \<open>
  Players on a space server: what they own (\<open>player_component_detail.cpp\<close>), how they move (\<open>move_component.cpp\<close>), what they
  are doing (\<open>libplayer/command.h\<close>, \<open>cmd_*.cpp\<close>), and the table of the players of a world
  (\<open>player_manager_component.cpp\<close>). A pointer to a player is its serial number, a pointer to a character its index
  in the world. \<open>None\<close> is a null pointer that is dereferenced.
\<close>

subsection \<open>What a player owns\<close>

text \<open>The kinds of bag are the numbers of \<open>KnapType\<close>; \<open>pIdxMap\<close> is an association list.\<close>

abbreviation "KnapWorld \<equiv> (0 :: int)"
abbreviation "ItemPotion \<equiv> (1 :: int)"
abbreviation "ItemWeapon \<equiv> (2 :: int)"

record detail =
  dt_gender :: int
  dt_lv :: int
  dt_xp :: int
  dt_hp :: int
  dt_mp :: int
  dt_atk :: int
  dt_def :: int
  dt_gold :: int
  dt_knap :: "item_proto list"
  dt_idxMap :: "(u64 \<times> nat) list"

definition idx_emplace :: "u64 \<Rightarrow> nat \<Rightarrow> (u64 \<times> nat) list \<Rightarrow> (u64 \<times> nat) list" where
  "idx_emplace sn i m = (if map_of m sn = None then (sn, i) # m else m)"

fun parse_items :: "item_proto list \<Rightarrow> item_proto list \<Rightarrow> (u64 \<times> nat) list \<Rightarrow> item_proto list \<times> (u64 \<times> nat) list" where
  "parse_items [] knap idxMap = (knap, idxMap)"
| "parse_items (item # items) knap idxMap = parse_items items (knap @ [item]) (idx_emplace (it_sn item) (length knap) idxMap)"

definition Detail_ParserFromProto :: "player_proto \<Rightarrow> detail \<Rightarrow> detail" where
  "Detail_ParserFromProto proto d =
     (let (knap, idxMap) = parse_items (pp_items proto) (dt_knap d) (dt_idxMap d) in
      \<lparr>dt_gender = pp_gender proto, dt_lv = pp_level proto, dt_xp = pp_xp proto, dt_hp = pp_hp proto, dt_mp = pp_mp proto,
       dt_atk = pp_atk proto, dt_def = pp_def proto, dt_gold = pp_gold proto, dt_knap = knap, dt_idxMap = idxMap\<rparr>)"

definition Detail_Awake :: "player_proto \<Rightarrow> detail" where
  "Detail_Awake proto = Detail_ParserFromProto proto
     \<lparr>dt_gender = 0, dt_lv = 1, dt_xp = 0, dt_hp = 999, dt_mp = 999, dt_atk = 10, dt_def = 0, dt_gold = 500, dt_knap = [], dt_idxMap = []\<rparr>"

text \<open>
  The first loop of \<open>SerializeToProto\<close>: it brings the items of the message up to date, takes a note of those that have
  been dropped, and clears the serial number of the others in the knapsack. \<open>None\<close>: an index outside the knapsack.
\<close>

fun old_items :: "item_proto list \<Rightarrow> (u64 \<times> nat) list \<Rightarrow> item_proto list \<Rightarrow>
    (item_proto list \<times> u64 list \<times> item_proto list) option" where
  "old_items [] idxMap knap = Some ([], [], knap)"
| "old_items (item # items) idxMap knap =
     (case map_of idxMap (it_sn item) of
        None \<Rightarrow> map_option (\<lambda>(items, rmvSns, knap). (item # items, rmvSns, knap)) (old_items items idxMap knap)
      | Some idx \<Rightarrow>
          if length knap \<le> idx then None
          else if it_knapType (knap ! idx) = KnapWorld then
            map_option (\<lambda>(items, rmvSns, knap'). (item # items, it_sn (knap ! idx) # rmvSns, knap')) (old_items items idxMap knap)
          else
            map_option (\<lambda>(items, rmvSns, knap').
                (item\<lparr>it_knapType := it_knapType (knap ! idx), it_index := it_index (knap ! idx)\<rparr> # items, rmvSns, knap'))
              (old_items items idxMap (knap[idx := (knap ! idx)\<lparr>it_sn := 0\<rparr>])))"

fun erase_item :: "u64 \<Rightarrow> item_proto list \<Rightarrow> item_proto list" where
  "erase_item sn [] = []"
| "erase_item sn (item # items) = (if it_sn item = sn then items else item # erase_item sn items)"

definition Detail_SerializeToProto :: "detail \<Rightarrow> player_proto \<Rightarrow> (player_proto \<times> detail) option" where
  "Detail_SerializeToProto d pProto = do {
     (oldItems, rmvSns, knap) \<leftarrow> old_items (pp_items pProto) (dt_idxMap d) (dt_knap d);
     let oldItems = fold erase_item rmvSns oldItems;
     let items = oldItems @ filter (\<lambda>item. it_sn item \<noteq> 0) knap;
     Some (pProto\<lparr>pp_level := dt_lv d, pp_xp := dt_xp d, pp_hp := dt_hp d, pp_mp := dt_mp d, pp_atk := dt_atk d,
                  pp_def := dt_def d, pp_gold := dt_gold d, pp_items := items\<rparr>,
           d\<lparr>dt_knap := knap\<rparr>)
   }"

definition UpdateKnapItem :: "item_proto \<Rightarrow> detail \<Rightarrow> detail option" where
  "UpdateKnapItem item d =
     (case map_of (dt_idxMap d) (it_sn item) of
        Some idx \<Rightarrow>
          if length (dt_knap d) \<le> idx then None
          else Some (d\<lparr>dt_knap := (dt_knap d)[idx := (dt_knap d ! idx)\<lparr>it_knapType := it_knapType item, it_index := it_index item\<rparr>]\<rparr>)
      | None \<Rightarrow>
          Some (d\<lparr>dt_idxMap := idx_emplace (it_sn item) (length (dt_knap d)) (dt_idxMap d), dt_knap := dt_knap d @ [item]\<rparr>))"

subsection \<open>Moving\<close>

record move_component =
  mc_moveSpeed :: u32
  mc_targets :: "vector3 list"
  mc_Target :: vector3
  mc_ScaleX :: u32
  mc_ScaleZ :: u32

definition Move_new :: move_component where
  "Move_new = \<lparr>mc_moveSpeed = Float_1_56, mc_targets = [], mc_Target = Vector3_Zero, mc_ScaleX = 0, mc_ScaleZ = 0\<rparr>"

definition SetTarget :: "floats \<Rightarrow> vector3 \<Rightarrow> vector3 \<Rightarrow> move_component \<Rightarrow> move_component" where
  "SetTarget F target position m =
     (let xdis = fl_sub F (vec_X target) (vec_X position); zdis = fl_sub F (vec_Z target) (vec_Z position);
          distance = fl_sqrt F (fl_add F (fl_mul F xdis xdis) (fl_mul F zdis zdis))
      in m\<lparr>mc_Target := target, mc_ScaleX := fl_div F xdis distance, mc_ScaleZ := fl_div F zdis distance\<rparr>)"

definition SetPath :: "floats \<Rightarrow> vector3 list \<Rightarrow> vector3 \<Rightarrow> move_component \<Rightarrow> move_component" where
  "SetPath F targets curPosition m =
     (case targets of [] \<Rightarrow> m | v3 # rest \<Rightarrow> (SetTarget F v3 curPosition m)\<lparr>mc_targets := rest\<rparr>)"

text \<open>Both overloads of \<open>Update\<close>: the time in milliseconds and the position before; the position after and whether the path has ended.\<close>

definition Move_Update :: "floats \<Rightarrow> u64 \<Rightarrow> u32 \<Rightarrow> vector3 \<Rightarrow> move_component \<Rightarrow> bool \<times> vector3 \<times> move_component" where
  "Move_Update F timeElapsed speed curPosition m =
     (let moveDis = db_mul F (db_mul F (fl_double F (fl_uint64 F timeElapsed)) Double_0_001) (fl_double F speed) in
      if db_less F (fl_double F (GetDistance F curPosition (mc_Target m))) moveDis then
        (let curPosition = mc_Target m in
         case mc_targets m of
           [] \<Rightarrow> (True, curPosition, m)
         | v3 # rest \<Rightarrow> (False, curPosition, (SetTarget F v3 curPosition m)\<lparr>mc_targets := rest\<rparr>))
      else
        (let xDis = db_mul F moveDis (fl_double F (mc_ScaleX m)); zDis = db_mul F moveDis (fl_double F (mc_ScaleZ m))
         in (False,
             (db_single F (db_add F (fl_double F (vec_X curPosition)) xDis), vec_Y curPosition,
              db_single F (db_add F (fl_double F (vec_Z curPosition)) zDis)), m)))"


subsection \<open>Commands\<close>

datatype CmdType = CmdNone | CmdMove | CmdAttack | CmdPick | CmdTeleport | CmdObserve | CmdPvp | CmdDeath
datatype CmdState = CmdInvalid | CmdRunning | CmdFinish

fun cmd_number :: "CmdType \<Rightarrow> int" where
  "cmd_number CmdNone = 0" | "cmd_number CmdMove = 1" | "cmd_number CmdAttack = 2" | "cmd_number CmdPick = 3"
| "cmd_number CmdTeleport = 4" | "cmd_number CmdObserve = 5" | "cmd_number CmdPvp = 6" | "cmd_number CmdDeath = 7"

text \<open>A command; \<open>cm_target\<close> is the pointer an attack has to its target, the index of a character.\<close>

record command =
  cm_type :: CmdType
  cm_state :: CmdState
  cm_target_sn :: u64
  cm_point :: vector3
  cm_target :: nat

definition new_command :: "CmdType \<Rightarrow> u64 \<Rightarrow> vector3 \<Rightarrow> nat \<Rightarrow> command" where
  "new_command ty sn point i = \<lparr>cm_type = ty, cm_state = CmdInvalid, cm_target_sn = sn, cm_point = point, cm_target = i\<rparr>"

definition NoneCommand :: command where "NoneCommand = new_command CmdNone 0 Vector3_Zero 0"
definition MoveCommand :: "vector3 \<Rightarrow> command" where "MoveCommand point = new_command CmdMove 0 point 0"
definition AttackCommand :: "u64 \<Rightarrow> nat \<Rightarrow> command" where "AttackCommand sn i = new_command CmdAttack sn Vector3_Zero i"
definition PickCommand :: "u64 \<Rightarrow> vector3 \<Rightarrow> command" where "PickCommand sn point = new_command CmdPick sn point 0"
definition TeleportCommand :: "u64 \<Rightarrow> command" where "TeleportCommand sn = new_command CmdTeleport sn Vector3_Zero 0"
definition DeathCommand :: "u64 \<Rightarrow> command" where "DeathCommand sn = new_command CmdDeath sn Vector3_Zero 0"

text \<open>The constructors of these two read the target they are given.\<close>

definition ObserveCommand :: "u64 option \<Rightarrow> command option" where
  "ObserveCommand target = map_option (\<lambda>sn. new_command CmdObserve sn Vector3_Zero 0) target"

definition PvpCommand :: "u64 option \<Rightarrow> command option" where
  "PvpCommand target = map_option (\<lambda>sn. new_command CmdPvp sn Vector3_Zero 0) target"

record cmd_component =
  cc_prevCmd :: "command option"
  cc_currCmd :: "command option"

record space_player =
  sp_playerSn :: u64
  sp_account :: string
  sp_name :: string
  sp_player :: player_proto
  sp_ident :: net_identify
  sp_detail :: "detail option"
  sp_lastMap :: "last_map option"
  sp_cmd :: "cmd_component option"
  sp_move :: "move_component option"

text \<open>
  Each kind of command has its messages, which differ in what they tell of target and point; \<open>Cmd_Broadcast\<close> and
  \<open>Cmd_Singlecast\<close> are the virtual calls.
\<close>

definition NoneCommand_Broadcast :: "bt_world \<Rightarrow> u64 \<Rightarrow> command \<Rightarrow> help_call list" where
  "NoneCommand_Broadcast W playerSn c = BroadcastPacket W S2C_SyncPlayerCmd (SyncPlayerCmd (cmd_number CmdNone) Vector3_Zero playerSn 0)"

definition NoneCommand_Singlecast :: "u64 \<Rightarrow> command \<Rightarrow> net_identify \<Rightarrow> help_call list" where
  "NoneCommand_Singlecast playerSn c player = [SendPacket S2C_SyncPlayerCmd (SyncPlayerCmd (cmd_number CmdNone) Vector3_Zero playerSn 0) player]"

definition MoveCommand_Broadcast :: "bt_world \<Rightarrow> u64 \<Rightarrow> command \<Rightarrow> help_call list" where
  "MoveCommand_Broadcast W playerSn c = BroadcastPacket W S2C_SyncPlayerCmd (SyncPlayerCmd (cmd_number CmdMove) (cm_point c) playerSn 0)"

definition MoveCommand_Singlecast :: "u64 \<Rightarrow> command \<Rightarrow> net_identify \<Rightarrow> help_call list" where
  "MoveCommand_Singlecast playerSn c player = [SendPacket S2C_SyncPlayerCmd (SyncPlayerCmd (cmd_number CmdMove) (cm_point c) playerSn 0) player]"

definition AttackCommand_Broadcast :: "bt_world \<Rightarrow> u64 \<Rightarrow> command \<Rightarrow> help_call list" where
  "AttackCommand_Broadcast W playerSn c = BroadcastPacket W S2C_SyncPlayerCmd (SyncPlayerCmd (cmd_number CmdAttack) Vector3_Zero playerSn (cm_target_sn c))"

definition AttackCommand_Singlecast :: "u64 \<Rightarrow> command \<Rightarrow> net_identify \<Rightarrow> help_call list" where
  "AttackCommand_Singlecast playerSn c player = [SendPacket S2C_SyncPlayerCmd (SyncPlayerCmd (cmd_number CmdAttack) Vector3_Zero playerSn (cm_target_sn c)) player]"

definition PickCommand_Broadcast :: "bt_world \<Rightarrow> u64 \<Rightarrow> command \<Rightarrow> help_call list" where
  "PickCommand_Broadcast W playerSn c = BroadcastPacket W S2C_SyncPlayerCmd (SyncPlayerCmd (cmd_number CmdPick) (cm_point c) playerSn (cm_target_sn c))"

definition PickCommand_Singlecast :: "u64 \<Rightarrow> command \<Rightarrow> net_identify \<Rightarrow> help_call list" where
  "PickCommand_Singlecast playerSn c player = [SendPacket S2C_SyncPlayerCmd (SyncPlayerCmd (cmd_number CmdPick) (cm_point c) playerSn (cm_target_sn c)) player]"

definition TeleportCommand_Broadcast :: "bt_world \<Rightarrow> u64 \<Rightarrow> command \<Rightarrow> help_call list" where
  "TeleportCommand_Broadcast W playerSn c = BroadcastPacket W S2C_SyncPlayerCmd (SyncPlayerCmd (cmd_number CmdTeleport) Vector3_Zero playerSn (cm_target_sn c))"

definition TeleportCommand_Singlecast :: "u64 \<Rightarrow> command \<Rightarrow> net_identify \<Rightarrow> help_call list" where
  "TeleportCommand_Singlecast playerSn c player = [SendPacket S2C_SyncPlayerCmd (SyncPlayerCmd (cmd_number CmdTeleport) Vector3_Zero playerSn (cm_target_sn c)) player]"

definition ObserveCommand_Broadcast :: "bt_world \<Rightarrow> u64 \<Rightarrow> command \<Rightarrow> help_call list" where
  "ObserveCommand_Broadcast W playerSn c = BroadcastPacket W S2C_SyncPlayerCmd (SyncPlayerCmd (cmd_number CmdObserve) Vector3_Zero playerSn (cm_target_sn c))"

definition ObserveCommand_Singlecast :: "u64 \<Rightarrow> command \<Rightarrow> net_identify \<Rightarrow> help_call list" where
  "ObserveCommand_Singlecast playerSn c player = [SendPacket S2C_SyncPlayerCmd (SyncPlayerCmd (cmd_number CmdObserve) Vector3_Zero playerSn (cm_target_sn c)) player]"

definition PvpCommand_Broadcast :: "bt_world \<Rightarrow> u64 \<Rightarrow> command \<Rightarrow> help_call list" where
  "PvpCommand_Broadcast W playerSn c = BroadcastPacket W S2C_SyncPlayerCmd (SyncPlayerCmd (cmd_number CmdPvp) Vector3_Zero playerSn (cm_target_sn c))"

definition PvpCommand_Singlecast :: "u64 \<Rightarrow> command \<Rightarrow> net_identify \<Rightarrow> help_call list" where
  "PvpCommand_Singlecast playerSn c player = [SendPacket S2C_SyncPlayerCmd (SyncPlayerCmd (cmd_number CmdPvp) Vector3_Zero playerSn (cm_target_sn c)) player]"

definition DeathCommand_Broadcast :: "bt_world \<Rightarrow> u64 \<Rightarrow> command \<Rightarrow> help_call list" where
  "DeathCommand_Broadcast W playerSn c = BroadcastPacket W S2C_SyncPlayerCmd (SyncPlayerCmd (cmd_number CmdDeath) Vector3_Zero playerSn (cm_target_sn c))"

definition DeathCommand_Singlecast :: "u64 \<Rightarrow> command \<Rightarrow> net_identify \<Rightarrow> help_call list" where
  "DeathCommand_Singlecast playerSn c player = [SendPacket S2C_SyncPlayerCmd (SyncPlayerCmd (cmd_number CmdDeath) Vector3_Zero playerSn (cm_target_sn c)) player]"

definition Cmd_Broadcast :: "bt_world \<Rightarrow> u64 \<Rightarrow> command \<Rightarrow> help_call list" where
  "Cmd_Broadcast W playerSn c =
     (case cm_type c of
        CmdNone \<Rightarrow> NoneCommand_Broadcast W playerSn c
      | CmdMove \<Rightarrow> MoveCommand_Broadcast W playerSn c
      | CmdAttack \<Rightarrow> AttackCommand_Broadcast W playerSn c
      | CmdPick \<Rightarrow> PickCommand_Broadcast W playerSn c
      | CmdTeleport \<Rightarrow> TeleportCommand_Broadcast W playerSn c
      | CmdObserve \<Rightarrow> ObserveCommand_Broadcast W playerSn c
      | CmdPvp \<Rightarrow> PvpCommand_Broadcast W playerSn c
      | CmdDeath \<Rightarrow> DeathCommand_Broadcast W playerSn c)"

definition Cmd_Singlecast :: "u64 \<Rightarrow> command \<Rightarrow> net_identify \<Rightarrow> help_call list" where
  "Cmd_Singlecast playerSn c player =
     (case cm_type c of
        CmdNone \<Rightarrow> NoneCommand_Singlecast playerSn c player
      | CmdMove \<Rightarrow> MoveCommand_Singlecast playerSn c player
      | CmdAttack \<Rightarrow> AttackCommand_Singlecast playerSn c player
      | CmdPick \<Rightarrow> PickCommand_Singlecast playerSn c player
      | CmdTeleport \<Rightarrow> TeleportCommand_Singlecast playerSn c player
      | CmdObserve \<Rightarrow> ObserveCommand_Singlecast playerSn c player
      | CmdPvp \<Rightarrow> PvpCommand_Singlecast playerSn c player
      | CmdDeath \<Rightarrow> DeathCommand_Singlecast playerSn c player)"

text \<open>A player that does nothing does not move: \<open>NoneCommand\<close> takes its \<open>MoveComponent\<close> away and gives it a new one when it ends.\<close>

definition NoneCommand_Enter :: "space_player \<Rightarrow> space_player" where
  "NoneCommand_Enter p = p\<lparr>sp_move := None\<rparr>"

definition NoneCommand_Exit :: "space_player \<Rightarrow> space_player" where
  "NoneCommand_Exit p = (if sp_move p = None then p\<lparr>sp_move := Some Move_new\<rparr> else p)"

definition Command_Enter :: "bt_world \<Rightarrow> command \<Rightarrow> space_player \<Rightarrow> command \<times> space_player \<times> help_call list" where
  "Command_Enter W c p =
     (let p = (if cm_type c = CmdNone then NoneCommand_Enter p else p)
      in (c\<lparr>cm_state := CmdRunning\<rparr>, p, Cmd_Broadcast W (sp_playerSn p) c))"

definition Command_Exit :: "command \<Rightarrow> space_player \<Rightarrow> command \<times> space_player" where
  "Command_Exit c p = (c\<lparr>cm_state := CmdFinish\<rparr>, if cm_type c = CmdNone then NoneCommand_Exit p else p)"

text \<open>\<open>None\<close>: an attack on a character there is not, or a move of a player without a current map.\<close>

definition AttackCommand_Execute :: "(nat \<Rightarrow> int option) \<Rightarrow> command \<Rightarrow> command option" where
  "AttackCommand_Execute npc_hp c =
     map_option (\<lambda>hp. if hp = 0 then c\<lparr>cm_state := CmdFinish\<rparr> else c) (npc_hp (cm_target c))"

definition MoveCommand_Execute :: "floats \<Rightarrow> space_player \<Rightarrow> command \<Rightarrow> command option" where
  "MoveCommand_Execute F p c = do {
     lm \<leftarrow> sp_lastMap p;
     cur \<leftarrow> GetCur lm;
     Some (if fl_less F (GetDistance F (cm_point c) (lw_Position cur)) Float_1 then c\<lparr>cm_state := CmdFinish\<rparr> else c)
   }"

definition TeleportCommand_Execute :: "command \<Rightarrow> command" where
  "TeleportCommand_Execute c = c\<lparr>cm_state := CmdFinish\<rparr>"

definition DeathCommand_Execute :: "command \<Rightarrow> command" where
  "DeathCommand_Execute c = c\<lparr>cm_state := CmdFinish\<rparr>"

definition Command_Execute :: "floats \<Rightarrow> (nat \<Rightarrow> int option) \<Rightarrow> space_player \<Rightarrow> command \<Rightarrow> command option" where
  "Command_Execute F npc_hp p c =
     (case cm_type c of
        CmdAttack \<Rightarrow> AttackCommand_Execute npc_hp c
      | CmdMove \<Rightarrow> MoveCommand_Execute F p c
      | CmdTeleport \<Rightarrow> Some (TeleportCommand_Execute c)
      | CmdDeath \<Rightarrow> Some (DeathCommand_Execute c)
      | _ \<Rightarrow> Some c)"

text \<open>\<open>None\<close>: the player has no \<open>CmdComponent\<close>.\<close>

definition ChangeCmd :: "bt_world \<Rightarrow> command option \<Rightarrow> space_player \<Rightarrow> (space_player \<times> help_call list) option" where
  "ChangeCmd W newCmd p = do {
     cc \<leftarrow> sp_cmd p;
     let (prev, p) = (case cc_currCmd cc of
           None \<Rightarrow> (None, p)
         | Some c \<Rightarrow> (let (c, p) = Command_Exit c p in (Some c, p)));
     let (cur, p, calls) = (case newCmd of
           None \<Rightarrow> (None, p, [])
         | Some c \<Rightarrow> (let (c, p, calls) = Command_Enter W c p in (Some c, p, calls)));
     Some (p\<lparr>sp_cmd := Some \<lparr>cc_prevCmd = prev, cc_currCmd = cur\<rparr>\<rparr>, calls)
   }"

definition ResetCmd :: "bt_world \<Rightarrow> space_player \<Rightarrow> (space_player \<times> help_call list) option" where
  "ResetCmd W p = ChangeCmd W (Some NoneCommand) p"

definition Cmd_Update :: "bt_world \<Rightarrow> (nat \<Rightarrow> int option) \<Rightarrow> space_player \<Rightarrow> (space_player \<times> help_call list) option" where
  "Cmd_Update W npc_hp p = do {
     cc \<leftarrow> sp_cmd p;
     case cc_currCmd cc of
       None \<Rightarrow> Some (p, [])
     | Some c \<Rightarrow> do {
         c \<leftarrow> Command_Execute (bw_floats W) npc_hp p c;
         let p = p\<lparr>sp_cmd := Some (cc\<lparr>cc_currCmd := Some c\<rparr>)\<rparr>;
         if cm_state c = CmdFinish then ChangeCmd W None p else Some (p, [])
       }
   }"

definition GetCurrCmd :: "space_player \<Rightarrow> command option option" where
  "GetCurrCmd p = map_option cc_currCmd (sp_cmd p)"

subsection \<open>Players\<close>

definition SpacePlayer_Awake :: "net_identify \<Rightarrow> u64 \<Rightarrow> u64 \<Rightarrow> space_player" where
  "SpacePlayer_Awake pIdentify playerSn worldSn =
     \<lparr>sp_playerSn = playerSn, sp_account = [], sp_name = [], sp_player = Player_empty,
      sp_ident = \<lparr>ni_socket = SocketKey_CopyFrom (ni_socket pIdentify) SocketKey_None,
                  ni_tags = AddTagInt TagEntity worldSn (AddTagInt TagPlayer playerSn [])\<rparr>,
      sp_detail = None, sp_lastMap = None, sp_cmd = None, sp_move = None\<rparr>"

definition SpacePlayer_SerializeToProto :: "space_player \<Rightarrow> (player_proto \<times> space_player) option" where
  "SpacePlayer_SerializeToProto p =
     (let pProto = sp_player p;
          pProto = (case sp_lastMap p of Some lm \<Rightarrow> LastMap_SerializeToProto lm pProto | None \<Rightarrow> pProto)
      in case sp_detail p of
           None \<Rightarrow> Some (pProto, p)
         | Some d \<Rightarrow> map_option (\<lambda>(pProto, d). (pProto, p\<lparr>sp_detail := Some d\<rparr>)) (Detail_SerializeToProto d pProto))"

definition GetCurrPos :: "space_player \<Rightarrow> vector3 option" where
  "GetCurrPos p = do { lm \<leftarrow> sp_lastMap p; cur \<leftarrow> GetCur lm; Some (lw_Position cur) }"

definition GetPlayerKnap :: "space_player \<Rightarrow> help_call list option" where
  "GetPlayerKnap p = do {
     d \<leftarrow> sp_detail p;
     Some [SendPacket S2C_GetPlayerKnap (PlayerKnap (dt_gold d) (dt_knap d)) (sp_ident p)]
   }"

text \<open>Writing a position through \<open>GetCur\<close>.\<close>

definition set_cur_position :: "vector3 \<Rightarrow> last_map \<Rightarrow> last_map option" where
  "set_cur_position pos lm =
     (case lm_pPublic lm of
        None \<Rightarrow> None
      | Some w \<Rightarrow>
          if lw_WorldId w = lm_curWorldId lm then Some (lm\<lparr>lm_pPublic := Some (w\<lparr>lw_Position := pos\<rparr>)\<rparr>)
          else (case lm_pDungeon lm of
                  None \<Rightarrow> None
                | Some d \<Rightarrow> Some (lm\<lparr>lm_pDungeon := Some (d\<lparr>lw_Position := pos\<rparr>)\<rparr>)))"

end
