(* ===== verification/Knapsack.thy ===== *)
theory Knapsack
  imports SpacePlayers
begin

text \<open>
  The knapsack of a player between loading and saving (\<open>player_component_detail.cpp\<close>, \<open>Player::UpdateKnapItem\<close>): the
  index from serial numbers to places, and what the message that goes to the database holds.
\<close>

subsection \<open>The index\<close>

definition knap_ok :: "detail \<Rightarrow> bool" where
  "knap_ok d =
     (distinct (map it_sn (dt_knap d)) \<and> 0 \<notin> it_sn ` set (dt_knap d)
        \<and> (\<forall>sn i. map_of (dt_idxMap d) sn = Some i \<longleftrightarrow> i < length (dt_knap d) \<and> it_sn (dt_knap d ! i) = sn))"

text \<open>An item that is in the bag it is loaded with, and one that has been moved: its kind and its number are the same.\<close>

definition same_item :: "item_proto \<Rightarrow> item_proto \<Rightarrow> bool" where
  "same_item x k = (x\<lparr>it_knapType := it_knapType k, it_index := it_index k\<rparr> = k)"

lemma same_item_refl [simp]: "same_item x x"
  by (simp add: same_item_def)

lemma same_item_sn: "same_item x k \<Longrightarrow> it_sn k = it_sn x"
  by (cases x, cases k) (simp add: same_item_def)

lemma same_item_moved: "same_item x k \<Longrightarrow> same_item x (k\<lparr>it_knapType := t, it_index := j\<rparr>)"
  by (cases x, cases k) (simp add: same_item_def)

lemma knap_ok_add:
  assumes "knap_ok d" "it_sn item \<notin> it_sn ` set (dt_knap d)" "it_sn item \<noteq> 0"
  shows "knap_ok (d\<lparr>dt_idxMap := idx_emplace (it_sn item) (length (dt_knap d)) (dt_idxMap d), dt_knap := dt_knap d @ [item]\<rparr>)"
proof -
  have idx: "map_of (dt_idxMap d) sn = Some i \<longleftrightarrow> i < length (dt_knap d) \<and> it_sn (dt_knap d ! i) = sn" for sn i
    using assms(1) by (simp add: knap_ok_def)
  have new: "map_of (dt_idxMap d) (it_sn item) = None"
  proof (rule ccontr)
    assume "map_of (dt_idxMap d) (it_sn item) \<noteq> None"
    then obtain i where "map_of (dt_idxMap d) (it_sn item) = Some i" by blast
    then have "dt_knap d ! i \<in> set (dt_knap d)" "it_sn (dt_knap d ! i) = it_sn item" using idx by auto
    then show False using assms(2) by (metis imageI)
  qed
  have "map_of ((it_sn item, length (dt_knap d)) # dt_idxMap d) sn = Some i
      \<longleftrightarrow> i < length (dt_knap d @ [item]) \<and> it_sn ((dt_knap d @ [item]) ! i) = sn" for sn i
    using idx [of sn i] assms(2) new by (auto simp: nth_append less_Suc_eq image_iff)
  then show ?thesis using assms new by (auto simp: knap_ok_def idx_emplace_def)
qed

lemma knap_ok_move:
  assumes "knap_ok d" "i < length (dt_knap d)"
  shows "knap_ok (d\<lparr>dt_knap := (dt_knap d)[i := (dt_knap d ! i)\<lparr>it_knapType := t, it_index := j\<rparr>]\<rparr>)"
proof -
  let ?k = "(dt_knap d)[i := (dt_knap d ! i)\<lparr>it_knapType := t, it_index := j\<rparr>]"
  have "map it_sn ?k = map it_sn (dt_knap d)"
    using assms(2) by (simp add: map_update list_update_same_conv)
  moreover from this have "it_sn ` set ?k = it_sn ` set (dt_knap d)" by (metis set_map)
  moreover have "it_sn (?k ! l) = it_sn (dt_knap d ! l)" if "l < length (dt_knap d)" for l
    using that by (cases "l = i") simp_all
  ultimately show ?thesis using assms(1) unfolding knap_ok_def by auto
qed

lemma parse_items_ok:
  assumes "knap_ok d" "distinct (map it_sn items)" "0 \<notin> it_sn ` set items"
    "it_sn ` set items \<inter> it_sn ` set (dt_knap d) = {}"
  shows "\<exists>m. parse_items items (dt_knap d) (dt_idxMap d) = (dt_knap d @ items, m)
    \<and> knap_ok (d\<lparr>dt_knap := dt_knap d @ items, dt_idxMap := m\<rparr>)"
  using assms
proof (induction items arbitrary: d)
  case Nil
  then show ?case by simp
next
  case (Cons item items)
  let ?d = "d\<lparr>dt_idxMap := idx_emplace (it_sn item) (length (dt_knap d)) (dt_idxMap d), dt_knap := dt_knap d @ [item]\<rparr>"
  have "knap_ok ?d" using Cons.prems by (intro knap_ok_add) auto
  then obtain m where "parse_items items (dt_knap ?d) (dt_idxMap ?d) = (dt_knap ?d @ items, m)"
    "knap_ok (?d\<lparr>dt_knap := dt_knap ?d @ items, dt_idxMap := m\<rparr>)"
    using Cons.IH [of ?d] Cons.prems by auto
  then show ?case by simp
qed

text \<open>Loading a player and every later message of a client keep the index.\<close>

lemma Detail_Awake_ok:
  assumes "distinct (map it_sn (pp_items proto))" "0 \<notin> it_sn ` set (pp_items proto)"
  shows "knap_ok (Detail_Awake proto)" "dt_knap (Detail_Awake proto) = pp_items proto"
proof -
  let ?d = "\<lparr>dt_gender = 0, dt_lv = 1, dt_xp = 0, dt_hp = 999, dt_mp = 999, dt_atk = 10, dt_def = 0, dt_gold = 500,
    dt_knap = [], dt_idxMap = []\<rparr>"
  have "knap_ok ?d" by (simp add: knap_ok_def)
  then obtain m where "parse_items (pp_items proto) [] [] = (pp_items proto, m)"
    "knap_ok (?d\<lparr>dt_knap := pp_items proto, dt_idxMap := m\<rparr>)"
    using parse_items_ok [of ?d "pp_items proto"] assms by auto
  then show "knap_ok (Detail_Awake proto)" "dt_knap (Detail_Awake proto) = pp_items proto"
    by (simp_all add: Detail_Awake_def Detail_ParserFromProto_def knap_ok_def)
qed

text \<open>What a sequence of updates keeps of the items the player was loaded with.\<close>

definition loaded :: "item_proto list \<Rightarrow> detail \<Rightarrow> bool" where
  "loaded items d =
     (knap_ok d \<and> length items \<le> length (dt_knap d) \<and> (\<forall>i < length items. same_item (items ! i) (dt_knap d ! i)))"

lemma UpdateKnapItem_ok:
  assumes "loaded items d" "it_sn item \<noteq> 0"
  obtains d' where "UpdateKnapItem item d = Some d'" "loaded items d'"
proof (cases "map_of (dt_idxMap d) (it_sn item)")
  case None
  then have "it_sn item \<notin> it_sn ` set (dt_knap d)"
    using assms(1) unfolding loaded_def knap_ok_def by (metis image_iff in_set_conv_nth option.distinct(1))
  then have "loaded items (d\<lparr>dt_idxMap := idx_emplace (it_sn item) (length (dt_knap d)) (dt_idxMap d), dt_knap := dt_knap d @ [item]\<rparr>)"
    using assms knap_ok_add by (auto simp: loaded_def nth_append)
  then show ?thesis using None that by (simp add: UpdateKnapItem_def)
next
  case (Some i)
  then have i: "i < length (dt_knap d)" using assms(1) unfolding loaded_def knap_ok_def by blast
  have "loaded items (d\<lparr>dt_knap := (dt_knap d)[i := (dt_knap d ! i)\<lparr>it_knapType := it_knapType item, it_index := it_index item\<rparr>]\<rparr>)"
    using assms(1) knap_ok_move [OF _ i] i by (auto simp: loaded_def nth_list_update same_item_moved)
  then show ?thesis using Some i that by (simp add: UpdateKnapItem_def)
qed

fun update_items :: "item_proto list \<Rightarrow> detail \<Rightarrow> detail option" where
  "update_items [] d = Some d"
| "update_items (item # items) d = Option.bind (UpdateKnapItem item d) (update_items items)"

lemma update_items_ok:
  assumes "loaded items d" "0 \<notin> it_sn ` set updates"
  obtains d' where "update_items updates d = Some d'" "loaded items d'"
  using assms
proof (induction updates arbitrary: d thesis)
  case Nil
  then show ?case by simp
next
  case (Cons item updates)
  have sn: "it_sn item \<noteq> 0" "0 \<notin> it_sn ` set updates" using Cons.prems(3) by auto
  obtain d1 where d1: "UpdateKnapItem item d = Some d1" "loaded items d1"
    using UpdateKnapItem_ok [OF Cons.prems(2) sn(1)] by blast
  obtain d2 where "update_items updates d1 = Some d2" "loaded items d2"
    using Cons.IH [OF _ d1(2) sn(2)] by blast
  then show ?case using d1(1) Cons.prems(1) by simp
qed


subsection \<open>The knapsack is saved\<close>

text \<open>\<open>items\<close> are in the knapsack, each at the index the map has for it and nowhere else.\<close>

definition idx_ok :: "item_proto list \<Rightarrow> (u64 \<times> nat) list \<Rightarrow> item_proto list \<Rightarrow> bool" where
  "idx_ok items idxMap knap =
     (\<forall>item \<in> set items. \<exists>i < length knap. map_of idxMap (it_sn item) = Some i
        \<and> (\<forall>j < length knap. it_sn (knap ! j) = it_sn item \<longleftrightarrow> j = i))"

definition in_world :: "item_proto \<Rightarrow> bool" where "in_world item = (it_knapType item = KnapWorld)"

definition knap_at :: "(u64 \<times> nat) list \<Rightarrow> item_proto list \<Rightarrow> item_proto \<Rightarrow> item_proto" where
  "knap_at idxMap knap item = knap ! the (map_of idxMap (it_sn item))"

definition refreshed :: "(u64 \<times> nat) list \<Rightarrow> item_proto list \<Rightarrow> item_proto \<Rightarrow> item_proto" where
  "refreshed idxMap knap item =
     (let k = knap_at idxMap knap item
      in if in_world k then item else item\<lparr>it_knapType := it_knapType k, it_index := it_index k\<rparr>)"

definition cleared :: "u64 set \<Rightarrow> item_proto \<Rightarrow> item_proto" where
  "cleared sns k = (if it_sn k \<in> sns \<and> \<not> in_world k then k\<lparr>it_sn := 0\<rparr> else k)"

lemma old_items_spec:
  assumes "idx_ok items idxMap knap" "distinct (map it_sn items)" "0 \<notin> it_sn ` set items"
  shows "old_items items idxMap knap =
    Some (map (refreshed idxMap knap) items, map it_sn (filter (\<lambda>x. in_world (knap_at idxMap knap x)) items),
      map (cleared (it_sn ` set items)) knap)"
  using assms
proof (induction items arbitrary: knap)
  case Nil
  then show ?case by (simp add: cleared_def)
next
  case (Cons item items)
  obtain i where i: "i < length knap" "map_of idxMap (it_sn item) = Some i"
    "\<And>j. j < length knap \<Longrightarrow> it_sn (knap ! j) = it_sn item \<longleftrightarrow> j = i"
    using Cons.prems(1) by (auto simp: idx_ok_def)
  have sn: "it_sn item \<notin> it_sn ` set items" "it_sn item \<noteq> 0" "0 \<notin> it_sn ` set items"
    using Cons.prems(2,3) by auto
  have ok: "idx_ok items idxMap knap" using Cons.prems(1) by (simp add: idx_ok_def)
  show ?case
  proof (cases "in_world (knap ! i)")
    case True
    have "map (cleared (it_sn ` set items)) knap = map (cleared (it_sn ` set (item # items))) knap"
    proof (rule map_cong [OF refl])
      fix k assume "k \<in> set knap"
      then obtain j where "j < length knap" "k = knap ! j" by (auto simp: in_set_conv_nth)
      then show "cleared (it_sn ` set items) k = cleared (it_sn ` set (item # items)) k"
        using i(3) [of j] True by (auto simp: cleared_def)
    qed
    then show ?thesis
      using Cons.IH [OF ok] Cons.prems(2,3) i True by (simp add: in_world_def refreshed_def knap_at_def)
  next
    case False
    let ?k = "knap[i := (knap ! i)\<lparr>it_sn := 0\<rparr>]"
    have other: "knap_at idxMap ?k x = knap_at idxMap knap x \<and> refreshed idxMap ?k x = refreshed idxMap knap x"
      if "x \<in> set items" for x
    proof -
      obtain j where j: "j < length knap" "map_of idxMap (it_sn x) = Some j" "it_sn (knap ! j) = it_sn x"
        using ok \<open>x \<in> set items\<close> by (auto simp: idx_ok_def)
      have "j \<noteq> i" using i(1,3) j(3) sn(1) that by (metis image_eqI)
      then have "knap_at idxMap ?k x = knap_at idxMap knap x" using j by (simp add: knap_at_def)
      then show ?thesis by (simp add: refreshed_def)
    qed
    have "idx_ok items idxMap ?k"
      unfolding idx_ok_def
    proof
      fix x assume x: "x \<in> set items"
      obtain j where j: "j < length knap" "map_of idxMap (it_sn x) = Some j"
        "\<And>l. l < length knap \<Longrightarrow> it_sn (knap ! l) = it_sn x \<longleftrightarrow> l = j"
        using ok x by (auto simp: idx_ok_def)
      have "it_sn x \<noteq> 0" "it_sn x \<noteq> it_sn item" using x sn by (metis imageI)+
      moreover have "j \<noteq> i" using i(1,3) j(1,3) calculation(2) by metis
      ultimately have "\<forall>l < length ?k. it_sn (?k ! l) = it_sn x \<longleftrightarrow> l = j"
        using j(3) i(1) by (auto simp: nth_list_update)
      then show "\<exists>j < length ?k. map_of idxMap (it_sn x) = Some j \<and> (\<forall>l < length ?k. it_sn (?k ! l) = it_sn x \<longleftrightarrow> l = j)"
        using j(1,2) by (intro exI [of _ j]) simp
    qed
    from Cons.IH [OF this] Cons.prems(2) sn(3) have ih: "old_items items idxMap ?k =
      Some (map (refreshed idxMap ?k) items, map it_sn (filter (\<lambda>x. in_world (knap_at idxMap ?k x)) items),
        map (cleared (it_sn ` set items)) ?k)" by simp
    have "map (cleared (it_sn ` set items)) ?k = map (cleared (it_sn ` set (item # items))) knap"
    proof (rule nth_equalityI)
      fix j assume "j < length (map (cleared (it_sn ` set items)) ?k)"
      then have j: "j < length knap" by simp
      then show "map (cleared (it_sn ` set items)) ?k ! j = map (cleared (it_sn ` set (item # items))) knap ! j"
        using i(1) i(3) [OF j] False sn by (cases "j = i") (auto simp: cleared_def)
    qed simp
    moreover have "map (refreshed idxMap ?k) items = map (refreshed idxMap knap) items"
      "filter (\<lambda>x. in_world (knap_at idxMap ?k x)) items = filter (\<lambda>x. in_world (knap_at idxMap knap x)) items"
      using other by (auto intro!: filter_cong)
    ultimately show ?thesis
      using ih i False by (simp add: in_world_def refreshed_def knap_at_def Let_def)
  qed
qed


subsection \<open>What is saved\<close>

lemma erase_item_filter:
  "distinct (map it_sn items) \<Longrightarrow> erase_item sn items = filter (\<lambda>x. it_sn x \<noteq> sn) items"
proof (induction items)
  case (Cons x items)
  then have "filter (\<lambda>y. it_sn y \<noteq> it_sn x) items = items" by (intro filter_True) (auto simp: image_iff)
  then show ?case using Cons by auto
qed simp

lemma erase_items_filter:
  "distinct (map it_sn items) \<Longrightarrow> fold erase_item sns items = filter (\<lambda>x. it_sn x \<notin> set sns) items"
proof (induction sns arbitrary: items)
  case (Cons sn sns)
  have "distinct (map it_sn (filter (\<lambda>x. it_sn x \<noteq> sn) items))" using Cons.prems by (rule distinct_map_filter)
  then show ?case using Cons by (simp add: erase_item_filter conj_commute)
qed simp

lemma loaded_idx_ok:
  assumes "loaded items d" "distinct (map it_sn items)"
  shows "idx_ok items (dt_idxMap d) (dt_knap d)"
    and "i < length items \<Longrightarrow> knap_at (dt_idxMap d) (dt_knap d) (items ! i) = dt_knap d ! i"
proof -
  have l: "length items \<le> length (dt_knap d)" "\<And>i. i < length items \<Longrightarrow> same_item (items ! i) (dt_knap d ! i)"
    "distinct (map it_sn (dt_knap d))"
    "\<And>sn i. map_of (dt_idxMap d) sn = Some i \<longleftrightarrow> i < length (dt_knap d) \<and> it_sn (dt_knap d ! i) = sn"
    using assms(1) by (auto simp: loaded_def knap_ok_def)
  have at: "map_of (dt_idxMap d) (it_sn (items ! i)) = Some i" if "i < length items" for i
    using that l(1,4) same_item_sn [OF l(2) [OF that]] by simp
  then show "i < length items \<Longrightarrow> knap_at (dt_idxMap d) (dt_knap d) (items ! i) = dt_knap d ! i"
    by (simp add: knap_at_def)
  show "idx_ok items (dt_idxMap d) (dt_knap d)"
    unfolding idx_ok_def
  proof
    fix x assume "x \<in> set items"
    then obtain i where i: "i < length items" "x = items ! i" by (auto simp: in_set_conv_nth)
    have "it_sn (dt_knap d ! j) = it_sn x \<longleftrightarrow> j = i" if "j < length (dt_knap d)" for j
      using l(1,3) i that same_item_sn [OF l(2) [OF i(1)]] by (auto simp: distinct_conv_nth) (metis length_map nth_map order_less_le_trans)
    then show "\<exists>i < length (dt_knap d). map_of (dt_idxMap d) (it_sn x) = Some i
        \<and> (\<forall>j < length (dt_knap d). it_sn (dt_knap d ! j) = it_sn x \<longleftrightarrow> j = i)"
      using at [OF i(1)] i l(1) by (intro exI [of _ i]) auto
  qed
qed

lemma moved_items:
  assumes "list_all2 (\<lambda>x k. same_item x k \<and> knap_at m K x = k) items ks"
  shows "map (refreshed m K) (filter (\<lambda>x. \<not> in_world (knap_at m K x)) items) = filter (\<lambda>k. \<not> in_world k) ks"
  using assms by (induction rule: list_all2_induct) (simp_all add: refreshed_def same_item_def)

lemma refreshed_sn [simp]: "it_sn (refreshed m K x) = it_sn x"
  by (simp add: refreshed_def Let_def)

lemma kept_items:
  assumes "list_all2 (\<lambda>x k. same_item x k \<and> knap_at m K x = k) items ks" "distinct (map it_sn items)"
  shows "filter (\<lambda>x. it_sn x \<notin> set (map it_sn (filter (\<lambda>x. in_world (knap_at m K x)) items))) (map (refreshed m K) items)
    = filter (\<lambda>k. \<not> in_world k) ks"
proof -
  have "(it_sn x \<in> it_sn ` {x \<in> set items. in_world (knap_at m K x)}) = in_world (knap_at m K x)" if "x \<in> set items" for x
    using assms(2) that by (auto simp: distinct_map inj_on_def)
  then have "filter (\<lambda>x. it_sn x \<notin> set (map it_sn (filter (\<lambda>x. in_world (knap_at m K x)) items))) (map (refreshed m K) items)
      = map (refreshed m K) (filter (\<lambda>x. \<not> in_world (knap_at m K x)) items)"
    by (auto simp: filter_map comp_def intro!: map_cong filter_cong)
  then show ?thesis using moved_items [OF assms(1)] by simp
qed

lemma cleared_items:
  assumes "\<forall>k \<in> set ks. it_sn k \<in> S \<and> it_sn k \<noteq> 0" "\<forall>k \<in> set rest. it_sn k \<notin> S \<and> it_sn k \<noteq> 0"
  shows "filter (\<lambda>k. it_sn k \<noteq> 0) (map (cleared S) (ks @ rest)) = filter in_world ks @ rest"
proof -
  have "filter (\<lambda>k. it_sn k \<noteq> 0) (map (cleared S) ks) = filter in_world ks"
    using assms(1) by (induction ks) (auto simp: cleared_def)
  moreover have "filter (\<lambda>k. it_sn k \<noteq> 0) (map (cleared S) rest) = rest"
    using assms(2) by (induction rest) (auto simp: cleared_def)
  ultimately show ?thesis by simp
qed

lemma saved_items:
  assumes "loaded (pp_items proto) d" "distinct (map it_sn (pp_items proto))" "0 \<notin> it_sn ` set (pp_items proto)"
  obtains proto' d' where "Detail_SerializeToProto d proto = Some (proto', d')" "mset (pp_items proto') = mset (dt_knap d)"
proof -
  let ?items = "pp_items proto" and ?knap = "dt_knap d" and ?m = "dt_idxMap d"
  let ?ks = "take (length ?items) ?knap" and ?rest = "drop (length ?items) ?knap"
  let ?S = "it_sn ` set ?items"
  have l: "length ?items \<le> length ?knap" "distinct (map it_sn ?knap)" "0 \<notin> it_sn ` set ?knap"
    "\<And>i. i < length ?items \<Longrightarrow> same_item (?items ! i) (?knap ! i)"
    using assms(1) by (auto simp: loaded_def knap_ok_def)
  have pairs: "list_all2 (\<lambda>x k. same_item x k \<and> knap_at ?m ?knap x = k) ?items ?ks"
    using l(1,4) loaded_idx_ok(2) [OF assms(1,2)] by (simp add: list_all2_conv_all_nth)
  have sns: "map it_sn ?ks = map it_sn ?items"
    using l(1,4) by (intro nth_equalityI) (auto dest: same_item_sn)
  then have S: "?S = it_sn ` set ?ks" by (metis set_map)
  have split: "map it_sn ?knap = map it_sn ?ks @ map it_sn ?rest" by (metis append_take_drop_id map_append)
  have rest: "\<forall>k \<in> set ?rest. it_sn k \<notin> ?S \<and> it_sn k \<noteq> 0"
  proof
    fix k assume k: "k \<in> set ?rest"
    have "it_sn k \<noteq> 0" using k l(3) by (metis imageI in_set_dropD)
    moreover have "it_sn k \<notin> it_sn ` set ?ks"
      using l(2) k unfolding split distinct_append by (auto simp: image_iff disjoint_iff)
    ultimately show "it_sn k \<notin> ?S \<and> it_sn k \<noteq> 0" using S by simp
  qed
  have ks: "\<forall>k \<in> set ?ks. it_sn k \<in> ?S \<and> it_sn k \<noteq> 0" using S l(3) by (metis imageI in_set_takeD)
  have new: "filter (\<lambda>k. it_sn k \<noteq> 0) (map (cleared ?S) ?knap) = filter in_world ?ks @ ?rest"
    using cleared_items [OF ks rest] by simp
  have old: "fold erase_item (map it_sn (filter (\<lambda>x. in_world (knap_at ?m ?knap x)) ?items)) (map (refreshed ?m ?knap) ?items)
      = filter (\<lambda>k. \<not> in_world k) ?ks"
    using kept_items [OF pairs assms(2)] assms(2) by (simp add: erase_items_filter comp_def)
  have "mset (filter (\<lambda>k. \<not> in_world k) ?ks @ filter in_world ?ks @ ?rest) = mset ?ks + mset ?rest"
    by (simp add: add.assoc [symmetric] multiset_partition [of "mset ?ks" in_world, symmetric] mset_filter)
  moreover have "mset ?ks + mset ?rest = mset ?knap" by (metis append_take_drop_id mset_append)
  ultimately show ?thesis
    using that old_items_spec [OF loaded_idx_ok(1) [OF assms(1,2)] assms(2,3)] old new
    by (simp add: Detail_SerializeToProto_def)
qed

text \<open>
  A player whose items have different serial numbers is loaded, its client moves, drops and picks up items, and it
  is saved: the message to the database holds exactly the items of the knapsack, in the bags they are in, and a player
  that is loaded from it has them.
\<close>

theorem knapsack_roundtrip:
  assumes "distinct (map it_sn (pp_items proto))" "0 \<notin> it_sn ` set (pp_items proto)" "0 \<notin> it_sn ` set updates"
  shows "\<exists>d proto' d'. update_items updates (Detail_Awake proto) = Some d
    \<and> Detail_SerializeToProto d proto = Some (proto', d') \<and> mset (dt_knap (Detail_Awake proto')) = mset (dt_knap d)"
proof -
  have "loaded (pp_items proto) (Detail_Awake proto)" using Detail_Awake_ok [OF assms(1,2)] by (simp add: loaded_def)
  then obtain d where d: "update_items updates (Detail_Awake proto) = Some d" "loaded (pp_items proto) d"
    using update_items_ok assms(3) by blast
  obtain proto' d' where s: "Detail_SerializeToProto d proto = Some (proto', d')" "mset (pp_items proto') = mset (dt_knap d)"
    using saved_items [OF d(2) assms(1,2)] by blast
  have sns: "mset (map it_sn (pp_items proto')) = mset (map it_sn (dt_knap d))" using s(2) by simp
  have "distinct (map it_sn (pp_items proto'))" "0 \<notin> it_sn ` set (pp_items proto')"
    using d(2) mset_eq_imp_distinct_iff [OF sns] mset_eq_setD [OF s(2)] by (auto simp: loaded_def knap_ok_def)
  then have "dt_knap (Detail_Awake proto') = pp_items proto'" by (rule Detail_Awake_ok(2))
  then show ?thesis using d(1) s by auto
qed

definition potion :: "u64 \<Rightarrow> int \<Rightarrow> item_proto" where
  "potion sn bag = \<lparr>it_sn = sn, it_itemType = ItemPotion, it_id = 1, it_knapType = bag, it_index = 0\<rparr>"

definition hero :: player_proto where
  "hero = Player_empty\<lparr>pp_sn := 7, pp_items := [potion 1 1, potion 2 1]\<rparr>"

theorem knapsack_roundtrip_witness:
  "\<exists>d proto' d'. update_items [potion 2 0, potion 3 1] (Detail_Awake hero) = Some d
    \<and> Detail_SerializeToProto d hero = Some (proto', d') \<and> mset (dt_knap (Detail_Awake proto')) = mset (dt_knap d)"
  by (rule knapsack_roundtrip) (simp_all add: hero_def potion_def)

text \<open>
  Saving clears the serial numbers in the knapsack itself. A save while the player goes on (\<open>G2S_RequestSyncPlayer\<close>)
  therefore changes what the next one does: a potion that is dropped in between is saved in the bag it was loaded with.
\<close>

lemma drop_after_save_is_lost:
  "map_option (\<lambda>(proto, d). map (\<lambda>x. (it_sn x, it_knapType x)) (pp_items proto))
     (do {
        (proto, d) \<leftarrow> Detail_SerializeToProto (Detail_Awake hero) hero;
        d \<leftarrow> UpdateKnapItem (potion 2 0) d;
        Detail_SerializeToProto d hero
      }) = Some [(1, 1), (2, 1)]"
  by code_simp

end
