(* ===== verification/SpaceWorld.thy ===== *)
theory SpaceWorld
  imports SpacePlayers Redis
begin

text \<open>
  The worlds of a space server (\<open>world.cpp\<close>, \<open>world.h\<close>) with the table of their players (\<open>player_manager_component.cpp\<close>),
  what a hit does (\<open>npc.cpp\<close>, \<open>player.cpp\<close>), the gatherer of the worlds (\<open>world_gather.cpp\<close>, \<open>space_team.h\<close>) and the
  creation of worlds (\<open>world_operator_component.cpp\<close>).

  A pointer to a player of the world is its serial number, a pointer to a player of any world the serial numbers of the
  world and of the player. \<open>None\<close> is undefined behaviour: a null or dangling pointer that is dereferenced, or an index
  outside a vector. A component that comes from a pool is taken as a new one. The serial numbers of new objects, the
  random numbers, the clock and the tables are in the record \<open>space_env\<close>.
\<close>

subsection \<open>Teams and the gatherer\<close>

record space_team =
  st_dungeonId :: int
  st_dungeonSn :: u64
  st_captain :: u64
  st_members :: "u64 list"

definition SpaceTeam :: "u64 \<Rightarrow> space_team" where
  "SpaceTeam captain = \<lparr>st_dungeonId = 0, st_dungeonSn = 0, st_captain = captain, st_members = []\<rparr>"

definition SpaceTeam_AddMember :: "u64 \<Rightarrow> space_team \<Rightarrow> space_team" where
  "SpaceTeam_AddMember sn team = team\<lparr>st_members := st_members team @ [sn]\<rparr>"

definition SpaceTeam_RemoveMember :: "u64 \<Rightarrow> space_team \<Rightarrow> space_team" where
  "SpaceTeam_RemoveMember sn team =
     (let members = removeAll sn (st_members team)
      in team\<lparr>st_members := members, st_captain := (if members = [] then st_captain team else hd members)\<rparr>)"

text \<open>\<open>wg_teamMap\<close> holds indices of \<open>wg_teams\<close>: the members of a team share it. Teams are never deleted.\<close>

record world_gather =
  wg_worldOnlines :: "(u64, int) smap"
  wg_players :: "(u64, u64 \<times> u64) smap"
  wg_teamMap :: "(u64, nat) smap"
  wg_teams :: "space_team list"

definition WorldGather_new :: world_gather where
  "WorldGather_new = \<lparr>wg_worldOnlines = [], wg_players = [], wg_teamMap = [], wg_teams = []\<rparr>"

definition WorldGather_BackToPool :: "world_gather \<Rightarrow> world_gather" where
  "WorldGather_BackToPool wg = wg\<lparr>wg_worldOnlines := [], wg_players := [], wg_teamMap := []\<rparr>"

definition RegistPlayer :: "u64 \<Rightarrow> (u64 \<times> u64) option \<Rightarrow> world_gather \<Rightarrow> world_gather" where
  "RegistPlayer sn player wg =
     (case player of
        Some p \<Rightarrow> wg\<lparr>wg_players := smap_assign sn p (wg_players wg)\<rparr>
      | None \<Rightarrow>
          (let wg = wg\<lparr>wg_players := smap_erase sn (wg_players wg)\<rparr>
           in case map_of (wg_teamMap wg) sn of
                None \<Rightarrow> wg
              | Some a \<Rightarrow> wg\<lparr>wg_teams := (wg_teams wg)[a := SpaceTeam_RemoveMember sn (wg_teams wg ! a)]\<rparr>))"

definition SyncSpaceInfo :: "int \<Rightarrow> int \<Rightarrow> world_gather \<Rightarrow> help_call list" where
  "SyncSpaceInfo curAppId curAppType wg =
     (let proto = AppInfoSync \<lparr>as_app_id = curAppId, as_app_type = curAppType, as_online = sum_list (map snd (wg_worldOnlines wg))\<rparr>
      in [SendPacketToAllApp MI_AppInfoSync proto APP_GAME, SendPacketApp MI_AppInfoSync proto APP_APPMGR 0])"

definition HandleWorldSyncToGather :: "u64 \<Rightarrow> int \<Rightarrow> world_gather \<Rightarrow> world_gather" where
  "HandleWorldSyncToGather worldSn online wg = wg\<lparr>wg_worldOnlines := smap_assign worldSn online (wg_worldOnlines wg)\<rparr>"

definition HandleDungeonDisapper :: "u64 \<Rightarrow> world_gather \<Rightarrow> world_gather" where
  "HandleDungeonDisapper worldSn wg = wg\<lparr>wg_worldOnlines := smap_erase worldSn (wg_worldOnlines wg)\<rparr>"

fun space_team_members :: "nat \<Rightarrow> u64 list \<Rightarrow> world_gather \<Rightarrow> world_gather" where
  "space_team_members a [] wg = wg"
| "space_team_members a (sn # sns) wg =
     space_team_members a sns
       (wg\<lparr>wg_teams := (wg_teams wg)[a := SpaceTeam_AddMember sn (wg_teams wg ! a)], wg_teamMap := smap_emplace sn a (wg_teamMap wg)\<rparr>)"

definition Space_HandleCreateTeam :: "u64 \<Rightarrow> u64 list \<Rightarrow> world_gather \<Rightarrow> world_gather" where
  "Space_HandleCreateTeam captain members wg =
     space_team_members (length (wg_teams wg)) members (wg\<lparr>wg_teams := wg_teams wg @ [SpaceTeam captain]\<rparr>)"

subsection \<open>Worlds\<close>

record npc_unit =
  nu_npc :: npc
  nu_tree :: bt_node
  nu_move :: move_component

text \<open>\<open>w_timers\<close>: the two timers of the world are registered. \<open>w_adds\<close> is a \<open>std::set\<close>, a sorted map to nothing.\<close>

record space_world =
  w_sn :: u64
  w_worldId :: int
  w_cfg :: resource_world
  w_npcs :: "npc_unit list"
  w_npcIdxMap :: "(u64 \<times> nat) list"
  w_players :: "(u64, space_player) smap"
  w_sockets :: "(int, u64) smap"
  w_adds :: "(u64, unit) smap"
  w_timers :: bool

record space_env =
  se_time :: u64
  se_floats :: floats
  se_table :: world_table
  se_public :: bt_config
  se_dungeon :: bt_config
  se_draw :: "nat \<Rightarrow> int"
  se_val1 :: bool
  se_val2 :: bool
  se_int :: "nat \<Rightarrow> int \<Rightarrow> int"
  se_newSn :: "nat \<Rightarrow> u64"

text \<open>What the characters see of the world; players that have been removed can be read until the end of the frame.\<close>

definition bt_view :: "space_env \<Rightarrow> space_player list \<Rightarrow> space_world \<Rightarrow> bt_world" where
  "bt_view E removed w =
     (let ps = w_players w @ map (\<lambda>p. (sp_playerSn p, p)) removed in
      \<lparr>bw_time = se_time E, bw_getAll = map fst (w_players w),
       bw_position = (\<lambda>sn. case Option.bind (map_of ps sn) GetCurrPos of Some v \<Rightarrow> v | None \<Rightarrow> Vector3_Zero),
       bw_ident = (\<lambda>sn. case map_of ps sn of Some p \<Rightarrow> sp_ident p | None \<Rightarrow> \<lparr>ni_socket = SocketKey_None, ni_tags = []\<rparr>),
       bw_draw = se_draw E, bw_floats = se_floats E\<rparr>)"

definition Npc_Awake :: "u64 \<Rightarrow> resource_npc \<Rightarrow> npc" where
  "Npc_Awake sn cfg =
     \<lparr>n_sn = sn, n_id = rn_id cfg, n_lv = rn_level cfg, n_hp = rn_initHp cfg, n_initHp = rn_initHp cfg, n_atk = rn_initAtk cfg,
      n_fleeing = False, n_rebirth = False, n_target = None, n_linker = None, n_initPos = rn_initPos cfg,
      n_currPos = rn_initPos cfg, n_nextPos = rn_initPos cfg, curAct = None, n_events = [], n_draws = 0, n_calls = []\<rparr>"

definition IsPublic :: "space_world \<Rightarrow> bool" where
  "IsPublic w = (rw_worldType (w_cfg w) = world_type_number PublicWorld)"

fun awake_npcs :: "space_env \<Rightarrow> resource_npc list \<Rightarrow> space_world \<Rightarrow> space_world" where
  "awake_npcs E [] w = w"
| "awake_npcs E (cfg # cfgs) w =
     (let npc = Npc_Awake (se_newSn E (length (w_npcs w))) cfg;
          (tree, npc) = ParseConfig (bt_view E [] w) (if IsPublic w then se_public E else se_dungeon E) npc
      in awake_npcs E cfgs
           (w\<lparr>w_npcIdxMap := idx_emplace (n_sn npc) (length (w_npcs w)) (w_npcIdxMap w),
              w_npcs := w_npcs w @ [\<lparr>nu_npc = npc, nu_tree = tree, nu_move = Move_new\<rparr>]\<rparr>))"

text \<open>\<open>None\<close>: the world is not in the table.\<close>

definition World_Awake :: "space_env \<Rightarrow> u64 \<Rightarrow> int \<Rightarrow> space_world option" where
  "World_Awake E sn worldId =
     map_option (\<lambda>cfg. awake_npcs E (rw_npcCfgs cfg)
         \<lparr>w_sn = sn, w_worldId = worldId, w_cfg = cfg, w_npcs = [], w_npcIdxMap = [], w_players = [], w_sockets = [],
          w_adds = [], w_timers = True\<rparr>)
       (GetResource (se_table E) worldId)"

definition World_BackToPool :: "space_world \<Rightarrow> space_world" where
  "World_BackToPool w = w\<lparr>w_adds := [], w_npcs := [], w_npcIdxMap := []\<rparr>"

subsection \<open>The table of players\<close>

definition Mgr_AddPlayer :: "u64 \<Rightarrow> u64 \<Rightarrow> net_identify \<Rightarrow> space_world \<Rightarrow> (space_player \<times> space_world) option" where
  "Mgr_AddPlayer playerSn worldSn pNetIdentify w =
     (if map_of (w_players w) playerSn \<noteq> None then None
      else (let pPlayer = SpacePlayer_Awake pNetIdentify playerSn worldSn
            in Some (pPlayer, w\<lparr>w_players := smap_assign playerSn pPlayer (w_players w),
                                w_sockets := smap_assign (Socket (ni_socket (sp_ident pPlayer))) playerSn (w_sockets w)\<rparr>)))"

definition Mgr_GetPlayerBySn :: "u64 \<Rightarrow> space_world \<Rightarrow> space_player option" where
  "Mgr_GetPlayerBySn playerSn w = map_of (w_players w) playerSn"

definition Mgr_GetPlayerBySocket :: "int \<Rightarrow> space_world \<Rightarrow> space_player option" where
  "Mgr_GetPlayerBySocket socket w = Option.bind (map_of (w_sockets w) socket) (map_of (w_players w))"

definition Mgr_RemovePlayerBySn :: "u64 \<Rightarrow> space_world \<Rightarrow> space_world" where
  "Mgr_RemovePlayerBySn playerSn w =
     (case map_of (w_players w) playerSn of
        None \<Rightarrow> w
      | Some pPlayer \<Rightarrow> w\<lparr>w_players := smap_erase playerSn (w_players w),
                         w_sockets := smap_erase (Socket (ni_socket (sp_ident pPlayer))) (w_sockets w)\<rparr>)"

fun remove_players :: "int \<Rightarrow> (u64, space_player) smap \<Rightarrow> ((u64, space_player) smap \<times> help_call list) option" where
  "remove_players socket [] = Some ([], [])"
| "remove_players socket ((sn, p) # ps) =
     (if Socket (ni_socket (sp_ident p)) \<noteq> socket
      then map_option (\<lambda>(ps, calls). ((sn, p) # ps, calls)) (remove_players socket ps)
      else do {
        (proto, p) \<leftarrow> SpacePlayer_SerializeToProto p;
        (ps, calls) \<leftarrow> remove_players socket ps;
        Some (ps, SendPacketApp G2DB_SavePlayer (SavePlayer (sp_playerSn p) proto) APP_DB_MGR 0 # calls)
      })"

definition RemoveAllPlayers :: "net_identify \<Rightarrow> space_world \<Rightarrow> (space_world \<times> help_call list) option" where
  "RemoveAllPlayers pNetIdentify w =
     map_option (\<lambda>(ps, calls). (w\<lparr>w_sockets := [], w_players := ps\<rparr>, calls))
       (remove_players (Socket (ni_socket pNetIdentify)) (w_players w))"

text \<open>Writing through a pointer to a player.\<close>

definition set_sp :: "space_player \<Rightarrow> space_world \<Rightarrow> space_world" where
  "set_sp p w = w\<lparr>w_players := smap_assign (sp_playerSn p) p (w_players w)\<rparr>"

definition World_GetPlayer :: "net_identify \<Rightarrow> space_world \<Rightarrow> space_player option" where
  "World_GetPlayer pIdentify w =
     (case GetTagValue (ni_tags pIdentify) TagSocket of
        Some t \<Rightarrow> Mgr_GetPlayerBySocket (sint (ucast (KeyInt64 t) :: u32)) w
      | None \<Rightarrow>
          (case GetTagValue (ni_tags pIdentify) TagPlayer of
             Some t \<Rightarrow> Mgr_GetPlayerBySn (KeyInt64 t) w
           | None \<Rightarrow> None))"

definition World_Broadcast :: "int \<Rightarrow> proto \<Rightarrow> space_world \<Rightarrow> help_call list" where
  "World_Broadcast msgId proto w = map (\<lambda>q. SendPacket msgId proto (sp_ident (snd q))) (w_players w)"

definition World_Broadcast_to :: "int \<Rightarrow> proto \<Rightarrow> (u64, unit) smap \<Rightarrow> space_world \<Rightarrow> help_call list" where
  "World_Broadcast_to msgId proto players w =
     concat (map (\<lambda>q. case Mgr_GetPlayerBySn (fst q) w of None \<Rightarrow> [] | Some p \<Rightarrow> [SendPacket msgId proto (sp_ident p)]) players)"

subsection \<open>Who appears and disappears\<close>

definition AddRoleToAppear :: "space_player \<Rightarrow> role option" where
  "AddRoleToAppear p = do {
     d \<leftarrow> sp_detail p;
     pos \<leftarrow> GetCurrPos p;
     Some \<lparr>ro_name = c_str (sp_name p), ro_sn = sp_playerSn p, ro_gender = dt_gender d, ro_position = pos, ro_level = dt_lv d,
           ro_xp = dt_xp d, ro_hp = dt_hp d, ro_mp = dt_mp d, ro_atk = dt_atk d, ro_def = dt_def d\<rparr>
   }"

definition SyncAppearTimer :: "space_world \<Rightarrow> (space_world \<times> help_call list) option" where
  "SyncAppearTimer w =
     (if w_adds w = [] then Some (w, [])
      else do {
        new \<leftarrow> those (map AddRoleToAppear (List.map_filter (\<lambda>q. Mgr_GetPlayerBySn (fst q) w) (w_adds w)));
        others \<leftarrow> those (map (AddRoleToAppear \<circ> snd) (filter (\<lambda>q. map_of (w_adds w) (fst q) = None) (w_players w)));
        Some (w\<lparr>w_adds := []\<rparr>,
              (if new = [] then [] else World_Broadcast S2C_AllRoleAppear (AllRoleAppear new) w)
                @ (if others = [] then [] else World_Broadcast_to S2C_AllRoleAppear (AllRoleAppear others) (w_adds w) w))
      })"

definition SyncWorldToGather :: "space_world \<Rightarrow> help_call list" where
  "SyncWorldToGather w =
     [DispatchProto MI_WorldSyncToGather (WorldSyncToGather (w_sn w) (w_worldId w) (int (length (w_players w)))) None]"

text \<open>What the characters do when a player is gone; \<open>None\<close>: a player without a position.\<close>

definition disappear_npc :: "bt_world \<Rightarrow> bool \<Rightarrow> bool \<Rightarrow> u64 \<Rightarrow> npc \<Rightarrow> npc option" where
  "disappear_npc W deserted positions playerSn enemy =
     (let enemy = (if deserted then Bt_AddEvent EvBirth 10 (enemy\<lparr>n_target := None\<rparr>)
                   else if n_target enemy = Some playerSn then Bt_AddEvent EvIdle 10 (enemy\<lparr>n_target := None\<rparr>)
                   else enemy)
      in if n_linker enemy \<noteq> Some playerSn then Some enemy
         else if \<not> positions then None
         else (let target = GetNearestPlayer W (n_currPos enemy); enemy = SetLinkPlayer W target enemy
               in Some (case target of
                    None \<Rightarrow> enemy
                  | Some t \<Rightarrow> npc_sends [SendPacket S2C_ReqLinkPlayer (ReqLinkPlayer (n_id enemy) (n_sn enemy) True) (bw_ident W t)] enemy)))"

text \<open>The calls a character makes are taken out of its record after each step.\<close>

definition flush_npc :: "npc \<Rightarrow> npc_unit \<Rightarrow> npc_unit \<times> help_call list" where
  "flush_npc n u = (u\<lparr>nu_npc := n\<lparr>n_calls := []\<rparr>\<rparr>, n_calls n)"

fun each_npc :: "(npc \<Rightarrow> npc option) \<Rightarrow> npc_unit list \<Rightarrow> (npc_unit list \<times> help_call list) option" where
  "each_npc f [] = Some ([], [])"
| "each_npc f (u # us) = do {
     n \<leftarrow> f (nu_npc u);
     (us, calls) \<leftarrow> each_npc f us;
     let (u, cs) = flush_npc n u;
     Some (u # us, cs @ calls)
   }"

text \<open>\<open>pPlayer\<close> has been removed from the table.\<close>

definition PlayerDisappear :: "space_env \<Rightarrow> space_player \<Rightarrow> space_world \<Rightarrow> (space_world \<times> help_call list) option" where
  "PlayerDisappear E pPlayer w = do {
     let W = bt_view E [pPlayer] w;
     (p, calls) \<leftarrow> ResetCmd W pPlayer;
     (us, cs) \<leftarrow> each_npc (disappear_npc W (w_players w = []) (list_all (\<lambda>q. GetCurrPos (snd q) \<noteq> None) (w_players w))
                   (sp_playerSn pPlayer)) (w_npcs w);
     Some (w\<lparr>w_npcs := us\<rparr>, calls @ cs)
   }"

subsection \<open>Arriving and leaving\<close>

text \<open>\<open>None\<close>: a map that is missing in the table of worlds, or a player without a current map.\<close>

definition SpacePlayer_ParserFromProto :: "world_table \<Rightarrow> u64 \<Rightarrow> player_proto \<Rightarrow> space_player \<Rightarrow> space_player option" where
  "SpacePlayer_ParserFromProto t playerSn proto p =
     (let p = p\<lparr>sp_playerSn := playerSn, sp_player := proto, sp_name := pp_name proto,
                sp_detail := map_option (Detail_ParserFromProto proto) (sp_detail p)\<rparr>
      in case sp_lastMap p of
           None \<Rightarrow> Some p
         | Some lm \<Rightarrow> map_option (\<lambda>lm. p\<lparr>sp_lastMap := Some lm\<rparr>) (LastMap_ParserFromProto t proto lm))"

definition HandleSyncPlayer ::
  "space_env \<Rightarrow> net_identify \<Rightarrow> player_proto \<Rightarrow> space_world \<Rightarrow> world_gather \<Rightarrow> (space_world \<times> world_gather \<times> help_call list) option" where
  "HandleSyncPlayer E pPacket proto w wg =
     (let playerSn = pp_sn proto in
      case Mgr_AddPlayer playerSn (w_sn w) pPacket w of
        None \<Rightarrow> Some (w, wg, [])
      | Some (pPlayer, w) \<Rightarrow> do {
          let wg = RegistPlayer playerSn (Some (w_sn w, playerSn)) wg;
          pPlayer \<leftarrow> SpacePlayer_ParserFromProto (se_table E) playerSn proto pPlayer;
          lm \<leftarrow> LastMap_ParserFromProto (se_table E) (sp_player pPlayer) LastMap_new;
          lm \<leftarrow> EnterWorld (se_table E) (w_worldId w) (w_sn w) lm;
          let pPlayer = pPlayer\<lparr>sp_cmd := Some \<lparr>cc_prevCmd = None, cc_currCmd = None\<rparr>,
                                sp_detail := Some (Detail_Awake (sp_player pPlayer)), sp_lastMap := Some lm\<rparr>;
          cur \<leftarrow> GetCur lm;
          Some (set_sp pPlayer w\<lparr>w_adds := smap_assign playerSn () (w_adds w)\<rparr>, wg,
                [SendPacket S2C_EnterWorld (S2CEnterWorld (w_worldId w) (lw_Position cur)) (sp_ident pPlayer)])
        })"

definition World_HandleNetworkDisconnect ::
  "space_env \<Rightarrow> net_identify \<Rightarrow> space_world \<Rightarrow> world_gather \<Rightarrow> (space_world \<times> world_gather \<times> help_call list) option" where
  "World_HandleNetworkDisconnect E pPacket w wg =
     (case GetTagValue (ni_tags pPacket) TagPlayer of
        Some pTagPlayer \<Rightarrow>
          (case Mgr_GetPlayerBySn (KeyInt64 pTagPlayer) w of
             None \<Rightarrow> Some (w, wg, [])
           | Some pPlayer \<Rightarrow> do {
               (proto, pPlayer) \<leftarrow> SpacePlayer_SerializeToProto pPlayer;
               let save = SendPacketApp G2DB_SavePlayer (SavePlayer (sp_playerSn pPlayer) proto) APP_DB_MGR 0;
               let gone = World_Broadcast S2C_RoleDisappear (RoleDisappear (sp_playerSn pPlayer)) w;
               (w, calls) \<leftarrow> PlayerDisappear E pPlayer (Mgr_RemovePlayerBySn (KeyInt64 pTagPlayer) w);
               Some (w, RegistPlayer (sp_playerSn pPlayer) None wg, save # gone @ calls)
             })
      | None \<Rightarrow>
          (if GetTagValue (ni_tags pPacket) TagApp = None then Some (w, wg, [])
           else map_option (\<lambda>(w, calls). (w, wg, calls)) (RemoveAllPlayers pPacket w)))"

definition HandleRequestSyncPlayer :: "space_player \<Rightarrow> space_world \<Rightarrow> (space_world \<times> help_call list) option" where
  "HandleRequestSyncPlayer pPlayer w = do {
     (proto, pPlayer) \<leftarrow> SpacePlayer_SerializeToProto pPlayer;
     Some (set_sp pPlayer w, [SendPacket S2G_SyncPlayer (SyncPlayer (c_str (sp_account pPlayer)) proto) (sp_ident pPlayer)])
   }"

definition HandleG2SRemovePlayer ::
  "space_env \<Rightarrow> space_player \<Rightarrow> u64 \<Rightarrow> space_world \<Rightarrow> (space_world \<times> help_call list) option" where
  "HandleG2SRemovePlayer E pPlayer playerSn w =
     (if playerSn \<noteq> sp_playerSn pPlayer then Some (w, [])
      else do {
        let w = Mgr_RemovePlayerBySn (sp_playerSn pPlayer) w;
        let deserted = (rw_worldType (w_cfg w) = world_type_number DungeonWorld \<and> w_players w = []);
        let w = (if deserted then w\<lparr>w_timers := False\<rparr> else w);
        (w, calls) \<leftarrow> PlayerDisappear E pPlayer w;
        Some (w, (if deserted then [DispatchProto MI_DungeonDisapper (DungeonDisapper (w_sn w)) None] else []) @ calls
                   @ World_Broadcast S2C_RoleDisappear (RoleDisappear (sp_playerSn pPlayer)) w)
      })"

subsection \<open>Moving and commands\<close>

text \<open>\<open>npcs[npcIdxMap[sn]]\<close>: the subscript of the map enters 0 for a serial number it does not have.\<close>

definition npc_at :: "u64 \<Rightarrow> space_world \<Rightarrow> (nat \<times> space_world) option" where
  "npc_at sn w =
     (let (i, w) = (case map_of (w_npcIdxMap w) sn of
                      Some i \<Rightarrow> (i, w)
                    | None \<Rightarrow> (0, w\<lparr>w_npcIdxMap := (sn, 0) # w_npcIdxMap w\<rparr>))
      in if i < length (w_npcs w) then Some (i, w) else None)"

definition HandlePlayerMove ::
  "space_env \<Rightarrow> space_player \<Rightarrow> u64 \<Rightarrow> bool \<Rightarrow> vector3 list \<Rightarrow> space_world \<Rightarrow> (space_world \<times> help_call list) option" where
  "HandlePlayerMove E pPlayer sn isRunning points w = do {
     pos \<leftarrow> GetCurrPos pPlayer;
     let m = (case sp_move pPlayer of None \<Rightarrow> Move_new | Some m \<Rightarrow> m)\<lparr>mc_moveSpeed := Float_5_56\<rparr>;
     Some (set_sp (pPlayer\<lparr>sp_move := Some (SetPath (se_floats E) points pos m)\<rparr>) w,
           World_Broadcast S2C_PlayerMove (EntityMove sn isRunning points) w)
   }"

definition HandleNpcMove ::
  "space_env \<Rightarrow> u64 \<Rightarrow> bool \<Rightarrow> vector3 list \<Rightarrow> space_world \<Rightarrow> (space_world \<times> help_call list) option" where
  "HandleNpcMove E sn isRunning points w = do {
     (i, w) \<leftarrow> npc_at sn w;
     let u = w_npcs w ! i;
     let m = (nu_move u)\<lparr>mc_moveSpeed := (if isRunning then Float_5_56 else Float_1_56)\<rparr>;
     Some (w\<lparr>w_npcs := (w_npcs w)[i := u\<lparr>nu_move := SetPath (se_floats E) points (n_currPos (nu_npc u)) m\<rparr>]\<rparr>,
           World_Broadcast S2C_NpcMove (EntityMove sn isRunning points) w)
   }"

definition HandleSyncNpcPos :: "u64 \<Rightarrow> vector3 \<Rightarrow> space_world \<Rightarrow> space_world option" where
  "HandleSyncNpcPos sn pos w = do {
     (i, w) \<leftarrow> npc_at sn w;
     let u = w_npcs w ! i;
     Some (w\<lparr>w_npcs := (w_npcs w)[i := u\<lparr>nu_npc := (nu_npc u)\<lparr>n_currPos := pos\<rparr>\<rparr>]\<rparr>)
   }"

definition HandleSyncPlayerPos :: "space_player \<Rightarrow> vector3 \<Rightarrow> space_world \<Rightarrow> space_world option" where
  "HandleSyncPlayerPos pPlayer pos w = do {
     lm \<leftarrow> sp_lastMap pPlayer;
     lm \<leftarrow> set_cur_position pos lm;
     Some (set_sp (pPlayer\<lparr>sp_lastMap := Some lm\<rparr>) w)
   }"

text \<open>The command a client asks for; \<open>None\<close> inside: a number that is not handled.\<close>

definition command_of :: "int \<Rightarrow> u64 \<Rightarrow> vector3 \<Rightarrow> space_world \<Rightarrow> (command option \<times> space_world) option" where
  "command_of ty target_sn point w =
     (if ty = cmd_number CmdNone then Some (Some NoneCommand, w)
      else if ty = cmd_number CmdMove then Some (Some (MoveCommand point), w)
      else if ty = cmd_number CmdAttack then
        map_option (\<lambda>(i, w). (Some (AttackCommand (n_sn (nu_npc (w_npcs w ! i))) i), w)) (npc_at target_sn w)
      else if ty = cmd_number CmdPick then Some (Some (PickCommand target_sn point), w)
      else if ty = cmd_number CmdTeleport then Some (Some (TeleportCommand target_sn), w)
      else if ty = cmd_number CmdObserve then
        map_option (\<lambda>c. (Some c, w)) (ObserveCommand (map_option sp_playerSn (Mgr_GetPlayerBySn target_sn w)))
      else if ty = cmd_number CmdPvp then
        map_option (\<lambda>c. (Some c, w)) (PvpCommand (map_option sp_playerSn (Mgr_GetPlayerBySn target_sn w)))
      else Some (None, w))"

definition HandleSyncPlayerCmd ::
  "space_env \<Rightarrow> space_player \<Rightarrow> int \<Rightarrow> u64 \<Rightarrow> vector3 \<Rightarrow> space_world \<Rightarrow> (space_world \<times> help_call list) option" where
  "HandleSyncPlayerCmd E pPlayer ty target_sn point w = do {
     (c, w) \<leftarrow> command_of ty target_sn point w;
     (case c of
        None \<Rightarrow> Some (w, [])
      | Some c \<Rightarrow> map_option (\<lambda>(p, calls). (set_sp p w, calls)) (ChangeCmd (bt_view E [] w) (Some c) pPlayer))
   }"

definition HandleReqNpcInfo :: "space_player \<Rightarrow> int \<Rightarrow> space_world \<Rightarrow> help_call list option" where
  "HandleReqNpcInfo pPlayer i w =
     (if i < 0 \<or> int (length (w_npcs w)) \<le> i then None
      else (let n = nu_npc (w_npcs w ! nat i)
            in Some [SendPacket S2C_ReqNpcInfo (ReqNpcInfo i (n_sn n) (n_currPos n)) (sp_ident pPlayer)]))"

text \<open>The target a character is attacking or pursuing has left the table.\<close>

definition target_gone :: "space_world \<Rightarrow> npc \<Rightarrow> bool" where
  "target_gone w n =
     ((case curAct n of Some (a, i) \<Rightarrow> a = BtActAttack \<or> a = BtActPursue | None \<Rightarrow> False)
        \<and> (case n_target n of Some sn \<Rightarrow> map_of (w_players w) sn = None | None \<Rightarrow> False))"

definition HandleSyncBtAction :: "space_env \<Rightarrow> space_player \<Rightarrow> int \<Rightarrow> space_world \<Rightarrow> (space_world \<times> help_call list) option" where
  "HandleSyncBtAction E pPlayer i w =
     (if i < 0 \<or> int (length (w_npcs w)) \<le> i then None
      else (let W = bt_view E [] w; u = w_npcs w ! nat i; sn = sp_playerSn pPlayer in
            if target_gone w (nu_npc u) then None
            else (let n = SyncAction W sn (nu_npc u);
                      n = (if n_linker n = None
                           then npc_sends [SendPacket S2C_ReqLinkPlayer (ReqLinkPlayer (n_id n) (n_sn n) True) (sp_ident pPlayer)]
                                  (SetLinkPlayer W (Some sn) n)
                           else n);
                      (u, calls) = flush_npc n u
                  in Some (w\<lparr>w_npcs := (w_npcs w)[nat i := u]\<rparr>, calls))))"

definition HandleReqSyncPlayer :: "space_player \<Rightarrow> u64 \<Rightarrow> space_world \<Rightarrow> help_call list option" where
  "HandleReqSyncPlayer pPlayer playerSn w = do {
     target \<leftarrow> Mgr_GetPlayerBySn playerSn w;
     c \<leftarrow> GetCurrCmd target;
     Some (case c of None \<Rightarrow> [] | Some c \<Rightarrow> Cmd_Singlecast (sp_playerSn target) c (sp_ident pPlayer))
   }"

subsection \<open>Hits\<close>

text \<open>
  What \<open>Player::GetDamage\<close> reads of the gatherer: the team of a player, the pointer the gatherer has to a player and,
  through such a pointer, the identity of a player that is still there.
\<close>

record team_view =
  tv_members :: "u64 \<Rightarrow> u64 list option"
  tv_player :: "u64 \<Rightarrow> (u64 \<times> u64) option"
  tv_ident :: "u64 \<times> u64 \<Rightarrow> net_identify option"

fun member_calls :: "team_view \<Rightarrow> u64 \<Rightarrow> u64 \<Rightarrow> proto \<Rightarrow> u64 list \<Rightarrow> help_call list option" where
  "member_calls T curWorld playerSn props [] = Some []"
| "member_calls T curWorld playerSn props (sn # sns) =
     (if sn = playerSn then member_calls T curWorld playerSn props sns
      else do {
        member \<leftarrow> tv_player T sn;
        ident \<leftarrow> tv_ident T member;
        calls \<leftarrow> member_calls T curWorld playerSn props sns;
        Some (if fst member \<noteq> curWorld then SendPacket S2C_SyncPlayerProps props ident # calls else calls)
      })"

definition team_calls :: "team_view \<Rightarrow> u64 \<Rightarrow> u64 \<Rightarrow> proto \<Rightarrow> help_call list option" where
  "team_calls T curWorld playerSn props =
     (case tv_members T playerSn of None \<Rightarrow> Some [] | Some sns \<Rightarrow> member_calls T curWorld playerSn props sns)"

definition hit :: "int \<Rightarrow> detail \<Rightarrow> detail" where
  "hit atk d = d\<lparr>dt_hp := max (dt_hp d - atk) 0\<rparr>"

text \<open>Both versions of \<open>GetDamage\<close> end alike: the others learn of the life that is left.\<close>

definition sync_props :: "team_view \<Rightarrow> u64 \<Rightarrow> space_world \<Rightarrow> help_call list option" where
  "sync_props T playerSn w = do {
     p \<leftarrow> Mgr_GetPlayerBySn playerSn w;
     d \<leftarrow> sp_detail p;
     let props = SyncPlayerProps playerSn (dt_hp d);
     calls \<leftarrow> team_calls T (w_sn w) playerSn props;
     Some (World_Broadcast S2C_SyncPlayerProps props w @ calls)
   }"

definition Player_GetDamage_npc :: "team_view \<Rightarrow> npc \<Rightarrow> u64 \<Rightarrow> space_world \<Rightarrow> (space_world \<times> help_call list) option" where
  "Player_GetDamage_npc T enemy playerSn w = do {
     p \<leftarrow> Mgr_GetPlayerBySn playerSn w;
     d \<leftarrow> sp_detail p;
     let w = set_sp (p\<lparr>sp_detail := Some (hit (n_atk enemy) d)\<rparr>) w;
     calls \<leftarrow> sync_props T playerSn w;
     Some (w, calls)
   }"

definition player_killed :: "space_env \<Rightarrow> u64 \<Rightarrow> u64 \<Rightarrow> space_world \<Rightarrow> (space_world \<times> help_call list) option" where
  "player_killed E atker playerSn w = do {
     a \<leftarrow> Mgr_GetPlayerBySn atker w;
     (a, calls) \<leftarrow> ResetCmd (bt_view E [] w) a;
     Some (set_sp a w, calls @ World_Broadcast S2C_SyncPlayerCmd (SyncPlayerCmd (cmd_number CmdDeath) Vector3_Zero playerSn atker) w)
   }"

definition Player_GetDamage :: "space_env \<Rightarrow> team_view \<Rightarrow> u64 \<Rightarrow> u64 \<Rightarrow> space_world \<Rightarrow> (space_world \<times> help_call list) option" where
  "Player_GetDamage E T atker playerSn w = do {
     a \<leftarrow> Mgr_GetPlayerBySn atker w;
     ad \<leftarrow> sp_detail a;
     p \<leftarrow> Mgr_GetPlayerBySn playerSn w;
     d \<leftarrow> sp_detail p;
     let d = hit (dt_atk ad) d;
     let w = set_sp (p\<lparr>sp_detail := Some d\<rparr>) w;
     (w, killed) \<leftarrow> (if dt_hp d = 0 then player_killed E atker playerSn w else Some (w, []));
     calls \<leftarrow> sync_props T playerSn w;
     Some (w, killed @ calls)
   }"

text \<open>The random engine is seeded with the time; the two flags say whether the random numbers are below one half.\<close>

definition GetDropList :: "space_env \<Rightarrow> space_world \<Rightarrow> item_proto list" where
  "GetDropList E w =
     (let potions = (if se_val1 E then
            map (\<lambda>k. \<lparr>it_sn = se_newSn E k, it_itemType = ItemPotion,
                      it_id = se_int E (Suc k) (int (length (rw_potionCfgs (w_cfg w)))), it_knapType = KnapWorld, it_index = 0\<rparr>)
              [0..<nat (se_int E 0 3)] else []);
          n = length potions;
          used = (if se_val1 E then Suc n else 0)
      in potions @
         (if se_val2 E then
            [\<lparr>it_sn = se_newSn E n, it_itemType = ItemWeapon,
              it_id = se_int E used (int (length (rw_weaponCfgs (w_cfg w)))), it_knapType = KnapWorld, it_index = 0\<rparr>]
          else []))"

text \<open>The attacker stops, and is paid for the character it has killed.\<close>

definition npc_killed :: "space_env \<Rightarrow> u64 \<Rightarrow> npc \<Rightarrow> space_world \<Rightarrow> (space_world \<times> help_call list) option" where
  "npc_killed E attacker n w = do {
     a \<leftarrow> Mgr_GetPlayerBySn attacker w;
     (a, calls) \<leftarrow> ResetCmd (bt_view E [] w) a;
     let exp = (n_atk n + n_lv n) * 5;
     let gold = (n_atk n + n_lv n) * 10;
     ad \<leftarrow> sp_detail a;
     Some (set_sp (a\<lparr>sp_detail := Some (ad\<lparr>dt_xp := dt_xp ad + exp, dt_gold := dt_gold ad + gold\<rparr>)\<rparr>) w,
           calls @ [SendPacket S2C_DropItemList (DropItemList (n_sn n) exp gold (GetDropList E w)) (sp_ident a)])
   }"

definition Npc_GetDamage :: "space_env \<Rightarrow> u64 \<Rightarrow> nat \<Rightarrow> space_world \<Rightarrow> (space_world \<times> help_call list) option" where
  "Npc_GetDamage E attacker i w = do {
     a \<leftarrow> Mgr_GetPlayerBySn attacker w;
     ad \<leftarrow> sp_detail a;
     let u = w_npcs w ! i;
     let n = (nu_npc u)\<lparr>n_hp := max (n_hp (nu_npc u) - dt_atk ad) 0\<rparr>;
     let n = (if n_target n = Some attacker then n else Bt_AddEvent EvPursue 0 (n\<lparr>n_target := Some attacker\<rparr>));
     let w = w\<lparr>w_npcs := (w_npcs w)[i := u\<lparr>nu_npc := n\<rparr>]\<rparr>;
     (w, killed) \<leftarrow> (if n_hp n = 0 then npc_killed E attacker n w else Some (w, []));
     Some (w, killed @ World_Broadcast S2C_SyncNpcProps (SyncNpcProps (n_sn n) (n_hp n)) w)
   }"

definition HandlePlayerAtkEvent ::
  "space_env \<Rightarrow> team_view \<Rightarrow> space_player \<Rightarrow> u64 \<Rightarrow> space_world \<Rightarrow> (space_world \<times> help_call list) option" where
  "HandlePlayerAtkEvent E T pPlayer target_sn w =
     (if Mgr_GetPlayerBySn target_sn w \<noteq> None then Player_GetDamage E T (sp_playerSn pPlayer) target_sn w
      else if target_sn \<noteq> 0 then do {
        (i, w) \<leftarrow> npc_at target_sn w;
        Npc_GetDamage E (sp_playerSn pPlayer) i w
      } else do {
        d \<leftarrow> sp_detail pPlayer;
        let w = set_sp (pPlayer\<lparr>sp_detail := Some (d\<lparr>dt_hp := 1000\<rparr>)\<rparr>) w;
        Some (w, World_Broadcast S2C_SyncPlayerProps (SyncPlayerProps (sp_playerSn pPlayer) 1000) w)
      })"

definition HandleNpcAtkEvent :: "team_view \<Rightarrow> space_player \<Rightarrow> u64 \<Rightarrow> space_world \<Rightarrow> (space_world \<times> help_call list) option" where
  "HandleNpcAtkEvent T pPlayer npc_sn w = do {
     (i, w) \<leftarrow> npc_at npc_sn w;
     Player_GetDamage_npc T (nu_npc (w_npcs w ! i)) (sp_playerSn pPlayer) w
   }"

subsection \<open>The knapsack\<close>

definition HandleUpdateKnapItem :: "space_player \<Rightarrow> item_proto \<Rightarrow> space_world \<Rightarrow> space_world option" where
  "HandleUpdateKnapItem pPlayer item w = do {
     d \<leftarrow> sp_detail pPlayer;
     d \<leftarrow> UpdateKnapItem item d;
     Some (set_sp (pPlayer\<lparr>sp_detail := Some d\<rparr>) w)
   }"

definition HandleUpdateKnapGold :: "space_player \<Rightarrow> int \<Rightarrow> space_world \<Rightarrow> space_world option" where
  "HandleUpdateKnapGold pPlayer gold w = do {
     d \<leftarrow> sp_detail pPlayer;
     Some (set_sp (pPlayer\<lparr>sp_detail := Some (d\<lparr>dt_gold := gold\<rparr>)\<rparr>) w)
   }"

subsection \<open>The messages of a world\<close>

text \<open>
  The messages \<open>Awake\<close> registers handlers for, and the timers. A handler with a player is not called when
  \<open>GetPlayer\<close> finds none.
\<close>

datatype player_msg =
    PlRequestSyncPlayer | PlRemovePlayer u64 | PlPlayerMove u64 bool "vector3 list" | PlNpcMove u64 bool "vector3 list"
  | PlUpdateKnapItem item_proto | PlUpdateKnapGold int | PlGetPlayerKnap | PlSyncPlayerPos vector3
  | PlSyncPlayerCmd int u64 vector3 | PlReqSyncPlayer u64 | PlReqNpcInfo int | PlSyncBtAction int
  | PlPlayerAtkEvent u64 | PlNpcAtkEvent u64

datatype space_msg =
    SpNetworkDisconnect | SpSyncPlayer player_proto | SpSyncNpcPos u64 vector3 | SpAppearTimer | SpWorldTimer
  | SpPlayer player_msg

fun player_handle :: "space_env \<Rightarrow> team_view \<Rightarrow> player_msg \<Rightarrow> space_player \<Rightarrow> space_world \<Rightarrow>
    (space_world \<times> help_call list) option" where
  "player_handle E T PlRequestSyncPlayer p w = HandleRequestSyncPlayer p w"
| "player_handle E T (PlRemovePlayer sn) p w = HandleG2SRemovePlayer E p sn w"
| "player_handle E T (PlPlayerMove sn r vs) p w = HandlePlayerMove E p sn r vs w"
| "player_handle E T (PlNpcMove sn r vs) p w = HandleNpcMove E sn r vs w"
| "player_handle E T (PlUpdateKnapItem item) p w = map_option (\<lambda>w. (w, [])) (HandleUpdateKnapItem p item w)"
| "player_handle E T (PlUpdateKnapGold gold) p w = map_option (\<lambda>w. (w, [])) (HandleUpdateKnapGold p gold w)"
| "player_handle E T PlGetPlayerKnap p w = map_option (\<lambda>calls. (w, calls)) (GetPlayerKnap p)"
| "player_handle E T (PlSyncPlayerPos v) p w = map_option (\<lambda>w. (w, [])) (HandleSyncPlayerPos p v w)"
| "player_handle E T (PlSyncPlayerCmd ty sn v) p w = HandleSyncPlayerCmd E p ty sn v w"
| "player_handle E T (PlReqSyncPlayer sn) p w = map_option (\<lambda>calls. (w, calls)) (HandleReqSyncPlayer p sn w)"
| "player_handle E T (PlReqNpcInfo i) p w = map_option (\<lambda>calls. (w, calls)) (HandleReqNpcInfo p i w)"
| "player_handle E T (PlSyncBtAction i) p w = HandleSyncBtAction E p i w"
| "player_handle E T (PlPlayerAtkEvent sn) p w = HandlePlayerAtkEvent E T p sn w"
| "player_handle E T (PlNpcAtkEvent sn) p w = HandleNpcAtkEvent T p sn w"

fun world_handle :: "space_env \<Rightarrow> team_view \<Rightarrow> net_identify \<Rightarrow> space_msg \<Rightarrow> space_world \<Rightarrow> world_gather \<Rightarrow>
    (space_world \<times> world_gather \<times> help_call list) option" where
  "world_handle E T pIdent SpNetworkDisconnect w wg = World_HandleNetworkDisconnect E pIdent w wg"
| "world_handle E T pIdent (SpSyncPlayer proto) w wg = HandleSyncPlayer E pIdent proto w wg"
| "world_handle E T pIdent (SpSyncNpcPos sn v) w wg = map_option (\<lambda>w. (w, wg, [])) (HandleSyncNpcPos sn v w)"
| "world_handle E T pIdent SpAppearTimer w wg =
     (if w_timers w then map_option (\<lambda>(w, calls). (w, wg, calls)) (SyncAppearTimer w) else Some (w, wg, []))"
| "world_handle E T pIdent SpWorldTimer w wg = Some (w, wg, if w_timers w then SyncWorldToGather w else [])"
| "world_handle E T pIdent (SpPlayer m) w wg =
     (case World_GetPlayer pIdent w of
        None \<Rightarrow> Some (w, wg, [])
      | Some p \<Rightarrow> map_option (\<lambda>(w, calls). (w, wg, calls)) (player_handle E T m p w))"

subsection \<open>The worlds of a server\<close>

record space_server =
  ss_gather :: world_gather
  ss_worlds :: "(u64, space_world) smap"

definition server_view :: "space_server \<Rightarrow> team_view" where
  "server_view S =
     \<lparr>tv_members = (\<lambda>sn. map_option (\<lambda>a. st_members (wg_teams (ss_gather S) ! a)) (map_of (wg_teamMap (ss_gather S)) sn)),
      tv_player = map_of (wg_players (ss_gather S)),
      tv_ident = (\<lambda>(wsn, sn). map_option sp_ident (Option.bind (map_of (ss_worlds S) wsn) (Mgr_GetPlayerBySn sn)))\<rparr>"

definition server_handle :: "space_env \<Rightarrow> net_identify \<Rightarrow> u64 \<Rightarrow> space_msg \<Rightarrow> space_server \<Rightarrow>
    (space_server \<times> help_call list) option" where
  "server_handle E pIdent wsn m S =
     (case map_of (ss_worlds S) wsn of
        None \<Rightarrow> Some (S, [])
      | Some w \<Rightarrow>
          map_option (\<lambda>(w, wg, calls). (\<lparr>ss_gather = wg, ss_worlds = smap_assign wsn w (ss_worlds S)\<rparr>, calls))
            (world_handle E (server_view S) pIdent m w (ss_gather S)))"

text \<open>
  \<open>WorldOperatorComponent\<close>: the new world is created by the thread that \<open>CreateComponentWithSn\<close> hands it to, so the
  serial number and the kind of the world are returned with the messages. \<open>None\<close>: a world that is not in the table.
\<close>

definition HandleCreateWorld :: "world_table \<Rightarrow> int \<Rightarrow> int \<Rightarrow> int \<Rightarrow> u64 \<Rightarrow> global \<Rightarrow>
    ((u64 \<times> int) \<times> global \<times> help_call list) option" where
  "HandleCreateWorld t curAppType worldId gameAppId lastWorldSn g =
     (let (worldSn, g) = GenerateSN g; protoRs = BroadcastCreateWorld worldId worldSn lastWorldSn in
      map_option (\<lambda>pWorldRes. ((worldSn, worldId), g,
          (if curAppType AND APP_APPMGR = 0 then [SendPacketApp MI_BroadcastCreateWorld protoRs APP_APPMGR 0] else [])
          @ (if curAppType AND APP_GAME = 0 then
               (if gameAppId \<noteq> 0 then [SendPacketApp MI_BroadcastCreateWorld protoRs APP_GAME gameAppId]
                else [SendPacketToAllApp MI_BroadcastCreateWorld protoRs APP_GAME])
             else [])
          @ (if curAppType AND APP_GAME \<noteq> 0 \<or> curAppType AND APP_APPMGR \<noteq> 0
             then [DispatchProto MI_BroadcastCreateWorld protoRs None] else [])))
        (GetResource t worldId))"

subsection \<open>What happens between messages\<close>

text \<open>
  The systems of a thread (\<open>ai_system.cpp\<close>, \<open>move_system.cpp\<close>, \<open>cmd_system.cpp\<close>) run at most every 100 milliseconds; a
  result holds the new time of the last run. (Before the first component of its kind exists a system does nothing, and
  \<open>MoveSystem\<close> does not take the time either.) Their components are in hash tables: the order of the visits does not
  matter, because a visit changes and reads nothing of the other components; the characters are visited by index.
\<close>

text \<open>A character that would read a player who is gone, or a player without a position, is undefined.\<close>

definition pointers_ok :: "(u64, space_player) smap \<Rightarrow> npc \<Rightarrow> bool" where
  "pointers_ok ps n =
     ((case n_target n of None \<Rightarrow> True | Some sn \<Rightarrow> map_of ps sn \<noteq> None)
        \<and> (case n_linker n of None \<Rightarrow> True | Some sn \<Rightarrow> map_of ps sn \<noteq> None))"

fun update_npcs :: "bt_world \<Rightarrow> (u64, space_player) smap \<Rightarrow> npc_unit list \<Rightarrow> (npc_unit list \<times> help_call list) option" where
  "update_npcs W ps [] = Some ([], [])"
| "update_npcs W ps (u # us) =
     (if \<not> pointers_ok ps (nu_npc u) then None
      else do {
        (tree, n) \<leftarrow> BtComponent_Update W (nu_tree u) (nu_npc u);
        (us, calls) \<leftarrow> update_npcs W ps us;
        let (u, cs) = flush_npc n u;
        Some (u\<lparr>nu_tree := tree\<rparr> # us, cs @ calls)
      })"

definition AISystem_Update :: "space_env \<Rightarrow> u64 \<Rightarrow> space_world \<Rightarrow> (u64 \<times> space_world \<times> help_call list) option" where
  "AISystem_Update E lastTime w =
     (if se_time E - lastTime < 100 then Some (lastTime, w, [])
      else if \<not> list_all (\<lambda>q. GetCurrPos (snd q) \<noteq> None) (w_players w) then None
      else map_option (\<lambda>(us, calls). (se_time E, w\<lparr>w_npcs := us\<rparr>, calls))
             (update_npcs (bt_view E [] w) (w_players w) (w_npcs w)))"

definition move_npc :: "floats \<Rightarrow> u64 \<Rightarrow> npc_unit \<Rightarrow> npc_unit" where
  "move_npc F timeElapsed u =
     (let (stop, pos, m) = Move_Update F timeElapsed (mc_moveSpeed (nu_move u)) (n_currPos (nu_npc u)) (nu_move u)
      in u\<lparr>nu_npc := (nu_npc u)\<lparr>n_currPos := pos\<rparr>, nu_move := m\<rparr>)"

text \<open>A player whose path has ended loses its \<open>MoveComponent\<close>.\<close>

definition move_player :: "floats \<Rightarrow> u64 \<Rightarrow> space_player \<Rightarrow> space_player option" where
  "move_player F timeElapsed p =
     (case sp_move p of
        None \<Rightarrow> Some p
      | Some m \<Rightarrow> do {
          lm \<leftarrow> sp_lastMap p;
          cur \<leftarrow> GetCur lm;
          let (stop, pos, m) = Move_Update F timeElapsed Float_5_56 (lw_Position cur) m;
          lm \<leftarrow> set_cur_position pos lm;
          Some (p\<lparr>sp_lastMap := Some lm, sp_move := (if stop then None else Some m)\<rparr>)
        })"

fun each_player :: "(space_player \<Rightarrow> space_player option) \<Rightarrow> (u64, space_player) smap \<Rightarrow> (u64, space_player) smap option" where
  "each_player f [] = Some []"
| "each_player f ((sn, p) # ps) = do { p \<leftarrow> f p; ps \<leftarrow> each_player f ps; Some ((sn, p) # ps) }"

definition MoveSystem_Update :: "space_env \<Rightarrow> u64 \<Rightarrow> space_world \<Rightarrow> (u64 \<times> space_world) option" where
  "MoveSystem_Update E lastTime w =
     (let timeElapsed = se_time E - lastTime in
      if timeElapsed < 100 then Some (lastTime, w)
      else map_option (\<lambda>ps. (se_time E, w\<lparr>w_npcs := map (move_npc (se_floats E) timeElapsed) (w_npcs w), w_players := ps\<rparr>))
             (each_player (move_player (se_floats E) timeElapsed) (w_players w)))"

text \<open>A command that ends leaves no other and sends nothing.\<close>

definition npc_hp :: "space_world \<Rightarrow> nat \<Rightarrow> int option" where
  "npc_hp w i = (if i < length (w_npcs w) then Some (n_hp (nu_npc (w_npcs w ! i))) else None)"

definition command_player :: "space_env \<Rightarrow> space_world \<Rightarrow> space_player \<Rightarrow> space_player option" where
  "command_player E w p =
     (if sp_cmd p = None then Some p else map_option fst (Cmd_Update (bt_view E [] w) (npc_hp w) p))"

definition CmdSystem_Update :: "space_env \<Rightarrow> u64 \<Rightarrow> space_world \<Rightarrow> (u64 \<times> space_world) option" where
  "CmdSystem_Update E lastTime w =
     (if se_time E - lastTime < 100 then Some (lastTime, w)
      else map_option (\<lambda>ps. (se_time E, w\<lparr>w_players := ps\<rparr>)) (each_player (command_player E w) (w_players w)))"

end
