(* ===== verification/SpaceRuns.thy ===== *)
theory SpaceRuns
  imports SpaceWorld
begin

text \<open>
  Runs of a world: its messages, its timers and the systems that move its players and characters, in any order. What a
  client is told of the other players, which players its characters point to, and what hits do.
\<close>

subsection \<open>Updates of a character\<close>

text \<open>
  The contract between the actions of a character and the engine of its tree: a relation that every action, the end of
  every action and every change of the queue keeps is kept by a whole update.
\<close>

locale npc_relation =
  fixes R :: "bt_world \<Rightarrow> npc \<Rightarrow> npc \<Rightarrow> bool"
  assumes R_refl [simp]: "R W n n"
    and R_trans: "R W n n' \<Longrightarrow> R W n' n'' \<Longrightarrow> R W n n''"
    and R_Enter: "R W n (snd (act_Enter W a v n))"
    and R_task: "R W n (snd (snd (act_task W a v n)))"
    and R_Exit [simp]: "R W n (act_Exit a n)"
    and R_events: "R W n (n\<lparr>n_events := es\<rparr>)"
begin

lemma ForceExit_R [simp]:
  "R W n (snd (ForceExit s b n))" "R W n (snd (ForceExit_all cs n))" "R W n (snd (ForceExit_nth s i cs n))"
proof (induction s b n and cs n and s i cs n rule: ForceExit_ForceExit_all_ForceExit_nth.induct)
  case (9 c cs n)
  then show ?case by (cases "ForceExit Invalid c n") (auto simp: case_prod_beta intro: R_trans)
qed (auto simp: case_prod_beta split: option.splits)

lemma Reset_R [simp]: "R W n (snd (Reset b n))"
  by (cases b) (auto simp: case_prod_beta split: option.splits)

lemma leave_R: "R W m n \<Longrightarrow> R W m (snd (leave b n))"
  by (auto simp: leave_def node_Exit_def intro: R_trans)

lemma SwitchNode_R: "SwitchNode i cur nodes cs n = Some (cur', cs', n') \<Longrightarrow> R W n n'"
  by (auto simp: SwitchNode_def split: if_splits prod.splits) (metis ForceExit_R(3) snd_conv)

lemma Tick_R:
  "R W n (snd (Tick W b n))"
  "R W n (snd (snd (snd (exec_selector W cs i n))))"
  "R W n (snd (snd (snd (exec_sequence W cs i n))))"
  "R W n (snd (snd (exec_parallel W policy cs sc fc n)))"
  "R W n (snd (Tick_nth W i cs n))"
proof (induction W b n and W cs i n and W cs i n and W policy cs sc fc n and W i cs n
    rule: Tick_exec_selector_exec_sequence_exec_parallel_Tick_nth.induct)
  case (1 W a st v n)
  let ?e = "if st \<noteq> Running then act_Enter W a v n else (v, n)"
  have "R W n (snd ?e)" using R_Enter by simp
  then have "R W n (snd (snd (act_task W a (fst ?e) (snd ?e))))" using R_trans R_task by blast
  then show ?case using leave_R by (auto simp: Tick.simps case_prod_beta Let_def)
next
  case (2 W f st n)
  show ?case by (auto simp: Tick.simps intro: leave_R)
next
  case (7 W st cnt limit c n)
  then show ?case using leave_R R_trans [OF _ Reset_R] by (auto simp: Tick.simps case_prod_beta Let_def)
next
  case (10 W c cs n)
  have IH: "R W n (snd (Tick W c n))"
    "status (fst (Tick W c n)) = Failure \<or> status (fst (Tick W c n)) = Aborted \<Longrightarrow>
      R W (snd (Tick W c n)) (snd (snd (snd (exec_selector W cs 0 (snd (Tick W c n))))))"
    using 10(1) 10(2) [OF refl prod.collapse] by auto
  show ?case using IH(1) R_trans [OF IH(1) IH(2)] by (auto simp: case_prod_beta Let_def)
next
  case (13 W c cs n)
  have IH: "R W n (snd (Tick W c n))"
    "status (fst (Tick W c n)) = Success \<or> status (fst (Tick W c n)) = Aborted \<Longrightarrow>
      R W (snd (Tick W c n)) (snd (snd (snd (exec_sequence W cs 0 (snd (Tick W c n))))))"
    using 13(1) 13(2) [OF refl prod.collapse] by auto
  show ?case using IH(1) R_trans [OF IH(1) IH(2)] by (auto simp: case_prod_beta Let_def)
next
  case (15 W policy c cs sc fc n)
  let ?c = "fst (Tick W c n)" and ?n = "snd (Tick W c n)"
  have IH: "\<not> status ?c = Aborted \<Longrightarrow> \<not> (status ?c = Success \<and> policy = PolicySelector)
      \<Longrightarrow> \<not> (status ?c = Failure \<and> policy = PolicySequence)
      \<Longrightarrow> R W ?n (snd (snd (exec_parallel W policy cs (if status ?c = Success then sc + 1 else sc)
            (if status ?c = Failure then fc + 1 else fc) ?n)))"
    by (rule 15(2) [OF refl prod.collapse])
  show ?case using 15(1) R_trans [OF 15(1) IH] by (simp add: case_prod_beta Let_def)
qed (auto simp: case_prod_beta Let_def Tick.simps intro: leave_R split: option.splits)

lemma HandleEvent_R:
  "HandleEvent i b n = Some (b', n') \<Longrightarrow> R W n n'"
  "HandleEvent_all i cs n = Some (cs', n') \<Longrightarrow> R W n n'"
proof (induction i b n and i cs n arbitrary: b' n' and cs' n' rule: HandleEvent_HandleEvent_all.induct)
  case (6 i st cur nodes cs n)
  then show ?case by (cases "map_of nodes i") (auto simp: bind_eq_Some_conv dest: SwitchNode_R)
next
  case (7 i st cnt limit c n)
  show ?case
  proof (cases "i = EvBirth")
    case True
    then show ?thesis using 7(2) Reset_R [of W n c] by (auto simp: case_prod_beta)
  next
    case False
    then show ?thesis using 7 by (auto simp: bind_eq_Some_conv)
  qed
next
  case (9 i c cs n)
  from 9(3) obtain c1 n1 cs1 where h: "HandleEvent i c n = Some (c1, n1)" "HandleEvent_all i cs n1 = Some (cs1, n')"
    by (auto simp: bind_eq_Some_conv)
  show ?case using 9(1) [OF h(1)] 9(2) [OF h(1) refl h(2)] by (rule R_trans)
qed (auto simp: bind_eq_Some_conv)

lemma event_loop_R: "event_loop b n = Some (b', n') \<Longrightarrow> R W n n'"
proof (induction b n rule: event_loop.induct)
  case (1 root n)
  show ?case
  proof (cases "n_events n = []")
    case True
    then show ?thesis using 1(2) by simp
  next
    case False
    let ?n = "n\<lparr>n_events := butlast (pop_heap ev_key (n_events n))\<rparr>"
    obtain b1 n1 where h: "HandleEvent (fst (front_after_pop (n_events n))) root ?n = Some (b1, n1)"
      "event_loop b1 n1 = Some (b', n')"
      using 1(2) False by (subst (asm) event_loop.simps) (auto simp: Let_def split: option.splits)
    have "R W n1 n'" using 1(1) [OF False refl h(1)] h(2) by simp
    then show ?thesis using R_trans [OF R_events] R_trans [OF HandleEvent_R(1) [OF h(1)]] by blast
  qed
qed

lemma Update_R: "BtComponent_Update W b n = Some (b', n') \<Longrightarrow> R W n n'"
  using R_trans [OF Tick_R(1) event_loop_R] by (auto simp: BtComponent_Update_def case_prod_beta)

end

text \<open>Messages that do not change whom a client sees.\<close>

fun quiet :: "help_call \<Rightarrow> bool" where
  "quiet (SendPacket m p i) =
     (case p of S2CEnterWorld a b \<Rightarrow> False | AllRoleAppear rs \<Rightarrow> False | RoleDisappear sn \<Rightarrow> False | _ \<Rightarrow> True)"
| "quiet c = True"

text \<open>An update sends quiet messages only, and points to nobody but players of the world.\<close>

definition tree_step :: "bt_world \<Rightarrow> npc \<Rightarrow> npc \<Rightarrow> bool" where
  "tree_step W n n' =
     ((\<exists>cs. n_calls n' = n_calls n @ cs \<and> list_all quiet cs)
        \<and> n_target n' \<in> {None, n_target n} \<union> Some ` set (bw_getAll W)
        \<and> n_linker n' \<in> {None, n_linker n} \<union> Some ` set (bw_getAll W))"

lemma tree_step_refl [simp]: "tree_step W n n"
  by (simp add: tree_step_def)

lemma tree_step_trans: "tree_step W n n' \<Longrightarrow> tree_step W n' n'' \<Longrightarrow> tree_step W n n''"
  unfolding tree_step_def by auto

lemma quiet_broadcast [simp]:
  "list_all quiet (BroadcastPacket W m p) = (bw_getAll W = [] \<or> quiet (SendPacket m p undefined))"
  by (auto simp: BroadcastPacket_def list_all_iff split: proto.splits)

lemma tree_step_sends [simp]: "tree_step W n (npc_sends cs n') = (list_all quiet cs \<and> tree_step W n n')" if "n_calls n' = n_calls n"
  using that by (auto simp: tree_step_def npc_sends_def)

lemma tree_step_exit [simp]: "tree_step W n (act_Exit a n)"
  by (cases a) (simp_all add: tree_step_def)

lemma tree_step_enter: "tree_step W n (snd (act_Enter W a v n))"
  by (cases a) (auto simp: act_Broadcast_defs tree_step_def npc_sends_def Let_def SetPatrolPoint_def BroadcastPacket_def
      list_all_iff split: option.splits)

lemma GetNearestPlayer_mem: "GetNearestPlayer W pos \<in> insert None (Some ` set (bw_getAll W))"
proof -
  have "snd (foldl (\<lambda>(dist, player) sn.
            let temp = GetManhaDist (bw_floats W) pos (bw_position W sn)
            in if fl_less (bw_floats W) temp dist then (temp, Some sn) else (dist, player)) (d, p) sns)
          \<in> insert p (Some ` set sns)" for sns d p
  proof (induction sns arbitrary: d p)
    case (Cons sn sns)
    show ?case using Cons [of d p] Cons [of "GetManhaDist (bw_floats W) pos (bw_position W sn)" "Some sn"]
      by (auto simp: Let_def)
  qed simp
  then show ?thesis unfolding GetNearestPlayer_def by fastforce
qed

lemma tree_step_view_link: "tree_step W n (view_link W n)"
  using GetNearestPlayer_mem [of W "n_currPos n"]
  by (auto simp: view_link_def SetLinkPlayer_def tree_step_def npc_sends_def Let_def split: option.splits)

lemma tree_step_view_loop: "set ps \<subseteq> set (bw_getAll W) \<Longrightarrow> tree_step W n (view_loop W ps n)"
  by (induction ps) (auto simp: tree_step_def Bt_AddEvent_def)

lemma tree_step_events [simp]: "tree_step W n (n'\<lparr>n_events := es\<rparr>) = tree_step W n n'"
  "tree_step W n (Bt_AddEvent i k n') = tree_step W n n'" "tree_step W n (n'\<lparr>n_fleeing := b\<rparr>) = tree_step W n n'"
  "tree_step W n (n'\<lparr>n_hp := h\<rparr>) = tree_step W n n'"
  by (simp_all add: tree_step_def Bt_AddEvent_def)

lemma tree_step_view: "tree_step W n (snd (ViewTask W n))"
proof -
  let ?n = "if n_target (view_link W n) = None then view_loop W (bw_getAll W) (view_link W n) else view_link W n"
  have "tree_step W n ?n" using tree_step_trans [OF tree_step_view_link tree_step_view_loop [OF order_refl]] tree_step_view_link
    by simp
  then show ?thesis by (simp add: ViewTask_def Let_def)
qed

lemma tree_step_task: "tree_step W n (snd (snd (act_task W a v n)))"
  using tree_step_view [of W n]
  by (cases a) (auto simp: AttackTask_def BirthTask_def DeathTask_def FleeTask_def IdleTask_def PatrolTask_def PursueTask_def
      SenseTask_def Let_def case_prod_beta)

interpretation tree: npc_relation tree_step
  by unfold_locales (auto simp: tree_step_enter tree_step_task intro: tree_step_trans)

subsection \<open>What a client sees\<close>

text \<open>
  The game server hands a message of the world to the client of the player in the tags. The client knows the players it
  has been told of since it entered the world.
\<close>

definition tagged_player :: "net_identify \<Rightarrow> u64 option" where
  "tagged_player i = map_option KeyInt64 (GetTagValue (ni_tags i) TagPlayer)"

definition shows_on :: "proto \<Rightarrow> u64 set \<Rightarrow> u64 set" where
  "shows_on p v =
     (case p of
        S2CEnterWorld worldId pos \<Rightarrow> {}
      | AllRoleAppear roles \<Rightarrow> v \<union> ro_sn ` set roles
      | RoleDisappear sn \<Rightarrow> v - {sn}
      | _ \<Rightarrow> v)"

definition client_step :: "u64 \<Rightarrow> help_call \<Rightarrow> u64 set \<Rightarrow> u64 set" where
  "client_step q c v =
     (case c of SendPacket msgId p i \<Rightarrow> (if tagged_player i = Some q then shows_on p v else v) | _ \<Rightarrow> v)"

definition client_view :: "u64 \<Rightarrow> help_call list \<Rightarrow> u64 set \<Rightarrow> u64 set" where
  "client_view q cs v = fold (client_step q) cs v"

lemma client_view_simps [simp]:
  "client_view q [] v = v" "client_view q (c # cs) v = client_view q cs (client_step q c v)"
  "client_view q (cs @ cs') v = client_view q cs' (client_view q cs v)"
  by (simp_all add: client_view_def)

lemma client_step_quiet: "quiet c \<Longrightarrow> client_step q c v = v"
  by (cases c) (auto simp: client_step_def shows_on_def split: proto.splits)

lemma client_view_quiet: "list_all quiet cs \<Longrightarrow> client_view q cs v = v"
  by (induction cs arbitrary: v) (simp_all add: client_step_quiet)

lemma shows_on_again: "shows_on p (shows_on p v) = shows_on p v"
  by (auto simp: shows_on_def split: proto.splits)

lemma client_view_sends:
  "client_view q (map (\<lambda>x. SendPacket m p (f x)) xs) v = (if \<exists>x \<in> set xs. tagged_player (f x) = Some q then shows_on p v else v)"
  by (induction xs arbitrary: v) (auto simp: client_step_def shows_on_again)

definition who :: "space_player \<Rightarrow> u64 \<times> net_identify" where
  "who p = (sp_playerSn p, sp_ident p)"

lemma who_eq: "(who p = who p') = (sp_playerSn p = sp_playerSn p' \<and> sp_ident p = sp_ident p')"
  by (simp add: who_def)

text \<open>The table of a world holds each player under its own serial number, with an identity that is tagged with it.\<close>

definition player_ok :: "u64 \<Rightarrow> space_player \<Rightarrow> bool" where
  "player_ok k p = (sp_playerSn p = k \<and> tagged_player (sp_ident p) = Some k)"

definition table_ok :: "space_world \<Rightarrow> bool" where
  "table_ok w = (smap_ok (w_players w) \<and> (\<forall>k p. map_of (w_players w) k = Some p \<longrightarrow> player_ok k p))"

lemma table_okD: "table_ok w \<Longrightarrow> map_of (w_players w) k = Some p \<Longrightarrow> player_ok k p"
  by (simp add: table_ok_def)

lemma table_ok_mem: "table_ok w \<Longrightarrow> ((k, p) \<in> set (w_players w)) = (map_of (w_players w) k = Some p)"
  by (simp add: table_ok_def smap_ok_mem)

lemma view_broadcast:
  assumes "table_ok w"
  shows "client_view q (World_Broadcast m p w) v = (if map_of (w_players w) q \<noteq> None then shows_on p v else v)"
proof -
  have "(\<exists>x \<in> set (w_players w). tagged_player (sp_ident (snd x)) = Some q) = (map_of (w_players w) q \<noteq> None)"
    using table_ok_mem [OF assms] table_okD [OF assms] by (force simp: player_ok_def)
  then show ?thesis by (simp add: World_Broadcast_def client_view_sends)
qed

lemma view_broadcast_to:
  assumes "table_ok w"
  shows "client_view q (World_Broadcast_to m p ps w) v
    = (if map_of ps q \<noteq> None \<and> map_of (w_players w) q \<noteq> None then shows_on p v else v)"
proof -
  have "client_view q (World_Broadcast_to m p ps w) v
    = (if q \<in> fst ` set ps \<and> map_of (w_players w) q \<noteq> None then shows_on p v else v)"
  proof (induction ps arbitrary: v)
    case (Cons x ps)
    have "client_view q (case map_of (w_players w) (fst x) of None \<Rightarrow> [] | Some p' \<Rightarrow> [SendPacket m p (sp_ident p')]) v
      = (if fst x = q \<and> map_of (w_players w) q \<noteq> None then shows_on p v else v)"
      using table_okD [OF assms, of "fst x"] by (auto simp: client_step_def player_ok_def split: option.splits)
    then show ?case using Cons by (auto simp: World_Broadcast_to_def Mgr_GetPlayerBySn_def shows_on_again)
  qed (simp add: World_Broadcast_to_def)
  then show ?thesis by (simp add: map_of_eq_None_iff)
qed

subsection \<open>Steps that change nobody's view\<close>

text \<open>Who is in the world, and who has just come, is the same in both.\<close>

definition same_people :: "space_world \<Rightarrow> space_world \<Rightarrow> bool" where
  "same_people w w' =
     (w_adds w' = w_adds w \<and> (smap_ok (w_players w) \<longrightarrow> smap_ok (w_players w'))
        \<and> (\<forall>k. map_option who (map_of (w_players w') k) = map_option who (map_of (w_players w) k)))"

text \<open>The characters point to players of the world only, and the calls they make have been taken out of their records.\<close>

definition unit_ok :: "(u64, space_player) smap \<Rightarrow> npc \<Rightarrow> bool" where
  "unit_ok ps n = (pointers_ok ps n \<and> n_calls n = [])"

definition npcs_ok :: "space_world \<Rightarrow> bool" where
  "npcs_ok w = (\<forall>u \<in> set (w_npcs w). unit_ok (w_players w) (nu_npc u))"

text \<open>A step is calm when it leaves the people as they are, sends quiet messages and keeps the pointers of the characters.\<close>

definition calm :: "space_world \<Rightarrow> (space_world \<times> help_call list) option \<Rightarrow> bool" where
  "calm w r =
     (case r of None \<Rightarrow> True
      | Some (w', cs) \<Rightarrow> same_people w w' \<and> list_all quiet cs \<and> (npcs_ok w \<longrightarrow> npcs_ok w'))"

lemma calm_simps [simp]:
  "calm w None" "calm w (Some (w', cs)) = (same_people w w' \<and> list_all quiet cs \<and> (npcs_ok w \<longrightarrow> npcs_ok w'))"
  by (simp_all add: calm_def)

lemma same_people_refl [simp]: "same_people w w"
  by (simp add: same_people_def)

lemma same_people_trans: "same_people w w' \<Longrightarrow> same_people w' w'' \<Longrightarrow> same_people w w''"
  by (simp add: same_people_def)

lemma same_people_fields [simp]:
  "same_people w (w'\<lparr>w_npcs := us\<rparr>) = same_people w w'" "same_people w (w'\<lparr>w_npcIdxMap := m\<rparr>) = same_people w w'"
  by (simp_all add: same_people_def)

lemma same_people_None: "same_people w w' \<Longrightarrow> (map_of (w_players w') k = None) = (map_of (w_players w) k = None)"
  unfolding same_people_def by (metis option.map_disc_iff)

lemma same_people_table: "same_people w w' \<Longrightarrow> table_ok w \<Longrightarrow> table_ok w'"
  unfolding same_people_def table_ok_def player_ok_def
  by (metis (no_types, lifting) map_option_eq_Some who_eq)

text \<open>A record that stands for a player of the world.\<close>

definition held :: "space_world \<Rightarrow> space_player \<Rightarrow> bool" where
  "held w p = (map_option who (map_of (w_players w) (sp_playerSn p)) = Some (who p))"

lemma held_table: "table_ok w \<Longrightarrow> map_of (w_players w) k = Some p \<Longrightarrow> held w p \<and> sp_playerSn p = k"
  using table_okD [of w k p] by (simp add: held_def player_ok_def)

lemma held_who: "who p' = who p \<Longrightarrow> held w p' = held w p"
  by (simp add: held_def who_eq)

lemma held_same_people: "same_people w w' \<Longrightarrow> held w' p = held w p"
  by (simp add: held_def same_people_def)

lemma same_people_set_sp: "held w p \<Longrightarrow> same_people w (set_sp p w)"
  by (auto simp: same_people_def set_sp_def held_def)

lemma pointers_same: "same_people w w' \<Longrightarrow> pointers_ok (w_players w') n = pointers_ok (w_players w) n"
  by (simp add: pointers_ok_def same_people_None split: option.splits)

lemma unit_same: "same_people w w' \<Longrightarrow> unit_ok (w_players w') n = unit_ok (w_players w) n"
  by (simp add: unit_ok_def pointers_same)

lemma npcs_ok_same: "same_people w w' \<Longrightarrow> w_npcs w' = w_npcs w \<Longrightarrow> npcs_ok w' = npcs_ok w"
  by (simp add: npcs_ok_def unit_same)

lemma npcs_ok_set_sp: "held w p \<Longrightarrow> npcs_ok (set_sp p w) = npcs_ok w"
  by (rule npcs_ok_same [OF same_people_set_sp]) (simp_all add: set_sp_def)

lemma npcs_ok_update:
  "npcs_ok w \<Longrightarrow> unit_ok (w_players w) (nu_npc u) \<Longrightarrow> npcs_ok (w\<lparr>w_npcs := (w_npcs w)[i := u]\<rparr>)"
  unfolding npcs_ok_def using set_update_subset_insert by fastforce

lemma npcs_ok_nth: "npcs_ok w \<Longrightarrow> i < length (w_npcs w) \<Longrightarrow> unit_ok (w_players w) (nu_npc (w_npcs w ! i))"
  by (simp add: npcs_ok_def)

lemma quiet_World_Broadcast [simp]: "quiet (SendPacket m p undefined) \<Longrightarrow> list_all quiet (World_Broadcast m p w)"
  by (auto simp: World_Broadcast_def list_all_iff split: proto.splits)

lemma quiet_Cmd [simp]: "list_all quiet (Cmd_Broadcast W sn c)" "list_all quiet (Cmd_Singlecast sn c i)"
  by (cases "cm_type c"; simp add: Cmd_Broadcast_def Cmd_Singlecast_def NoneCommand_Broadcast_def MoveCommand_Broadcast_def
      AttackCommand_Broadcast_def PickCommand_Broadcast_def TeleportCommand_Broadcast_def ObserveCommand_Broadcast_def
      PvpCommand_Broadcast_def DeathCommand_Broadcast_def NoneCommand_Singlecast_def MoveCommand_Singlecast_def
      AttackCommand_Singlecast_def PickCommand_Singlecast_def TeleportCommand_Singlecast_def ObserveCommand_Singlecast_def
      PvpCommand_Singlecast_def DeathCommand_Singlecast_def)+

lemma who_fields [simp]:
  "who (p\<lparr>sp_detail := a\<rparr>) = who p" "who (p\<lparr>sp_lastMap := b\<rparr>) = who p" "who (p\<lparr>sp_cmd := c\<rparr>) = who p"
  "who (p\<lparr>sp_move := d\<rparr>) = who p"
  by (simp_all add: who_def)

lemma ChangeCmd_calm:
  assumes "ChangeCmd W c p = Some (p', cs)"
  shows "who p' = who p \<and> list_all quiet cs"
  using assms
  by (auto simp: ChangeCmd_def Command_Enter_def Command_Exit_def NoneCommand_Enter_def NoneCommand_Exit_def Let_def
      bind_eq_Some_conv split: option.splits if_splits)

lemma Serialize_who: "SpacePlayer_SerializeToProto p = Some (proto, p') \<Longrightarrow> who p' = who p"
  by (auto simp: SpacePlayer_SerializeToProto_def Let_def split: option.splits)

lemma held_fields [simp]:
  "held w (p\<lparr>sp_detail := a\<rparr>) = held w p" "held w (p\<lparr>sp_lastMap := b\<rparr>) = held w p" "held w (p\<lparr>sp_cmd := c\<rparr>) = held w p"
  "held w (p\<lparr>sp_move := d\<rparr>) = held w p"
  by (simp_all add: held_def)

lemma calm_set_sp:
  assumes "held w p" "list_all quiet cs"
  shows "calm w (Some (set_sp p w, cs))"
  using assms same_people_set_sp npcs_ok_set_sp by simp

lemma npc_at_calm:
  assumes "npc_at sn w = Some (i, w')"
  shows "w_players w' = w_players w \<and> w_npcs w' = w_npcs w \<and> w_adds w' = w_adds w \<and> i < length (w_npcs w)"
  using assms by (auto simp: npc_at_def Let_def split: option.splits if_splits)

lemma npc_at_same: "npc_at sn w = Some (i, w') \<Longrightarrow> same_people w w' \<and> npcs_ok w' = npcs_ok w"
  using npc_at_calm [of sn w i w'] by (simp add: same_people_def npcs_ok_def)

lemma calm_after:
  assumes "same_people w w1" "npcs_ok w \<Longrightarrow> npcs_ok w1" "calm w1 r"
  shows "calm w r"
  using assms same_people_trans by (cases r) auto

lemma calm_request:
  assumes "held w p"
  shows "calm w (HandleRequestSyncPlayer p w)"
proof (cases "SpacePlayer_SerializeToProto p")
  case (Some r)
  obtain proto p' where r: "r = (proto, p')" by force
  have "held w p'" using assms held_who [OF Serialize_who] Some r by blast
  then show ?thesis by (simp add: HandleRequestSyncPlayer_def Some r same_people_set_sp npcs_ok_set_sp)
qed (simp add: HandleRequestSyncPlayer_def)

lemma calm_player_move: "held w p \<Longrightarrow> calm w (HandlePlayerMove E p sn r vs w)"
  by (cases "GetCurrPos p") (simp_all add: HandlePlayerMove_def same_people_set_sp npcs_ok_set_sp Let_def)

lemma calm_npc_move: "calm w (HandleNpcMove E sn r vs w)"
proof (cases "npc_at sn w")
  case (Some q)
  obtain i w1 where q: "q = (i, w1)" by force
  have s: "same_people w w1" "npcs_ok w1 = npcs_ok w" "i < length (w_npcs w1)"
    using npc_at_same [of sn w i w1] npc_at_calm [of sn w i w1] Some q by auto
  show ?thesis using s npcs_ok_nth [OF _ s(3)] by (auto simp: HandleNpcMove_def Some q Let_def intro!: npcs_ok_update)
qed (simp add: HandleNpcMove_def)

lemma pointers_ok_fields [simp]:
  "pointers_ok ps (n\<lparr>n_currPos := v\<rparr>) = pointers_ok ps n" "pointers_ok ps (n\<lparr>n_calls := cs\<rparr>) = pointers_ok ps n"
  "pointers_ok ps (n\<lparr>n_hp := h\<rparr>) = pointers_ok ps n" "pointers_ok ps (Bt_AddEvent e k n) = pointers_ok ps n"
  "pointers_ok ps (npc_sends cs n) = pointers_ok ps n"
  by (simp_all add: pointers_ok_def Bt_AddEvent_def npc_sends_def)

lemma unit_ok_fields [simp]:
  "unit_ok ps (n\<lparr>n_currPos := v\<rparr>) = unit_ok ps n" "unit_ok ps (n\<lparr>n_hp := h\<rparr>) = unit_ok ps n"
  "unit_ok ps (Bt_AddEvent e k n) = unit_ok ps n"
  by (simp_all add: unit_ok_def) (simp add: Bt_AddEvent_def)

lemma calm_npc_pos: "calm w (map_option (\<lambda>w. (w, [])) (HandleSyncNpcPos sn v w))"
proof (cases "npc_at sn w")
  case (Some q)
  obtain i w1 where q: "q = (i, w1)" by force
  have s: "same_people w w1" "npcs_ok w1 = npcs_ok w" "i < length (w_npcs w1)"
    using npc_at_same [of sn w i w1] npc_at_calm [of sn w i w1] Some q by auto
  show ?thesis using s npcs_ok_nth [OF _ s(3)] by (auto simp: HandleSyncNpcPos_def Some q Let_def intro!: npcs_ok_update)
qed (simp add: HandleSyncNpcPos_def)

lemma calm_knap_item: "held w p \<Longrightarrow> calm w (map_option (\<lambda>w. (w, [])) (HandleUpdateKnapItem p item w))"
  by (auto simp: HandleUpdateKnapItem_def calm_def bind_eq_Some_conv same_people_set_sp npcs_ok_set_sp split: option.splits)

lemma calm_knap_gold: "held w p \<Longrightarrow> calm w (map_option (\<lambda>w. (w, [])) (HandleUpdateKnapGold p gold w))"
  by (auto simp: HandleUpdateKnapGold_def calm_def bind_eq_Some_conv same_people_set_sp npcs_ok_set_sp split: option.splits)

lemma calm_player_pos: "held w p \<Longrightarrow> calm w (map_option (\<lambda>w. (w, [])) (HandleSyncPlayerPos p v w))"
  by (auto simp: HandleSyncPlayerPos_def calm_def bind_eq_Some_conv same_people_set_sp npcs_ok_set_sp split: option.splits)

lemma calm_knap: "calm w (map_option (\<lambda>calls. (w, calls)) (GetPlayerKnap p))"
  by (cases "sp_detail p") (simp_all add: GetPlayerKnap_def)

lemma calm_npc_info: "calm w (map_option (\<lambda>calls. (w, calls)) (HandleReqNpcInfo p i w))"
  by (simp add: HandleReqNpcInfo_def Let_def)

lemma calm_req_player: "calm w (map_option (\<lambda>calls. (w, calls)) (HandleReqSyncPlayer p sn w))"
  by (auto simp: HandleReqSyncPlayer_def calm_def bind_eq_Some_conv split: option.splits)

lemma command_of_same: "command_of ty sn v w = Some (c, w') \<Longrightarrow> same_people w w' \<and> npcs_ok w' = npcs_ok w"
  by (auto simp: command_of_def dest: npc_at_same split: if_splits)

lemma calm_cmd:
  assumes "held w p"
  shows "calm w (HandleSyncPlayerCmd E p ty sn v w)"
proof (cases "command_of ty sn v w")
  case (Some q)
  obtain c w1 where q: "q = (c, w1)" by force
  have s: "same_people w w1" "npcs_ok w1 = npcs_ok w" using command_of_same Some q by auto
  have h: "held w1 p" using assms held_same_people [OF s(1)] by simp
  show ?thesis
  proof (cases c)
    case (Some c)
    have "calm w1 (map_option (\<lambda>(p, calls). (set_sp p w1, calls)) (ChangeCmd W (Some c) p))" for W
    proof (cases "ChangeCmd W (Some c) p")
      case (Some r)
      obtain p1 cs where r: "r = (p1, cs)" by force
      have "who p1 = who p" "list_all quiet cs" using ChangeCmd_calm [of W _ p p1 cs] Some r by auto
      then show ?thesis using h calm_set_sp [of w1 p1 cs] held_who [of p1 p w1] by (simp add: Some r)
    qed simp
    then show ?thesis using calm_after [OF s(1)] s(2) by (simp add: HandleSyncPlayerCmd_def \<open>command_of ty sn v w = Some q\<close> q Some)
  qed (use s in \<open>simp add: HandleSyncPlayerCmd_def Some q\<close>)
qed (simp add: HandleSyncPlayerCmd_def)

lemma act_Singlecast_quiet:
  "\<exists>cs. act_Singlecast W a i player n = npc_sends cs n \<and> list_all quiet cs"
proof -
  have "n = npc_sends [] n" by (simp add: npc_sends_def)
  then show ?thesis
    by (cases a) (force simp: Attack_Singlecast_def Birth_Singlecast_def Death_Singlecast_def Flee_Singlecast_def
        Idle_Singlecast_def Patrol_Singlecast_def Pursue_Singlecast_def split: option.splits)+
qed

lemma SyncAction_quiet: "\<exists>cs. SyncAction W player n = npc_sends cs n \<and> list_all quiet cs"
proof -
  have "n = npc_sends [] n" by (simp add: npc_sends_def)
  then show ?thesis using act_Singlecast_quiet by (force simp: SyncAction_def split: option.splits)
qed

lemma calm_bt_action:
  assumes "held w p" "npcs_ok w"
  shows "calm w (HandleSyncBtAction E p i w)"
proof (cases "i < 0 \<or> int (length (w_npcs w)) \<le> i \<or> target_gone w (nu_npc (w_npcs w ! nat i))")
  case False
  let ?n = "nu_npc (w_npcs w ! nat i)" and ?W = "bt_view E [] w"
  have i: "nat i < length (w_npcs w)" using False by auto
  obtain cs where cs: "SyncAction ?W (sp_playerSn p) ?n = npc_sends cs ?n" "list_all quiet cs" using SyncAction_quiet by blast
  have "n_calls ?n = []" using npcs_ok_nth [OF assms(2) i] by (simp add: unit_ok_def)
  moreover have "map_of (w_players w) (sp_playerSn p) \<noteq> None" using assms(1) by (auto simp: held_def)
  ultimately show ?thesis using False cs npcs_ok_nth [OF _ i]
    by (auto simp: HandleSyncBtAction_def Let_def flush_npc_def npc_sends_def SetLinkPlayer_def unit_ok_def pointers_ok_def
        intro!: npcs_ok_update split: option.splits)
qed (auto simp: HandleSyncBtAction_def Let_def)

lemma member_calls_quiet: "quiet (SendPacket S2C_SyncPlayerProps p undefined) \<Longrightarrow> member_calls T cw sn p sns = Some cs \<Longrightarrow> list_all quiet cs"
  by (induction sns arbitrary: cs) (auto simp: bind_eq_Some_conv split: if_splits proto.splits)

lemma sync_props_quiet: "sync_props T sn w = Some cs \<Longrightarrow> list_all quiet cs"
  by (auto simp: sync_props_def team_calls_def Let_def bind_eq_Some_conv split: option.splits dest!: member_calls_quiet [rotated])

lemma calm_hurt_npc:
  assumes "table_ok w"
  shows "calm w (Player_GetDamage_npc T enemy sn w)"
proof (cases "map_of (w_players w) sn")
  case (Some p)
  show ?thesis
  proof (cases "sp_detail p")
    case d: (Some d)
    let ?w = "set_sp (p\<lparr>sp_detail := Some (hit (n_atk enemy) d)\<rparr>) w"
    have "held w p" using held_table [OF assms Some] by simp
    then show ?thesis using sync_props_quiet [of T sn ?w]
      by (auto simp: Player_GetDamage_npc_def Mgr_GetPlayerBySn_def Some d calm_def bind_eq_Some_conv Let_def
          same_people_set_sp npcs_ok_set_sp split: option.splits)
  qed (simp add: Player_GetDamage_npc_def Mgr_GetPlayerBySn_def Some)
qed (simp add: Player_GetDamage_npc_def Mgr_GetPlayerBySn_def)

lemma calm_reset:
  assumes "table_ok w" "map_of (w_players w) sn = Some a" "ResetCmd W a = Some (a', cs)" "list_all quiet cs'"
  shows "calm w (Some (set_sp a' w, cs @ cs'))"
proof -
  have "who a' = who a" "list_all quiet cs" using ChangeCmd_calm assms(3) by (auto simp: ResetCmd_def)
  then show ?thesis using held_table [OF assms(1,2)] held_who [of a' a w] assms(4) by (intro calm_set_sp) auto
qed

lemma calm_chain:
  assumes "calm w (Some (w1, cs1))" "\<And>w2 cs2. r = Some (w2, cs2) \<Longrightarrow> calm w1 (Some (w2, cs2))"
  shows "calm w (map_option (\<lambda>(w2, cs2). (w2, cs1 @ cs2)) r)"
  using assms same_people_trans [of w w1] by (cases r) auto

lemma calm_bind: "(\<And>x. m = Some x \<Longrightarrow> calm w (f x)) \<Longrightarrow> calm w (Option.bind m f)"
  by (cases m) simp_all

lemma calm_then:
  assumes "calm w m" "\<And>w' cs. m = Some (w', cs) \<Longrightarrow> calm w (Some (w', cs)) \<Longrightarrow> calm w (f w' cs)"
  shows "calm w (Option.bind m (\<lambda>(w', cs). f w' cs))"
  using assms by (cases m) auto

lemma calm_player_killed:
  assumes "table_ok w"
  shows "calm w (player_killed E atker sn w)"
  unfolding player_killed_def Mgr_GetPlayerBySn_def
proof (intro calm_bind)
  fix a r assume a: "map_of (w_players w) atker = Some a" "ResetCmd (bt_view E [] w) a = Some r"
  obtain a' calls where r: "r = (a', calls)" by force
  have "calm w (Some (set_sp a' w, calls @ World_Broadcast S2C_SyncPlayerCmd
      (SyncPlayerCmd (cmd_number CmdDeath) Vector3_Zero sn atker) w))"
    by (rule calm_reset [OF assms a(1)]) (use a(2) r in simp_all)
  then show "calm w (case r of (a, calls) \<Rightarrow> Some (set_sp a w, calls @ World_Broadcast S2C_SyncPlayerCmd
      (SyncPlayerCmd (cmd_number CmdDeath) Vector3_Zero sn atker) w))" by (simp only: r prod.case)
qed

lemma calm_hurt:
  assumes "table_ok w"
  shows "calm w (Player_GetDamage E T atker sn w)"
  unfolding Player_GetDamage_def Mgr_GetPlayerBySn_def Let_def
proof (rule calm_bind, rule calm_bind, rule calm_bind, rule calm_bind)
  fix a ad p d assume p: "map_of (w_players w) sn = Some p"
  let ?w = "set_sp (p\<lparr>sp_detail := Some (hit (dt_atk ad) d)\<rparr>) w"
  have w1: "calm w (Some (?w, []))" using held_table [OF assms p] by (intro calm_set_sp) auto
  then have "table_ok ?w" using same_people_table [OF _ assms] by simp
  then have "calm ?w (if dt_hp (hit (dt_atk ad) d) = 0 then player_killed E atker sn ?w else Some (?w, []))"
    using calm_player_killed by simp
  then have k: "calm w (if dt_hp (hit (dt_atk ad) d) = 0 then player_killed E atker sn ?w else Some (?w, []))"
    using w1 calm_after [of w ?w] by simp
  show "calm w (Option.bind (if dt_hp (hit (dt_atk ad) d) = 0 then player_killed E atker sn ?w else Some (?w, []))
      (\<lambda>(w, killed). Option.bind (sync_props T sn w) (\<lambda>calls. Some (w, killed @ calls))))"
    by (rule calm_then [OF k], rule calm_bind) (auto dest: sync_props_quiet)
qed

lemma calm_npc_killed:
  assumes "table_ok w"
  shows "calm w (npc_killed E atker n w)"
  unfolding npc_killed_def Mgr_GetPlayerBySn_def Let_def
proof (intro calm_bind)
  fix a r assume a: "map_of (w_players w) atker = Some a" "ResetCmd (bt_view E [] w) a = Some r"
  obtain a' calls where r: "r = (a', calls)" by force
  have "who a' = who a" "list_all quiet calls" using ChangeCmd_calm a(2) r by (auto simp: ResetCmd_def)
  moreover from this have "held w a'" using held_who [of a' a w] held_table [OF assms a(1)] by blast
  ultimately show "calm w (case r of (a, calls) \<Rightarrow> Option.bind (sp_detail a) (\<lambda>ad. Some (set_sp (a\<lparr>sp_detail :=
      Some (ad\<lparr>dt_xp := dt_xp ad + (n_atk n + n_lv n) * 5, dt_gold := dt_gold ad + (n_atk n + n_lv n) * 10\<rparr>)\<rparr>) w,
      calls @ [SendPacket S2C_DropItemList (DropItemList (n_sn n) ((n_atk n + n_lv n) * 5) ((n_atk n + n_lv n) * 10)
        (GetDropList E w)) (sp_ident a)])))"
    by (auto simp: r same_people_set_sp npcs_ok_set_sp intro!: calm_bind)
qed

lemma calm_npc_hit:
  assumes "table_ok w" "i < length (w_npcs w)"
  shows "calm w (Npc_GetDamage E atker i w)"
proof -
  let ?u = "w_npcs w ! i"
  define n where "n ad = (let n = (nu_npc ?u)\<lparr>n_hp := max (n_hp (nu_npc ?u) - dt_atk ad) 0\<rparr> in
      if n_target n = Some atker then n else Bt_AddEvent EvPursue 0 (n\<lparr>n_target := Some atker\<rparr>))" for ad :: detail
  define w1 where "w1 ad = w\<lparr>w_npcs := (w_npcs w)[i := ?u\<lparr>nu_npc := n ad\<rparr>]\<rparr>" for ad
  have "Npc_GetDamage E atker i w = Option.bind (map_of (w_players w) atker) (\<lambda>a. Option.bind (sp_detail a) (\<lambda>ad.
      Option.bind (if n_hp (n ad) = 0 then npc_killed E atker (n ad) (w1 ad) else Some (w1 ad, []))
        (\<lambda>(w, killed). Some (w, killed @ World_Broadcast S2C_SyncNpcProps (SyncNpcProps (n_sn (n ad)) (n_hp (n ad))) w))))"
    unfolding Npc_GetDamage_def Mgr_GetPlayerBySn_def Let_def n_def w1_def by (rule refl)
  also have "calm w \<dots>"
  proof (rule calm_bind, rule calm_bind)
    fix a ad assume p: "map_of (w_players w) atker = Some a"
    have "unit_ok (w_players w) (nu_npc ?u) \<Longrightarrow> unit_ok (w_players w) (n ad)"
      using p by (auto simp: n_def Let_def unit_ok_def pointers_ok_def Bt_AddEvent_def split: option.splits)
    then have w1: "calm w (Some (w1 ad, []))" using npcs_ok_nth [OF _ assms(2)] by (auto simp: w1_def intro!: npcs_ok_update)
    then have "table_ok (w1 ad)" using same_people_table [OF _ assms(1)] by simp
    then have "calm (w1 ad) (if n_hp (n ad) = 0 then npc_killed E atker (n ad) (w1 ad) else Some (w1 ad, []))"
      using calm_npc_killed by simp
    then have k: "calm w (if n_hp (n ad) = 0 then npc_killed E atker (n ad) (w1 ad) else Some (w1 ad, []))"
      using w1 calm_after [of w "w1 ad"] by simp
    show "calm w (Option.bind (if n_hp (n ad) = 0 then npc_killed E atker (n ad) (w1 ad) else Some (w1 ad, []))
        (\<lambda>(w, killed). Some (w, killed @ World_Broadcast S2C_SyncNpcProps (SyncNpcProps (n_sn (n ad)) (n_hp (n ad))) w)))"
      by (rule calm_then [OF k]) simp
  qed
  finally show ?thesis .
qed

lemma calm_atk:
  assumes "held w p" "table_ok w"
  shows "calm w (HandlePlayerAtkEvent E T p sn w)"
proof (cases "Mgr_GetPlayerBySn sn w \<noteq> None \<or> sn = 0")
  case True
  then show ?thesis using assms calm_hurt [OF assms(2)]
    by (cases "sp_detail p") (auto simp: HandlePlayerAtkEvent_def same_people_set_sp npcs_ok_set_sp Let_def)
next
  case False
  show ?thesis
  proof (cases "npc_at sn w")
    case (Some q)
    obtain i w1 where q: "q = (i, w1)" by force
    have s: "same_people w w1" "npcs_ok w1 = npcs_ok w" "i < length (w_npcs w1)"
      using npc_at_same [of sn w i w1] npc_at_calm [of sn w i w1] Some q by auto
    have "calm w1 (Npc_GetDamage E (sp_playerSn p) i w1)"
      using calm_npc_hit same_people_table [OF s(1) assms(2)] s(3) by blast
    then show ?thesis using False s calm_after [of w w1] by (simp add: HandlePlayerAtkEvent_def Some q)
  qed (use False in \<open>simp add: HandlePlayerAtkEvent_def\<close>)
qed

lemma calm_npc_atk:
  assumes "table_ok w"
  shows "calm w (HandleNpcAtkEvent T p sn w)"
proof (cases "npc_at sn w")
  case (Some q)
  obtain i w1 where q: "q = (i, w1)" by force
  have s: "same_people w w1" "npcs_ok w1 = npcs_ok w" using npc_at_same [of sn w i w1] Some q by auto
  have "calm w1 (Player_GetDamage_npc T (nu_npc (w_npcs w1 ! i)) (sp_playerSn p) w1)"
    by (rule calm_hurt_npc [OF same_people_table [OF s(1) assms]])
  then show ?thesis using s calm_after [of w w1] by (simp add: HandleNpcAtkEvent_def Some q)
qed (simp add: HandleNpcAtkEvent_def)

text \<open>Every message of a player is calm, but the one that it leaves.\<close>

lemma player_handle_calm:
  assumes "table_ok w" "npcs_ok w" "held w p" "\<nexists>sn. m = PlRemovePlayer sn"
  shows "calm w (player_handle E T m p w)"
  using assms by (cases m) (simp_all add: calm_request calm_player_move calm_npc_move calm_knap_item calm_knap_gold calm_knap
      calm_player_pos calm_cmd calm_req_player calm_npc_info calm_bt_action calm_atk calm_npc_atk)

subsection \<open>A player leaves\<close>

text \<open>The characters may still point to the player with number \<open>sn\<close>, who has been taken out of the table.\<close>

definition unit_leaving :: "u64 \<Rightarrow> (u64, space_player) smap \<Rightarrow> npc \<Rightarrow> bool" where
  "unit_leaving sn ps n =
     (n_calls n = [] \<and> (\<forall>x. n_target n = Some x \<longrightarrow> x = sn \<or> map_of ps x \<noteq> None)
        \<and> (\<forall>x. n_linker n = Some x \<longrightarrow> x = sn \<or> map_of ps x \<noteq> None))"

lemma nearest_in_world:
  "GetNearestPlayer (bt_view E removed w) v = Some x \<Longrightarrow> map_of (w_players w) x \<noteq> None"
  using GetNearestPlayer_mem [of "bt_view E removed w" v] by (auto simp: bt_view_def Let_def map_of_eq_None_iff)

lemma disappear_npc_ok:
  assumes "disappear_npc (bt_view E removed w) (w_players w = []) positions sn n = Some n'"
    "unit_leaving sn (w_players w) n" "map_of (w_players w) sn = None"
  shows "pointers_ok (w_players w) n' \<and> list_all quiet (n_calls n')"
proof -
  let ?W = "bt_view E removed w"
  define m where "m = (if w_players w = [] then Bt_AddEvent EvBirth 10 (n\<lparr>n_target := None\<rparr>)
     else if n_target n = Some sn then Bt_AddEvent EvIdle 10 (n\<lparr>n_target := None\<rparr>) else n)"
  have m: "n_linker m = n_linker n" "n_calls m = []" "n_currPos m = n_currPos n"
    "\<And>x. n_target m = Some x \<Longrightarrow> map_of (w_players w) x \<noteq> None"
    using assms(2) by (auto simp: m_def Bt_AddEvent_def unit_leaving_def split: if_splits)
  show ?thesis
  proof (cases "n_linker n = Some sn")
    case False
    then have "n' = m" using assms(1) m(1) by (simp add: disappear_npc_def m_def [symmetric])
    then show ?thesis using False m assms(2) by (auto simp: pointers_ok_def unit_leaving_def split: option.splits)
  next
    case True
    then have "n' = (case GetNearestPlayer ?W (n_currPos m) of
        None \<Rightarrow> SetLinkPlayer ?W None m
      | Some t \<Rightarrow> npc_sends [SendPacket S2C_ReqLinkPlayer (ReqLinkPlayer (n_id m) (n_sn m) True) (bw_ident ?W t)]
          (SetLinkPlayer ?W (Some t) m))"
      using assms(1) m(1)
      by (auto simp: disappear_npc_def m_def [symmetric] Let_def SetLinkPlayer_def npc_sends_def split: if_splits option.splits)
    then show ?thesis using m True nearest_in_world [of E removed w "n_currPos m"]
      by (auto simp: SetLinkPlayer_def npc_sends_def pointers_ok_def split: option.splits)
  qed
qed

lemma each_npc_ok:
  assumes "each_npc f us = Some (us', cs)" "\<forall>u \<in> set us. P (nu_npc u)"
    "\<And>n n'. P n \<Longrightarrow> f n = Some n' \<Longrightarrow> pointers_ok ps n' \<and> list_all quiet (n_calls n')"
  shows "(\<forall>u \<in> set us'. unit_ok ps (nu_npc u)) \<and> list_all quiet cs"
  using assms(1,2)
proof (induction us arbitrary: us' cs)
  case (Cons u us)
  from Cons.prems(1) obtain n us1 cs1 where s: "f (nu_npc u) = Some n" "each_npc f us = Some (us1, cs1)"
    "us' = u\<lparr>nu_npc := n\<lparr>n_calls := []\<rparr>\<rparr> # us1" "cs = n_calls n @ cs1"
    by (auto simp: bind_eq_Some_conv flush_npc_def)
  show ?case using Cons.IH [OF s(2)] Cons.prems(2) assms(3) [OF _ s(1)] s(3,4) by (auto simp: unit_ok_def)
qed simp

lemma PlayerDisappear_ok:
  assumes "PlayerDisappear E p w = Some (w', cs)" "map_of (w_players w) (sp_playerSn p) = None"
    "\<forall>u \<in> set (w_npcs w). unit_leaving (sp_playerSn p) (w_players w) (nu_npc u)"
  shows "w_players w' = w_players w \<and> w_adds w' = w_adds w \<and> npcs_ok w' \<and> list_all quiet cs"
proof -
  let ?f = "disappear_npc (bt_view E [p] w) (w_players w = []) (list_all (\<lambda>q. GetCurrPos (snd q) \<noteq> None) (w_players w)) (sp_playerSn p)"
  from assms(1) obtain p' calls us cs1 where s: "ResetCmd (bt_view E [p] w) p = Some (p', calls)"
    "each_npc ?f (w_npcs w) = Some (us, cs1)" "w' = w\<lparr>w_npcs := us\<rparr>" "cs = calls @ cs1"
    by (auto simp: PlayerDisappear_def Let_def bind_eq_Some_conv)
  have "(\<forall>u \<in> set us. unit_ok (w_players w) (nu_npc u)) \<and> list_all quiet cs1"
    by (rule each_npc_ok [OF s(2) assms(3)]) (rule disappear_npc_ok [OF _ _ assms(2)])
  then show ?thesis using s ChangeCmd_calm [of "bt_view E [p] w"] by (auto simp: npcs_ok_def ResetCmd_def)
qed

lemma leaving_units:
  assumes "npcs_ok w" "map_of ps = (map_of (w_players w))(sn := None)"
  shows "\<forall>u \<in> set (w_npcs w). unit_leaving sn ps (nu_npc u)"
  using assms by (force simp: npcs_ok_def unit_ok_def unit_leaving_def pointers_ok_def split: option.splits)

text \<open>What holds of a world and of what its clients have been told.\<close>

definition present :: "space_world \<Rightarrow> u64 set" where
  "present w = {k. map_of (w_players w) k \<noteq> None \<and> map_of (w_adds w) k = None}"

definition view_ok :: "space_world \<Rightarrow> (u64 \<Rightarrow> u64 set) \<Rightarrow> bool" where
  "view_ok w view =
     (table_ok w \<and> npcs_ok w
        \<and> (\<forall>q. map_of (w_players w) q \<noteq> None \<longrightarrow> view q = (if map_of (w_adds w) q = None then present w else {})))"

lemma view_ok_calm:
  assumes "view_ok w view" "same_people w w'" "npcs_ok w'" "list_all quiet cs"
  shows "view_ok w' (\<lambda>q. client_view q cs (view q))"
proof -
  have a: "w_adds w' = w_adds w" using assms(2) by (simp add: same_people_def)
  then have "present w' = present w" using same_people_None [OF assms(2)] by (simp add: present_def)
  then show ?thesis using assms a same_people_table [OF assms(2)] same_people_None [OF assms(2)]
    by (simp add: view_ok_def client_view_quiet)
qed

text \<open>Somebody is gone: the table, and what the others are told.\<close>

lemma view_ok_gone:
  assumes "view_ok w view" "w_players w' = smap_erase sn (w_players w)" "w_adds w' = w_adds w" "npcs_ok w'"
    "\<And>q. q \<noteq> sn \<Longrightarrow> map_of (w_players w) q \<noteq> None \<Longrightarrow> client_view q cs (view q) = view q - {sn}"
  shows "view_ok w' (\<lambda>q. client_view q cs (view q))"
proof -
  have t: "table_ok w'" using assms(1-3) by (auto simp: view_ok_def table_ok_def)
  have pr: "present w' = present w - {sn}" using assms(2,3) by (auto simp: present_def)
  have "client_view q cs (view q) = (if map_of (w_adds w') q = None then present w' else {})"
    if "map_of (w_players w') q \<noteq> None" for q
  proof -
    have q: "q \<noteq> sn" "map_of (w_players w) q \<noteq> None" using that assms(2) by (auto split: if_splits)
    have "view q = (if map_of (w_adds w) q = None then present w else {})" using assms(1) q(2) by (simp add: view_ok_def)
    then show ?thesis using assms(5) [OF q] assms(3) pr by simp
  qed
  then show ?thesis using assms(4) t by (simp add: view_ok_def)
qed

lemma view_ok_disconnect:
  assumes "view_ok w view" "World_HandleNetworkDisconnect E i w wg = Some (w', wg', cs)"
    "GetTagValue (ni_tags i) TagPlayer \<noteq> None \<or> GetTagValue (ni_tags i) TagApp = None"
  shows "view_ok w' (\<lambda>q. client_view q cs (view q))"
proof (cases "GetTagValue (ni_tags i) TagPlayer")
  case None
  then show ?thesis using assms by (auto simp: World_HandleNetworkDisconnect_def)
next
  case (Some t)
  let ?sn = "KeyInt64 t"
  have t: "table_ok w" and n: "npcs_ok w" using assms(1) by (simp_all add: view_ok_def)
  show ?thesis
  proof (cases "map_of (w_players w) ?sn")
    case None
    then show ?thesis using assms(1,2) Some by (simp add: World_HandleNetworkDisconnect_def Mgr_GetPlayerBySn_def)
  next
    case p: (Some p)
    from assms(2) obtain proto p' w1 calls where s: "SpacePlayer_SerializeToProto p = Some (proto, p')"
      "PlayerDisappear E p' (Mgr_RemovePlayerBySn ?sn w) = Some (w', calls)"
      "cs = SendPacketApp G2DB_SavePlayer (SavePlayer (sp_playerSn p') proto) APP_DB_MGR 0
        # World_Broadcast S2C_RoleDisappear (RoleDisappear (sp_playerSn p')) w @ calls"
      by (auto simp: World_HandleNetworkDisconnect_def Some p Mgr_GetPlayerBySn_def Let_def bind_eq_Some_conv)
    have sn: "sp_playerSn p' = ?sn" using Serialize_who [OF s(1)] held_table [OF t p] by (simp add: who_eq)
    let ?w = "Mgr_RemovePlayerBySn ?sn w"
    have r: "w_players ?w = smap_erase ?sn (w_players w)" "w_adds ?w = w_adds w" "w_npcs ?w = w_npcs w"
      by (simp_all add: Mgr_RemovePlayerBySn_def p)
    have "\<forall>u \<in> set (w_npcs ?w). unit_leaving (sp_playerSn p') (w_players ?w) (nu_npc u)"
      using leaving_units [OF n, of "w_players ?w" ?sn] r sn by simp
    then have d: "w_players w' = w_players ?w" "w_adds w' = w_adds ?w" "npcs_ok w'" "list_all quiet calls"
      using PlayerDisappear_ok [OF s(2)] r(1) sn by auto
    have "client_view q cs (view q) = view q - {?sn}" if "map_of (w_players w) q \<noteq> None" for q
      using that d(4) by (simp add: s(3) sn client_step_def view_broadcast [OF t] shows_on_def client_view_quiet)
    then show ?thesis using view_ok_gone [OF assms(1)] d r by auto
  qed
qed

lemma view_ok_remove:
  assumes "view_ok w view" "map_of (w_players w) k = Some p" "HandleG2SRemovePlayer E p sn w = Some (w', cs)"
  shows "view_ok w' (\<lambda>q. client_view q cs (view q))"
proof (cases "sn = sp_playerSn p")
  case False
  then show ?thesis using assms by (simp add: HandleG2SRemovePlayer_def)
next
  case True
  have t: "table_ok w" and n: "npcs_ok w" using assms(1) by (simp_all add: view_ok_def)
  have k: "k = sp_playerSn p" using held_table [OF t assms(2)] by simp
  define w1 where "w1 = Mgr_RemovePlayerBySn (sp_playerSn p) w"
  define deserted where "deserted = (rw_worldType (w_cfg w1) = world_type_number DungeonWorld \<and> w_players w1 = [])"
  define w2 where "w2 = (if deserted then w1\<lparr>w_timers := False\<rparr> else w1)"
  have r: "w_players w2 = smap_erase (sp_playerSn p) (w_players w)" "w_adds w2 = w_adds w" "w_npcs w2 = w_npcs w"
    using assms(2) by (auto simp: w2_def w1_def k Mgr_RemovePlayerBySn_def)
  from assms(3) True obtain calls where s: "PlayerDisappear E p w2 = Some (w', calls)"
    "cs = (if deserted then [DispatchProto MI_DungeonDisapper (DungeonDisapper (w_sn w')) None] else []) @ calls
      @ World_Broadcast S2C_RoleDisappear (RoleDisappear (sp_playerSn p)) w'"
    unfolding HandleG2SRemovePlayer_def Let_def w1_def [symmetric] deserted_def [symmetric] w2_def [symmetric]
    by (auto simp: bind_eq_Some_conv)
  have "\<forall>u \<in> set (w_npcs w2). unit_leaving (sp_playerSn p) (w_players w2) (nu_npc u)"
    using leaving_units [OF n, of "w_players w2"] r by simp
  then have d: "w_players w' = w_players w2" "w_adds w' = w_adds w2" "npcs_ok w'" "list_all quiet calls"
    using PlayerDisappear_ok [OF s(1)] r(1) by auto
  have t': "table_ok w'" using t d r by (auto simp: table_ok_def)
  have "client_view q cs (view q) = view q - {sp_playerSn p}" if "q \<noteq> sp_playerSn p" "map_of (w_players w) q \<noteq> None" for q
    using that d r by (simp add: s(2) client_step_def view_broadcast [OF t'] shows_on_def client_view_quiet)
  then show ?thesis using view_ok_gone [OF assms(1)] d r by auto
qed

subsection \<open>A player comes\<close>

lemma tagged_awake: "tagged_player (sp_ident (SpacePlayer_Awake i sn worldSn)) = Some sn"
  by (simp add: SpacePlayer_Awake_def tagged_player_def)

lemma parsed_awake:
  assumes "SpacePlayer_ParserFromProto t sn proto (SpacePlayer_Awake i sn worldSn) = Some p"
  shows "sp_playerSn p = sn \<and> sp_ident p = sp_ident (SpacePlayer_Awake i sn worldSn)"
  using assms by (auto simp: SpacePlayer_ParserFromProto_def SpacePlayer_Awake_def Let_def)

lemma view_ok_arrive:
  assumes "view_ok w view" "HandleSyncPlayer E i proto w wg = Some (w', wg', cs)"
  shows "view_ok w' (\<lambda>q. client_view q cs (view q))"
proof (cases "map_of (w_players w) (pp_sn proto)")
  case (Some p)
  then show ?thesis using assms by (simp add: HandleSyncPlayer_def Mgr_AddPlayer_def)
next
  case None
  let ?sn = "pp_sn proto"
  let ?a = "SpacePlayer_Awake i ?sn (w_sn w)"
  note defs = HandleSyncPlayer_def Mgr_AddPlayer_def Let_def
  obtain p0 where c: "SpacePlayer_ParserFromProto (se_table E) ?sn proto ?a = Some p0"
    using assms(2) None by (cases "SpacePlayer_ParserFromProto (se_table E) ?sn proto ?a") (simp_all add: defs)
  obtain lm0 where l0: "LastMap_ParserFromProto (se_table E) (sp_player p0) LastMap_new = Some lm0"
    using assms(2) None c by (cases "LastMap_ParserFromProto (se_table E) (sp_player p0) LastMap_new") (simp_all add: defs)
  obtain lm where l: "EnterWorld (se_table E) (w_worldId w) (w_sn w) lm0 = Some lm"
    using assms(2) None c l0 by (cases "EnterWorld (se_table E) (w_worldId w) (w_sn w) lm0") (simp_all add: defs)
  obtain cur where g: "GetCur lm = Some cur" using assms(2) None c l0 l by (cases "GetCur lm") (simp_all add: defs)
  define p where "p = p0\<lparr>sp_cmd := Some \<lparr>cc_prevCmd = None, cc_currCmd = None\<rparr>, sp_detail := Some (Detail_Awake (sp_player p0)),
        sp_lastMap := Some lm\<rparr>"
  have s: "sp_playerSn p = ?sn" "tagged_player (sp_ident p) = Some ?sn"
    "w_players w' = smap_assign ?sn p (smap_assign ?sn ?a (w_players w))"
    "w_adds w' = smap_assign ?sn () (w_adds w)" "w_npcs w' = w_npcs w"
    "cs = [SendPacket S2C_EnterWorld (S2CEnterWorld (w_worldId w) (lw_Position cur)) (sp_ident p)]"
    using assms(2) None c l0 l g parsed_awake [OF c] tagged_awake [of i ?sn "w_sn w"] by (auto simp: defs p_def set_sp_def)
  have t: "table_ok w" and n: "npcs_ok w" using assms(1) by (simp_all add: view_ok_def)
  have "table_ok w'" using t s(1-3) by (auto simp: table_ok_def player_ok_def)
  moreover have "npcs_ok w'"
    using n s(3,5) by (auto simp: npcs_ok_def unit_ok_def pointers_ok_def split: option.splits)
  moreover have "present w' = present w" using None s(3,4) by (auto simp: present_def)
  ultimately show ?thesis using assms(1) s by (auto simp: view_ok_def client_step_def shows_on_def)
qed

lemma roles_sns: "those (map (AddRoleToAppear \<circ> f) xs) = Some roles \<Longrightarrow> map ro_sn roles = map (sp_playerSn \<circ> f) xs"
  by (induction xs arbitrary: roles) (auto simp: AddRoleToAppear_def bind_eq_Some_conv split: option.splits)

lemma newcomers:
  assumes "table_ok w"
  shows "sp_playerSn ` set (List.map_filter (\<lambda>q. Mgr_GetPlayerBySn (fst q) w) (w_adds w))
    = {k. map_of (w_players w) k \<noteq> None \<and> map_of (w_adds w) k \<noteq> None}"
proof -
  have "{k. map_of (w_players w) k \<noteq> None \<and> map_of (w_adds w) k \<noteq> None}
      = {k. map_of (w_players w) k \<noteq> None \<and> k \<in> fst ` set (w_adds w)}" by (simp add: map_of_eq_None_iff)
  then show ?thesis using table_okD [OF assms]
    by (auto simp: List.map_filter_def Mgr_GetPlayerBySn_def player_ok_def image_iff) force
qed

lemma oldcomers:
  assumes "table_ok w"
  shows "(sp_playerSn \<circ> snd) ` set (filter (\<lambda>q. map_of (w_adds w) (fst q) = None) (w_players w)) = present w"
proof -
  have "k \<in> (sp_playerSn \<circ> snd) ` set (filter (\<lambda>q. map_of (w_adds w) (fst q) = None) (w_players w)) \<longleftrightarrow> k \<in> present w" for k
  proof
    assume "k \<in> present w"
    then obtain p where p: "(k, p) \<in> set (w_players w)" "map_of (w_adds w) k = None" "sp_playerSn p = k"
      using table_ok_mem [OF assms] table_okD [OF assms] by (auto simp: present_def player_ok_def)
    then show "k \<in> (sp_playerSn \<circ> snd) ` set (filter (\<lambda>q. map_of (w_adds w) (fst q) = None) (w_players w))" by force
  qed (use table_ok_mem [OF assms] table_okD [OF assms] in \<open>auto simp: present_def player_ok_def\<close>)
  then show ?thesis by blast
qed

lemma appear_shape:
  assumes "SyncAppearTimer w = Some (w', cs)" "w_adds w \<noteq> []"
  obtains new others where
    "those (map AddRoleToAppear (List.map_filter (\<lambda>q. Mgr_GetPlayerBySn (fst q) w) (w_adds w))) = Some new"
    "those (map (AddRoleToAppear \<circ> snd) (filter (\<lambda>q. map_of (w_adds w) (fst q) = None) (w_players w))) = Some others"
    "w' = w\<lparr>w_adds := []\<rparr>"
    "cs = (if new = [] then [] else World_Broadcast S2C_AllRoleAppear (AllRoleAppear new) w)
       @ (if others = [] then [] else World_Broadcast_to S2C_AllRoleAppear (AllRoleAppear others) (w_adds w) w)"
proof -
  let ?new = "those (map AddRoleToAppear (List.map_filter (\<lambda>q. Mgr_GetPlayerBySn (fst q) w) (w_adds w)))"
  let ?others = "those (map (AddRoleToAppear \<circ> snd) (filter (\<lambda>q. map_of (w_adds w) (fst q) = None) (w_players w)))"
  obtain new where n: "?new = Some new" using assms by (cases ?new) (simp_all add: SyncAppearTimer_def)
  obtain others where r: "?others = Some others" using assms n by (cases ?others) (simp_all add: SyncAppearTimer_def)
  show ?thesis by (rule that [OF n r]) (use assms n r in \<open>simp_all add: SyncAppearTimer_def\<close>)
qed

text \<open>What the client of \<open>q\<close> learns from the two messages of the timer.\<close>

lemma view_appear:
  assumes "table_ok w" "map_of (w_players w) q \<noteq> None"
  shows "client_view q (if new = [] then [] else World_Broadcast m (AllRoleAppear new) w) v = v \<union> ro_sn ` set new"
    and "client_view q (if new = [] then [] else World_Broadcast_to m (AllRoleAppear new) ps w) v
      = (if map_of ps q = None then v else v \<union> ro_sn ` set new)"
  using assms(2) by (simp_all add: view_broadcast [OF assms(1)] view_broadcast_to [OF assms(1)] shows_on_def)

lemma view_ok_appear:
  assumes "view_ok w view" "SyncAppearTimer w = Some (w', cs)"
  shows "view_ok w' (\<lambda>q. client_view q cs (view q))"
proof (cases "w_adds w = []")
  case True
  then show ?thesis using assms by (simp add: SyncAppearTimer_def)
next
  case False
  have t: "table_ok w" and n: "npcs_ok w" using assms(1) by (simp_all add: view_ok_def)
  obtain new others where r:
    "those (map AddRoleToAppear (List.map_filter (\<lambda>q. Mgr_GetPlayerBySn (fst q) w) (w_adds w))) = Some new"
    "those (map (AddRoleToAppear \<circ> snd) (filter (\<lambda>q. map_of (w_adds w) (fst q) = None) (w_players w))) = Some others"
    "w' = w\<lparr>w_adds := []\<rparr>"
    "cs = (if new = [] then [] else World_Broadcast S2C_AllRoleAppear (AllRoleAppear new) w)
       @ (if others = [] then [] else World_Broadcast_to S2C_AllRoleAppear (AllRoleAppear others) (w_adds w) w)"
    by (rule appear_shape [OF assms(2) False])
  let ?new = "{k. map_of (w_players w) k \<noteq> None \<and> map_of (w_adds w) k \<noteq> None}"
  have "ro_sn ` set new = set (map ro_sn new)" "ro_sn ` set others = set (map ro_sn others)" by simp_all
  then have new: "ro_sn ` set new = ?new" "ro_sn ` set others = present w"
    using roles_sns [of "\<lambda>p. p"] r(1) newcomers [OF t] roles_sns [OF r(2)] oldcomers [OF t]
    by (simp_all only: comp_def set_map list.set_map)
  have split: "present w' = present w \<union> ?new" by (auto simp: r(3) present_def simp del: not_None_eq)
  have view: "client_view q cs (view q) = present w'" if q: "map_of (w_players w) q \<noteq> None" for q
  proof -
    have "view q = (if map_of (w_adds w) q = None then present w else {})" using assms(1) q by (simp add: view_ok_def)
    then show ?thesis unfolding r(4) client_view_simps view_appear [OF t q] new split by auto
  qed
  have "table_ok w'" "npcs_ok w'" using t n by (simp_all add: r(3) table_ok_def npcs_ok_def)
  then show ?thesis using view by (simp add: view_ok_def r(3))
qed

subsection \<open>Between messages\<close>

lemma pointers_ok_iff:
  "pointers_ok ps n = (\<forall>x. n_target n = Some x \<or> n_linker n = Some x \<longrightarrow> map_of ps x \<noteq> None)"
  by (auto simp: pointers_ok_def split: option.splits)

lemma pointer_kept:
  "t' \<in> {None, t} \<union> Some ` fst ` set ps \<Longrightarrow> (\<And>y. t = Some y \<Longrightarrow> map_of ps y \<noteq> None) \<Longrightarrow> t' = Some x \<Longrightarrow> map_of ps x \<noteq> None"
  by (auto simp: map_of_eq_None_iff simp del: not_None_eq)

lemma tree_step_unit:
  assumes "tree_step (bt_view E [] w) n n'" "unit_ok (w_players w) n"
  shows "pointers_ok (w_players w) n' \<and> list_all quiet (n_calls n')"
proof -
  have all: "bw_getAll (bt_view E [] w) = map fst (w_players w)" by (simp add: bt_view_def Let_def)
  have "n_target n' \<in> {None, n_target n} \<union> Some ` fst ` set (w_players w)"
    "n_linker n' \<in> {None, n_linker n} \<union> Some ` fst ` set (w_players w)"
    using assms(1) unfolding tree_step_def all set_map by blast+
  note this [THEN pointer_kept]
  moreover have "\<And>y. n_target n = Some y \<Longrightarrow> map_of (w_players w) y \<noteq> None" "\<And>y. n_linker n = Some y \<Longrightarrow> map_of (w_players w) y \<noteq> None"
    using assms(2) unfolding unit_ok_def pointers_ok_iff by blast+
  ultimately have "pointers_ok (w_players w) n'" unfolding pointers_ok_iff by blast
  moreover obtain cs where "n_calls n' = n_calls n @ cs" "list_all quiet cs" using assms(1) unfolding tree_step_def by blast
  ultimately show ?thesis using assms(2) by (simp add: unit_ok_def)
qed

lemma update_npcs_ok:
  assumes "update_npcs (bt_view E [] w) (w_players w) us = Some (us', cs)" "\<forall>u \<in> set us. unit_ok (w_players w) (nu_npc u)"
  shows "(\<forall>u \<in> set us'. unit_ok (w_players w) (nu_npc u)) \<and> list_all quiet cs"
  using assms
proof (induction us arbitrary: us' cs)
  case (Cons u us)
  have ok: "pointers_ok (w_players w) (nu_npc u)" using Cons.prems(2) by (simp add: unit_ok_def)
  let ?W = "bt_view E [] w"
  have "BtComponent_Update ?W (nu_tree u) (nu_npc u) \<noteq> None"
  proof
    assume "BtComponent_Update ?W (nu_tree u) (nu_npc u) = None"
    then show False using Cons.prems(1) ok by simp
  qed
  then obtain b n where s: "BtComponent_Update ?W (nu_tree u) (nu_npc u) = Some (b, n)" by (metis not_None_eq surj_pair)
  have "update_npcs ?W (w_players w) us \<noteq> None"
  proof
    assume "update_npcs ?W (w_players w) us = None"
    then show False using Cons.prems(1) ok s by simp
  qed
  then obtain us1 cs1 where r: "update_npcs ?W (w_players w) us = Some (us1, cs1)" by (metis not_None_eq surj_pair)
  have u: "us' = u\<lparr>nu_npc := n\<lparr>n_calls := []\<rparr>, nu_tree := b\<rparr> # us1" "cs = n_calls n @ cs1"
    using Cons.prems(1) ok s r by (simp_all add: flush_npc_def)
  have un: "unit_ok (w_players w) (nu_npc u)" "\<forall>u \<in> set us. unit_ok (w_players w) (nu_npc u)" using Cons.prems(2) by simp_all
  have p: "pointers_ok (w_players w) n" "list_all quiet (n_calls n)"
    using tree_step_unit [OF tree.Update_R [OF s] un(1)] by simp_all
  have ih: "\<forall>u \<in> set us1. unit_ok (w_players w) (nu_npc u)" "list_all quiet cs1" using Cons.IH [OF r un(2)] by simp_all
  have "unit_ok (w_players w) (nu_npc (u\<lparr>nu_npc := n\<lparr>n_calls := []\<rparr>, nu_tree := b\<rparr>))" using p(1) by (simp add: unit_ok_def)
  with p(2) ih show ?case unfolding u list.set ball_simps list_all_append by blast
qed simp

lemma ai_calm:
  assumes "AISystem_Update E before w = Some (t, w', cs)" "npcs_ok w"
  shows "same_people w w' \<and> npcs_ok w' \<and> list_all quiet cs"
proof (cases "se_time E - before < 100")
  case False
  then obtain us where s: "update_npcs (bt_view E [] w) (w_players w) (w_npcs w) = Some (us, cs)" "w' = w\<lparr>w_npcs := us\<rparr>"
    using assms(1) by (auto simp: AISystem_Update_def split: if_splits)
  have "(\<forall>u \<in> set us. unit_ok (w_players w) (nu_npc u)) \<and> list_all quiet cs"
    using assms(2) by (intro update_npcs_ok [OF s(1)]) (simp add: npcs_ok_def)
  then show ?thesis by (simp add: s(2) npcs_ok_def)
qed (use assms in \<open>simp add: AISystem_Update_def\<close>)

lemma each_player_who:
  assumes "each_player f ps = Some ps'" "\<And>p p'. f p = Some p' \<Longrightarrow> who p' = who p"
  shows "map fst ps' = map fst ps \<and> (\<forall>k. map_option who (map_of ps' k) = map_option who (map_of ps k))"
  using assms(1)
proof (induction ps arbitrary: ps')
  case (Cons q ps)
  obtain sn p where q: "q = (sn, p)" by force
  from Cons.prems obtain p' ps1 where s: "f p = Some p'" "each_player f ps = Some ps1" "ps' = (sn, p') # ps1"
    by (auto simp: q bind_eq_Some_conv)
  then show ?case using Cons.IH [OF s(2)] assms(2) [OF s(1)] by (simp add: q)
qed simp

lemma each_player_same:
  assumes "each_player f (w_players w) = Some ps" "\<And>p p'. f p = Some p' \<Longrightarrow> who p' = who p"
  shows "same_people w (w\<lparr>w_players := ps\<rparr>)"
  using each_player_who [OF assms] by (simp add: same_people_def smap_ok_def)

lemma move_player_who: "move_player F t p = Some p' \<Longrightarrow> who p' = who p"
  by (auto simp: move_player_def bind_eq_Some_conv case_prod_beta Let_def split: option.splits)

lemma command_player_who:
  assumes "command_player E w p = Some p'"
  shows "who p' = who p"
proof -
  have "who q = who p" if "Cmd_Update W h p = Some (q, cs)" for W h q cs
    using that by (auto simp: Cmd_Update_def Let_def bind_eq_Some_conv split: option.splits if_splits dest!: ChangeCmd_calm)
  then show ?thesis using assms by (auto simp: command_player_def split: if_splits)
qed

lemma move_calm:
  assumes "MoveSystem_Update E before w = Some (t, w')" "npcs_ok w"
  shows "same_people w w' \<and> npcs_ok w'"
proof (cases "se_time E - before < 100")
  case False
  then obtain ps where s: "each_player (move_player (se_floats E) (se_time E - before)) (w_players w) = Some ps"
    "w' = w\<lparr>w_npcs := map (move_npc (se_floats E) (se_time E - before)) (w_npcs w), w_players := ps\<rparr>"
    using assms(1) by (auto simp: MoveSystem_Update_def Let_def)
  have p: "same_people w (w\<lparr>w_players := ps\<rparr>)" by (rule each_player_same [OF s(1) move_player_who])
  then have "same_people w w'" by (simp add: s(2) same_people_def)
  moreover have "npcs_ok w'" using assms(2) unit_same [OF p]
    by (auto simp: npcs_ok_def s(2) move_npc_def case_prod_beta Let_def)
  ultimately show ?thesis by simp
qed (use assms in \<open>simp add: MoveSystem_Update_def Let_def\<close>)

lemma cmd_calm:
  assumes "CmdSystem_Update E before w = Some (t, w')" "npcs_ok w"
  shows "same_people w w' \<and> npcs_ok w'"
proof (cases "se_time E - before < 100")
  case False
  then obtain ps where s: "each_player (command_player E w) (w_players w) = Some ps" "w' = w\<lparr>w_players := ps\<rparr>"
    using assms(1) by (auto simp: CmdSystem_Update_def)
  have p: "same_people w w'" using each_player_same [OF s(1) command_player_who] s(2) by simp
  then show ?thesis using npcs_ok_same [OF p] assms(2) s(2) by simp
qed (use assms in \<open>simp add: CmdSystem_Update_def\<close>)

subsection \<open>Runs\<close>

datatype world_event =
  WMsg space_env team_view net_identify space_msg | WAI space_env u64 | WMove space_env u64 | WCmd space_env u64

fun world_step :: "world_event \<Rightarrow> space_world \<Rightarrow> world_gather \<Rightarrow> (space_world \<times> world_gather \<times> help_call list) option" where
  "world_step (WMsg E T i m) w wg = world_handle E T i m w wg"
| "world_step (WAI E before) w wg = map_option (\<lambda>(t, w, calls). (w, wg, calls)) (AISystem_Update E before w)"
| "world_step (WMove E before) w wg = map_option (\<lambda>(t, w). (w, wg, [])) (MoveSystem_Update E before w)"
| "world_step (WCmd E before) w wg = map_option (\<lambda>(t, w). (w, wg, [])) (CmdSystem_Update E before w)"

fun world_run :: "world_event list \<Rightarrow> space_world \<Rightarrow> world_gather \<Rightarrow> (space_world \<times> world_gather \<times> help_call list) option" where
  "world_run [] w wg = Some (w, wg, [])"
| "world_run (e # es) w wg = do {
     (w, wg, calls) \<leftarrow> world_step e w wg;
     (w, wg, more) \<leftarrow> world_run es w wg;
     Some (w, wg, calls @ more)
   }"

text \<open>The connection of a whole application is lost: \<open>RemoveAllPlayers\<close> tells nobody.\<close>

fun lost_app :: "world_event \<Rightarrow> bool" where
  "lost_app (WMsg E T i SpNetworkDisconnect) =
     (GetTagValue (ni_tags i) TagPlayer = None \<and> GetTagValue (ni_tags i) TagApp \<noteq> None)"
| "lost_app e = False"

lemma World_GetPlayer_Some: "World_GetPlayer i w = Some p \<Longrightarrow> \<exists>k. map_of (w_players w) k = Some p"
  by (auto simp: World_GetPlayer_def Mgr_GetPlayerBySocket_def Mgr_GetPlayerBySn_def bind_eq_Some_conv split: option.splits)

lemma view_ok_player:
  assumes "view_ok w view" "World_GetPlayer i w = Some p" "player_handle E T m p w = Some (w', cs)"
  shows "view_ok w' (\<lambda>q. client_view q cs (view q))"
proof -
  obtain k where k: "map_of (w_players w) k = Some p" using World_GetPlayer_Some [OF assms(2)] by blast
  have t: "table_ok w" and n: "npcs_ok w" using assms(1) by (simp_all add: view_ok_def)
  show ?thesis
  proof (cases "\<exists>sn. m = PlRemovePlayer sn")
    case True
    then show ?thesis using view_ok_remove [OF assms(1) k] assms(3) by auto
  next
    case False
    then have "calm w (player_handle E T m p w)" using player_handle_calm [OF t n] held_table [OF t k] by blast
    then show ?thesis using view_ok_calm [OF assms(1)] n by (simp add: assms(3))
  qed
qed

lemma view_ok_step:
  assumes "view_ok w view" "world_step e w wg = Some (w', wg', cs)" "\<not> lost_app e"
  shows "view_ok w' (\<lambda>q. client_view q cs (view q))"
proof (cases e)
  case (WMsg E T i m)
  have t: "table_ok w" and n: "npcs_ok w" using assms(1) by (simp_all add: view_ok_def)
  show ?thesis
  proof (cases m)
    case SpNetworkDisconnect
    then show ?thesis using view_ok_disconnect [OF assms(1)] assms(2,3) WMsg by auto
  next
    case (SpSyncPlayer proto)
    then show ?thesis using view_ok_arrive [OF assms(1)] assms(2) WMsg by simp
  next
    case (SpSyncNpcPos sn v)
    then show ?thesis using calm_npc_pos [of w sn v] view_ok_calm [OF assms(1), of w' "[]"] n assms(2) WMsg by auto
  next
    case SpAppearTimer
    then show ?thesis using view_ok_appear [OF assms(1)] assms(1,2) WMsg by (auto split: if_splits)
  next
    case SpWorldTimer
    then show ?thesis using assms(1,2) WMsg by (auto simp: SyncWorldToGather_def client_step_def)
  next
    case (SpPlayer pm)
    then show ?thesis using view_ok_player [OF assms(1)] assms(1,2) WMsg by (auto split: option.splits)
  qed
next
  case (WAI E before)
  then show ?thesis using assms ai_calm [of E before w] view_ok_calm [OF assms(1)] by (auto simp: view_ok_def)
next
  case (WMove E before)
  then show ?thesis using assms move_calm [of E before w] view_ok_calm [OF assms(1), of w' "[]"] by (auto simp: view_ok_def)
next
  case (WCmd E before)
  then show ?thesis using assms cmd_calm [of E before w] view_ok_calm [OF assms(1), of w' "[]"] by (auto simp: view_ok_def)
qed

lemma view_ok_run:
  assumes "view_ok w view" "world_run es w wg = Some (w', wg', cs)" "list_all (\<lambda>e. \<not> lost_app e) es"
  shows "view_ok w' (\<lambda>q. client_view q cs (view q))"
  using assms
proof (induction es w wg arbitrary: view cs rule: world_run.induct)
  case (2 e es w wg)
  from 2(3) obtain w1 wg1 cs1 cs2 where s: "world_step e w wg = Some (w1, wg1, cs1)"
    "world_run es w1 wg1 = Some (w', wg', cs2)" "cs = cs1 @ cs2"
    by (auto simp: bind_eq_Some_conv)
  have "view_ok w1 (\<lambda>q. client_view q cs1 (view q))" using view_ok_step [OF 2(2) s(1)] 2(4) by simp
  then show ?case using 2(1) [OF s(1) refl refl, of _ cs2] s(2,3) 2(4) by simp
qed simp

definition idle :: "npc \<Rightarrow> npc \<Rightarrow> bool" where
  "idle n n' = (n_target n' = n_target n \<and> n_linker n' = n_linker n \<and> n_calls n' = n_calls n)"

lemma act_new_idle: "idle n (snd (act_new W a n))"
  by (simp add: idle_def act_new_def SetPatrolPoint_def Let_def)

lemma parse_nodes_idle: "idle n (snd (snd (parse_nodes W names nodes cs n)))"
proof (induction names arbitrary: nodes cs n)
  case (Cons one names)
  show ?case
  proof (cases "act_of_config one")
    case (Some a)
    then show ?thesis using Cons [of "snd (act_new W a n)"] act_new_idle [of n W a]
      by (simp add: case_prod_beta Let_def idle_def)
  qed (use Cons in simp)
qed (simp add: idle_def)

lemma ParseConfig_idle: "idle n (snd (ParseConfig W c n))"
  using parse_nodes_idle [of "n\<lparr>n_rebirth := rebirth c\<rparr>" W "bt_nodes c" "[]" "[]"]
  by (simp add: ParseConfig_def Let_def case_prod_beta idle_def)

lemma awake_npcs_ok:
  "npcs_ok w \<Longrightarrow> npcs_ok (awake_npcs E cfgs w) \<and> w_players (awake_npcs E cfgs w) = w_players w
     \<and> w_adds (awake_npcs E cfgs w) = w_adds w"
proof (induction E cfgs w rule: awake_npcs.induct)
  case (2 E cfg cfgs w)
  obtain b n where p: "ParseConfig (bt_view E [] w) (if IsPublic w then se_public E else se_dungeon E)
      (Npc_Awake (se_newSn E (length (w_npcs w))) cfg) = (b, n)" by force
  then have "unit_ok (w_players w) n"
    using ParseConfig_idle [of "Npc_Awake (se_newSn E (length (w_npcs w))) cfg" "bt_view E [] w"
        "if IsPublic w then se_public E else se_dungeon E"]
    by (simp add: p idle_def unit_ok_def pointers_ok_def Npc_Awake_def)
  then have "npcs_ok (w\<lparr>w_npcIdxMap := idx_emplace (n_sn n) (length (w_npcs w)) (w_npcIdxMap w),
      w_npcs := w_npcs w @ [\<lparr>nu_npc = n, nu_tree = b, nu_move = Move_new\<rparr>]\<rparr>)"
    using 2(2) by (simp add: npcs_ok_def)
  from 2(1) [OF refl p [symmetric] refl this] show ?case by (simp add: p Let_def)
qed simp

lemma world_start:
  assumes "World_Awake E sn worldId = Some w"
  shows "view_ok w (\<lambda>q. {})"
proof -
  from assms obtain cfgs w0 where w: "w = awake_npcs E cfgs w0" "w_players w0 = []" "w_adds w0 = []" "w_npcs w0 = []"
    by (auto simp: World_Awake_def)
  have "npcs_ok w0" by (simp add: npcs_ok_def w(4))
  then show ?thesis using awake_npcs_ok [of w0 E cfgs] w(1-3) by (simp add: view_ok_def table_ok_def)
qed

text \<open>
  C9. From the creation of a world on, whatever messages come, whatever the timers and the systems do, and in whatever
  order, but for the loss of a whole game server and as long as no handler does something undefined (the run has a
  result), the client of every player of the world has been shown exactly the
  players who are there and whom the appearance timer has announced, itself among them. A player who has come since the
  timer last ran is shown nobody yet, and nobody is shown it. Who has left, by a teleport or because the connection was
  lost, is shown to no one.
\<close>

theorem everyone_sees_everyone:
  assumes "World_Awake E sn worldId = Some w0" "world_run es w0 wg0 = Some (w, wg, calls)" "list_all (\<lambda>e. \<not> lost_app e) es"
    and "map_of (w_players w) q = Some p"
  shows "client_view q calls {} = (if map_of (w_adds w) q = None then present w else {})"
  using view_ok_run [OF world_start [OF assms(1)] assms(2,3)] assms(4) by (simp add: view_ok_def)

text \<open>
  The same runs keep the pointers of the characters: the target of a character and the player whose client steers it are
  players of the world, so no update of a character reads a player who is gone.
\<close>

lemma characters_point_to_players:
  assumes "World_Awake E sn worldId = Some w0" "world_run es w0 wg0 = Some (w, wg, calls)" "list_all (\<lambda>e. \<not> lost_app e) es"
    and "u \<in> set (w_npcs w)" "n_target (nu_npc u) = Some x \<or> n_linker (nu_npc u) = Some x"
  shows "map_of (w_players w) x \<noteq> None"
proof -
  have "npcs_ok w" using view_ok_run [OF world_start [OF assms(1)] assms(2,3)] unfolding view_ok_def by blast
  then show ?thesis using assms(4,5) unfolding npcs_ok_def unit_ok_def pointers_ok_iff by blast
qed

subsection \<open>A team with a member elsewhere\<close>

lemma member_calls_None:
  "sn' \<in> set sns \<Longrightarrow> sn' \<noteq> sn \<Longrightarrow> tv_player T sn' = None \<Longrightarrow> member_calls T cw sn p sns = None"
proof (induction sns)
  case (Cons x sns)
  then show ?case by (cases "x = sn'") (auto split: bind_splits)
qed simp

text \<open>
  A team may have members on other space servers, or members who have left. The first hit of a character on one who is
  here looks such a member up in the gatherer and dereferences the null pointer that it gets.
\<close>

lemma absent_teammate_crashes:
  assumes "map_of (ss_worlds S) wsn = Some w" "World_GetPlayer i w = Some p" "table_ok w"
    and "map_of (wg_teamMap (ss_gather S)) (sp_playerSn p) = Some a"
    and "sn' \<in> set (st_members (wg_teams (ss_gather S) ! a))" "sn' \<noteq> sp_playerSn p" "map_of (wg_players (ss_gather S)) sn' = None"
  shows "server_handle E i wsn (SpPlayer (PlNpcAtkEvent npc_sn)) S = None"
proof -
  let ?T = "server_view S"
  have t: "team_calls ?T cw (sp_playerSn p) props = None" for cw props
    using assms(4) member_calls_None [OF assms(5,6), of ?T] assms(7) by (simp add: team_calls_def server_view_def)
  have "Player_GetDamage_npc ?T n (sp_playerSn p) w1 = None" for n w1
    by (simp add: Player_GetDamage_npc_def sync_props_def t Let_def split: bind_splits option.splits)
  then show ?thesis using assms(1,2) by (simp add: server_handle_def HandleNpcAtkEvent_def split: bind_splits)
qed

subsection \<open>Examples\<close>

definition sample_space :: space_env where
  "sample_space = \<lparr>se_time = 0, se_floats = sample_floats,
     se_table = ResourceWorldMgr\<lparr>wt_refs := [(2, ResourceWorld\<lparr>rb_id := 2, rw_isInit := True, rw_worldType := 3\<rparr>)], wt_initMapId := 2\<rparr>,
     se_public = sample_config, se_dungeon = sample_config, se_draw = (\<lambda>k. 0), se_val1 = False, se_val2 = False,
     se_int = (\<lambda>k n. 0), se_newSn = of_nat\<rparr>"

definition sample_view :: team_view where
  "sample_view = \<lparr>tv_members = (\<lambda>sn. None), tv_player = (\<lambda>sn. None), tv_ident = (\<lambda>q. None)\<rparr>"

definition from_player :: "u64 \<Rightarrow> net_identify" where
  "from_player sn = \<lparr>ni_socket = \<lparr>Socket = 5, NetType = TcpConnector\<rparr>, ni_tags = AddTagInt TagPlayer sn []\<rparr>"

definition sample_events :: "world_event list" where
  "sample_events =
     [WMsg sample_space sample_view (from_player 0) (SpSyncPlayer (Player_empty\<lparr>pp_sn := 3\<rparr>)),
      WMsg sample_space sample_view (from_player 0) (SpSyncPlayer (Player_empty\<lparr>pp_sn := 4\<rparr>)),
      WMsg sample_space sample_view (from_player 0) SpAppearTimer,
      WMsg sample_space sample_view (from_player 0) (SpSyncPlayer (Player_empty\<lparr>pp_sn := 5\<rparr>)),
      WMsg sample_space sample_view (from_player 0) SpAppearTimer,
      WMsg sample_space sample_view (from_player 3) (SpPlayer (PlRemovePlayer 3)),
      WMsg sample_space sample_view (from_player 0) (SpSyncPlayer (Player_empty\<lparr>pp_sn := 6\<rparr>))]"

text \<open>Three players have met, one of them has left, and a fourth has just come.\<close>

theorem everyone_sees_everyone_witness:
  "\<exists>w wg calls. map_option (\<lambda>w0. world_run sample_events w0 WorldGather_new) (World_Awake sample_space 9 2) = Some (Some (w, wg, calls))
    \<and> client_view 4 calls {} = {4, 5} \<and> client_view 6 calls {} = {}"
proof -
  let ?run = "Option.bind (World_Awake sample_space 9 2) (\<lambda>w0. world_run sample_events w0 WorldGather_new)"
  have r: "map_option (\<lambda>(w, wg, calls). (map fst (w_players w), map fst (w_adds w))) ?run = Some ([4, 5, 6], [6])"
    by code_simp
  obtain w0 where w0: "World_Awake sample_space 9 2 = Some w0" using r by (cases "World_Awake sample_space 9 2") auto
  obtain w wg calls where run: "world_run sample_events w0 WorldGather_new = Some (w, wg, calls)"
    and k: "map fst (w_players w) = [4, 5, 6]" "map fst (w_adds w) = [6]"
    using r w0 by auto
  have "list_all (\<lambda>e. \<not> lost_app e) sample_events" by (simp add: sample_events_def)
  note see = everyone_sees_everyone [OF w0 run this]
  have d: "fst ` set (w_players w) = {4, 5, 6}" "fst ` set (w_adds w) = {6}"
    using arg_cong [OF k(1), of set] arg_cong [OF k(2), of set] by simp_all
  have p: "map_of (w_players w) q \<noteq> None \<longleftrightarrow> q \<in> {4, 5, 6}" "map_of (w_adds w) q = None \<longleftrightarrow> q \<noteq> 6" for q
    unfolding map_of_eq_None_iff d by simp_all
  have pr: "present w = {4, 5}" unfolding present_def p by auto
  obtain p4 p6 where "map_of (w_players w) 4 = Some p4" "map_of (w_players w) 6 = Some p6"
    using p(1) [of 4] p(1) [of 6] by auto
  from see [OF this(1)] see [OF this(2)] have "client_view 4 calls {} = {4, 5}" "client_view 6 calls {} = {}"
    by (simp_all add: pr p(2))
  then show ?thesis using w0 run by auto
qed

end
