(* ===== verification/Spec2Isabelle.thy ===== *)
theory Spec2Isabelle
  imports Framing Timers PacketLife Config Locators Messaging Http NetworkTable AppSync Players Login WorldProxy
    Npcs SpacePlayers Knapsack SpaceRuns
begin

text \<open>
  \<^bold>\<open>Verification of the game server of Unity-MMO-Server\<close> (C++, \<open>src/tcp_server/src\<close>).

  \<^bold>\<open>The program.\<close> One executable per role - application manager (\<open>apps/appmgr\<close>), login (\<open>apps/login\<close>), game
  (\<open>apps/game\<close>), space (\<open>apps/space\<close>), database (\<open>apps/dbmgr\<close>) - or all of them in one (\<open>apps/allinone\<close>), on a
  common library (\<open>libs/libserver\<close>) with the players (\<open>libs/libplayer\<close>) and the tables of resources
  (\<open>libs/libresource\<close>). A process has threads; a thread has entities, components and a message system that hands
  packets to the functions registered for their message identifier. Network components move packets between
  sockets and the threads; applications talk to each other by packets that carry tags for the entity and the player they
  are for. A client logs in at the login server (account check by HTTP, token in Redis), goes to the lobby of a game
  server with the token, and then to worlds: a world proxy on the game server forwards its packets to the world on a
  space server, where players and computer-driven characters live.

  \<^bold>\<open>How it is modelled.\<close> Shallowly: a class is a record of its members, an enumeration or a class hierarchy a datatype, a
  method a function from the state to the result and the new state. Machine integers that can overflow are words; the
  others are integers. \<open>std::map\<close> is an association list sorted by key (Prelude), so iteration has the order of
  the program; pointers are addresses in a store where objects are shared (packets, connections), and keys or indices
  where they are not. \<open>None\<close> as the result of a state function is what the program must never do: a null or dangling
  pointer dereferenced, an access out of bounds, an exception nobody catches. A loop that may not end is a
  \<open>partial_function (option)\<close>, and then \<open>None\<close> also means that it does not return; where the model says that something is
  defined, it returns. No fuel is used.

  \<^bold>\<open>The theories.\<close>
  \<^item> Prelude, MsgIds: words, sorted maps, memory; the message identifiers of \<open>proto_id.proto\<close>.
  \<^item> NetTypes (\<open>global.cpp\<close>, \<open>socket_object.cpp\<close>, \<open>app_type.h\<close>): serial numbers, application keys, socket keys, tags.
  \<^item> RingBuffer (\<open>base_buffer.cpp\<close>, \<open>network_buffer.cpp\<close>), Packets (\<open>packet.cpp\<close>), Framing (\<open>network_buffer.cpp\<close>): the ring of a
    connection refines a bounded queue of bytes; a packet that is written is read back; sizes that wrap.
  \<^item> Heaps, Timers (\<open>timer_component.cpp\<close>): the heap algorithms behind a contract, and which timers fire.
  \<^item> ObjectPools (\<open>object_pool_packet.cpp\<close>, \<open>cache_refresh.h\<close>, \<open>cache_swap.h\<close>), MessageSystem (\<open>message_system.cpp\<close>),
    ThreadDispatch (\<open>thread_mgr.cpp\<close>, \<open>thread_collector.cpp\<close>), PacketLife: the life of a packet from the pool through the
    dispatcher and the queues of the threads back to the pool, with its reference count, under every interleaving.
  \<^item> Config (\<open>yaml.cpp\<close>), Locators (\<open>network_locator.cpp\<close>, \<open>socket_locator.cpp\<close>), Messaging
    (\<open>message_system_help.cpp\<close>), Http: configuration, which connection leads where, and the ways to send a message.
  \<^item> Connections (\<open>connect_obj.cpp\<close>), Networks, NetworkTable (\<open>network.cpp\<close>, \<open>network_listen.cpp\<close>,
    \<open>network_connector.cpp\<close>): reading, writing and the table of connections over epoll.
  \<^item> Applications: what the applications share, messages (\<open>proto\<close>) and calls of \<open>MessageSystemHelp\<close> (\<open>help_call\<close>), and
    \<open>perform\<close>, which makes these calls on the state of a process.
  \<^item> Resources (\<open>libresource\<close>), AppSync (\<open>apps/appmgr\<close>), Players (\<open>player_collector_component.cpp\<close>, components of a player),
    Redis (\<open>redis_connector.cpp\<close>, \<open>redis_login.cpp\<close>, \<open>redis_game.cpp\<close>), Login (\<open>apps/login/account.cpp\<close>).
  \<^item> Lobby, Gather, Teleporting, WorldProxy (\<open>apps/game\<close>): the lobby, teams, teleports, and the proxy of a world.
  \<^item> Vectors (\<open>vector3.cpp\<close>), BehaviorTree (\<open>bt_node.h\<close>, \<open>bt_node.cpp\<close>), Npcs (\<open>bt_component.cpp\<close>): positions, and the trees that
    drive the characters of a world.
  \<^item> SpacePlayers (\<open>player_component_detail.cpp\<close>, \<open>move_component.cpp\<close>, \<open>cmd_*.cpp\<close>): players on a space server; Knapsack:
    what a save keeps of what a player owns.
  \<^item> SpaceWorld (\<open>world.cpp\<close>, \<open>world_gather.cpp\<close>, \<open>player_manager_component.cpp\<close>, \<open>npc.cpp\<close>, \<open>player.cpp\<close>, \<open>ai_system.cpp\<close>,
    \<open>move_system.cpp\<close>, \<open>cmd_system.cpp\<close>): the worlds of a space server, their messages, timers and systems; SpaceRuns: what
    holds of every run of a world, and whom the client of a player is shown.

  \<^bold>\<open>What is shown.\<close> Round trips and refinements for the data paths (frames, ring, tables of comma-separated values);
  conservation and reference counts for packets; the table of connections and the tables of players as invariants of
  reachable states; whom the players of a world see; who is told that an account is offline while the flags in Redis
  expire; the dialogue of a login, the protocol of a trade, the life of a character as refinements of small
  machines; and, for behaviour that is not what the code means, theorems that exhibit it (the findings of the manifest).

  \<^bold>\<open>Contracts.\<close> The interfaces between components are locales: a queue with a minimum (\<open>min_queue\<close>, Heaps), a
  bounded queue of bytes (\<open>byte_fifo\<close>, RingBuffer), a registry of connections (\<open>registry\<close>, Locators), a table of sessions
  (\<open>session_table\<close>, Players) and a relation that the actions of a character keep (\<open>npc_relation\<close>, SpaceRuns).
  Each is interpreted on the code's own definitions, and the clients use its facts.

  \<^bold>\<open>Parameters.\<close> The encodings of the messages, the HTTP and JSON parsers, the YAML library, the Redis server, the operating
  system's answers to reads, writes and epoll, random numbers, the clock, and floating-point arithmetic. Hypotheses about them
  state documented behaviour and are discharged by concrete functions in the witnesses.

  \<^bold>\<open>Not modelled.\<close> Console, traces and load figures, which print; start-up and the component factories, which are
  variadic templates; generated and vendored code; the database server; the select() build of the network. The manifest says
  for each component what is left out. Some things are simpler than in the code: \<open>GetTcpPacket\<close> reads a packet head through
  a pointer into a block that has ended, and the model reads it as it was; \<open>atoi\<close> has no overflow; a network has a packet
  pool of its own, where the networks of a thread share one; an answer in JSON that does not have the expected form is one
  value, where the library may throw; the gatherer of the worlds is shared by threads without a lock, and the model
  interleaves whole handlers; a handler makes its calls to Redis at one instant, and time passes between handlers.
\<close>

end
